(* ===== verification/Go_Prelude.thy ===== *)
theory Go_Prelude
  imports
    Main
    "HOL-Library.AList"
    "HOL-Library.Char_ord"
    "HOL-Library.List_Lexorder"
    "HOL-Library.Product_Lexorder"
begin

text \<open>
  What the Go code takes from its language and standard library, as far as the components of
  this development use it: instants and durations, the in-place first-match update of a slice,
  bulk updates and deletes of table rows, stable sorting, and the ASCII part of package
  \<^verbatim>\<open>strings\<close>. The generic lemmas the component proofs share are collected in
  \<^verbatim>\<open>slice_simps\<close> and \<^verbatim>\<open>str_simps\<close>.
\<close>

named_theorems slice_simps "rewrite rules for slice and table updates"
named_theorems str_simps "rewrite rules for the string operations"

subsection \<open>Instants and durations\<close>

text \<open>
  An instant is the number of nanoseconds since Go's zero \<^verbatim>\<open>time.Time\<close> (January 1,
  year 1), so the zero value is \<open>0\<close> and \<^verbatim>\<open>IsZero\<close> is equality with it. A duration is a
  number of nanoseconds; \<^verbatim>\<open>Sub\<close> saturates at the 64-bit range as Go's does.
\<close>

type_synonym time = int
type_synonym duration = int

definition IsZero :: "time \<Rightarrow> bool" where
  "IsZero t \<longleftrightarrow> t = 0"

definition minDuration :: duration where
  "minDuration = - (2 ^ 63)"

definition maxDuration :: duration where
  "maxDuration = 2 ^ 63 - 1"

definition time_Sub :: "time \<Rightarrow> time \<Rightarrow> duration" where
  "time_Sub t u = max minDuration (min maxDuration (t - u))"

definition second :: duration where
  "second = 1000000000"

definition minute :: duration where
  "minute = 60 * second"

definition hour :: duration where
  "hour = 60 * minute"

lemma time_Sub_less_iff:
  "minDuration < d \<Longrightarrow> d \<le> maxDuration \<Longrightarrow> time_Sub t u < d \<longleftrightarrow> t - u < d"
  by (auto simp: time_Sub_def)

text \<open>
  Job and backup rows store \<^verbatim>\<open>UnixNano\<close>: nanoseconds since January 1, 1970.
\<close>

definition unix_epoch :: time where
  "unix_epoch = 62135596800 * second"

definition UnixNano :: "time \<Rightarrow> int" where
  "UnixNano t = t - unix_epoch"

definition time_Unix :: "int \<Rightarrow> time" where
  "time_Unix n = n + unix_epoch"

lemma time_Unix_UnixNano [simp]: "time_Unix (UnixNano t) = t"
  by (simp add: time_Unix_def UnixNano_def)

lemma UnixNano_time_Unix [simp]: "UnixNano (time_Unix n) = n"
  by (simp add: time_Unix_def UnixNano_def)

lemma UnixNano_less_iff [simp]: "UnixNano t < UnixNano u \<longleftrightarrow> t < u"
  by (simp add: UnixNano_def)

lemma UnixNano_le_iff [simp]: "UnixNano t \<le> UnixNano u \<longleftrightarrow> t \<le> u"
  by (simp add: UnixNano_def)

lemma UnixNano_eq_iff [simp]: "UnixNano t = UnixNano u \<longleftrightarrow> t = u"
  by (simp add: UnixNano_def)

lemma time_Unix_less_iff [simp]: "time_Unix t < time_Unix u \<longleftrightarrow> t < u"
  by (simp add: time_Unix_def)

lemma time_Unix_le_iff [simp]: "time_Unix t \<le> time_Unix u \<longleftrightarrow> t \<le> u"
  by (simp add: time_Unix_def)

subsection \<open>The first match of a slice, updated in place\<close>

text \<open>
  \<^verbatim>\<open>for i := range xs { if P(xs[i]) { xs[i] = f(xs[i]); return xs[i] } }\<close>: the updated
  element, if there is one, and the slice afterwards.
\<close>

fun upd_first :: "('a \<Rightarrow> bool) \<Rightarrow> ('a \<Rightarrow> 'a) \<Rightarrow> 'a list \<Rightarrow> 'a option \<times> 'a list" where
  "upd_first P f [] = (None, [])"
| "upd_first P f (x # xs) =
     (if P x then (Some (f x), f x # xs)
      else (case upd_first P f xs of (r, ys) \<Rightarrow> (r, x # ys)))"

lemma upd_first_no_match: "(\<forall>x\<in>set xs. \<not> P x) \<Longrightarrow> upd_first P f xs = (None, xs)"
  by (induction xs) auto

lemma upd_first_NoneD: "upd_first P f xs = (None, ys) \<Longrightarrow> (\<forall>x\<in>set xs. \<not> P x) \<and> ys = xs"
  by (induction xs arbitrary: ys) (auto split: prod.splits if_splits)

lemma upd_first_None: "upd_first P f xs = (None, ys) \<longleftrightarrow> (\<forall>x\<in>set xs. \<not> P x) \<and> ys = xs"
  by (auto simp: upd_first_no_match dest: upd_first_NoneD)

lemma upd_first_Some:
  "upd_first P f xs = (Some y, ys) \<longleftrightarrow>
     (\<exists>pre x post. xs = pre @ x # post \<and> (\<forall>z\<in>set pre. \<not> P z) \<and> P x \<and> y = f x \<and>
        ys = pre @ y # post)"
proof (induction xs arbitrary: ys)
  case Nil
  then show ?case by simp
next
  case (Cons a xs)
  show ?case
  proof (cases "P a")
    case True
    have only: "pre = [] \<and> x = a \<and> post = xs"
      if "a # xs = pre @ x # post" "\<forall>z\<in>set pre. \<not> P z" for pre x post
      using that True by (cases pre) auto
    have eq: "upd_first P f (a # xs) = (Some y, ys) \<longleftrightarrow> y = f a \<and> ys = f a # xs"
      using True by auto
    show ?thesis
    proof
      assume "upd_first P f (a # xs) = (Some y, ys)"
      then have "a # xs = [] @ a # xs \<and> (\<forall>z\<in>set []. \<not> P z) \<and> P a \<and> y = f a \<and> ys = [] @ y # xs"
        using eq True by auto
      then show "\<exists>pre x post. a # xs = pre @ x # post \<and> (\<forall>z\<in>set pre. \<not> P z) \<and> P x \<and>
        y = f x \<and> ys = pre @ y # post" by blast
    next
      assume "\<exists>pre x post. a # xs = pre @ x # post \<and> (\<forall>z\<in>set pre. \<not> P z) \<and> P x \<and>
        y = f x \<and> ys = pre @ y # post"
      then obtain pre x post where d: "a # xs = pre @ x # post" "\<forall>z\<in>set pre. \<not> P z"
        "y = f x" "ys = pre @ y # post" by blast
      from only [OF d(1,2)] d(3,4) have "y = f a \<and> ys = f a # xs" by simp
      then show "upd_first P f (a # xs) = (Some y, ys)" using True by simp
    qed
  next
    case False
    obtain r zs where rz: "upd_first P f xs = (r, zs)" by fastforce
    with False have "upd_first P f (a # xs) = (Some y, ys) \<longleftrightarrow> r = Some y \<and> ys = a # zs"
      by auto
    also have "\<dots> \<longleftrightarrow> (\<exists>ws. ys = a # ws \<and> upd_first P f xs = (Some y, ws))"
      using rz by auto
    also have "\<dots> \<longleftrightarrow> (\<exists>pre x post. a # xs = pre @ x # post \<and> (\<forall>z\<in>set pre. \<not> P z) \<and> P x \<and>
        y = f x \<and> ys = pre @ y # post)"
      (is "?L \<longleftrightarrow> ?R")
    proof
      assume ?L
      then obtain pre x post where "xs = pre @ x # post" "\<forall>z\<in>set pre. \<not> P z" "P x" "y = f x"
        "ys = a # pre @ y # post"
        using Cons.IH by blast
      then have "a # xs = (a # pre) @ x # post \<and> (\<forall>z\<in>set (a # pre). \<not> P z) \<and> P x \<and> y = f x \<and>
        ys = (a # pre) @ y # post" using False by simp
      then show ?R by blast
    next
      assume ?R
      then obtain pre x post where d: "a # xs = pre @ x # post" "\<forall>z\<in>set pre. \<not> P z" "P x" "y = f x"
        "ys = pre @ y # post" by blast
      with False obtain pre' where "pre = a # pre'" by (cases pre) auto
      with d show ?L using Cons.IH by auto
    qed
    finally show ?thesis .
  qed
qed

text \<open>When a key identifies the elements, the first match of a key is its only one.\<close>

lemma map_of_key_None: "map_of (map (\<lambda>x. (k x, x)) xs) i = None \<longleftrightarrow> i \<notin> k ` set xs"
  by (induction xs) auto

lemma map_of_key_Some:
  "distinct (map k xs) \<Longrightarrow> map_of (map (\<lambda>x. (k x, x)) xs) i = Some x \<longleftrightarrow> x \<in> set xs \<and> k x = i"
  by (induction xs) (auto simp: image_iff)

definition key_map :: "('a \<Rightarrow> 'k) \<Rightarrow> 'a list \<Rightarrow> 'k \<rightharpoonup> 'a" where
  "key_map k xs = map_of (map (\<lambda>x. (k x, x)) xs)"

lemma key_map_Nil [simp]: "key_map k [] = Map.empty"
  by (simp add: key_map_def)

lemma key_map_Cons [simp]: "key_map k (x # xs) = (key_map k xs)(k x \<mapsto> x)"
  by (simp add: key_map_def)

lemma key_map_None: "key_map k xs i = None \<longleftrightarrow> i \<notin> k ` set xs"
  by (simp add: key_map_def map_of_key_None)

lemma key_map_Some: "distinct (map k xs) \<Longrightarrow> key_map k xs i = Some x \<longleftrightarrow> x \<in> set xs \<and> k x = i"
  by (simp add: key_map_def map_of_key_Some)

lemma key_map_SomeD: "key_map k xs i = Some x \<Longrightarrow> x \<in> set xs \<and> k x = i"
  by (induction xs) (auto split: if_splits)

lemma dom_key_map: "dom (key_map k xs) = k ` set xs"
proof (rule set_eqI)
  fix i
  show "i \<in> dom (key_map k xs) \<longleftrightarrow> i \<in> k ` set xs"
    using key_map_None [of k xs i] by (auto simp: dom_def)
qed

lemma ran_key_map: "distinct (map k xs) \<Longrightarrow> ran (key_map k xs) = set xs"
  by (auto simp: ran_def key_map_Some)

lemma key_map_append_fresh:
  "k x \<notin> k ` set xs \<Longrightarrow> key_map k (xs @ [x]) = (key_map k xs)(k x \<mapsto> x)"
  by (induction xs) (auto simp: fun_upd_twist)

lemma key_map_replace:
  "distinct (map k (pre @ x # post)) \<Longrightarrow> k y = k x \<Longrightarrow>
   key_map k (pre @ y # post) = (key_map k (pre @ x # post))(k x \<mapsto> y)"
proof (induction pre)
  case (Cons a pre)
  then have "k a \<noteq> k x" by auto
  with Cons show ?case by (auto simp: fun_eq_iff)
qed simp

lemma key_map_map:
  "(\<And>x. k (f x) = k x) \<Longrightarrow> key_map k (map f xs) i = map_option f (key_map k xs i)"
  by (induction xs) auto

lemma key_map_filter:
  "distinct (map k xs) \<Longrightarrow>
   key_map k (filter P xs) i = (case key_map k xs i of None \<Rightarrow> None | Some x \<Rightarrow> if P x then Some x else None)"
proof (induction xs)
  case (Cons a xs)
  then have fresh: "key_map k (filter P xs) (k a) = None" by (auto simp: key_map_None)
  show ?case
  proof (cases "i = k a")
    case True
    with fresh show ?thesis by simp
  next
    case False
    with Cons show ?thesis by simp
  qed
qed simp

lemma upd_first_key:
  assumes "distinct (map k xs)" and "\<And>x. k (f x) = k x"
  shows "upd_first (\<lambda>x. k x = i \<and> Q x) f xs =
    (case key_map k xs i of
       None \<Rightarrow> (None, xs)
     | Some x \<Rightarrow> if Q x then (Some (f x), map (\<lambda>y. if k y = i then f y else y) xs) else (None, xs))"
  using assms
proof (induction xs)
  case (Cons a xs)
  show ?case
  proof (cases "k a = i")
    case True
    with Cons.prems have "i \<notin> k ` set xs" by auto
    then have "map (\<lambda>y. if k y = i then f y else y) xs = xs"
      by (induction xs) auto
    moreover have "upd_first (\<lambda>x. k x = i \<and> Q x) f xs = (None, xs)"
      using \<open>i \<notin> k ` set xs\<close> by (auto simp: upd_first_None)
    ultimately show ?thesis using True by simp
  next
    case False
    with Cons show ?thesis by (simp split: option.split)
  qed
qed simp

lemma find_key_map: "distinct (map k xs) \<Longrightarrow> find (\<lambda>x. k x = i) xs = key_map k xs i"
  by (induction xs) (auto simp: key_map_None)

lemma sort_key_map_mono:
  fixes f :: "'b \<Rightarrow> 'k::linorder" and k :: "'a \<Rightarrow> 'l::linorder"
  assumes mono: "\<And>x y. f (g x) \<le> f (g y) \<longleftrightarrow> k x \<le> k y"
  shows "sort_key f (map g xs) = map g (sort_key k xs)"
proof (induction xs)
  case (Cons x xs)
  have "insort_key f (g x) (map g ys) = map g (insort_key k x ys)" for ys
    by (induction ys) (simp_all add: mono)
  with Cons show ?case by simp
qed simp

subsection \<open>Rows of a table\<close>

text \<open>
  \<^verbatim>\<open>UPDATE t SET f WHERE P\<close> and \<^verbatim>\<open>DELETE FROM t WHERE P\<close>: the table afterwards and
  the number of rows affected.
\<close>

definition sql_update :: "('r \<Rightarrow> bool) \<Rightarrow> ('r \<Rightarrow> 'r) \<Rightarrow> 'r list \<Rightarrow> nat \<times> 'r list" where
  "sql_update P f rows = (length (filter P rows), map (\<lambda>r. if P r then f r else r) rows)"

definition sql_delete :: "('r \<Rightarrow> bool) \<Rightarrow> 'r list \<Rightarrow> nat \<times> 'r list" where
  "sql_delete P rows = (length (filter P rows), filter (\<lambda>r. \<not> P r) rows)"

lemma length_filter_key:
  assumes "distinct (map k xs)"
  shows "length (filter (\<lambda>x. k x = i \<and> Q x) xs) =
    (case key_map k xs i of None \<Rightarrow> 0 | Some x \<Rightarrow> if Q x then 1 else 0)"
  using assms
proof (induction xs)
  case (Cons a xs)
  show ?case
  proof (cases "k a = i")
    case True
    with Cons.prems have "i \<notin> k ` set xs" by auto
    then have none: "filter (\<lambda>x. k x = i \<and> Q x) xs = []" by (auto simp: filter_empty_conv)
    show ?thesis using True none by simp
  next
    case False
    with Cons show ?thesis by (simp split: option.split)
  qed
qed simp

lemma card_key_map:
  assumes "distinct (map k xs)"
  shows "card {i. \<exists>x. key_map k xs i = Some x \<and> P x} = length (filter P xs)"
proof -
  have "{i. \<exists>x. key_map k xs i = Some x \<and> P x} = set (map k (filter P xs))"
    using assms by (auto simp: key_map_Some)
  moreover have "distinct (map k (filter P xs))"
    using assms by (simp add: distinct_map_filter)
  ultimately show ?thesis by (metis distinct_card length_map)
qed

lemma key_map_upd_key:
  assumes "distinct (map k xs)" and "\<And>x. k (f x) = k x"
  shows "key_map k (map (\<lambda>y. if k y = i then f y else y) xs) =
    (case key_map k xs i of None \<Rightarrow> key_map k xs | Some x \<Rightarrow> (key_map k xs)(i \<mapsto> f x))"
proof
  fix l
  have "key_map k (map (\<lambda>y. if k y = i then f y else y) xs) l =
      map_option (\<lambda>y. if k y = i then f y else y) (key_map k xs l)"
    using assms(2) by (intro key_map_map) simp
  then show "key_map k (map (\<lambda>y. if k y = i then f y else y) xs) l =
    (case key_map k xs i of None \<Rightarrow> key_map k xs | Some x \<Rightarrow> (key_map k xs)(i \<mapsto> f x)) l"
    by (cases "l = i"; cases "key_map k xs l") (auto split: option.splits dest: key_map_SomeD)
qed

lemma map_key_upd [simp, slice_simps]:
  "(\<And>x. k (f x) = k x) \<Longrightarrow> map k (map (\<lambda>y. if P y then f y else y) xs) = map k xs"
  by simp

lemma sorted_wrt_rev_sort_key:
  fixes k :: "'a \<Rightarrow> 'b::linorder"
  assumes "distinct (map k xs)"
  shows "sorted_wrt (\<lambda>a b. k b < k a) (rev (sort_key k xs))"
proof -
  have "sorted (map k (sort_key k xs))" by simp
  moreover have "distinct (map k (sort_key k xs))"
    using assms by (metis distinct_map set_sort distinct_sort)
  ultimately have "sorted_wrt (<) (map k (sort_key k xs))"
    by (simp add: strict_sorted_iff)
  then show ?thesis by (simp add: sorted_wrt_rev sorted_wrt_map)
qed

subsection \<open>Errors as values\<close>

fun is_ok :: "'e + 'a \<Rightarrow> bool" where
  "is_ok (Inr _) = True"
| "is_ok (Inl _) = False"

subsection \<open>The ASCII part of package strings\<close>

text \<open>
  Strings are byte strings; the case and space operations are Go's on ASCII text, which is what
  the modelled code compares (digests, image references, host names).
\<close>

definition char_lower :: "char \<Rightarrow> char" where
  "char_lower c = (if CHR ''A'' \<le> c \<and> c \<le> CHR ''Z'' then char_of (of_char c + (32 :: nat)) else c)"

definition ToLower :: "string \<Rightarrow> string" where
  "ToLower s = map char_lower s"

definition EqualFold :: "string \<Rightarrow> string \<Rightarrow> bool" where
  "EqualFold s t \<longleftrightarrow> ToLower s = ToLower t"

definition IsSpace :: "char \<Rightarrow> bool" where
  "IsSpace c \<longleftrightarrow> c \<in> {CHR '' '', CHR 0x09, CHR 0x0A, CHR 0x0B, CHR 0x0C, CHR 0x0D}"

definition TrimLeftSpace :: "string \<Rightarrow> string" where
  "TrimLeftSpace s = dropWhile IsSpace s"

definition TrimRightFunc :: "(char \<Rightarrow> bool) \<Rightarrow> string \<Rightarrow> string" where
  "TrimRightFunc P s = rev (dropWhile P (rev s))"

definition TrimSpace :: "string \<Rightarrow> string" where
  "TrimSpace s = TrimRightFunc IsSpace (TrimLeftSpace s)"

definition HasPrefix :: "string \<Rightarrow> string \<Rightarrow> bool" where
  "HasPrefix s p \<longleftrightarrow> take (length p) s = p"

definition HasSuffix :: "string \<Rightarrow> string \<Rightarrow> bool" where
  "HasSuffix s p \<longleftrightarrow> length p \<le> length s \<and> drop (length s - length p) s = p"

definition ContainsAny :: "string \<Rightarrow> string \<Rightarrow> bool" where
  "ContainsAny s cs \<longleftrightarrow> (\<exists>c\<in>set s. c \<in> set cs)"

text \<open>\<^verbatim>\<open>strings.IndexByte\<close> and \<^verbatim>\<open>strings.LastIndex\<close> of a one-byte needle; \<open>None\<close> is Go's -1.\<close>

fun IndexByte :: "string \<Rightarrow> char \<Rightarrow> nat option" where
  "IndexByte [] c = None"
| "IndexByte (x # xs) c = (if x = c then Some 0 else map_option Suc (IndexByte xs c))"

definition LastIndexByte :: "string \<Rightarrow> char \<Rightarrow> nat option" where
  "LastIndexByte s c = map_option (\<lambda>i. length s - 1 - i) (IndexByte (rev s) c)"

fun Split :: "char \<Rightarrow> string \<Rightarrow> string list" where
  "Split c [] = [[]]"
| "Split c (x # xs) =
     (if x = c then [] # Split c xs
      else (case Split c xs of [] \<Rightarrow> [[x]] | p # ps \<Rightarrow> (x # p) # ps))"

lemma HasPrefix_append [simp, str_simps]: "HasPrefix (p @ s) p"
  by (simp add: HasPrefix_def)

lemma HasPrefix_iff: "HasPrefix s p \<longleftrightarrow> (\<exists>t. s = p @ t)"
proof
  assume "HasPrefix s p"
  then have "s = p @ drop (length p) s"
    using append_take_drop_id [of "length p" s] by (simp add: HasPrefix_def)
  then show "\<exists>t. s = p @ t" by blast
qed auto

lemma IndexByte_Some:
  "IndexByte s c = Some i \<longleftrightarrow> i < length s \<and> s ! i = c \<and> c \<notin> set (take i s)"
proof (induction s arbitrary: i)
  case (Cons x xs)
  show ?case by (cases i) (auto simp: Cons.IH)
qed simp

lemma IndexByte_None: "IndexByte s c = None \<longleftrightarrow> c \<notin> set s"
  by (induction s) auto

lemma char_lower_idem [simp, str_simps]: "char_lower (char_lower c) = char_lower c"
proof (cases "CHR ''A'' \<le> c \<and> c \<le> CHR ''Z''")
  case True
  define n :: nat where "n = of_char c"
  from True have n: "65 \<le> n" "n \<le> 90"
    by (auto simp: less_eq_char_def n_def)
  then have "of_char (char_of (n + 32) :: char) = n + 32"
    by (simp add: of_char_of)
  with n have "\<not> (char_of (n + 32) \<le> CHR ''Z'')"
    by (simp add: less_eq_char_def)
  with True show ?thesis by (simp add: char_lower_def n_def)
next
  case False
  then have "char_lower c = c" unfolding char_lower_def by (rule if_not_P)
  then show ?thesis by simp
qed

lemma ToLower_idem [simp, str_simps]: "ToLower (ToLower s) = ToLower s"
  by (simp add: ToLower_def)

lemma ToLower_append [str_simps]: "ToLower (s @ t) = ToLower s @ ToLower t"
  by (simp add: ToLower_def)

lemma length_ToLower [simp, str_simps]: "length (ToLower s) = length s"
  by (simp add: ToLower_def)

subsection \<open>Integers\<close>

text \<open>Addition on \<^verbatim>\<open>int64\<close> wraps around.\<close>

definition wrap64 :: "int \<Rightarrow> int" where
  "wrap64 n = (n + 2 ^ 63) mod 2 ^ 64 - 2 ^ 63"

lemma wrap64_id: "- (2 ^ 63) \<le> n \<Longrightarrow> n < 2 ^ 63 \<Longrightarrow> wrap64 n = n"
  by (simp add: wrap64_def)

text \<open>\<^verbatim>\<open>strconv.Atoi\<close>: an optional sign and decimal digits, within an \<^verbatim>\<open>int64\<close>.\<close>

definition digit :: "char \<Rightarrow> int option" where
  "digit c = (let n = int (of_char c) in if 48 \<le> n \<and> n \<le> 57 then Some (n - 48) else None)"

fun digits :: "int \<Rightarrow> string \<Rightarrow> int option" where
  "digits acc [] = Some acc"
| "digits acc (c # cs) = (case digit c of None \<Rightarrow> None | Some d \<Rightarrow> digits (10 * acc + d) cs)"

definition Atoi :: "string \<Rightarrow> int option" where
  "Atoi s =
     (let (neg, ds) = (case s of
            c # cs \<Rightarrow> if c = CHR ''-'' then (True, cs) else if c = CHR ''+'' then (False, cs) else (False, s)
          | [] \<Rightarrow> (False, s))
      in if ds = [] then None
         else case digits 0 ds of
           None \<Rightarrow> None
         | Some n \<Rightarrow>
             let v = (if neg then - n else n)
             in if - (2 ^ 63) \<le> v \<and> v < 2 ^ 63 then Some v else None)"

text \<open>\<^verbatim>\<open>strings.Fields\<close>: the maximal runs of characters that are no space.\<close>

function Fields :: "string \<Rightarrow> string list" where
  "Fields s =
     (case dropWhile IsSpace s of
        [] \<Rightarrow> []
      | c # cs \<Rightarrow> (c # takeWhile (\<lambda>x. \<not> IsSpace x) cs) # Fields (dropWhile (\<lambda>x. \<not> IsSpace x) cs))"
  by pat_completeness auto
termination
proof (relation "measure length")
  fix s c cs
  assume "dropWhile IsSpace s = c # cs"
  then have "Suc (length cs) \<le> length s" by (metis length_Cons length_dropWhile_le)
  moreover have "length (dropWhile (\<lambda>x. \<not> IsSpace x) cs) \<le> length cs" by (rule length_dropWhile_le)
  ultimately show "(dropWhile (\<lambda>x. \<not> IsSpace x) cs, s) \<in> measure length" by simp
qed simp

declare Fields.simps [simp del]

end
