(* ===== verification/Job_Store.thy ===== *)
theory Job_Store
  imports Go_Prelude
begin

text \<open>
  The job data model of \<^verbatim>\<open>internal/store/jobs.go\<close> and the \<^verbatim>\<open>JobStore\<close> interface. The
  interface is a record of operations (a Go interface value), so that code written against it
  takes the record as an argument; the locale \<^verbatim>\<open>job_store\<close> states what every implementation
  promises, over the map from ids to jobs that a store holds. An operation returns its result or
  an error, and the store afterwards. Clock readings and freshly generated ids are arguments.
\<close>

subsection \<open>Data\<close>

datatype JobState =
    JobQueued | JobRunning | JobReconciling | JobSucceeded | JobFailed | JobCanceled

definition Active :: "JobState \<Rightarrow> bool" where
  "Active s \<longleftrightarrow> s = JobQueued \<or> s = JobRunning \<or> s = JobReconciling"

definition Terminal :: "JobState \<Rightarrow> bool" where
  "Terminal s \<longleftrightarrow> \<not> Active s"

lemma Terminal_simps [simp]:
  "Terminal JobSucceeded" "Terminal JobFailed" "Terminal JobCanceled"
  "\<not> Terminal JobQueued" "\<not> Terminal JobRunning" "\<not> Terminal JobReconciling"
  by (simp_all add: Terminal_def Active_def)

lemma Terminal_cases:
  "Terminal s \<longleftrightarrow> s = JobSucceeded \<or> s = JobFailed \<or> s = JobCanceled"
  by (cases s) simp_all

record JobStep =
  step_TS :: time
  step_Step :: string
  step_Detail :: string
  step_Count :: int

record Job =
  job_ID :: string
  job_Kind :: string
  job_Args :: string
  job_State :: JobState
  job_Steps :: "JobStep list"
  job_ParentID :: string
  job_Error :: string
  job_Created :: time
  job_Started :: time
  job_Finished :: time

text \<open>The empty string of the \<^verbatim>\<open>State\<close> field, which matches every job, is \<open>None\<close>.\<close>

record JobFilter =
  f_State :: "JobState option"
  f_Kind :: string
  f_ParentID :: string
  f_Limit :: int
  f_Before :: string

datatype store_error =
    ErrNotFound
  | ErrInvalidTerminalState JobState
  | ErrExists string
  | ErrDriver string
  | ErrSecretsNeedKey
  | ErrSpecCorrupt string
  | ErrSecretsUndecryptable string
  | ErrHostRenameConflict
  | ErrHostRenameHasBackups

definition DefaultJobLimit :: int where
  "DefaultJobLimit = 100"

definition MaxJobLimit :: int where
  "MaxJobLimit = 1000"

definition clampJobLimit :: "int \<Rightarrow> int" where
  "clampJobLimit n =
     (if n \<le> 0 then DefaultJobLimit else if n > MaxJobLimit then MaxJobLimit else n)"

lemma clampJobLimit_bounds: "1 \<le> clampJobLimit n \<and> clampJobLimit n \<le> MaxJobLimit"
  by (simp add: clampJobLimit_def DefaultJobLimit_def MaxJobLimit_def)

definition job_matches :: "JobFilter \<Rightarrow> Job \<Rightarrow> bool" where
  "job_matches f j \<longleftrightarrow>
     (case f_State f of None \<Rightarrow> True | Some st \<Rightarrow> job_State j = st) \<and>
     (f_Kind f = '''' \<or> job_Kind j = f_Kind f) \<and>
     (f_ParentID f = '''' \<or> job_ParentID j = f_ParentID f) \<and>
     (f_Before f = '''' \<or> job_ID j < f_Before f)"

text \<open>Consecutive identical steps collapse into one entry with an occurrence count.\<close>

definition coalesceStep :: "JobStep list \<Rightarrow> JobStep \<Rightarrow> JobStep list" where
  "coalesceStep steps step =
     (if steps \<noteq> [] \<and> step_Step (last steps) = step_Step step \<and>
         step_Detail (last steps) = step_Detail step
      then butlast steps @
        [(last steps)\<lparr>
           step_Count := (if step_Count (last steps) = 0 then 1 else step_Count (last steps)) + 1,
           step_TS := step_TS step\<rparr>]
      else steps @ [step])"

text \<open>How many handler reports a recorded entry stands for (a zero count is a single one).\<close>

definition step_occurrences :: "JobStep \<Rightarrow> int" where
  "step_occurrences s = (if step_Count s = 0 then 1 else step_Count s)"

definition step_key :: "JobStep \<Rightarrow> string \<times> string" where
  "step_key s = (step_Step s, step_Detail s)"

definition steps_wf :: "JobStep list \<Rightarrow> bool" where
  "steps_wf steps \<longleftrightarrow> (\<forall>s\<in>set steps. 0 \<le> step_Count s)"

lemma coalesceStep_snoc:
  "coalesceStep (ys @ [y]) s =
     (if step_key y = step_key s
      then ys @ [y\<lparr>step_Count := step_occurrences y + 1, step_TS := step_TS s\<rparr>]
      else ys @ [y, s])"
  by (simp add: coalesceStep_def step_key_def step_occurrences_def)

lemma coalesceStep_Nil [simp]: "coalesceStep [] s = [s]"
  by (simp add: coalesceStep_def)

lemma step_occurrences_bump:
  "0 \<le> step_Count y \<Longrightarrow>
   step_occurrences (y\<lparr>step_Count := step_occurrences y + 1, step_TS := t\<rparr>) = step_occurrences y + 1"
  by (auto simp: step_occurrences_def)

lemma coalesceStep_wf: "steps_wf steps \<Longrightarrow> 0 \<le> step_Count s \<Longrightarrow> steps_wf (coalesceStep steps s)"
  by (cases steps rule: rev_cases)
     (auto simp: steps_wf_def coalesceStep_snoc step_occurrences_def)

lemma coalesceStep_occurrences:
  "steps_wf steps \<Longrightarrow> step_Count s = 0 \<Longrightarrow>
   sum_list (map step_occurrences (coalesceStep steps s)) = sum_list (map step_occurrences steps) + 1"
  by (cases steps rule: rev_cases)
     (auto simp: steps_wf_def coalesceStep_snoc step_occurrences_bump, auto simp: step_occurrences_def)

lemma remdups_adj_snoc:
  "remdups_adj (xs @ [x]) = (if xs \<noteq> [] \<and> last xs = x then remdups_adj xs else remdups_adj xs @ [x])"
  by (induction xs rule: remdups_adj.induct) auto

lemma coalesceStep_keys:
  "map step_key (coalesceStep steps s) =
     (if steps \<noteq> [] \<and> step_key (last steps) = step_key s then map step_key steps
      else map step_key steps @ [step_key s])"
  by (cases steps rule: rev_cases) (auto simp: coalesceStep_snoc step_key_def)

lemma coalesceStep_fold_keys:
  "map step_key (foldl coalesceStep [] reports) = remdups_adj (map step_key reports)"
proof (induction reports rule: rev_induct)
  case (snoc r rs)
  have nil: "foldl coalesceStep [] rs = [] \<longleftrightarrow> rs = []"
    by (metis snoc.IH map_is_Nil_conv remdups_adj_Nil_iff)
  have last: "step_key (last (foldl coalesceStep [] rs)) = step_key (last rs)" if "rs \<noteq> []"
    using that nil by (metis snoc.IH last_map last_remdups_adj map_is_Nil_conv)
  from nil last snoc.IH show ?case
    by (auto simp: coalesceStep_keys remdups_adj_snoc last_map)
qed simp

lemma coalesceStep_fold_occurrences:
  "\<forall>r\<in>set reports. step_Count r = 0 \<Longrightarrow>
   steps_wf (foldl coalesceStep [] reports) \<and>
   sum_list (map step_occurrences (foldl coalesceStep [] reports)) = int (length reports)"
proof (induction reports rule: rev_induct)
  case Nil
  then show ?case by (simp add: steps_wf_def)
next
  case (snoc r rs)
  then show ?case by (simp add: coalesceStep_wf coalesceStep_occurrences)
qed

subsection \<open>The job an insertion creates\<close>

definition null_args :: "string \<Rightarrow> string" where
  "null_args args = (if args = '''' then ''null'' else args)"

definition queued_job :: "string \<Rightarrow> time \<Rightarrow> string \<Rightarrow> string \<Rightarrow> string \<Rightarrow> Job" where
  "queued_job i now kind args parentID =
     \<lparr>job_ID = i, job_Kind = kind, job_Args = null_args args, job_State = JobQueued,
      job_Steps = [], job_ParentID = parentID, job_Error = '''', job_Created = now,
      job_Started = 0, job_Finished = 0\<rparr>"

definition child_job :: "string \<Rightarrow> time \<Rightarrow> string \<Rightarrow> string \<Rightarrow> string \<Rightarrow> Job" where
  "child_job i now kind args parentID =
     \<lparr>job_ID = i, job_Kind = kind, job_Args = null_args args, job_State = JobRunning,
      job_Steps = [], job_ParentID = parentID, job_Error = '''', job_Created = now,
      job_Started = now, job_Finished = 0\<rparr>"

subsection \<open>The interface\<close>

type_synonym 'a result = "store_error + 'a"

record 's JobStore =
  js_Enqueue :: "string \<Rightarrow> time \<Rightarrow> string \<Rightarrow> string \<Rightarrow> string \<Rightarrow> 's \<Rightarrow> Job result \<times> 's"
  js_StartChild :: "string \<Rightarrow> time \<Rightarrow> string \<Rightarrow> string \<Rightarrow> string \<Rightarrow> 's \<Rightarrow> Job result \<times> 's"
  js_GetJob :: "string \<Rightarrow> 's \<Rightarrow> Job result \<times> 's"
  js_ListJobs :: "JobFilter \<Rightarrow> 's \<Rightarrow> Job list result \<times> 's"
  js_ClaimNext :: "time \<Rightarrow> 's \<Rightarrow> Job option result \<times> 's"
  js_ClaimNextMatching :: "time \<Rightarrow> string list \<Rightarrow> 's \<Rightarrow> Job option result \<times> 's"
  js_ClaimNextExcluding :: "time \<Rightarrow> string list \<Rightarrow> 's \<Rightarrow> Job option result \<times> 's"
  js_AppendStep :: "string \<Rightarrow> JobStep \<Rightarrow> 's \<Rightarrow> unit result \<times> 's"
  js_Finish :: "time \<Rightarrow> string \<Rightarrow> JobState \<Rightarrow> string \<Rightarrow> 's \<Rightarrow> unit result \<times> 's"
  js_FailRunning :: "time \<Rightarrow> string \<Rightarrow> 's \<Rightarrow> nat result \<times> 's"
  js_MarkReconciling :: "string list \<Rightarrow> 's \<Rightarrow> nat result \<times> 's"
  js_ResolveReconciling :: "time \<Rightarrow> string \<Rightarrow> JobState \<Rightarrow> string \<Rightarrow> 's \<Rightarrow> bool result \<times> 's"
  js_CancelReconciling :: "time \<Rightarrow> string \<Rightarrow> 's \<Rightarrow> bool result \<times> 's"
  js_CancelQueued :: "time \<Rightarrow> string \<Rightarrow> 's \<Rightarrow> bool result \<times> 's"
  js_PruneJobs :: "time \<Rightarrow> 's \<Rightarrow> nat result \<times> 's"

subsection \<open>What an operation does to the jobs a store holds\<close>

type_synonym jobmap = "string \<rightharpoonup> Job"

definition claimable :: "(string \<Rightarrow> bool) \<Rightarrow> Job \<Rightarrow> bool" where
  "claimable P j \<longleftrightarrow> job_State j = JobQueued \<and> P (job_Kind j)"

definition start_job :: "time \<Rightarrow> Job \<Rightarrow> Job" where
  "start_job now j = j\<lparr>job_State := JobRunning, job_Started := now\<rparr>"

definition end_job :: "time \<Rightarrow> JobState \<Rightarrow> string \<Rightarrow> Job \<Rightarrow> Job" where
  "end_job now st msg j = j\<lparr>job_State := st, job_Error := msg, job_Finished := now\<rparr>"

definition cancel_job :: "time \<Rightarrow> Job \<Rightarrow> Job" where
  "cancel_job now j = j\<lparr>job_State := JobCanceled, job_Finished := now\<rparr>"

definition reconcile_job :: "Job \<Rightarrow> Job" where
  "reconcile_job j = j\<lparr>job_State := JobReconciling\<rparr>"

definition add_step :: "JobStep \<Rightarrow> Job \<Rightarrow> Job" where
  "add_step step j = j\<lparr>job_Steps := coalesceStep (job_Steps j) step\<rparr>"

lemmas job_upd_defs = start_job_def end_job_def cancel_job_def reconcile_job_def add_step_def

lemma job_upd_ID [simp]:
  "job_ID (start_job now j) = job_ID j" "job_ID (end_job now st msg j) = job_ID j"
  "job_ID (cancel_job now j) = job_ID j" "job_ID (reconcile_job j) = job_ID j"
  "job_ID (add_step step j) = job_ID j"
  by (simp_all add: job_upd_defs)

lemma job_upd_Kind [simp]:
  "job_Kind (start_job now j) = job_Kind j" "job_Kind (end_job now st msg j) = job_Kind j"
  "job_Kind (cancel_job now j) = job_Kind j" "job_Kind (reconcile_job j) = job_Kind j"
  "job_Kind (add_step step j) = job_Kind j"
  by (simp_all add: job_upd_defs)

lemma job_upd_Created [simp]:
  "job_Created (start_job now j) = job_Created j" "job_Created (end_job now st msg j) = job_Created j"
  "job_Created (cancel_job now j) = job_Created j" "job_Created (reconcile_job j) = job_Created j"
  "job_Created (add_step step j) = job_Created j"
  by (simp_all add: job_upd_defs)

lemma job_upd_ParentID [simp]:
  "job_ParentID (start_job now j) = job_ParentID j" "job_ParentID (end_job now st msg j) = job_ParentID j"
  "job_ParentID (cancel_job now j) = job_ParentID j" "job_ParentID (reconcile_job j) = job_ParentID j"
  "job_ParentID (add_step step j) = job_ParentID j"
  by (simp_all add: job_upd_defs)

lemma job_upd_State [simp]:
  "job_State (start_job now j) = JobRunning" "job_State (end_job now st msg j) = st"
  "job_State (cancel_job now j) = JobCanceled" "job_State (reconcile_job j) = JobReconciling"
  "job_State (add_step step j) = job_State j"
  by (simp_all add: job_upd_defs)

lemma new_job_fields [simp]:
  "job_ID (queued_job i now kind args parent) = i" "job_Created (queued_job i now kind args parent) = now"
  "job_ID (child_job i now kind args parent) = i" "job_Created (child_job i now kind args parent) = now"
  "job_State (queued_job i now kind args parent) = JobQueued"
  "job_State (child_job i now kind args parent) = JobRunning"
  "job_Kind (queued_job i now kind args parent) = kind"
  "job_Kind (child_job i now kind args parent) = kind"
  by (simp_all add: queued_job_def child_job_def)

text \<open>A claim starts the oldest claimable job, or reports that there is none.\<close>

definition claim_spec :: "(string \<Rightarrow> bool) \<Rightarrow> time \<Rightarrow> jobmap \<Rightarrow> Job option \<Rightarrow> jobmap \<Rightarrow> bool" where
  "claim_spec P now m r m' \<longleftrightarrow>
     (case r of
        None \<Rightarrow> m' = m \<and> (\<forall>j\<in>ran m. \<not> claimable P j)
      | Some j \<Rightarrow> \<exists>j0. m (job_ID j) = Some j0 \<and> claimable P j0 \<and> j = start_job now j0 \<and>
          m' = m(job_ID j \<mapsto> j) \<and>
          (\<forall>j1\<in>ran m. claimable P j1 \<longrightarrow> job_Created j0 \<le> job_Created j1))"

text \<open>A compare-and-swap on one row, and an update of every row that satisfies a condition.\<close>

definition cas_spec :: "(Job \<Rightarrow> bool) \<Rightarrow> (Job \<Rightarrow> Job) \<Rightarrow> string \<Rightarrow> jobmap \<Rightarrow> bool \<Rightarrow> jobmap \<Rightarrow> bool" where
  "cas_spec P f i m b m' \<longleftrightarrow>
     (case m i of
        None \<Rightarrow> \<not> b \<and> m' = m
      | Some j \<Rightarrow> if P j then b \<and> m' = m(i \<mapsto> f j) else \<not> b \<and> m' = m)"

definition bulk_spec :: "(Job \<Rightarrow> bool) \<Rightarrow> (Job \<Rightarrow> Job) \<Rightarrow> jobmap \<Rightarrow> nat \<Rightarrow> jobmap \<Rightarrow> bool" where
  "bulk_spec P f m n m' \<longleftrightarrow>
     (\<forall>i. m' i = map_option (\<lambda>j. if P j then f j else j) (m i)) \<and>
     n = card {i. \<exists>j. m i = Some j \<and> P j}"

text \<open>
  Retention: old terminal children go first, then old terminal jobs that no surviving job names
  as its parent.
\<close>

definition old_terminal :: "time \<Rightarrow> Job \<Rightarrow> bool" where
  "old_terminal cutoff j \<longleftrightarrow>
     Terminal (job_State j) \<and> \<not> IsZero (job_Finished j) \<and> job_Finished j < cutoff"

definition pruned_child :: "time \<Rightarrow> Job \<Rightarrow> bool" where
  "pruned_child cutoff j \<longleftrightarrow> job_ParentID j \<noteq> '''' \<and> old_terminal cutoff j"

definition referenced :: "time \<Rightarrow> jobmap \<Rightarrow> string \<Rightarrow> bool" where
  "referenced cutoff m i \<longleftrightarrow>
     (\<exists>c\<in>ran m. \<not> pruned_child cutoff c \<and> job_ParentID c \<noteq> '''' \<and> job_ParentID c = i)"

definition pruned :: "time \<Rightarrow> jobmap \<Rightarrow> Job \<Rightarrow> bool" where
  "pruned cutoff m j \<longleftrightarrow>
     pruned_child cutoff j \<or> old_terminal cutoff j \<and> \<not> referenced cutoff m (job_ID j)"

definition prune_spec :: "time \<Rightarrow> jobmap \<Rightarrow> nat \<Rightarrow> jobmap \<Rightarrow> bool" where
  "prune_spec cutoff m n m' \<longleftrightarrow>
     (\<forall>i. m' i = (case m i of None \<Rightarrow> None
                  | Some j \<Rightarrow> if pruned cutoff m j then None else Some j)) \<and>
     n = card {i. \<exists>j. m i = Some j \<and> pruned cutoff m j}"

text \<open>A listing: the newest matching jobs first, cut at the clamped limit.\<close>

definition list_spec :: "JobFilter \<Rightarrow> jobmap \<Rightarrow> Job list \<Rightarrow> bool" where
  "list_spec f m js \<longleftrightarrow>
     (\<exists>all. set all = {j \<in> ran m. job_matches f j} \<and>
        sorted_wrt (\<lambda>a b. job_ID b < job_ID a) all \<and>
        js = take (nat (clampJobLimit (f_Limit f))) all)"

text \<open>The newest \<open>n\<close> jobs of a kind are what a listing with that limit returns.\<close>

definition kind_filter :: "string \<Rightarrow> int \<Rightarrow> JobFilter" where
  "kind_filter kind limit = \<lparr>f_State = None, f_Kind = kind, f_ParentID = [], f_Limit = limit, f_Before = []\<rparr>"

definition newest :: "int \<Rightarrow> string \<Rightarrow> jobmap \<Rightarrow> Job set" where
  "newest n kind m = {j \<in> ran m. job_Kind j = kind \<and>
     int (card {j' \<in> ran m. job_Kind j' = kind \<and> job_ID j < job_ID j'}) < n}"

lemma set_take_newest:
  assumes "sorted_wrt (\<lambda>a b. job_ID b < job_ID a) all"
  shows "set (take n all) = {j \<in> set all. card {j' \<in> set all. job_ID j < job_ID j'} < n}"
proof -
  have t: "set (take k all) = {all ! a | a. a < k \<and> a < length all}" for k by (force simp: set_conv_nth)
  have newer: "{j' \<in> set all. job_ID (all ! k) < job_ID j'} = set (take k all)" if "k < length all" for k
  proof -
    have lt: "job_ID (all ! b) < job_ID (all ! a)" if "a < b" "b < length all" for a b
      using sorted_wrt_nth_less [OF assms that] .
    have "job_ID (all ! k) < job_ID (all ! a) \<longleftrightarrow> a < k" if "a < length all" for a
      using lt [of a k] lt [of k a] that \<open>k < length all\<close> by (cases a k rule: linorder_cases) auto
    then show ?thesis unfolding t by (auto simp: in_set_conv_nth)
  qed
  have "distinct all" using assms by (induction all) auto
  then have "card {j' \<in> set all. job_ID (all ! k) < job_ID j'} = k" if "k < length all" for k
    using newer [OF that] that by (simp add: distinct_card)
  then show ?thesis unfolding t by (auto simp: in_set_conv_nth)
qed

lemma list_newest:
  assumes "list_spec (kind_filter kind n) m xs" and "kind \<noteq> []" and "0 < n" and "n \<le> MaxJobLimit"
  shows "set xs = newest n kind m"
proof -
  from assms(1) obtain all where all: "set all = {j \<in> ran m. job_matches (kind_filter kind n) j}"
    "sorted_wrt (\<lambda>a b. job_ID b < job_ID a) all" "xs = take (nat (clampJobLimit n)) all"
    by (auto simp: list_spec_def kind_filter_def)
  have "job_matches (kind_filter kind n) j \<longleftrightarrow> job_Kind j = kind" for j
    using assms(2) by (simp add: job_matches_def kind_filter_def)
  moreover have "card X < nat (clampJobLimit n) \<longleftrightarrow> int (card X) < n" for X :: "Job set"
    using assms(3,4) by (auto simp: clampJobLimit_def)
  ultimately show ?thesis using set_take_newest [OF all(2)] all(1,3) by (simp add: newest_def)
qed

lemma newest_top:
  assumes "j \<in> ran m" "job_Kind j = kind" "0 < n" and "\<And>j'. j' \<in> ran m \<Longrightarrow> job_Kind j' = kind \<Longrightarrow> job_ID j' \<le> job_ID j"
  shows "j \<in> newest n kind m"
proof -
  have "{j' \<in> ran m. job_Kind j' = kind \<and> job_ID j < job_ID j'} = {}" using assms(4) by (auto simp: not_less [symmetric])
  with assms(1-3) show ?thesis unfolding newest_def by (metis (mono_tags, lifting) card.empty mem_Collect_eq of_nat_0)
qed

definition is_driver :: "store_error \<Rightarrow> bool" where
  "is_driver e \<longleftrightarrow> (case e of ErrDriver _ \<Rightarrow> True | _ \<Rightarrow> False)"

text \<open>
  An operation keeps the store's invariant; when it fails with an error of the kind \<open>E\<close> the jobs
  are unchanged, and when it returns \<open>x\<close> the jobs afterwards satisfy \<open>Q x\<close>.
\<close>

definition op_ok ::
  "('s \<Rightarrow> bool) \<Rightarrow> ('s \<Rightarrow> jobmap) \<Rightarrow> 's \<Rightarrow> (store_error \<Rightarrow> bool) \<Rightarrow> ('a \<Rightarrow> jobmap \<Rightarrow> bool) \<Rightarrow>
     'a result \<times> 's \<Rightarrow> bool" where
  "op_ok invar jobs_of s E Q rs \<longleftrightarrow>
     invar (snd rs) \<and>
     (case fst rs of Inl e \<Rightarrow> E e \<and> jobs_of (snd rs) = jobs_of s | Inr x \<Rightarrow> Q x (jobs_of (snd rs)))"

lemma op_okI [intro?]:
  assumes "invar s'" and "\<And>e. r = Inl e \<Longrightarrow> E e \<and> jobs_of s' = jobs_of s"
    and "\<And>x. r = Inr x \<Longrightarrow> Q x (jobs_of s')"
  shows "op_ok invar jobs_of s E Q (r, s')"
  using assms by (auto simp: op_ok_def split: sum.splits)

lemma op_ok_invar: "op_ok invar jobs_of s E Q (r, s') \<Longrightarrow> invar s'"
  by (simp add: op_ok_def)

lemma op_ok_Inl: "op_ok invar jobs_of s E Q (Inl e, s') \<Longrightarrow> invar s' \<and> E e \<and> jobs_of s' = jobs_of s"
  by (simp add: op_ok_def)

lemma op_ok_Inr: "op_ok invar jobs_of s E Q (Inr x, s') \<Longrightarrow> invar s' \<and> Q x (jobs_of s')"
  by (simp add: op_ok_def)

subsection \<open>The contract of a job store\<close>

locale job_store =
  fixes js :: "'s JobStore"
    and invar :: "'s \<Rightarrow> bool"
    and jobs_of :: "'s \<Rightarrow> jobmap"
  assumes ids: "invar s \<Longrightarrow> jobs_of s i = Some j \<Longrightarrow> job_ID j = i"
    and finite_jobs: "invar s \<Longrightarrow> finite (dom (jobs_of s))"
    and enqueue:
      "invar s \<Longrightarrow> jobs_of s i = None \<Longrightarrow> 0 < now \<Longrightarrow>
       (\<And>j. j \<in> ran (jobs_of s) \<Longrightarrow> job_Created j \<le> now) \<Longrightarrow>
       js_Enqueue js i now kind args parent s = (r, s') \<Longrightarrow>
       invar s' \<and>
       (case r of
          Inl e \<Rightarrow> is_driver e \<and>
            (jobs_of s' = jobs_of s \<or>
             jobs_of s' = (jobs_of s)(i \<mapsto> queued_job i now kind args parent))
        | Inr j \<Rightarrow> j = queued_job i now kind args parent \<and> jobs_of s' = (jobs_of s)(i \<mapsto> j))"
    and start_child:
      "invar s \<Longrightarrow> jobs_of s i = None \<Longrightarrow> 0 < now \<Longrightarrow>
       (\<And>j. j \<in> ran (jobs_of s) \<Longrightarrow> job_Created j \<le> now) \<Longrightarrow>
       js_StartChild js i now kind args parent s = (r, s') \<Longrightarrow>
       invar s' \<and>
       (case r of
          Inl e \<Rightarrow> is_driver e \<and>
            (jobs_of s' = jobs_of s \<or>
             jobs_of s' = (jobs_of s)(i \<mapsto> child_job i now kind args parent))
        | Inr j \<Rightarrow> j = child_job i now kind args parent \<and> jobs_of s' = (jobs_of s)(i \<mapsto> j))"
    and get_job:
      "invar s \<Longrightarrow>
       op_ok invar jobs_of s
         (\<lambda>e. is_driver e \<or> e = ErrNotFound \<and> jobs_of s i = None)
         (\<lambda>j m'. m' = jobs_of s \<and> jobs_of s i = Some j) (js_GetJob js i s)"
    and list_jobs:
      "invar s \<Longrightarrow>
       op_ok invar jobs_of s is_driver
         (\<lambda>xs m'. m' = jobs_of s \<and> list_spec f (jobs_of s) xs) (js_ListJobs js f s)"
    and claim_next:
      "invar s \<Longrightarrow>
       op_ok invar jobs_of s is_driver
         (claim_spec (\<lambda>_. True) now (jobs_of s)) (js_ClaimNext js now s)"
    and claim_matching:
      "invar s \<Longrightarrow>
       op_ok invar jobs_of s is_driver
         (claim_spec (\<lambda>k. k \<in> set kinds) now (jobs_of s)) (js_ClaimNextMatching js now kinds s)"
    and claim_excluding:
      "invar s \<Longrightarrow>
       op_ok invar jobs_of s is_driver
         (claim_spec (\<lambda>k. k \<notin> set kinds) now (jobs_of s)) (js_ClaimNextExcluding js now kinds s)"
    and append_step:
      "invar s \<Longrightarrow>
       op_ok invar jobs_of s
         (\<lambda>e. is_driver e \<or> e = ErrNotFound \<and> jobs_of s i = None)
         (\<lambda>_ m'. \<exists>j. jobs_of s i = Some j \<and> m' = (jobs_of s)(i \<mapsto> add_step step j))
         (js_AppendStep js i step s)"
    and finish:
      "invar s \<Longrightarrow> 0 < now \<Longrightarrow>
       op_ok invar jobs_of s
         (\<lambda>e. is_driver e \<or> e = ErrInvalidTerminalState st \<and> \<not> Terminal st \<or>
            e = ErrNotFound \<and> jobs_of s i = None)
         (\<lambda>_ m'. Terminal st \<and>
            (\<exists>j. jobs_of s i = Some j \<and> m' = (jobs_of s)(i \<mapsto> end_job now st msg j)))
         (js_Finish js now i st msg s)"
    and fail_running:
      "invar s \<Longrightarrow> 0 < now \<Longrightarrow>
       op_ok invar jobs_of s is_driver
         (bulk_spec (\<lambda>j. job_State j = JobRunning) (end_job now JobFailed reason) (jobs_of s))
         (js_FailRunning js now reason s)"
    and mark_reconciling:
      "invar s \<Longrightarrow>
       op_ok invar jobs_of s is_driver
         (bulk_spec (\<lambda>j. job_State j = JobRunning \<and> job_Kind j \<in> set kinds) reconcile_job (jobs_of s))
         (js_MarkReconciling js kinds s)"
    and resolve_reconciling:
      "invar s \<Longrightarrow> 0 < now \<Longrightarrow>
       op_ok invar jobs_of s
         (\<lambda>e. is_driver e \<or> e = ErrInvalidTerminalState st \<and> st \<notin> {JobSucceeded, JobFailed})
         (\<lambda>b m'. st \<in> {JobSucceeded, JobFailed} \<and>
            cas_spec (\<lambda>j. job_State j = JobReconciling) (end_job now st msg) i (jobs_of s) b m')
         (js_ResolveReconciling js now i st msg s)"
    and cancel_reconciling:
      "invar s \<Longrightarrow> 0 < now \<Longrightarrow>
       op_ok invar jobs_of s is_driver
         (cas_spec (\<lambda>j. job_State j = JobReconciling) (cancel_job now) i (jobs_of s))
         (js_CancelReconciling js now i s)"
    and cancel_queued:
      "invar s \<Longrightarrow> 0 < now \<Longrightarrow>
       op_ok invar jobs_of s is_driver
         (cas_spec (\<lambda>j. job_State j = JobQueued) (cancel_job now) i (jobs_of s))
         (js_CancelQueued js now i s)"
    and prune_jobs:
      "invar s \<Longrightarrow>
       op_ok invar jobs_of s is_driver (prune_spec cutoff (jobs_of s)) (js_PruneJobs js cutoff s)"

end
