(* ===== verification/Job_Runner.thy ===== *)
theory Job_Runner
  imports Job_Store
begin

text \<open>
  The job runner, \<^verbatim>\<open>internal/jobs/runner.go\<close>. Its goroutines are program counters in the runner's
  state: a worker (\<^verbatim>\<open>worker\<close>, \<^verbatim>\<open>claim\<close>, \<^verbatim>\<open>run\<close>) and a task of a reconcile sweep
  (\<^verbatim>\<open>reconcileSweep\<close>, \<^verbatim>\<open>reconcileOne\<close>). A definition below is one atomic piece of that code:
  the code between two points where another goroutine may run, that is one call of the store or
  one section under \<^verbatim>\<open>Runner.mu\<close>. What a handler or a reconciler does between its calls, and what it returns,
  is the environment's choice and an argument of the definitions.
\<close>

subsection \<open>Rotation over the reserved kinds\<close>

text \<open>\<^verbatim>\<open>seq\<close> is a \<^verbatim>\<open>uint64\<close>, so it wraps; a kind absent from \<^verbatim>\<open>last\<close> reads as zero.\<close>

record kindRotation =
  kr_seq :: int
  kr_last :: "string \<rightharpoonup> int"

definition newKindRotation :: kindRotation where
  "newKindRotation = \<lparr>kr_seq = 0, kr_last = Map.empty\<rparr>"

definition last_of :: "kindRotation \<Rightarrow> string \<Rightarrow> int" where
  "last_of kr k = (case kr_last kr k of None \<Rightarrow> 0 | Some n \<Rightarrow> n)"

definition rotation_order :: "kindRotation \<Rightarrow> string list \<Rightarrow> string list" where
  "rotation_order kr kinds = sort_key (last_of kr) kinds"

definition served :: "string \<Rightarrow> kindRotation \<Rightarrow> kindRotation" where
  "served kind kr =
     (let seq = (kr_seq kr + 1) mod 2 ^ 64
      in \<lparr>kr_seq = seq, kr_last = (kr_last kr)(kind \<mapsto> seq)\<rparr>)"

subsection \<open>The runner's state\<close>

text \<open>
  \<^verbatim>\<open>inflightJob\<close>: the flag \<^verbatim>\<open>canceled\<close> and whether \<^verbatim>\<open>cancel\<close> has been called on the job's
  context. The map \<^verbatim>\<open>inflight\<close> holds pointers, so entries live in a heap (a list indexed by
  address) and the goroutine that made an entry keeps its address.
\<close>

record inflightJob =
  ij_done :: bool
  ij_canceled :: bool

datatype metric =
    JobStarted string
  | JobFinished string string
  | ObserveDuration string duration

text \<open>
  The program counter of a worker: at the head of the drain loop; inside \<^verbatim>\<open>claimRotating\<close> with the
  kinds still to ask for; between a rotating claim and \<^verbatim>\<open>served\<close>; at the entry of \<^verbatim>\<open>run\<close>; inside
  the handler, with the entry's address and the child jobs it has started and not finished; and
  after the handler returned, about to record the outcome.
\<close>

datatype wpc =
    WIdle
  | WRotating "string list"
  | WServing string Job
  | WClaimed Job
  | WRunning Job nat "string list"
  | WReturned Job bool "string option"

text \<open>A task of a sweep: inside the reconciler, and about to resolve the job.\<close>

datatype rpc =
    RCalling Job nat
  | RResolving Job JobState string

text \<open>A sweep in progress: the listed jobs not launched yet, and the running tasks.\<close>

record sweep =
  sw_pending :: "Job list"
  sw_tasks :: "rpc list"

record 's Runner =
  r_store :: 's
  r_handlers :: "string list"
  r_reconcilers :: "string list"
  r_workers :: int
  r_volumeKinds :: "string list"
  r_volumeWorkers :: int
  r_volumeRotation :: "kindRotation option"
  r_inflight :: "string \<rightharpoonup> nat"
  r_entries :: "inflightJob list"
  r_metrics :: "metric list"
  r_pcs :: "wpc list"
  r_sweep :: "sweep option"

definition DefaultWorkers :: int where
  "DefaultWorkers = 8"

definition VolumeTransferKinds :: "string list" where
  "VolumeTransferKinds = [''backup'', ''restore'', ''pitr-restore'', ''migrate'', ''evacuate'']"

definition NewRunner :: "'s \<Rightarrow> string list \<Rightarrow> int \<Rightarrow> 's Runner" where
  "NewRunner s h workers =
     \<lparr>r_store = s, r_handlers = h, r_reconcilers = [],
      r_workers = (if workers \<le> 0 then DefaultWorkers else workers),
      r_volumeKinds = [], r_volumeWorkers = 0, r_volumeRotation = None,
      r_inflight = Map.empty, r_entries = [], r_metrics = [], r_pcs = [], r_sweep = None\<rparr>"

definition SetReconcilers :: "string list \<Rightarrow> 's Runner \<Rightarrow> 's Runner" where
  "SetReconcilers rec r = r\<lparr>r_reconcilers := rec\<rparr>"

definition SetVolumeTransferPool :: "string list \<Rightarrow> int \<Rightarrow> 's Runner \<Rightarrow> 's Runner" where
  "SetVolumeTransferPool kinds workers r =
     (if length kinds = 0 \<or> workers \<le> 0 then r
      else r\<lparr>r_volumeKinds := kinds, r_volumeWorkers := workers,
            r_volumeRotation := Some newKindRotation\<rparr>)"

text \<open>What each worker goroutine is started with: \<^verbatim>\<open>claimKinds\<close> (\<open>None\<close> for nil) and \<^verbatim>\<open>exclude\<close>.\<close>

definition split_pool :: "'s Runner \<Rightarrow> bool" where
  "split_pool r \<longleftrightarrow>
     length (r_volumeKinds r) > 0 \<and> r_volumeWorkers r > 0 \<and> r_volumeWorkers r < r_workers r"

definition worker_specs :: "'s Runner \<Rightarrow> (string list option \<times> bool) list" where
  "worker_specs r =
     (if split_pool r
      then replicate (nat (r_volumeWorkers r)) (Some (r_volumeKinds r), False) @
           replicate (nat (r_workers r - r_volumeWorkers r)) (Some (r_volumeKinds r), True)
      else replicate (nat (r_workers r)) (None, False))"

text \<open>
  \<^verbatim>\<open>Start\<close>: a new process, so no goroutine of an earlier one is left and the in-flight map is empty;
  interrupted jobs of a reconcilable kind become reconciling, the other running jobs fail (errors of
  either call are logged), then the workers start.
\<close>

definition Start :: "'s JobStore \<Rightarrow> time \<Rightarrow> 's Runner \<Rightarrow> 's Runner" where
  "Start js now r =
     (let (_, s1) = js_MarkReconciling js (r_reconcilers r) (r_store r);
          (_, s2) = js_FailRunning js now ''interrupted by daemon restart'' s1
      in r\<lparr>r_store := s2, r_inflight := Map.empty, r_entries := [],
           r_volumeRotation := (if r_volumeRotation r = None then None else Some newKindRotation),
           r_metrics := [], r_pcs := replicate (length (worker_specs r)) WIdle, r_sweep := None\<rparr>)"

subsection \<open>A worker\<close>

definition set_pc :: "nat \<Rightarrow> wpc \<Rightarrow> 's Runner \<Rightarrow> 's Runner" where
  "set_pc w pc r = r\<lparr>r_pcs := (r_pcs r)[w := pc]\<rparr>"

text \<open>The drain loop after a claim: an error or an empty queue leaves it, a job is run.\<close>

definition claimed :: "nat \<Rightarrow> (Job \<Rightarrow> wpc) \<Rightarrow> wpc \<Rightarrow> Job option result \<times> 's \<Rightarrow> 's Runner \<Rightarrow> 's Runner" where
  "claimed w found none res r =
     (case res of
        (Inl e, s) \<Rightarrow> set_pc w WIdle (r\<lparr>r_store := s\<rparr>)
      | (Inr None, s) \<Rightarrow> set_pc w none (r\<lparr>r_store := s\<rparr>)
      | (Inr (Some job), s) \<Rightarrow> set_pc w (found job) (r\<lparr>r_store := s\<rparr>))"

definition claim :: "'s JobStore \<Rightarrow> time \<Rightarrow> nat \<Rightarrow> 's Runner \<Rightarrow> 's Runner" where
  "claim js now w r =
     (case worker_specs r ! w of
        (kinds, True) \<Rightarrow>
          claimed w WClaimed WIdle
            (js_ClaimNextExcluding js now (case kinds of None \<Rightarrow> [] | Some ks \<Rightarrow> ks) (r_store r)) r
      | (None, False) \<Rightarrow> claimed w WClaimed WIdle (js_ClaimNext js now (r_store r)) r
      | (Some ks, False) \<Rightarrow>
          (case r_volumeRotation r of
             None \<Rightarrow> claimed w WClaimed WIdle (js_ClaimNextMatching js now ks (r_store r)) r
           | Some kr \<Rightarrow> set_pc w (WRotating (rotation_order kr ks)) r))"

text \<open>One iteration of the loop of \<^verbatim>\<open>claimRotating\<close>.\<close>

definition claim_kind :: "'s JobStore \<Rightarrow> time \<Rightarrow> nat \<Rightarrow> string list \<Rightarrow> 's Runner \<Rightarrow> 's Runner" where
  "claim_kind js now w ks r =
     (case ks of
        [] \<Rightarrow> set_pc w WIdle r
      | k # rest \<Rightarrow>
          claimed w (WServing k) (WRotating rest) (js_ClaimNextMatching js now [k] (r_store r)) r)"

definition record_served :: "nat \<Rightarrow> string \<Rightarrow> Job \<Rightarrow> 's Runner \<Rightarrow> 's Runner" where
  "record_served w k job r =
     set_pc w (WClaimed job) (r\<lparr>r_volumeRotation := map_option (served k) (r_volumeRotation r)\<rparr>)"

text \<open>The loop of \<^verbatim>\<open>claimRotating\<close> run without interference.\<close>

fun try_kinds ::
  "'s JobStore \<Rightarrow> time \<Rightarrow> string list \<Rightarrow> kindRotation \<Rightarrow> 's \<Rightarrow> Job option result \<times> kindRotation \<times> 's" where
  "try_kinds js now [] kr s = (Inr None, kr, s)"
| "try_kinds js now (k # ks) kr s =
     (case js_ClaimNextMatching js now [k] s of
        (Inl e, s') \<Rightarrow> (Inl e, kr, s')
      | (Inr (Some job), s') \<Rightarrow> (Inr (Some job), served k kr, s')
      | (Inr None, s') \<Rightarrow> try_kinds js now ks kr s')"

definition claimRotating ::
  "'s JobStore \<Rightarrow> time \<Rightarrow> string list \<Rightarrow> kindRotation \<Rightarrow> 's \<Rightarrow> Job option result \<times> kindRotation \<times> 's" where
  "claimRotating js now kinds kr s = try_kinds js now (rotation_order kr kinds) kr s"

text \<open>\<^verbatim>\<open>finish\<close>: the store's error is logged.\<close>

definition runner_finish ::
  "'s JobStore \<Rightarrow> time \<Rightarrow> string \<Rightarrow> JobState \<Rightarrow> string \<Rightarrow> 's Runner \<Rightarrow> 's Runner" where
  "runner_finish js now i state errMsg r =
     r\<lparr>r_store := snd (js_Finish js now i state errMsg (r_store r))\<rparr>"

definition emit :: "metric \<Rightarrow> 's Runner \<Rightarrow> 's Runner" where
  "emit m r = r\<lparr>r_metrics := r_metrics r @ [m]\<rparr>"

text \<open>A new entry in the in-flight map; its address is the length of the heap.\<close>

definition register :: "string \<Rightarrow> 's Runner \<Rightarrow> 's Runner" where
  "register i r =
     r\<lparr>r_entries := r_entries r @ [\<lparr>ij_done = False, ij_canceled = False\<rparr>],
       r_inflight := (r_inflight r)(i \<mapsto> length (r_entries r))\<rparr>"

definition deregister :: "string \<Rightarrow> 's Runner \<Rightarrow> 's Runner" where
  "deregister i r = r\<lparr>r_inflight := (r_inflight r)(i := None)\<rparr>"

text \<open>\<^verbatim>\<open>run\<close> up to the call of the handler.\<close>

definition run_begin :: "'s JobStore \<Rightarrow> time \<Rightarrow> nat \<Rightarrow> Job \<Rightarrow> 's Runner \<Rightarrow> 's Runner" where
  "run_begin js now w job r =
     (if job_Kind job \<notin> set (r_handlers r)
      then set_pc w WIdle
        (runner_finish js now (job_ID job) JobFailed (''no handler for kind '' @ job_Kind job) r)
      else set_pc w (WRunning job (length (r_entries r)) [])
        (register (job_ID job) (emit (JobStarted (job_Kind job)) r)))"

text \<open>The handler returned: read the entry's flag, drop it from the map, cancel the context.\<close>

definition run_return :: "nat \<Rightarrow> Job \<Rightarrow> nat \<Rightarrow> string option \<Rightarrow> 's Runner \<Rightarrow> 's Runner" where
  "run_return w job a err r =
     (let canceled = ij_canceled (r_entries r ! a)
      in set_pc w (WReturned job canceled err)
           (deregister (job_ID job)
             (r\<lparr>r_entries := (r_entries r)[a := (r_entries r ! a)\<lparr>ij_done := True\<rparr>]\<rparr>)))"

definition run_finish ::
  "'s JobStore \<Rightarrow> time \<Rightarrow> duration \<Rightarrow> nat \<Rightarrow> Job \<Rightarrow> bool \<Rightarrow> string option \<Rightarrow> 's Runner \<Rightarrow> 's Runner" where
  "run_finish js now d w job canceled err r =
     set_pc w WIdle
       (emit (ObserveDuration (job_Kind job) d)
         (if canceled
          then emit (JobFinished (job_Kind job) ''canceled'')
                 (runner_finish js now (job_ID job) JobCanceled ''canceled by operator'' r)
          else case err of
            Some e \<Rightarrow> emit (JobFinished (job_Kind job) ''failed'')
                        (runner_finish js now (job_ID job) JobFailed e r)
          | None \<Rightarrow> emit (JobFinished (job_Kind job) ''succeeded'')
                      (runner_finish js now (job_ID job) JobSucceeded '''' r)))"

text \<open>\<^verbatim>\<open>JobContext.Step\<close>: a progress report; the store's error is logged.\<close>

definition jc_Step :: "'s JobStore \<Rightarrow> time \<Rightarrow> string \<Rightarrow> string \<Rightarrow> string \<Rightarrow> 's Runner \<Rightarrow> 's Runner" where
  "jc_Step js now i step detail r =
     r\<lparr>r_store := snd (js_AppendStep js i
        \<lparr>step_TS = now, step_Step = step, step_Detail = detail, step_Count = 0\<rparr> (r_store r))\<rparr>"

subsection \<open>Cancelling, reconciling, retention\<close>

definition Cancel :: "string \<Rightarrow> 's Runner \<Rightarrow> bool \<times> 's Runner" where
  "Cancel i r =
     (case r_inflight r i of
        None \<Rightarrow> (False, r)
      | Some a \<Rightarrow> (True, r\<lparr>r_entries := (r_entries r)[a := \<lparr>ij_done = True, ij_canceled = True\<rparr>]\<rparr>))"

text \<open>\<^verbatim>\<open>reconcileSweep\<close>: list the reconciling jobs.\<close>

definition sweep_begin :: "'s JobStore \<Rightarrow> 's Runner \<Rightarrow> 's Runner" where
  "sweep_begin js r =
     (case js_ListJobs js
             \<lparr>f_State = Some JobReconciling, f_Kind = '''', f_ParentID = '''',
              f_Limit = MaxJobLimit, f_Before = ''''\<rparr> (r_store r) of
        (Inl e, s) \<Rightarrow> r\<lparr>r_store := s\<rparr>
      | (Inr jobsToDo, s) \<Rightarrow>
          r\<lparr>r_store := s, r_sweep := Some \<lparr>sw_pending = jobsToDo, sw_tasks = []\<rparr>\<rparr>)"

text \<open>
  One iteration of the launching loop: skip a job of a kind with no reconciler; otherwise wait for
  the semaphore (\<^verbatim>\<open>workers\<close> tasks at once), launch the task and register its entry. The launch and
  the registration are one step, since the task does nothing before it.
\<close>

definition sweep_launch :: "'s Runner \<Rightarrow> 's Runner option" where
  "sweep_launch r =
     (case r_sweep r of
        Some sw \<Rightarrow>
          (case sw_pending sw of
             [] \<Rightarrow> None
           | job # rest \<Rightarrow>
               if job_Kind job \<notin> set (r_reconcilers r)
               then Some (r\<lparr>r_sweep := Some (sw\<lparr>sw_pending := rest\<rparr>)\<rparr>)
               else if int (length (sw_tasks sw)) < r_workers r
               then Some (register (job_ID job)
                 (r\<lparr>r_sweep := Some \<lparr>sw_pending = rest,
                       sw_tasks = sw_tasks sw @ [RCalling job (length (r_entries r))]\<rparr>\<rparr>))
               else None)
      | None \<Rightarrow> None)"

definition set_tasks :: "rpc list \<Rightarrow> 's Runner \<Rightarrow> 's Runner" where
  "set_tasks ts r = r\<lparr>r_sweep := map_option (\<lambda>sw. sw\<lparr>sw_tasks := ts\<rparr>) (r_sweep r)\<rparr>"

definition drop_nth :: "nat \<Rightarrow> 'a list \<Rightarrow> 'a list" where
  "drop_nth k xs = take k xs @ drop (Suc k) xs"

text \<open>
  \<^verbatim>\<open>reconcileOne\<close> after its reconciler returned: drop the entry, cancel the context; an error or an
  unresolved attempt ends the task, a resolved one goes on to the compare-and-swap.
\<close>

definition reconcile_return ::
  "nat \<Rightarrow> rpc list \<Rightarrow> Job \<Rightarrow> nat \<Rightarrow> JobState \<Rightarrow> string \<Rightarrow> bool \<Rightarrow> string option \<Rightarrow> 's Runner \<Rightarrow> 's Runner" where
  "reconcile_return k ts job a state message resolved err r =
     (let r1 = deregister (job_ID job)
                 (r\<lparr>r_entries := (r_entries r)[a := (r_entries r ! a)\<lparr>ij_done := True\<rparr>]\<rparr>)
      in if err \<noteq> None \<or> \<not> resolved then set_tasks (drop_nth k ts) r1
         else set_tasks (ts[k := RResolving job state message]) r1)"

definition reconcile_resolve ::
  "'s JobStore \<Rightarrow> time \<Rightarrow> nat \<Rightarrow> rpc list \<Rightarrow> Job \<Rightarrow> JobState \<Rightarrow> string \<Rightarrow> 's Runner \<Rightarrow> 's Runner" where
  "reconcile_resolve js now k ts job state message r =
     set_tasks (drop_nth k ts)
       (r\<lparr>r_store := snd (js_ResolveReconciling js now (job_ID job) state message (r_store r))\<rparr>)"

text \<open>The sweep ends when nothing is pending and every task is done.\<close>

definition sweep_end :: "'s Runner \<Rightarrow> 's Runner option" where
  "sweep_end r =
     (case r_sweep r of
        Some sw \<Rightarrow> if sw_pending sw = [] \<and> sw_tasks sw = [] then Some (r\<lparr>r_sweep := None\<rparr>) else None
      | None \<Rightarrow> None)"

text \<open>The sweep of \<^verbatim>\<open>StartRetention\<close>.\<close>

definition retention_sweep :: "'s JobStore \<Rightarrow> time \<Rightarrow> duration \<Rightarrow> 's Runner \<Rightarrow> 's Runner" where
  "retention_sweep js now retention r =
     (if retention \<le> 0 then r
      else r\<lparr>r_store := snd (js_PruneJobs js (now - retention) (r_store r))\<rparr>)"

end
