(* ===== verification/Job_Api.thy ===== *)
theory Job_Api
  imports Job_Runner
begin

text \<open>
  The job endpoints, \<^verbatim>\<open>internal/api/jobs.go\<close>. A cancel request is a goroutine of its own: each
  definition of a \<^verbatim>\<open>cancelJob\<close> request below is the code up to its next call of the store or of the runner, and
  the request's program counter says where it is. Times are formatted by \<^verbatim>\<open>time.Format\<close>, an
  argument of the views. The store is wired: the guard that replies 501 without one comes before
  everything modelled here.
\<close>

subsection \<open>Views\<close>

record stepView =
  sv_TS :: string
  sv_Step :: string
  sv_Detail :: string
  sv_Count :: int

record jobView =
  jv_ID :: string
  jv_Kind :: string
  jv_State :: JobState
  jv_Args :: string
  jv_Steps :: "stepView list"
  jv_ParentID :: string
  jv_Error :: string
  jv_Created :: string
  jv_Started :: string
  jv_Finished :: string

text \<open>
  Nil and empty \<^verbatim>\<open>Args\<close> are not distinguished: both backends replace an empty value by \<^verbatim>\<open>null\<close> before
  they store it.
\<close>

definition toJobView :: "(time \<Rightarrow> string) \<Rightarrow> Job \<Rightarrow> jobView" where
  "toJobView fmt j =
     \<lparr>jv_ID = job_ID j, jv_Kind = job_Kind j, jv_State = job_State j,
      jv_Args = (if job_Args j = '''' then ''null'' else job_Args j),
      jv_Steps = map (\<lambda>s. \<lparr>sv_TS = fmt (step_TS s), sv_Step = step_Step s,
                          sv_Detail = step_Detail s, sv_Count = step_Count s\<rparr>) (job_Steps j),
      jv_ParentID = job_ParentID j, jv_Error = job_Error j, jv_Created = fmt (job_Created j),
      jv_Started = (if \<not> IsZero (job_Started j) then fmt (job_Started j) else ''''),
      jv_Finished = (if \<not> IsZero (job_Finished j) then fmt (job_Finished j) else '''')\<rparr>"

subsection \<open>Reading\<close>

datatype jobsResponse =
    RespError store_error
  | RespInvalidQuery string
  | RespTerminal
  | RespNotCancelable
  | RespAccepted jobView
  | RespJob jobView
  | RespJobs "jobView list"

text \<open>
  \<^verbatim>\<open>listJobs\<close> on its query parameters, absent ones empty. The \<^verbatim>\<open>state\<close> parameter is any string in the code;
  \<open>None\<close> is the empty one, and a state the store does not know is not modelled.
\<close>

definition listJobs ::
  "(time \<Rightarrow> string) \<Rightarrow> 's JobStore \<Rightarrow> JobState option \<Rightarrow> string \<Rightarrow> string \<Rightarrow> string \<Rightarrow> string \<Rightarrow> 's \<Rightarrow>
     jobsResponse \<times> 's" where
  "listJobs fmt js state kind parent_id before limit s =
     (case (if limit \<noteq> '''' then Atoi limit else Some 0) of
        None \<Rightarrow> (RespInvalidQuery ''limit must be an integer'', s)
      | Some n \<Rightarrow>
          (case js_ListJobs js
                  \<lparr>f_State = state, f_Kind = kind, f_ParentID = parent_id, f_Limit = n,
                   f_Before = before\<rparr> s of
             (Inl e, s') \<Rightarrow> (RespError e, s')
           | (Inr jobs, s') \<Rightarrow> (RespJobs (map (toJobView fmt) jobs), s')))"

definition getJob :: "(time \<Rightarrow> string) \<Rightarrow> 's JobStore \<Rightarrow> string \<Rightarrow> 's \<Rightarrow> jobsResponse \<times> 's" where
  "getJob fmt js i s =
     (case js_GetJob js i s of
        (Inl e, s') \<Rightarrow> (RespError e, s')
      | (Inr j, s') \<Rightarrow> (RespJob (toJobView fmt j), s'))"

subsection \<open>Cancelling\<close>

text \<open>
  Where a cancel request is: before the first read; having read the job's state; about to ask the runner;
  about to interrupt a reconcile pass; about to re-read the job for a conflict or for an accepted reply; replied.
\<close>

datatype creq =
    CGet string
  | CDispatch string JobState
  | CRunner string
  | CInterrupt string
  | CConflict string
  | CAccept string
  | CDone jobsResponse

definition cancel_get :: "'s JobStore \<Rightarrow> string \<Rightarrow> 's Runner \<Rightarrow> creq \<times> 's Runner" where
  "cancel_get js i r =
     (case js_GetJob js i (r_store r) of
        (Inl e, s) \<Rightarrow> (CDone (RespError e), r\<lparr>r_store := s\<rparr>)
      | (Inr j, s) \<Rightarrow> (CDispatch i (job_State j), r\<lparr>r_store := s\<rparr>))"

text \<open>The switch of \<^verbatim>\<open>cancelJob\<close> on the state it read, which may be stale by now.\<close>

definition cancel_dispatch :: "'s JobStore \<Rightarrow> time \<Rightarrow> string \<Rightarrow> JobState \<Rightarrow> 's Runner \<Rightarrow> creq \<times> 's Runner" where
  "cancel_dispatch js now i state r =
     (case state of
        JobSucceeded \<Rightarrow> (CDone RespTerminal, r)
      | JobFailed \<Rightarrow> (CDone RespTerminal, r)
      | JobCanceled \<Rightarrow> (CDone RespTerminal, r)
      | JobRunning \<Rightarrow> (CRunner i, r)
      | JobReconciling \<Rightarrow>
          (case js_CancelReconciling js now i (r_store r) of
             (Inl e, s) \<Rightarrow> (CDone (RespError e), r\<lparr>r_store := s\<rparr>)
           | (Inr ok, s) \<Rightarrow> (if ok then CInterrupt i else CConflict i, r\<lparr>r_store := s\<rparr>))
      | JobQueued \<Rightarrow>
          (case js_CancelQueued js now i (r_store r) of
             (Inl e, s) \<Rightarrow> (CDone (RespError e), r\<lparr>r_store := s\<rparr>)
           | (Inr ok, s) \<Rightarrow> (if ok then CAccept i else CRunner i, r\<lparr>r_store := s\<rparr>)))"

definition cancel_runner :: "bool \<Rightarrow> string \<Rightarrow> 's Runner \<Rightarrow> creq \<times> 's Runner" where
  "cancel_runner canceller i r =
     (if canceller
      then case Cancel i r of (ok, r') \<Rightarrow> (if ok then CAccept i else CConflict i, r')
      else (CConflict i, r))"

definition cancel_interrupt :: "bool \<Rightarrow> string \<Rightarrow> 's Runner \<Rightarrow> creq \<times> 's Runner" where
  "cancel_interrupt canceller i r = (CAccept i, if canceller then snd (Cancel i r) else r)"

definition writeCancelConflict :: "'s JobStore \<Rightarrow> string \<Rightarrow> 's Runner \<Rightarrow> creq \<times> 's Runner" where
  "writeCancelConflict js i r =
     (case js_GetJob js i (r_store r) of
        (Inl e, s) \<Rightarrow> (CDone (RespError e), r\<lparr>r_store := s\<rparr>)
      | (Inr j, s) \<Rightarrow>
          (CDone (if job_State j \<in> {JobSucceeded, JobFailed, JobCanceled}
                  then RespTerminal else RespNotCancelable), r\<lparr>r_store := s\<rparr>))"

definition writeAcceptedJob ::
  "(time \<Rightarrow> string) \<Rightarrow> 's JobStore \<Rightarrow> string \<Rightarrow> 's Runner \<Rightarrow> creq \<times> 's Runner" where
  "writeAcceptedJob fmt js i r =
     (case js_GetJob js i (r_store r) of
        (Inl e, s) \<Rightarrow> (CDone (RespError e), r\<lparr>r_store := s\<rparr>)
      | (Inr j, s) \<Rightarrow> (CDone (RespAccepted (toJobView fmt j)), r\<lparr>r_store := s\<rparr>))"

text \<open>The next piece of a request; a finished request makes no step.\<close>

definition cancelJob ::
  "(time \<Rightarrow> string) \<Rightarrow> 's JobStore \<Rightarrow> bool \<Rightarrow> time \<Rightarrow> creq \<Rightarrow> 's Runner \<Rightarrow> (creq \<times> 's Runner) option" where
  "cancelJob fmt js canceller now q r =
     (case q of
        CGet i \<Rightarrow> Some (cancel_get js i r)
      | CDispatch i state \<Rightarrow> Some (cancel_dispatch js now i state r)
      | CRunner i \<Rightarrow> Some (cancel_runner canceller i r)
      | CInterrupt i \<Rightarrow> Some (cancel_interrupt canceller i r)
      | CConflict i \<Rightarrow> Some (writeCancelConflict js i r)
      | CAccept i \<Rightarrow> Some (writeAcceptedJob fmt js i r)
      | CDone _ \<Rightarrow> None)"

end
