(* ===== verification/Go_Errors.thy ===== *)
theory Go_Errors
  imports Go_Prelude
begin

text \<open>
  Go's errors and calls to the outside world, as the components that talk to hosts, to the registry
  and to the store use them: an error is the sentinels it wraps and the constant part of its text; a
  call is a function on an arbitrary state of the outside world.
\<close>

subsection \<open>Errors\<close>

datatype sentinel =
    RegNotFound | RegUnreachable | UnsafeToPrune | PodNotFound | WaitTimeout
  | StoreNotFound | SecretsNeedKey | SecretsUndecryptable | SpecCorrupt | HostRenameConflict | HostRenameHasBackups
  | UnknownHost | HostAlreadyExists | HostHasBackups | UnknownTemplate | InstanceNotFound | InstanceExists
  | HostSecretMissing | ImagePullFailed | HostDraining | PortConflict | NetworkNameConflict | SameHost
  | VolumeIntegrity | BackupNotFound | BackupNotRestorable | BackupBusy | BackupsDisabled | InvalidBackupScope
  | IngressReconcileFailed | InvalidParameters | ReadyTimeout | StillStarting | InvalidEvacuation | CtxCanceled
  | BlobNotExist

text \<open>An error: the sentinels it wraps and the constant part of its message.\<close>

datatype rerr = RErr "sentinel list" string

fun errors_Is :: "rerr \<Rightarrow> sentinel \<Rightarrow> bool" where
  "errors_Is (RErr ws _) s \<longleftrightarrow> s \<in> set ws"

fun wraps :: "rerr \<Rightarrow> sentinel list" where
  "wraps (RErr ws _) = ws"

subsection \<open>Calls\<close>

text \<open>
  The context of a call: the one of the job or request, which may be cancelled, or one detached from
  it with \<^verbatim>\<open>context.WithoutCancel\<close>.
\<close>

datatype ctx = JobCtx | Detached

type_synonym ('w, 'a) call = "'w \<Rightarrow> (rerr + 'a) \<times> 'w"

text \<open>A call on a world that carries a log, which it leaves alone.\<close>

definition lift_call :: "('w \<Rightarrow> 'a \<times> 'w) \<Rightarrow> 'w \<times> 'l \<Rightarrow> 'a \<times> 'w \<times> 'l" where
  "lift_call f v = (case f (fst v) of (r, w') \<Rightarrow> (r, (w', snd v)))"

lemma fst_lift_call: "fst (lift_call f v) = fst (f (fst v))"
  by (simp add: lift_call_def split: prod.splits)

end
