(* ===== verification/Go_Regexp.thy ===== *)
theory Go_Regexp
  imports Go_Prelude
begin

text \<open>
  Package \<^verbatim>\<open>regexp\<close>, as far as the code's patterns use it: byte classes, concatenation,
  alternation, repetition. A pattern \<^verbatim>\<open>^r$\<close> is the expression \<open>r\<close>; a pattern that is not
  anchored at its end is followed by \<open>anything\<close>. \<open>MatchString\<close> computes by derivatives; it
  decides the language of the expression (\<open>MatchString_lang\<close>), which the pattern lemmas
  of the components use.
\<close>

named_theorems pattern_langs "the languages of the code's patterns"

datatype rexp =
    Never
  | Eps
  | Cls "(char \<times> char) list"
  | Seq rexp rexp
  | Alt rexp rexp
  | Star rexp

fun in_class :: "(char \<times> char) list \<Rightarrow> char \<Rightarrow> bool" where
  "in_class [] c \<longleftrightarrow> False"
| "in_class ((lo, hi) # rs) c \<longleftrightarrow> lo \<le> c \<and> c \<le> hi \<or> in_class rs c"

subsection \<open>Languages\<close>

definition conc :: "string set \<Rightarrow> string set \<Rightarrow> string set" where
  "conc A B = {u @ v | u v. u \<in> A \<and> v \<in> B}"

inductive_set star :: "string set \<Rightarrow> string set" for A where
  star_Nil: "[] \<in> star A"
| star_app: "u \<in> A \<Longrightarrow> v \<in> star A \<Longrightarrow> u @ v \<in> star A"

primrec lang :: "rexp \<Rightarrow> string set" where
  "lang Never = {}"
| "lang Eps = {[]}"
| "lang (Cls rs) = {[c] | c. in_class rs c}"
| "lang (Seq r s) = conc (lang r) (lang s)"
| "lang (Alt r s) = lang r \<union> lang s"
| "lang (Star r) = star (lang r)"

subsection \<open>Derivatives\<close>

primrec nullable :: "rexp \<Rightarrow> bool" where
  "nullable Never = False"
| "nullable Eps = True"
| "nullable (Cls rs) = False"
| "nullable (Seq r s) = (nullable r \<and> nullable s)"
| "nullable (Alt r s) = (nullable r \<or> nullable s)"
| "nullable (Star r) = True"

text \<open>Concatenation and alternation that drop what cannot match, so that derivatives stay small.\<close>

fun mk_seq :: "rexp \<Rightarrow> rexp \<Rightarrow> rexp" where
  "mk_seq Never s = Never"
| "mk_seq Eps s = s"
| "mk_seq r s = Seq r s"

fun mk_alt :: "rexp \<Rightarrow> rexp \<Rightarrow> rexp" where
  "mk_alt Never s = s"
| "mk_alt r Never = r"
| "mk_alt r s = (if r = s then r else Alt r s)"

primrec deriv :: "char \<Rightarrow> rexp \<Rightarrow> rexp" where
  "deriv c Never = Never"
| "deriv c Eps = Never"
| "deriv c (Cls rs) = (if in_class rs c then Eps else Never)"
| "deriv c (Seq r s) =
     (if nullable r then mk_alt (mk_seq (deriv c r) s) (deriv c s) else mk_seq (deriv c r) s)"
| "deriv c (Alt r s) = mk_alt (deriv c r) (deriv c s)"
| "deriv c (Star r) = mk_seq (deriv c r) (Star r)"

fun MatchString :: "rexp \<Rightarrow> string \<Rightarrow> bool" where
  "MatchString r [] = nullable r"
| "MatchString r (c # s) = MatchString (deriv c r) s"

lemma conc_simps [simp]: "conc {} B = {}" "conc A {} = {}" "conc {[]} B = B" "conc A {[]} = A"
  by (auto simp: conc_def)

lemma lang_mk_seq [simp]: "lang (mk_seq r s) = conc (lang r) (lang s)"
  by (cases "(r, s)" rule: mk_seq.cases) auto

lemma lang_mk_alt [simp]: "lang (mk_alt r s) = lang r \<union> lang s"
  by (cases "(r, s)" rule: mk_alt.cases) auto

lemma nullable_iff: "nullable r \<longleftrightarrow> [] \<in> lang r"
  by (induction r) (auto simp: conc_def star_Nil)

lemma Cons_conc:
  "c # w \<in> conc A B \<longleftrightarrow>
     (\<exists>u v. w = u @ v \<and> c # u \<in> A \<and> v \<in> B) \<or> [] \<in> A \<and> c # w \<in> B"
  by (auto simp: conc_def Cons_eq_append_conv)

lemma Nil_conc [simp]: "[] \<in> conc A B \<longleftrightarrow> [] \<in> A \<and> [] \<in> B"
  by (auto simp: conc_def)

lemma Cons_star: "c # w \<in> star A \<longleftrightarrow> (\<exists>u v. w = u @ v \<and> c # u \<in> A \<and> v \<in> star A)"
proof
  have "x \<in> star A \<Longrightarrow> x = c # w \<Longrightarrow> \<exists>u v. w = u @ v \<and> c # u \<in> A \<and> v \<in> star A" for x
  proof (induction arbitrary: w rule: star.induct)
    case (star_app u v)
    then show ?case by (cases u) auto
  qed simp
  then show "c # w \<in> star A \<Longrightarrow> \<exists>u v. w = u @ v \<and> c # u \<in> A \<and> v \<in> star A" by blast
next
  assume "\<exists>u v. w = u @ v \<and> c # u \<in> A \<and> v \<in> star A"
  then show "c # w \<in> star A" by (metis append_Cons star_app)
qed

lemma lang_deriv: "w \<in> lang (deriv c r) \<longleftrightarrow> c # w \<in> lang r"
proof (induction r arbitrary: w)
  case (Seq r s)
  then show ?case
    by (auto simp: Cons_conc nullable_iff) (auto simp: conc_def)
next
  case (Star r)
  then show ?case by (auto simp: Cons_star) (auto simp: conc_def)
qed auto

theorem MatchString_lang: "MatchString r s \<longleftrightarrow> s \<in> lang r"
  by (induction s arbitrary: r) (auto simp: nullable_iff lang_deriv)

subsection \<open>Derived operators\<close>

primrec Rep :: "nat \<Rightarrow> rexp \<Rightarrow> rexp" where
  "Rep 0 r = Eps"
| "Rep (Suc n) r = Seq r (Rep n r)"

primrec UpTo :: "nat \<Rightarrow> rexp \<Rightarrow> rexp" where
  "UpTo 0 r = Eps"
| "UpTo (Suc n) r = Alt Eps (Seq r (UpTo n r))"

text \<open>\<^verbatim>\<open>r{m,n}\<close>, \<^verbatim>\<open>r{m,}\<close>, \<^verbatim>\<open>r+\<close>, \<^verbatim>\<open>r?\<close>, a literal, and what may follow an unanchored pattern.\<close>

definition Between :: "nat \<Rightarrow> nat \<Rightarrow> rexp \<Rightarrow> rexp" where
  "Between m n r = Seq (Rep m r) (UpTo (n - m) r)"

definition AtLeast :: "nat \<Rightarrow> rexp \<Rightarrow> rexp" where
  "AtLeast m r = Seq (Rep m r) (Star r)"

definition Plus :: "rexp \<Rightarrow> rexp" where
  "Plus r = Seq r (Star r)"

definition Opt :: "rexp \<Rightarrow> rexp" where
  "Opt r = Alt Eps r"

primrec Lit :: "string \<Rightarrow> rexp" where
  "Lit [] = Eps"
| "Lit (c # s) = Seq (Cls [(c, c)]) (Lit s)"

definition anything :: rexp where
  "anything = Star (Cls [(CHR 0x00, CHR 0xFF)])"

lemma in_class_all [simp]: "in_class [(CHR 0x00, CHR 0xFF)] c"
proof -
  from nat_of_char_less_256 [of c] have "(of_char c :: nat) \<le> 255" by linarith
  then show ?thesis by (simp add: less_eq_char_def)
qed

lemma in_class_point [simp]: "in_class [(c, c)] d \<longleftrightarrow> d = c"
  by auto

lemma star_class: "s \<in> star {[c] | c. P c} \<longleftrightarrow> list_all P s"
  by (induction s) (auto simp: Cons_star star_Nil)

lemma lang_Star_Cls [pattern_langs]: "lang (Star (Cls rs)) = {s. list_all (in_class rs) s}"
  by (auto simp: star_class)

lemma lang_anything [pattern_langs]: "lang anything = UNIV"
  unfolding anything_def lang_Star_Cls by (auto simp: list_all_iff simp del: in_class.simps)

lemma lang_Rep_Cls [pattern_langs]: "lang (Rep n (Cls rs)) = {s. length s = n \<and> list_all (in_class rs) s}"
proof (induction n)
  case (Suc n)
  show ?case
  proof (rule set_eqI)
    fix s
    show "s \<in> lang (Rep (Suc n) (Cls rs)) \<longleftrightarrow> s \<in> {s. length s = Suc n \<and> list_all (in_class rs) s}"
      by (cases s) (auto simp: Cons_conc Suc.IH)
  qed
qed auto

lemma lang_UpTo_Cls [pattern_langs]: "lang (UpTo n (Cls rs)) = {s. length s \<le> n \<and> list_all (in_class rs) s}"
proof (induction n)
  case (Suc n)
  show ?case
  proof (rule set_eqI)
    fix s
    show "s \<in> lang (UpTo (Suc n) (Cls rs)) \<longleftrightarrow> s \<in> {s. length s \<le> Suc n \<and> list_all (in_class rs) s}"
      by (cases s) (auto simp: Cons_conc Suc.IH)
  qed
qed auto

lemma conc_list_all:
  "conc {s. length s = m \<and> list_all P s} {s. Q (length s) \<and> list_all P s} =
   {s. m \<le> length s \<and> Q (length s - m) \<and> list_all P s}"
proof (rule set_eqI)
  fix s
  show "s \<in> conc {s. length s = m \<and> list_all P s} {s. Q (length s) \<and> list_all P s} \<longleftrightarrow>
    s \<in> {s. m \<le> length s \<and> Q (length s - m) \<and> list_all P s}"
  proof
    assume "s \<in> {s. m \<le> length s \<and> Q (length s - m) \<and> list_all P s}"
    then have "take m s \<in> {s. length s = m \<and> list_all P s}" "drop m s \<in> {s. Q (length s) \<and> list_all P s}"
      by (auto simp: list_all_iff dest: in_set_takeD in_set_dropD)
    then show "s \<in> conc {s. length s = m \<and> list_all P s} {s. Q (length s) \<and> list_all P s}"
      unfolding conc_def by (smt (verit) append_take_drop_id mem_Collect_eq)
  qed (auto simp: conc_def)
qed

lemma lang_Between_Cls [pattern_langs]:
  assumes "m \<le> n"
  shows "lang (Between m n (Cls rs)) = {s. m \<le> length s \<and> length s \<le> n \<and> list_all (in_class rs) s}"
proof -
  have "lang (Between m n (Cls rs)) =
      {s. m \<le> length s \<and> length s - m \<le> n - m \<and> list_all (in_class rs) s}"
    unfolding Between_def lang.simps(4) lang_Rep_Cls lang_UpTo_Cls
    by (rule conc_list_all [of m "in_class rs" "\<lambda>l. l \<le> n - m"])
  also have "\<dots> = {s. m \<le> length s \<and> length s \<le> n \<and> list_all (in_class rs) s}"
    by (rule Collect_cong) (use assms in auto)
  finally show ?thesis .
qed

lemma lang_AtLeast_Cls [pattern_langs]:
  "lang (AtLeast m (Cls rs)) = {s. m \<le> length s \<and> list_all (in_class rs) s}"
  using conc_list_all [of m "in_class rs" "\<lambda>_. True"]
  unfolding AtLeast_def lang.simps(4) lang_Rep_Cls lang_Star_Cls by simp

lemma lang_Plus_Cls [pattern_langs]: "lang (Plus (Cls rs)) = {s. s \<noteq> [] \<and> list_all (in_class rs) s}"
proof (rule set_eqI)
  fix s
  show "s \<in> lang (Plus (Cls rs)) \<longleftrightarrow> s \<in> {s. s \<noteq> [] \<and> list_all (in_class rs) s}"
    unfolding Plus_def lang.simps(4) lang_Star_Cls by (cases s) (auto simp: Cons_conc)
qed

lemma lang_Lit [pattern_langs]: "lang (Lit s) = {s}"
proof (induction s)
  case (Cons c s)
  have "lang (Cls [(c, c)]) = {[c]}" by (simp del: in_class.simps)
  then show ?case using Cons by (simp only: Lit.simps lang.simps(4)) (simp add: conc_def)
qed simp

text \<open>The bytes a pattern can match at all.\<close>

primrec alphabet :: "rexp \<Rightarrow> (char \<times> char) list" where
  "alphabet Never = []"
| "alphabet Eps = []"
| "alphabet (Cls rs) = rs"
| "alphabet (Seq r s) = alphabet r @ alphabet s"
| "alphabet (Alt r s) = alphabet r @ alphabet s"
| "alphabet (Star r) = alphabet r"

lemma in_class_append [simp]: "in_class (xs @ ys) c \<longleftrightarrow> in_class xs c \<or> in_class ys c"
  by (induction xs c rule: in_class.induct) auto

lemma star_alphabet: "(\<And>u. u \<in> A \<Longrightarrow> \<forall>c\<in>set u. P c) \<Longrightarrow> s \<in> star A \<Longrightarrow> \<forall>c\<in>set s. P c"
  by (rotate_tac, induction rule: star.induct) auto

lemma lang_alphabet: "s \<in> lang r \<Longrightarrow> c \<in> set s \<Longrightarrow> in_class (alphabet r) c"
proof (induction r arbitrary: s c)
  case (Star r)
  then show ?case using star_alphabet [of "lang r" "in_class (alphabet r)" s] by auto
qed (auto simp: conc_def)

lemma MatchString_alphabet: "MatchString r s \<Longrightarrow> c \<in> set s \<Longrightarrow> in_class (alphabet r) c"
  by (simp add: MatchString_lang lang_alphabet)

lemma alphabet_Rep: "in_class (alphabet (Rep n r)) c \<Longrightarrow> in_class (alphabet r) c"
  by (induction n) auto

lemma alphabet_UpTo: "in_class (alphabet (UpTo n r)) c \<Longrightarrow> in_class (alphabet r) c"
  by (induction n) auto

lemma alphabet_Between: "in_class (alphabet (Between m n r)) c \<Longrightarrow> in_class (alphabet r) c"
  by (auto simp: Between_def dest: alphabet_Rep alphabet_UpTo)

lemma alphabet_AtLeast: "in_class (alphabet (AtLeast m r)) c \<Longrightarrow> in_class (alphabet r) c"
  by (auto simp: AtLeast_def dest: alphabet_Rep)

end
