(* ===== verification/Template_Meta.thy ===== *)
theory Template_Meta
  imports Go_Errors Go_Regexp
begin

text \<open>
  The template contract of \<^verbatim>\<open>internal/render\<close>: the types of \<^verbatim>\<open>meta.go\<close> and their validators, and
  \<^verbatim>\<open>validate.go\<close>, which checks and completes the parameters and secrets of an instance. A Go map is an
  association list in the order in which it happens to be iterated.
\<close>

subsection \<open>Data\<close>

text \<open>A decoded JSON value; an association list stands for an object.\<close>

datatype json =
    JNull
  | JBool bool
  | JNumber string
  | JString string
  | JArray "json list"
  | JObject "(string \<times> json) list"

record Network =
  net_Name :: string
  net_Aliases :: "string list"

record ParamDef =
  pd_Name :: string
  pd_Type :: string
  pd_Required :: bool
  pd_Default :: "json option"
  pd_Options :: "string list"
  pd_Secret :: bool

record Secrets =
  sec_PerInstance :: "string list"
  sec_PerHostReferenced :: "string list"

record LiveBackup =
  lb_Container :: string
  lb_PreExec :: "string list"
  lb_BackupExec :: "string list"
  lb_PostExec :: "string list"
  lb_OutputPath :: string
  lb_RestoreExec :: "string list"
  lb_RestorePreExec :: "string list"
  lb_RestorePostExec :: "string list"
  lb_RestoreStagePath :: string

record Volume =
  vol_Name :: string
  vol_Backup :: string
  vol_Exclude :: "string list"
  vol_LiveBackup :: "LiveBackup option"

record Ingress =
  ing_Container :: string
  ing_Port :: int

record PreBackup =
  pb_Container :: string
  pb_Command :: string

text \<open>The display texts are left out; \<open>meta_ContainerNames\<close> is \<open>None\<close> when it was never extracted.\<close>

record Meta =
  meta_ID :: string
  meta_Parameters :: "ParamDef list"
  meta_Secrets :: Secrets
  meta_Volumes :: "Volume list"
  meta_Ingress :: "Ingress option"
  meta_Networks :: "Network list"
  meta_PreBackup :: "PreBackup option"
  meta_ContainerNames :: "string list option"

subsection \<open>Names\<close>

definition NameRe :: rexp where
  "NameRe =
     Seq (Cls [(CHR ''a'', CHR ''z''), (CHR ''0'', CHR ''9'')])
       (Seq (Between 0 38 (Cls [(CHR ''a'', CHR ''z''), (CHR ''0'', CHR ''9''), (CHR ''-'', CHR ''-'')]))
            (Cls [(CHR ''a'', CHR ''z''), (CHR ''0'', CHR ''9'')]))"

definition ValidName :: "string \<Rightarrow> bool" where
  "ValidName s = MatchString NameRe s"

subsection \<open>Validating a declaration\<close>

definition BackupMarkerNone :: string where
  "BackupMarkerNone = ''none''"

definition IsBackupMarkerNone :: "string \<Rightarrow> bool" where
  "IsBackupMarkerNone marker = EqualFold (TrimSpace marker) BackupMarkerNone"

definition ValidateLiveBackup :: "LiveBackup option \<Rightarrow> rerr option" where
  "ValidateLiveBackup l =
     (case l of
        None \<Rightarrow> None
      | Some lb \<Rightarrow>
          if lb_Container lb = '''' then Some (RErr [] ''live_backup: container is required'')
          else if lb_BackupExec lb = [] then Some (RErr [] ''live_backup: backup_exec is required'')
          else if lb_OutputPath lb = '''' then Some (RErr [] ''live_backup: output_path is required'')
          else if lb_RestoreExec lb = [] then Some (RErr [] ''live_backup: restore_exec is required'')
          else if lb_RestoreStagePath lb = '''' then Some (RErr [] ''live_backup: restore_stage_path is required'')
          else if list_ex (list_ex (\<lambda>arg. arg = ''''))
            [lb_PreExec lb, lb_BackupExec lb, lb_PostExec lb, lb_RestoreExec lb, lb_RestorePreExec lb, lb_RestorePostExec lb]
          then Some (RErr [] ''live_backup: exec argv contains an empty element'')
          else None)"

definition ValidateIngress :: "Ingress option \<Rightarrow> rerr option" where
  "ValidateIngress i =
     (case i of
        None \<Rightarrow> None
      | Some ing \<Rightarrow>
          if ing_Container ing = '''' then Some (RErr [] ''template-meta: ingress.container is required'')
          else if ing_Port ing \<le> 0 \<or> ing_Port ing > 65535 then Some (RErr [] ''template-meta: ingress.port out of range'')
          else None)"

fun check_aliases :: "string list \<Rightarrow> string set \<Rightarrow> rerr option" where
  "check_aliases [] aliases = None"
| "check_aliases (a # as) aliases =
     (if TrimSpace a = '''' then Some (RErr [] ''aliases entries must not be empty'')
      else if \<not> ValidName a then Some (RErr [] ''not a valid alias'')
      else if a \<in> aliases then Some (RErr [] ''alias declared twice'')
      else check_aliases as (insert a aliases))"

fun check_networks :: "Network list \<Rightarrow> string set \<Rightarrow> rerr option" where
  "check_networks [] seen = None"
| "check_networks (n # ns) seen =
     (if TrimSpace (net_Name n) = '''' then Some (RErr [] ''entries must not be empty'')
      else if \<not> ValidName (net_Name n) then Some (RErr [] ''not a valid network name'')
      else if net_Name n \<in> seen then Some (RErr [] ''network declared twice'')
      else case check_aliases (net_Aliases n) {} of
        Some e \<Rightarrow> Some e
      | None \<Rightarrow> check_networks ns (insert (net_Name n) seen))"

definition ValidateNetworkList :: "Network list \<Rightarrow> rerr option" where
  "ValidateNetworkList nets = check_networks nets {}"

fun ValidateParamDefs :: "ParamDef list \<Rightarrow> rerr option" where
  "ValidateParamDefs [] = None"
| "ValidateParamDefs (p # ps) =
     (if pd_Secret p then Some (RErr [] ''parameter sets secret: true, which is not supported'') else ValidateParamDefs ps)"

definition validParamTypes :: "string list" where
  "validParamTypes = [''string'', ''int'', ''bool'', ''select'']"

fun NormalizeParams :: "ParamDef list \<Rightarrow> rerr + ParamDef list" where
  "NormalizeParams [] = Inr []"
| "NormalizeParams (p # ps) =
     (if pd_Type p = '''' then map_sum id (Cons (p\<lparr>pd_Type := ''string''\<rparr>)) (NormalizeParams ps)
      else if pd_Type p \<notin> set validParamTypes then Inl (RErr [] ''parameter has unknown type'')
      else map_sum id (Cons p) (NormalizeParams ps))"

lemma check_aliases_None:
  "check_aliases as seen = None \<longleftrightarrow> list_all (\<lambda>a. TrimSpace a \<noteq> '''' \<and> ValidName a) as \<and> distinct as \<and> set as \<inter> seen = {}"
  by (induction as arbitrary: seen) auto

text \<open>An accepted list has distinct, valid names, and in each network distinct, valid aliases.\<close>

lemma check_networks_None:
  "check_networks ns seen = None \<longleftrightarrow>
     list_all (\<lambda>n. TrimSpace (net_Name n) \<noteq> '''' \<and> ValidName (net_Name n) \<and> check_aliases (net_Aliases n) {} = None) ns \<and>
     distinct (map net_Name ns) \<and> net_Name ` set ns \<inter> seen = {}"
  by (induction ns arbitrary: seen) (auto split: option.splits)

subsection \<open>Parameters and secrets of an instance\<close>

definition has_key :: "(string \<times> 'v) list \<Rightarrow> string \<Rightarrow> bool" where
  "has_key m k \<longleftrightarrow> map_of m k \<noteq> None"

definition contract_problems :: "Meta \<Rightarrow> (string \<times> json) list \<Rightarrow> (string \<times> string) list \<Rightarrow> bool \<Rightarrow> string list" where
  "contract_problems m params secrets allowMissingSecrets =
     map (\<lambda>p. ''missing required parameter '' @ pd_Name p)
       (filter (\<lambda>p. pd_Required p \<and> \<not> has_key params (pd_Name p)) (meta_Parameters m)) @
     map (\<lambda>(k, _). ''unknown parameter '' @ k) (filter (\<lambda>(k, _). k \<notin> pd_Name ` set (meta_Parameters m)) params) @
     (if allowMissingSecrets then []
      else map (\<lambda>k. ''missing required secret '' @ k) (filter (\<lambda>k. \<not> has_key secrets k) (sec_PerInstance (meta_Secrets m)))) @
     map (\<lambda>(k, _). ''unknown secret '' @ k) (filter (\<lambda>(k, _). k \<notin> set (sec_PerInstance (meta_Secrets m))) secrets)"

definition validate_contract :: "Meta \<Rightarrow> (string \<times> json) list \<Rightarrow> (string \<times> string) list \<Rightarrow> bool \<Rightarrow> rerr option" where
  "validate_contract m params secrets allowMissingSecrets =
     (case sort (contract_problems m params secrets allowMissingSecrets) of
        [] \<Rightarrow> None
      | p # ps \<Rightarrow> Some (RErr [InvalidParameters] (p @ concat (map (\<lambda>q. ''; '' @ q) ps))))"

fun fill_defaults :: "ParamDef list \<Rightarrow> (string \<times> json) list \<Rightarrow> (string \<times> json) list" where
  "fill_defaults [] out = out"
| "fill_defaults (p # ps) out =
     fill_defaults ps
       (case pd_Default p of
          Some d \<Rightarrow> if has_key out (pd_Name p) then out else AList.update (pd_Name p) d out
        | None \<Rightarrow> out)"

definition ApplyDefaults :: "Meta \<Rightarrow> (string \<times> json) list \<Rightarrow> (string \<times> json) list" where
  "ApplyDefaults m params = fill_defaults (meta_Parameters m) params"

text \<open>Values the caller gives win.\<close>

lemma fill_defaults_keeps: "map_of out k = Some v \<Longrightarrow> map_of (fill_defaults ps out) k = Some v"
proof (induction ps arbitrary: out)
  case (Cons p ps)
  have "map_of (AList.update (pd_Name p) d out) k = Some v" if "\<not> has_key out (pd_Name p)" for d
    using that Cons.prems by (auto simp: has_key_def update_conv')
  with Cons show ?case by (auto split: option.splits)
qed simp

text \<open>What an accepted instance looks like.\<close>

lemma validate_contract_None:
  "validate_contract m params secrets allow = None \<longleftrightarrow>
     (\<forall>p\<in>set (meta_Parameters m). pd_Required p \<longrightarrow> has_key params (pd_Name p)) \<and>
     fst ` set params \<subseteq> pd_Name ` set (meta_Parameters m) \<and>
     (allow \<or> (\<forall>k\<in>set (sec_PerInstance (meta_Secrets m)). has_key secrets k)) \<and>
     fst ` set secrets \<subseteq> set (sec_PerInstance (meta_Secrets m))"
proof -
  have sort_Nil: "sort xs = [] \<longleftrightarrow> xs = []" for xs :: "string list" by (metis length_0_conv length_sort)
  have "validate_contract m params secrets allow = None \<longleftrightarrow> contract_problems m params secrets allow = []"
    by (cases "sort (contract_problems m params secrets allow)")
      (simp_all add: validate_contract_def flip: sort_Nil [of "contract_problems m params secrets allow"])
  then show ?thesis by (auto simp: contract_problems_def filter_empty_conv split_beta image_iff subset_iff)
qed

end
