(* ===== verification/Store_Data.thy ===== *)
theory Store_Data
  imports Job_Store Template_Meta
begin

text \<open>
  The rows of the store besides jobs (\<^verbatim>\<open>internal/store/store.go\<close>,
  \<^verbatim>\<open>internal/store/backups.go\<close>) and the two backends' state: \<^verbatim>\<open>Memory\<close>, whose
  maps are association lists in an arbitrary iteration order, and \<^verbatim>\<open>SQLite\<close>, whose tables are
  lists of rows.
\<close>

subsection \<open>Specs\<close>

record InjectorSecret =
  inj_Name :: string
  inj_Key :: string
  inj_Value :: string

record AppliedVolumeMarker =
  avm_Backup :: string
  avm_Exclude :: "string list"

text \<open>\<open>None\<close> in the three applied fields is Go's nil: unknown, as distinct from known and empty.\<close>

record Spec =
  spec_Host :: string
  spec_Template :: string
  spec_Slug :: string
  spec_Parameters :: "(string \<times> json) list"
  spec_Secrets :: "(string \<times> string) list"
  spec_InjectorSecrets :: "InjectorSecret list"
  spec_Domains :: "string list"
  spec_AppliedVolumes :: "string list option"
  spec_AppliedVolumeMeta :: "(string \<times> AppliedVolumeMarker) list option"
  spec_AppliedNetworks :: "Network list option"
  spec_Created :: time
  spec_Updated :: time

record SpecKey =
  key_Template :: string
  key_Slug :: string

record SpecNetworks =
  sn_Key :: SpecKey
  sn_Networks :: "Network list option"

subsection \<open>Templates\<close>

record Template =
  tmpl_Meta :: Meta
  tmpl_Body :: string
  tmpl_Origin :: string
  tmpl_Created :: time
  tmpl_Updated :: time

subsection \<open>Backups\<close>

datatype BackupState = BackupCreating | BackupComplete | BackupFailed

record ExcludedPaths =
  ex_Patterns :: "string list"
  ex_Entries :: int
  ex_Bytes :: int

record BackupVolume =
  bv_Name :: string
  bv_SizeBytes :: int
  bv_Manifest :: string
  bv_ManifestSHA256 :: string
  bv_Excluded :: "ExcludedPaths option"

record Backup =
  backup_ID :: string
  backup_Host :: string
  backup_Template :: string
  backup_Slug :: string
  backup_State :: BackupState
  backup_Volumes :: "BackupVolume list"
  backup_Image :: string
  backup_Mode :: string
  backup_Created :: time
  backup_Finished :: time

subsection \<open>The in-memory backend\<close>

record Memory =
  mem_specs :: "(string \<times> Spec) list"
  mem_jobs :: "Job list"
  mem_hostSecrets :: "(string \<times> string) list"
  mem_templates :: "(string \<times> Template) list"
  mem_backups :: "(string \<times> Backup) list"
  mem_PutErr :: "store_error option"
  mem_DeleteErr :: "store_error option"
  mem_ListSpecKeysErr :: "store_error option"
  mem_getSpecErr :: "store_error option"

definition NewMemory :: Memory where
  "NewMemory =
     \<lparr>mem_specs = [], mem_jobs = [], mem_hostSecrets = [], mem_templates = [], mem_backups = [],
      mem_PutErr = None, mem_DeleteErr = None, mem_ListSpecKeysErr = None, mem_getSpecErr = None\<rparr>"

subsection \<open>The SQLite backend\<close>

text \<open>
  A nullable column is an option. The JSON columns of jobs and backups hold decoded values, those of
  specs and templates their text, and the sealed columns their bytes. \<open>sql_keys\<close> is the loaded
  encryption key, \<open>None\<close> when the store was opened without one. The state carries the
  driver's verdicts on the statements still to be executed, oldest first: \<open>Some e\<close> when the
  statement fails with \<open>e\<close> after the write path's retries, \<open>None\<close> when it succeeds; a statement
  beyond the end of the list succeeds. Nothing is assumed about the verdicts.
\<close>

record JobRow =
  row_id :: string
  row_kind :: string
  row_args :: string
  row_state :: JobState
  row_steps :: "JobStep list"
  row_parent_id :: "string option"
  row_error :: "string option"
  row_created :: int
  row_started :: "int option"
  row_finished :: "int option"

record BackupRow =
  brow_id :: string
  brow_host :: string
  brow_template :: string
  brow_slug :: string
  brow_state :: BackupState
  brow_volumes :: "BackupVolume list"
  brow_image :: string
  brow_mode :: string
  brow_created :: int
  brow_finished :: "int option"

record SpecRow =
  srow_host :: string
  srow_template :: string
  srow_slug :: string
  srow_parameters :: string
  srow_secrets :: "string option"
  srow_injector_secrets :: "string option"
  srow_domains :: string
  srow_applied_volumes :: "string option"
  srow_applied_volume_meta :: "string option"
  srow_applied_networks :: "string option"
  srow_created :: int
  srow_updated :: int

record HostSecretRow =
  hrow_host :: string
  hrow_name :: string
  hrow_value :: string
  hrow_created :: int
  hrow_updated :: int

record TemplateRow =
  trow_id :: string
  trow_body :: string
  trow_meta :: string
  trow_origin :: string
  trow_created :: int
  trow_updated :: int

record SQLite =
  sql_jobs :: "JobRow list"
  sql_backups :: "BackupRow list"
  sql_specs :: "SpecRow list"
  sql_host_secrets :: "HostSecretRow list"
  sql_templates :: "TemplateRow list"
  sql_keys :: "string option"
  sql_verdicts :: "string option list"

definition next_verdict :: "SQLite \<Rightarrow> string option \<times> SQLite" where
  "next_verdict s =
     (case sql_verdicts s of [] \<Rightarrow> (None, s) | v # vs \<Rightarrow> (v, s\<lparr>sql_verdicts := vs\<rparr>))"

text \<open>One statement: fail with the driver's error, or run it on the state.\<close>

definition sql_exec :: "(SQLite \<Rightarrow> 'a result \<times> SQLite) \<Rightarrow> SQLite \<Rightarrow> 'a result \<times> SQLite" where
  "sql_exec stmt s =
     (case next_verdict s of (Some e, s') \<Rightarrow> (Inl (ErrDriver e), s') | (None, s') \<Rightarrow> stmt s')"

text \<open>The state but for the verdicts.\<close>

definition sql_tables :: "SQLite \<Rightarrow> SQLite" where
  "sql_tables s = s\<lparr>sql_verdicts := []\<rparr>"

lemma sql_tables_next_verdict [simp]: "sql_tables (snd (next_verdict s)) = sql_tables s"
  by (simp add: next_verdict_def sql_tables_def split: list.splits)

lemma sql_tables_eqD:
  assumes "sql_tables s1 = sql_tables s"
  shows "sql_jobs s1 = sql_jobs s" "sql_backups s1 = sql_backups s" "sql_specs s1 = sql_specs s"
    "sql_host_secrets s1 = sql_host_secrets s" "sql_templates s1 = sql_templates s" "sql_keys s1 = sql_keys s"
  using assms by (auto simp: sql_tables_def dest: arg_cong [of _ _ sql_jobs] arg_cong [of _ _ sql_backups]
      arg_cong [of _ _ sql_specs] arg_cong [of _ _ sql_host_secrets] arg_cong [of _ _ sql_templates] arg_cong [of _ _ sql_keys])

lemma sql_exec_tables:
  obtains (fail) e s1 where "sql_exec stmt s = (Inl (ErrDriver e), s1)" "sql_tables s1 = sql_tables s"
  | (run) s1 where "sql_exec stmt s = stmt s1" "sql_tables s1 = sql_tables s"
proof (cases "next_verdict s")
  case (Pair v s1)
  then have "sql_tables s1 = sql_tables s" using sql_tables_next_verdict [of s] by simp
  with Pair that show ?thesis by (cases v) (simp_all add: sql_exec_def)
qed

lemma sql_exec_no_fault: "sql_verdicts s = [] \<Longrightarrow> sql_exec stmt s = stmt s"
  by (simp add: sql_exec_def next_verdict_def)

definition empty_db :: SQLite where
  "empty_db =
     \<lparr>sql_jobs = [], sql_backups = [], sql_specs = [], sql_host_secrets = [], sql_templates = [], sql_keys = None,
      sql_verdicts = []\<rparr>"

end
