(* ===== verification/Memory_Jobs.thy ===== *)
theory Memory_Jobs
  imports Store_Data
begin

text \<open>
  The job operations of \<^verbatim>\<open>internal/store/memory.go\<close>, each a whole method under the store's
  mutex, and their interpretation as a \<^verbatim>\<open>job_store\<close>: ids are distinct and the slice is in the
  order of creation.
\<close>

subsection \<open>Operations\<close>

definition mem_Enqueue ::
  "string \<Rightarrow> time \<Rightarrow> string \<Rightarrow> string \<Rightarrow> string \<Rightarrow> Memory \<Rightarrow> Job result \<times> Memory" where
  "mem_Enqueue newID now kind args parentID m =
     (let j = \<lparr>job_ID = newID, job_Kind = kind,
               job_Args = (if length args = 0 then ''null'' else args),
               job_State = JobQueued, job_Steps = [], job_ParentID = parentID, job_Error = '''',
               job_Created = now, job_Started = 0, job_Finished = 0\<rparr>
      in (Inr j, m\<lparr>mem_jobs := mem_jobs m @ [j]\<rparr>))"

definition mem_StartChild ::
  "string \<Rightarrow> time \<Rightarrow> string \<Rightarrow> string \<Rightarrow> string \<Rightarrow> Memory \<Rightarrow> Job result \<times> Memory" where
  "mem_StartChild newID now kind args parentID m =
     (let j = \<lparr>job_ID = newID, job_Kind = kind,
               job_Args = (if length args = 0 then ''null'' else args),
               job_State = JobRunning, job_Steps = [], job_ParentID = parentID, job_Error = '''',
               job_Created = now, job_Started = now, job_Finished = 0\<rparr>
      in (Inr j, m\<lparr>mem_jobs := mem_jobs m @ [j]\<rparr>))"

definition mem_GetJob :: "string \<Rightarrow> Memory \<Rightarrow> Job result \<times> Memory" where
  "mem_GetJob i m =
     (case find (\<lambda>j. job_ID j = i) (mem_jobs m) of
        Some j \<Rightarrow> (Inr j, m)
      | None \<Rightarrow> (Inl ErrNotFound, m))"

text \<open>The four \<^verbatim>\<open>continue\<close> guards of the loop, in order.\<close>

fun mem_matched :: "JobFilter \<Rightarrow> Job list \<Rightarrow> Job list" where
  "mem_matched f [] = []"
| "mem_matched f (j # js) =
     (if f_State f \<noteq> None \<and> f_State f \<noteq> Some (job_State j) then mem_matched f js
      else if f_Kind f \<noteq> '''' \<and> job_Kind j \<noteq> f_Kind f then mem_matched f js
      else if f_ParentID f \<noteq> '''' \<and> job_ParentID j \<noteq> f_ParentID f then mem_matched f js
      else if f_Before f \<noteq> '''' \<and> \<not> job_ID j < f_Before f then mem_matched f js
      else j # mem_matched f js)"

definition mem_ListJobs :: "JobFilter \<Rightarrow> Memory \<Rightarrow> Job list result \<times> Memory" where
  "mem_ListJobs f m =
     (let matched = rev (sort_key job_ID (mem_matched f (mem_jobs m)))
      in (Inr (take (nat (clampJobLimit (f_Limit f))) matched), m))"

definition mem_claim :: "(string \<Rightarrow> bool) \<Rightarrow> time \<Rightarrow> Memory \<Rightarrow> Job option result \<times> Memory" where
  "mem_claim want now m =
     (case upd_first (\<lambda>j. job_State j = JobQueued \<and> want (job_Kind j))
             (\<lambda>j. j\<lparr>job_State := JobRunning, job_Started := now\<rparr>) (mem_jobs m) of
        (r, js) \<Rightarrow> (Inr r, m\<lparr>mem_jobs := js\<rparr>))"

definition mem_ClaimNext :: "time \<Rightarrow> Memory \<Rightarrow> Job option result \<times> Memory" where
  "mem_ClaimNext now m = mem_claim (\<lambda>_. True) now m"

definition mem_ClaimNextMatching ::
  "time \<Rightarrow> string list \<Rightarrow> Memory \<Rightarrow> Job option result \<times> Memory" where
  "mem_ClaimNextMatching now kinds m =
     (if length kinds = 0 then (Inr None, m) else mem_claim (\<lambda>k. k \<in> set kinds) now m)"

definition mem_ClaimNextExcluding ::
  "time \<Rightarrow> string list \<Rightarrow> Memory \<Rightarrow> Job option result \<times> Memory" where
  "mem_ClaimNextExcluding now kinds m = mem_claim (\<lambda>k. k \<notin> set kinds) now m"

definition mem_AppendStep :: "string \<Rightarrow> JobStep \<Rightarrow> Memory \<Rightarrow> unit result \<times> Memory" where
  "mem_AppendStep i step m =
     (case upd_first (\<lambda>j. job_ID j = i)
             (\<lambda>j. j\<lparr>job_Steps := coalesceStep (job_Steps j) step\<rparr>) (mem_jobs m) of
        (Some _, js) \<Rightarrow> (Inr (), m\<lparr>mem_jobs := js\<rparr>)
      | (None, _) \<Rightarrow> (Inl ErrNotFound, m))"

definition mem_Finish :: "time \<Rightarrow> string \<Rightarrow> JobState \<Rightarrow> string \<Rightarrow> Memory \<Rightarrow> unit result \<times> Memory" where
  "mem_Finish now i state errMsg m =
     (if state \<noteq> JobSucceeded \<and> state \<noteq> JobFailed \<and> state \<noteq> JobCanceled
      then (Inl (ErrInvalidTerminalState state), m)
      else case upd_first (\<lambda>j. job_ID j = i)
             (\<lambda>j. j\<lparr>job_State := state, job_Error := errMsg, job_Finished := now\<rparr>) (mem_jobs m) of
        (Some _, js) \<Rightarrow> (Inr (), m\<lparr>mem_jobs := js\<rparr>)
      | (None, _) \<Rightarrow> (Inl ErrNotFound, m))"

fun mem_fail_loop :: "time \<Rightarrow> string \<Rightarrow> Job list \<Rightarrow> nat \<times> Job list" where
  "mem_fail_loop now reason [] = (0, [])"
| "mem_fail_loop now reason (j # js) =
     (case mem_fail_loop now reason js of
        (n, js') \<Rightarrow>
          if job_State j = JobRunning
          then (n + 1,
                j\<lparr>job_State := JobFailed, job_Error := reason, job_Finished := now\<rparr> # js')
          else (n, j # js'))"

definition mem_FailRunning :: "time \<Rightarrow> string \<Rightarrow> Memory \<Rightarrow> nat result \<times> Memory" where
  "mem_FailRunning now reason m =
     (case mem_fail_loop now reason (mem_jobs m) of (n, js) \<Rightarrow> (Inr n, m\<lparr>mem_jobs := js\<rparr>))"

fun mem_mark_loop :: "string list \<Rightarrow> Job list \<Rightarrow> nat \<times> Job list" where
  "mem_mark_loop kinds [] = (0, [])"
| "mem_mark_loop kinds (j # js) =
     (case mem_mark_loop kinds js of
        (n, js') \<Rightarrow>
          if job_State j = JobRunning \<and> job_Kind j \<in> set kinds
          then (n + 1, j\<lparr>job_State := JobReconciling\<rparr> # js')
          else (n, j # js'))"

definition mem_MarkReconciling :: "string list \<Rightarrow> Memory \<Rightarrow> nat result \<times> Memory" where
  "mem_MarkReconciling kinds m =
     (if length kinds = 0 then (Inr 0, m)
      else case mem_mark_loop kinds (mem_jobs m) of (n, js) \<Rightarrow> (Inr n, m\<lparr>mem_jobs := js\<rparr>))"

definition mem_ResolveReconciling ::
  "time \<Rightarrow> string \<Rightarrow> JobState \<Rightarrow> string \<Rightarrow> Memory \<Rightarrow> bool result \<times> Memory" where
  "mem_ResolveReconciling now i state errMsg m =
     (if state \<noteq> JobSucceeded \<and> state \<noteq> JobFailed
      then (Inl (ErrInvalidTerminalState state), m)
      else case upd_first (\<lambda>j. job_ID j = i \<and> job_State j = JobReconciling)
             (\<lambda>j. j\<lparr>job_State := state, job_Error := errMsg, job_Finished := now\<rparr>) (mem_jobs m) of
        (r, js) \<Rightarrow> (Inr (r \<noteq> None), m\<lparr>mem_jobs := js\<rparr>))"

definition mem_CancelReconciling :: "time \<Rightarrow> string \<Rightarrow> Memory \<Rightarrow> bool result \<times> Memory" where
  "mem_CancelReconciling now i m =
     (case upd_first (\<lambda>j. job_ID j = i \<and> job_State j = JobReconciling)
             (\<lambda>j. j\<lparr>job_State := JobCanceled, job_Finished := now\<rparr>) (mem_jobs m) of
        (r, js) \<Rightarrow> (Inr (r \<noteq> None), m\<lparr>mem_jobs := js\<rparr>))"

definition mem_CancelQueued :: "time \<Rightarrow> string \<Rightarrow> Memory \<Rightarrow> bool result \<times> Memory" where
  "mem_CancelQueued now i m =
     (case upd_first (\<lambda>j. job_ID j = i \<and> job_State j = JobQueued)
             (\<lambda>j. j\<lparr>job_State := JobCanceled, job_Finished := now\<rparr>) (mem_jobs m) of
        (r, js) \<Rightarrow> (Inr (r \<noteq> None), m\<lparr>mem_jobs := js\<rparr>))"

text \<open>Pass 1 drops old terminal children; pass 2 old terminal jobs no survivor references.\<close>

definition mem_isOld :: "time \<Rightarrow> Job \<Rightarrow> bool" where
  "mem_isOld olderThan j \<longleftrightarrow> \<not> IsZero (job_Finished j) \<and> job_Finished j < olderThan"

definition mem_PruneJobs :: "time \<Rightarrow> Memory \<Rightarrow> nat result \<times> Memory" where
  "mem_PruneJobs olderThan m =
     (let drop1 = (\<lambda>j. job_ParentID j \<noteq> '''' \<and> Terminal (job_State j) \<and> mem_isOld olderThan j);
          kept1 = filter (\<lambda>j. \<not> drop1 j) (mem_jobs m);
          deleted1 = length (filter drop1 (mem_jobs m));
          refs = set (map job_ParentID (filter (\<lambda>j. job_ParentID j \<noteq> '''') kept1));
          drop2 = (\<lambda>j. Terminal (job_State j) \<and> mem_isOld olderThan j \<and> job_ID j \<notin> refs);
          kept2 = filter (\<lambda>j. \<not> drop2 j) kept1;
          deleted2 = length (filter drop2 kept1)
      in (Inr (deleted1 + deleted2), m\<lparr>mem_jobs := kept2\<rparr>))"

definition MemoryJobs :: "Memory JobStore" where
  "MemoryJobs =
     \<lparr>js_Enqueue = mem_Enqueue, js_StartChild = mem_StartChild, js_GetJob = mem_GetJob,
      js_ListJobs = mem_ListJobs, js_ClaimNext = mem_ClaimNext,
      js_ClaimNextMatching = mem_ClaimNextMatching, js_ClaimNextExcluding = mem_ClaimNextExcluding,
      js_AppendStep = mem_AppendStep, js_Finish = mem_Finish, js_FailRunning = mem_FailRunning,
      js_MarkReconciling = mem_MarkReconciling, js_ResolveReconciling = mem_ResolveReconciling,
      js_CancelReconciling = mem_CancelReconciling, js_CancelQueued = mem_CancelQueued,
      js_PruneJobs = mem_PruneJobs\<rparr>"

subsection \<open>The invariant, and each operation against its contract\<close>

definition mem_jobs_of :: "Memory \<Rightarrow> jobmap" where
  "mem_jobs_of m = key_map job_ID (mem_jobs m)"

definition mem_invar :: "Memory \<Rightarrow> bool" where
  "mem_invar m \<longleftrightarrow> distinct (map job_ID (mem_jobs m)) \<and> sorted (map job_Created (mem_jobs m))"

lemma mem_invar_NewMemory: "mem_invar NewMemory"
  by (simp add: mem_invar_def NewMemory_def)

lemma mem_matched_filter: "mem_matched f xs = filter (job_matches f) xs"
  by (induction xs) (auto simp: job_matches_def split: option.splits)

lemma mem_insert_ok:
  assumes "mem_invar m" "mem_jobs_of m (job_ID j) = None"
    and "\<And>j'. j' \<in> ran (mem_jobs_of m) \<Longrightarrow> job_Created j' \<le> job_Created j"
  shows "mem_invar (m\<lparr>mem_jobs := mem_jobs m @ [j]\<rparr>)"
    and "mem_jobs_of (m\<lparr>mem_jobs := mem_jobs m @ [j]\<rparr>) = (mem_jobs_of m)(job_ID j \<mapsto> j)"
proof -
  from assms(1) have d: "distinct (map job_ID (mem_jobs m))" by (simp add: mem_invar_def)
  from assms(2) have fresh: "job_ID j \<notin> job_ID ` set (mem_jobs m)"
    by (simp add: mem_jobs_of_def key_map_None)
  have "\<forall>j'\<in>set (mem_jobs m). job_Created j' \<le> job_Created j"
    using assms(3) ran_key_map [OF d] by (simp add: mem_jobs_of_def)
  with assms(1) fresh show "mem_invar (m\<lparr>mem_jobs := mem_jobs m @ [j]\<rparr>)"
    by (auto simp: mem_invar_def sorted_append)
  from fresh show "mem_jobs_of (m\<lparr>mem_jobs := mem_jobs m @ [j]\<rparr>) = (mem_jobs_of m)(job_ID j \<mapsto> j)"
    by (simp add: mem_jobs_of_def key_map_append_fresh)
qed

lemma mem_GetJob_find:
  "mem_invar m \<Longrightarrow> find (\<lambda>j. job_ID j = i) (mem_jobs m) = mem_jobs_of m i"
proof -
  have "find (\<lambda>j. job_ID j = i) xs = key_map job_ID xs i" for xs
    by (induction xs) auto
  then show ?thesis by (simp add: mem_jobs_of_def)
qed

lemma mem_list_ok:
  assumes "mem_invar m"
  shows "list_spec f (mem_jobs_of m)
    (take (nat (clampJobLimit (f_Limit f))) (rev (sort_key job_ID (mem_matched f (mem_jobs m)))))"
proof -
  let ?all = "rev (sort_key job_ID (mem_matched f (mem_jobs m)))"
  from assms have d: "distinct (map job_ID (mem_jobs m))" by (simp add: mem_invar_def)
  then have "sorted_wrt (\<lambda>a b. job_ID b < job_ID a) ?all"
    by (intro sorted_wrt_rev_sort_key) (simp add: mem_matched_filter distinct_map_filter)
  moreover have "set ?all = {j \<in> ran (mem_jobs_of m). job_matches f j}"
    using ran_key_map [OF d] by (auto simp: mem_matched_filter mem_jobs_of_def)
  ultimately show ?thesis unfolding list_spec_def by blast
qed

lemma mem_claim_ok:
  assumes "mem_invar m"
  shows "op_ok mem_invar mem_jobs_of m is_driver (claim_spec P now (mem_jobs_of m)) (mem_claim P now m)"
proof -
  let ?Q = "\<lambda>j. job_State j = JobQueued \<and> P (job_Kind j)"
  let ?f = "\<lambda>j::Job. j\<lparr>job_State := JobRunning, job_Started := now\<rparr>"
  from assms have d: "distinct (map job_ID (mem_jobs m))"
    and srt: "sorted (map job_Created (mem_jobs m))" by (auto simp: mem_invar_def)
  obtain r js where u: "upd_first ?Q ?f (mem_jobs m) = (r, js)" by fastforce
  then have res: "mem_claim P now m = (Inr r, m\<lparr>mem_jobs := js\<rparr>)" by (simp add: mem_claim_def)
  show ?thesis
  proof (cases r)
    case None
    with u have "\<forall>j\<in>set (mem_jobs m). \<not> ?Q j" "js = mem_jobs m"
      by (auto simp: upd_first_None)
    with assms None res ran_key_map [OF d] show ?thesis
      by (auto simp: op_ok_def claim_spec_def claimable_def mem_jobs_of_def)
  next
    case (Some y)
    with u obtain pre x post where dec: "mem_jobs m = pre @ x # post" "\<forall>z\<in>set pre. \<not> ?Q z"
      "?Q x" "y = ?f x" "js = pre @ y # post"
      by (auto simp: upd_first_Some)
    have y: "y = start_job now x" using dec(4) by (simp add: start_job_def)
    have inv: "mem_invar (m\<lparr>mem_jobs := js\<rparr>)"
      using assms dec by (auto simp: mem_invar_def)
    have look: "mem_jobs_of m (job_ID y) = Some x"
      using d dec by (simp add: mem_jobs_of_def key_map_Some)
    have upd: "mem_jobs_of (m\<lparr>mem_jobs := js\<rparr>) = (mem_jobs_of m)(job_ID y \<mapsto> y)"
      using key_map_replace [of job_ID pre x post y] d dec by (simp add: mem_jobs_of_def)
    have "\<forall>j\<in>ran (mem_jobs_of m). claimable P j \<longrightarrow> job_Created x \<le> job_Created j"
      using ran_key_map [OF d] dec srt
      by (auto simp: mem_jobs_of_def claimable_def sorted_append)
    with Some res inv look upd y dec(3) show ?thesis
      by (auto simp: op_ok_def claim_spec_def claimable_def)
  qed
qed

lemma mem_upd_ok:
  assumes "mem_invar m" and f: "\<And>j. job_ID (f j) = job_ID j" "\<And>j. job_Created (f j) = job_Created j"
    and u: "upd_first (\<lambda>j. job_ID j = i \<and> P j) f (mem_jobs m) = (r, js)"
  shows "mem_invar (m\<lparr>mem_jobs := js\<rparr>)"
    and "cas_spec P f i (mem_jobs_of m) (r \<noteq> None) (mem_jobs_of (m\<lparr>mem_jobs := js\<rparr>))"
proof -
  from assms(1) have d: "distinct (map job_ID (mem_jobs m))"
    and srt: "sorted (map job_Created (mem_jobs m))" by (auto simp: mem_invar_def)
  have eq: "(r, js) = (case key_map job_ID (mem_jobs m) i of
       None \<Rightarrow> (None, mem_jobs m)
     | Some x \<Rightarrow> if P x then (Some (f x), map (\<lambda>y. if job_ID y = i then f y else y) (mem_jobs m))
                else (None, mem_jobs m))"
    unfolding u [symmetric] using d f(1) by (rule upd_first_key)
  have "js = mem_jobs m \<or> js = map (\<lambda>y. if job_ID y = i then f y else y) (mem_jobs m)"
    using eq by (auto split: option.splits if_splits)
  then have "map job_ID js = map job_ID (mem_jobs m)" "map job_Created js = map job_Created (mem_jobs m)"
    using f by auto
  with d srt show "mem_invar (m\<lparr>mem_jobs := js\<rparr>)"
    by (simp add: mem_invar_def)
  from eq key_map_upd_key [OF d f(1), of i]
  show "cas_spec P f i (mem_jobs_of m) (r \<noteq> None) (mem_jobs_of (m\<lparr>mem_jobs := js\<rparr>))"
    by (auto simp: cas_spec_def mem_jobs_of_def split: option.splits if_splits)
qed

lemma mem_bulk_ok:
  assumes "mem_invar m" and f: "\<And>j. job_ID (f j) = job_ID j" "\<And>j. job_Created (f j) = job_Created j"
    and u: "sql_update P f (mem_jobs m) = (n, js)"
  shows "mem_invar (m\<lparr>mem_jobs := js\<rparr>)"
    and "bulk_spec P f (mem_jobs_of m) n (mem_jobs_of (m\<lparr>mem_jobs := js\<rparr>))"
proof -
  from assms(1) have d: "distinct (map job_ID (mem_jobs m))" by (simp add: mem_invar_def)
  from u have n: "n = length (filter P (mem_jobs m))"
    and js: "js = map (\<lambda>j. if P j then f j else j) (mem_jobs m)"
    by (auto simp: sql_update_def)
  have keys: "map job_ID js = map job_ID (mem_jobs m)" "map job_Created js = map job_Created (mem_jobs m)"
    using f by (auto simp: js)
  with assms(1) show "mem_invar (m\<lparr>mem_jobs := js\<rparr>)" by (simp add: mem_invar_def)
  have "key_map job_ID js i = map_option (\<lambda>j. if P j then f j else j) (key_map job_ID (mem_jobs m) i)" for i
    unfolding js using f(1) by (intro key_map_map) simp
  with n card_key_map [OF d, of P]
  show "bulk_spec P f (mem_jobs_of m) n (mem_jobs_of (m\<lparr>mem_jobs := js\<rparr>))"
    by (simp add: bulk_spec_def mem_jobs_of_def)
qed

lemma mem_fail_loop_update:
  "mem_fail_loop now reason js =
     sql_update (\<lambda>j. job_State j = JobRunning) (end_job now JobFailed reason) js"
  by (induction js) (auto simp: sql_update_def end_job_def)

lemma mem_mark_loop_update:
  "mem_mark_loop kinds js =
     sql_update (\<lambda>j. job_State j = JobRunning \<and> job_Kind j \<in> set kinds) reconcile_job js"
  by (induction js) (auto simp: sql_update_def reconcile_job_def)

lemma mem_PruneJobs_ok:
  assumes "mem_invar m"
  shows "op_ok mem_invar mem_jobs_of m is_driver (prune_spec cutoff (mem_jobs_of m)) (mem_PruneJobs cutoff m)"
proof -
  let ?js = "mem_jobs m"
  from assms have d: "distinct (map job_ID ?js)" by (simp add: mem_invar_def)
  have ran: "ran (mem_jobs_of m) = set ?js" using ran_key_map [OF d] by (simp add: mem_jobs_of_def)
  define kept1 where "kept1 = filter (\<lambda>j. \<not> pruned_child cutoff j) ?js"
  define refs where "refs = set (map job_ParentID (filter (\<lambda>j. job_ParentID j \<noteq> '''') kept1))"
  define drop2 where "drop2 = (\<lambda>j. old_terminal cutoff j \<and> job_ID j \<notin> refs)"
  have old: "Terminal (job_State j) \<and> mem_isOld cutoff j \<longleftrightarrow> old_terminal cutoff j" for j
    by (simp add: mem_isOld_def old_terminal_def)
  have refs: "i \<in> refs \<longleftrightarrow> referenced cutoff (mem_jobs_of m) i" for i
    by (auto simp: refs_def kept1_def referenced_def ran)
  have run: "mem_PruneJobs cutoff m =
      (Inr (length (filter (pruned_child cutoff) ?js) + length (filter drop2 kept1)),
       m\<lparr>mem_jobs := filter (\<lambda>j. \<not> drop2 j) kept1\<rparr>)"
    unfolding mem_PruneJobs_def Let_def kept1_def drop2_def refs_def pruned_child_def
    by (simp add: old flip: conj_assoc)
  have pr: "pruned cutoff (mem_jobs_of m) = (\<lambda>j. pruned_child cutoff j \<or> drop2 j)"
    by (auto simp: pruned_def drop2_def refs)
  have final: "filter (\<lambda>j. \<not> drop2 j) kept1 = filter (\<lambda>j. \<not> pruned cutoff (mem_jobs_of m) j) ?js"
    by (auto simp: kept1_def pr intro: filter_cong)
  have count: "length (filter (pruned_child cutoff) ?js) + length (filter drop2 kept1) =
      length (filter (pruned cutoff (mem_jobs_of m)) ?js)"
  proof -
    have "length (filter (pruned_child cutoff) xs) +
        length (filter drop2 (filter (\<lambda>j. \<not> pruned_child cutoff j) xs)) =
        length (filter (\<lambda>j. pruned_child cutoff j \<or> drop2 j) xs)" for xs
      by (induction xs) auto
    then show ?thesis by (simp add: kept1_def pr)
  qed
  have "mem_invar (m\<lparr>mem_jobs := filter (\<lambda>j. \<not> drop2 j) kept1\<rparr>)"
    using assms by (simp add: final mem_invar_def distinct_map_filter sorted_filter)
  moreover have "prune_spec cutoff (mem_jobs_of m)
      (length (filter (pruned cutoff (mem_jobs_of m)) ?js))
      (mem_jobs_of (m\<lparr>mem_jobs := filter (\<lambda>j. \<not> drop2 j) kept1\<rparr>))"
    using card_key_map [OF d, of "pruned cutoff (mem_jobs_of m)"]
    by (auto simp: prune_spec_def final mem_jobs_of_def key_map_filter [OF d] split: option.splits)
  ultimately show ?thesis by (simp add: op_ok_def run count)
qed

lemma MemoryJobs_simps [simp]:
  "js_Enqueue MemoryJobs = mem_Enqueue" "js_StartChild MemoryJobs = mem_StartChild"
  "js_GetJob MemoryJobs = mem_GetJob" "js_ListJobs MemoryJobs = mem_ListJobs"
  "js_ClaimNext MemoryJobs = mem_ClaimNext" "js_ClaimNextMatching MemoryJobs = mem_ClaimNextMatching"
  "js_ClaimNextExcluding MemoryJobs = mem_ClaimNextExcluding"
  "js_AppendStep MemoryJobs = mem_AppendStep" "js_Finish MemoryJobs = mem_Finish"
  "js_FailRunning MemoryJobs = mem_FailRunning" "js_MarkReconciling MemoryJobs = mem_MarkReconciling"
  "js_ResolveReconciling MemoryJobs = mem_ResolveReconciling"
  "js_CancelReconciling MemoryJobs = mem_CancelReconciling"
  "js_CancelQueued MemoryJobs = mem_CancelQueued" "js_PruneJobs MemoryJobs = mem_PruneJobs"
  by (simp_all add: MemoryJobs_def)

lemma mem_GetJob_ok:
  "mem_invar m \<Longrightarrow>
   op_ok mem_invar mem_jobs_of m (\<lambda>e. is_driver e \<or> e = ErrNotFound \<and> mem_jobs_of m i = None)
     (\<lambda>j m'. m' = mem_jobs_of m \<and> mem_jobs_of m i = Some j) (mem_GetJob i m)"
  by (auto simp: op_ok_def mem_GetJob_def mem_GetJob_find split: option.splits)

lemma mem_ListJobs_ok:
  "mem_invar m \<Longrightarrow>
   op_ok mem_invar mem_jobs_of m is_driver
     (\<lambda>xs m'. m' = mem_jobs_of m \<and> list_spec f (mem_jobs_of m) xs) (mem_ListJobs f m)"
  by (simp add: op_ok_def mem_ListJobs_def mem_list_ok)

lemma mem_ClaimNextMatching_ok:
  "mem_invar m \<Longrightarrow>
   op_ok mem_invar mem_jobs_of m is_driver (claim_spec (\<lambda>k. k \<in> set kinds) now (mem_jobs_of m))
     (mem_ClaimNextMatching now kinds m)"
  using mem_claim_ok [of m]
  by (auto simp: mem_ClaimNextMatching_def op_ok_def claim_spec_def claimable_def)

lemma mem_AppendStep_ok:
  assumes "mem_invar m"
  shows "op_ok mem_invar mem_jobs_of m (\<lambda>e. is_driver e \<or> e = ErrNotFound \<and> mem_jobs_of m i = None)
    (\<lambda>_ m'. \<exists>j. mem_jobs_of m i = Some j \<and> m' = (mem_jobs_of m)(i \<mapsto> add_step step j))
    (mem_AppendStep i step m)"
proof -
  obtain r js where u: "upd_first (\<lambda>j. job_ID j = i) (add_step step) (mem_jobs m) = (r, js)" by fastforce
  then have run: "mem_AppendStep i step m =
      (if r = None then (Inl ErrNotFound, m) else (Inr (), m\<lparr>mem_jobs := js\<rparr>))"
    unfolding mem_AppendStep_def add_step_def by (simp split: option.splits)
  from mem_upd_ok [OF assms, of "add_step step" i "\<lambda>_. True" r js] u assms run show ?thesis
    by (auto simp: op_ok_def cas_spec_def split: option.splits)
qed

lemma mem_Finish_ok:
  assumes "mem_invar m"
  shows "op_ok mem_invar mem_jobs_of m
    (\<lambda>e. is_driver e \<or> e = ErrInvalidTerminalState st \<and> \<not> Terminal st \<or>
       e = ErrNotFound \<and> mem_jobs_of m i = None)
    (\<lambda>_ m'. Terminal st \<and> (\<exists>j. mem_jobs_of m i = Some j \<and> m' = (mem_jobs_of m)(i \<mapsto> end_job now st msg j)))
    (mem_Finish now i st msg m)"
proof -
  obtain r js where u: "upd_first (\<lambda>j. job_ID j = i) (end_job now st msg) (mem_jobs m) = (r, js)"
    by fastforce
  then have run: "mem_Finish now i st msg m =
      (if \<not> Terminal st then (Inl (ErrInvalidTerminalState st), m)
       else if r = None then (Inl ErrNotFound, m) else (Inr (), m\<lparr>mem_jobs := js\<rparr>))"
    unfolding mem_Finish_def end_job_def Terminal_cases by (auto split: option.splits)
  from mem_upd_ok [OF assms, of "end_job now st msg" i "\<lambda>_. True" r js] u assms run show ?thesis
    by (auto simp: op_ok_def cas_spec_def split: option.splits)
qed

lemma mem_FailRunning_ok:
  assumes "mem_invar m"
  shows "op_ok mem_invar mem_jobs_of m is_driver
    (bulk_spec (\<lambda>j. job_State j = JobRunning) (end_job now JobFailed reason) (mem_jobs_of m))
    (mem_FailRunning now reason m)"
proof -
  obtain n js where u: "sql_update (\<lambda>j. job_State j = JobRunning) (end_job now JobFailed reason)
      (mem_jobs m) = (n, js)" by fastforce
  from mem_bulk_ok [OF assms _ _ u] u show ?thesis
    by (simp add: op_ok_def mem_FailRunning_def mem_fail_loop_update)
qed

lemma mem_MarkReconciling_ok:
  assumes "mem_invar m"
  shows "op_ok mem_invar mem_jobs_of m is_driver
    (bulk_spec (\<lambda>j. job_State j = JobRunning \<and> job_Kind j \<in> set kinds) reconcile_job (mem_jobs_of m))
    (mem_MarkReconciling kinds m)"
proof (cases "kinds = []")
  case True
  with assms show ?thesis
    by (simp add: op_ok_def mem_MarkReconciling_def bulk_spec_def option.map_ident)
next
  case False
  obtain n js where u: "sql_update (\<lambda>j. job_State j = JobRunning \<and> job_Kind j \<in> set kinds)
      reconcile_job (mem_jobs m) = (n, js)" by fastforce
  from mem_bulk_ok [OF assms _ _ u] u False show ?thesis
    by (simp add: op_ok_def mem_MarkReconciling_def mem_mark_loop_update)
qed

lemma mem_cas_ok:
  assumes "mem_invar m" and "\<And>j. job_ID (f j) = job_ID j" "\<And>j. job_Created (f j) = job_Created j"
  shows "op_ok mem_invar mem_jobs_of m is_driver (cas_spec P f i (mem_jobs_of m))
    (case upd_first (\<lambda>j. job_ID j = i \<and> P j) f (mem_jobs m) of
       (r, js) \<Rightarrow> (Inr (r \<noteq> None), m\<lparr>mem_jobs := js\<rparr>))"
proof -
  obtain r js where u: "upd_first (\<lambda>j. job_ID j = i \<and> P j) f (mem_jobs m) = (r, js)" by fastforce
  from mem_upd_ok [OF assms u] u show ?thesis by (simp add: op_ok_def)
qed

lemma mem_ResolveReconciling_ok:
  assumes "mem_invar m"
  shows "op_ok mem_invar mem_jobs_of m
    (\<lambda>e. is_driver e \<or> e = ErrInvalidTerminalState st \<and> st \<notin> {JobSucceeded, JobFailed})
    (\<lambda>b m'. st \<in> {JobSucceeded, JobFailed} \<and>
       cas_spec (\<lambda>j. job_State j = JobReconciling) (end_job now st msg) i (mem_jobs_of m) b m')
    (mem_ResolveReconciling now i st msg m)"
  using mem_cas_ok [OF assms, of "end_job now st msg" "\<lambda>j. job_State j = JobReconciling" i] assms
  unfolding mem_ResolveReconciling_def end_job_def op_ok_def
  by (auto split: prod.splits)

lemma mem_CancelReconciling_ok:
  "mem_invar m \<Longrightarrow>
   op_ok mem_invar mem_jobs_of m is_driver
     (cas_spec (\<lambda>j. job_State j = JobReconciling) (cancel_job now) i (mem_jobs_of m))
     (mem_CancelReconciling now i m)"
  unfolding mem_CancelReconciling_def cancel_job_def by (intro mem_cas_ok) auto

lemma mem_CancelQueued_ok:
  "mem_invar m \<Longrightarrow>
   op_ok mem_invar mem_jobs_of m is_driver
     (cas_spec (\<lambda>j. job_State j = JobQueued) (cancel_job now) i (mem_jobs_of m))
     (mem_CancelQueued now i m)"
  unfolding mem_CancelQueued_def cancel_job_def by (intro mem_cas_ok) auto

lemma mem_Enqueue_eq:
  "mem_Enqueue i now kind args parent m =
     (Inr (queued_job i now kind args parent),
      m\<lparr>mem_jobs := mem_jobs m @ [queued_job i now kind args parent]\<rparr>)"
  by (simp add: mem_Enqueue_def queued_job_def null_args_def Let_def)

lemma mem_StartChild_eq:
  "mem_StartChild i now kind args parent m =
     (Inr (child_job i now kind args parent),
      m\<lparr>mem_jobs := mem_jobs m @ [child_job i now kind args parent]\<rparr>)"
  by (simp add: mem_StartChild_def child_job_def null_args_def Let_def)

interpretation mem: job_store MemoryJobs mem_invar mem_jobs_of
proof (unfold_locales, goal_cases)
  case 1
  then show ?case by (auto simp: mem_jobs_of_def dest: key_map_SomeD)
next
  case 2
  then show ?case by (simp add: mem_jobs_of_def dom_key_map)
next
  case (3 s i now kind args parent r s')
  with mem_insert_ok [of s "queued_job i now kind args parent"] show ?case
    by (auto simp: mem_Enqueue_eq)
next
  case (4 s i now kind args parent r s')
  with mem_insert_ok [of s "child_job i now kind args parent"] show ?case
    by (auto simp: mem_StartChild_eq)
qed (simp_all add: mem_GetJob_ok mem_ListJobs_ok mem_claim_ok mem_ClaimNext_def
      mem_ClaimNextMatching_ok mem_ClaimNextExcluding_def mem_AppendStep_ok mem_Finish_ok
      mem_FailRunning_ok mem_MarkReconciling_ok mem_ResolveReconciling_ok [simplified]
      mem_CancelReconciling_ok mem_CancelQueued_ok mem_PruneJobs_ok)

end
