(* ===== verification/Sqlite_Jobs.thy ===== *)
theory Sqlite_Jobs
  imports Store_Data
begin

text \<open>
  The job operations of \<^verbatim>\<open>internal/store/sqlite.go\<close>: every method as the SQL statements it
  sends, on a table of rows with nullable columns, and their interpretation as a
  \<^verbatim>\<open>job_store\<close>. The primary key keeps ids distinct; an empty parent id is stored as NULL.
\<close>

subsection \<open>Rows and statements\<close>

definition scanJob :: "JobRow \<Rightarrow> Job" where
  "scanJob r =
     \<lparr>job_ID = row_id r, job_Kind = row_kind r, job_Args = row_args r, job_State = row_state r,
      job_Steps = row_steps r,
      job_ParentID = (case row_parent_id r of None \<Rightarrow> '''' | Some p \<Rightarrow> p),
      job_Error = (case row_error r of None \<Rightarrow> '''' | Some e \<Rightarrow> e),
      job_Created = time_Unix (row_created r),
      job_Started = (case row_started r of None \<Rightarrow> 0 | Some n \<Rightarrow> time_Unix n),
      job_Finished = (case row_finished r of None \<Rightarrow> 0 | Some n \<Rightarrow> time_Unix n)\<rparr>"

text \<open>The next statement runs only when the one before succeeded.\<close>

definition sql_then ::
  "'a result \<times> SQLite \<Rightarrow> ('a \<Rightarrow> SQLite \<Rightarrow> 'b result \<times> SQLite) \<Rightarrow> 'b result \<times> SQLite" where
  "sql_then rs k = (case rs of (Inl e, s) \<Rightarrow> (Inl e, s) | (Inr x, s) \<Rightarrow> k x s)"

text \<open>A transaction: \<^verbatim>\<open>BEGIN\<close>, the body, \<^verbatim>\<open>COMMIT\<close>; an error anywhere rolls the tables back.\<close>

definition sql_tx :: "(SQLite \<Rightarrow> 'a result \<times> SQLite) \<Rightarrow> SQLite \<Rightarrow> 'a result \<times> SQLite" where
  "sql_tx body s =
     (case sql_then (sql_exec (\<lambda>s. (Inr (), s)) s) (\<lambda>_ s1.
             sql_then (body s1) (\<lambda>x s2. sql_exec (\<lambda>s. (Inr x, s)) s2)) of
        (Inl e, s') \<Rightarrow> (Inl e, s\<lparr>sql_verdicts := sql_verdicts s'\<rparr>)
      | (Inr x, s') \<Rightarrow> (Inr x, s'))"

definition exec_update_jobs ::
  "(JobRow \<Rightarrow> bool) \<Rightarrow> (JobRow \<Rightarrow> JobRow) \<Rightarrow> SQLite \<Rightarrow> nat result \<times> SQLite" where
  "exec_update_jobs P f = sql_exec (\<lambda>s.
     case sql_update P f (sql_jobs s) of (n, rows) \<Rightarrow> (Inr n, s\<lparr>sql_jobs := rows\<rparr>))"

definition exec_delete_jobs :: "(JobRow \<Rightarrow> bool) \<Rightarrow> SQLite \<Rightarrow> nat result \<times> SQLite" where
  "exec_delete_jobs P = sql_exec (\<lambda>s.
     case sql_delete P (sql_jobs s) of (n, rows) \<Rightarrow> (Inr n, s\<lparr>sql_jobs := rows\<rparr>))"

subsection \<open>Operations\<close>

definition insert_job :: "JobRow \<Rightarrow> SQLite \<Rightarrow> unit result \<times> SQLite" where
  "insert_job row = sql_exec (\<lambda>s.
     if row_id row \<in> row_id ` set (sql_jobs s)
     then (Inl (ErrDriver ''UNIQUE constraint failed: jobs.id''), s)
     else (Inr (), s\<lparr>sql_jobs := sql_jobs s @ [row]\<rparr>))"

definition sql_GetJob :: "string \<Rightarrow> SQLite \<Rightarrow> Job result \<times> SQLite" where
  "sql_GetJob i = sql_exec (\<lambda>s.
     case find (\<lambda>r. row_id r = i) (sql_jobs s) of
       Some r \<Rightarrow> (Inr (scanJob r), s)
     | None \<Rightarrow> (Inl ErrNotFound, s))"

definition sql_Enqueue ::
  "string \<Rightarrow> time \<Rightarrow> string \<Rightarrow> string \<Rightarrow> string \<Rightarrow> SQLite \<Rightarrow> Job result \<times> SQLite" where
  "sql_Enqueue newID now kind args parentID s =
     sql_then (insert_job
       \<lparr>row_id = newID, row_kind = kind,
        row_args = (if length args = 0 then ''null'' else args),
        row_state = JobQueued, row_steps = [],
        row_parent_id = (if parentID \<noteq> '''' then Some parentID else None),
        row_error = None, row_created = UnixNano now, row_started = None, row_finished = None\<rparr> s)
       (\<lambda>_. sql_GetJob newID)"

definition sql_StartChild ::
  "string \<Rightarrow> time \<Rightarrow> string \<Rightarrow> string \<Rightarrow> string \<Rightarrow> SQLite \<Rightarrow> Job result \<times> SQLite" where
  "sql_StartChild newID now kind args parentID s =
     sql_then (insert_job
       \<lparr>row_id = newID, row_kind = kind,
        row_args = (if length args = 0 then ''null'' else args),
        row_state = JobRunning, row_steps = [],
        row_parent_id = (if parentID \<noteq> '''' then Some parentID else None),
        row_error = None, row_created = UnixNano now, row_started = Some (UnixNano now),
        row_finished = None\<rparr> s)
       (\<lambda>_. sql_GetJob newID)"

text \<open>The conjuncts of the \<^verbatim>\<open>WHERE\<close> clause; a NULL parent id equals nothing.\<close>

definition sql_where :: "JobFilter \<Rightarrow> JobRow \<Rightarrow> bool" where
  "sql_where f r \<longleftrightarrow>
     (case f_State f of None \<Rightarrow> True | Some st \<Rightarrow> row_state r = st) \<and>
     (f_Kind f \<noteq> '''' \<longrightarrow> row_kind r = f_Kind f) \<and>
     (f_ParentID f \<noteq> '''' \<longrightarrow> row_parent_id r = Some (f_ParentID f)) \<and>
     (f_Before f \<noteq> '''' \<longrightarrow> row_id r < f_Before f)"

definition sql_ListJobs :: "JobFilter \<Rightarrow> SQLite \<Rightarrow> Job list result \<times> SQLite" where
  "sql_ListJobs f = sql_exec (\<lambda>s.
     (Inr (map scanJob (take (nat (clampJobLimit (f_Limit f)))
        (rev (sort_key row_id (filter (sql_where f) (sql_jobs s)))))), s))"

text \<open>
  \<^verbatim>\<open>UPDATE jobs SET state='running', started=? WHERE id = (SELECT id ... ORDER BY created, id
  LIMIT 1) AND state='queued' RETURNING ...\<close>: no row returned is "nothing to claim".
\<close>

definition claimNextWhere ::
  "time \<Rightarrow> (JobRow \<Rightarrow> bool) \<Rightarrow> SQLite \<Rightarrow> Job option result \<times> SQLite" where
  "claimNextWhere now extraWhere = sql_exec (\<lambda>s.
     case sort_key (\<lambda>r. (row_created r, row_id r))
            (filter (\<lambda>r. row_state r = JobQueued \<and> extraWhere r) (sql_jobs s)) of
       [] \<Rightarrow> (Inr None, s)
     | c # _ \<Rightarrow>
         (case upd_first (\<lambda>r. row_id r = row_id c \<and> row_state r = JobQueued)
                 (\<lambda>r. r\<lparr>row_state := JobRunning, row_started := Some (UnixNano now)\<rparr>) (sql_jobs s) of
            (r, rows) \<Rightarrow> (Inr (map_option scanJob r), s\<lparr>sql_jobs := rows\<rparr>)))"

definition sql_ClaimNext :: "time \<Rightarrow> SQLite \<Rightarrow> Job option result \<times> SQLite" where
  "sql_ClaimNext now s = claimNextWhere now (\<lambda>_. True) s"

definition sql_ClaimNextMatching ::
  "time \<Rightarrow> string list \<Rightarrow> SQLite \<Rightarrow> Job option result \<times> SQLite" where
  "sql_ClaimNextMatching now kinds s =
     (if length kinds = 0 then (Inr None, s)
      else claimNextWhere now (\<lambda>r. row_kind r \<in> set kinds) s)"

definition sql_ClaimNextExcluding ::
  "time \<Rightarrow> string list \<Rightarrow> SQLite \<Rightarrow> Job option result \<times> SQLite" where
  "sql_ClaimNextExcluding now kinds s =
     (if length kinds = 0 then sql_ClaimNext now s
      else claimNextWhere now (\<lambda>r. row_kind r \<notin> set kinds) s)"

text \<open>A read, then a write of the coalesced steps.\<close>

definition sql_AppendStep :: "string \<Rightarrow> JobStep \<Rightarrow> SQLite \<Rightarrow> unit result \<times> SQLite" where
  "sql_AppendStep i step s =
     sql_then
       (sql_exec (\<lambda>s.
          case find (\<lambda>r. row_id r = i) (sql_jobs s) of
            Some r \<Rightarrow> (Inr (row_steps r), s)
          | None \<Rightarrow> (Inl ErrNotFound, s)) s)
       (\<lambda>arr s1. sql_then
          (exec_update_jobs (\<lambda>r. row_id r = i)
             (\<lambda>r. r\<lparr>row_steps := coalesceStep arr step\<rparr>) s1)
          (\<lambda>_ s2. (Inr (), s2)))"

definition null_if_empty :: "string \<Rightarrow> string option" where
  "null_if_empty s = (if s \<noteq> '''' then Some s else None)"

definition sql_Finish :: "time \<Rightarrow> string \<Rightarrow> JobState \<Rightarrow> string \<Rightarrow> SQLite \<Rightarrow> unit result \<times> SQLite" where
  "sql_Finish now i state errMsg s =
     (if state \<noteq> JobSucceeded \<and> state \<noteq> JobFailed \<and> state \<noteq> JobCanceled
      then (Inl (ErrInvalidTerminalState state), s)
      else sql_then
        (exec_update_jobs (\<lambda>r. row_id r = i)
           (\<lambda>r. r\<lparr>row_state := state, row_error := null_if_empty errMsg,
                 row_finished := Some (UnixNano now)\<rparr>) s)
        (\<lambda>n s1. if n = 0 then (Inl ErrNotFound, s1) else (Inr (), s1)))"

definition sql_FailRunning :: "time \<Rightarrow> string \<Rightarrow> SQLite \<Rightarrow> nat result \<times> SQLite" where
  "sql_FailRunning now reason s =
     exec_update_jobs (\<lambda>r. row_state r = JobRunning)
       (\<lambda>r. r\<lparr>row_state := JobFailed, row_error := Some reason,
             row_finished := Some (UnixNano now)\<rparr>) s"

definition sql_MarkReconciling :: "string list \<Rightarrow> SQLite \<Rightarrow> nat result \<times> SQLite" where
  "sql_MarkReconciling kinds s =
     (if length kinds = 0 then (Inr 0, s)
      else exec_update_jobs (\<lambda>r. row_state r = JobRunning \<and> row_kind r \<in> set kinds)
        (\<lambda>r. r\<lparr>row_state := JobReconciling\<rparr>) s)"

definition sql_ResolveReconciling ::
  "time \<Rightarrow> string \<Rightarrow> JobState \<Rightarrow> string \<Rightarrow> SQLite \<Rightarrow> bool result \<times> SQLite" where
  "sql_ResolveReconciling now i state errMsg s =
     (if state \<noteq> JobSucceeded \<and> state \<noteq> JobFailed
      then (Inl (ErrInvalidTerminalState state), s)
      else sql_then
        (exec_update_jobs (\<lambda>r. row_id r = i \<and> row_state r = JobReconciling)
           (\<lambda>r. r\<lparr>row_state := state, row_error := null_if_empty errMsg,
                 row_finished := Some (UnixNano now)\<rparr>) s)
        (\<lambda>n s1. (Inr (n > 0), s1)))"

definition sql_CancelReconciling :: "time \<Rightarrow> string \<Rightarrow> SQLite \<Rightarrow> bool result \<times> SQLite" where
  "sql_CancelReconciling now i s =
     sql_then
       (exec_update_jobs (\<lambda>r. row_id r = i \<and> row_state r = JobReconciling)
          (\<lambda>r. r\<lparr>row_state := JobCanceled, row_finished := Some (UnixNano now)\<rparr>) s)
       (\<lambda>n s1. (Inr (n > 0), s1))"

definition sql_CancelQueued :: "time \<Rightarrow> string \<Rightarrow> SQLite \<Rightarrow> bool result \<times> SQLite" where
  "sql_CancelQueued now i s =
     sql_then
       (exec_update_jobs (\<lambda>r. row_id r = i \<and> row_state r = JobQueued)
          (\<lambda>r. r\<lparr>row_state := JobCanceled, row_finished := Some (UnixNano now)\<rparr>) s)
       (\<lambda>n s1. (Inr (n > 0), s1))"

definition row_terminal_before :: "int \<Rightarrow> JobRow \<Rightarrow> bool" where
  "row_terminal_before cutoff r \<longleftrightarrow>
     row_state r \<in> {JobSucceeded, JobFailed, JobCanceled} \<and>
     (case row_finished r of None \<Rightarrow> False | Some n \<Rightarrow> n < cutoff)"

definition sql_PruneJobs :: "time \<Rightarrow> SQLite \<Rightarrow> nat result \<times> SQLite" where
  "sql_PruneJobs olderThan =
     (let cutoff = UnixNano olderThan
      in sql_tx (\<lambda>s.
        sql_then
          (exec_delete_jobs (\<lambda>r. row_parent_id r \<noteq> None \<and> row_terminal_before cutoff r) s)
          (\<lambda>nChild s1.
             sql_then
               (exec_delete_jobs (\<lambda>r. row_terminal_before cutoff r \<and>
                  Some (row_id r) \<notin> set (filter (\<lambda>p. p \<noteq> None) (map row_parent_id (sql_jobs s1)))) s1)
               (\<lambda>nParent s2. (Inr (nChild + nParent), s2)))))"

definition SQLiteJobs :: "SQLite JobStore" where
  "SQLiteJobs =
     \<lparr>js_Enqueue = sql_Enqueue, js_StartChild = sql_StartChild, js_GetJob = sql_GetJob,
      js_ListJobs = sql_ListJobs, js_ClaimNext = sql_ClaimNext,
      js_ClaimNextMatching = sql_ClaimNextMatching, js_ClaimNextExcluding = sql_ClaimNextExcluding,
      js_AppendStep = sql_AppendStep, js_Finish = sql_Finish, js_FailRunning = sql_FailRunning,
      js_MarkReconciling = sql_MarkReconciling, js_ResolveReconciling = sql_ResolveReconciling,
      js_CancelReconciling = sql_CancelReconciling, js_CancelQueued = sql_CancelQueued,
      js_PruneJobs = sql_PruneJobs\<rparr>"

subsection \<open>The jobs a database holds\<close>

definition row_ok :: "JobRow \<Rightarrow> bool" where
  "row_ok r \<longleftrightarrow> row_parent_id r \<noteq> Some '''' \<and> row_finished r \<noteq> Some (UnixNano 0)"

definition sql_invar :: "SQLite \<Rightarrow> bool" where
  "sql_invar s \<longleftrightarrow> distinct (map row_id (sql_jobs s)) \<and> (\<forall>r\<in>set (sql_jobs s). row_ok r)"

definition sql_jobs_of :: "SQLite \<Rightarrow> jobmap" where
  "sql_jobs_of s = key_map job_ID (map scanJob (sql_jobs s))"

lemma scanJob_fields [simp]:
  "job_ID (scanJob r) = row_id r" "job_Kind (scanJob r) = row_kind r"
  "job_State (scanJob r) = row_state r" "job_Created (scanJob r) = time_Unix (row_created r)"
  "job_Steps (scanJob r) = row_steps r"
  by (simp_all add: scanJob_def)

lemma scanJob_ID_comp [simp]: "job_ID \<circ> scanJob = row_id"
  by (simp add: fun_eq_iff)

lemma scanJob_parent:
  "row_ok r \<Longrightarrow> job_ParentID (scanJob r) = p \<and> p \<noteq> '''' \<longleftrightarrow> row_parent_id r = Some p"
  by (auto simp: scanJob_def row_ok_def split: option.splits)

lemma scanJob_has_parent:
  "row_ok r \<Longrightarrow> job_ParentID (scanJob r) \<noteq> '''' \<longleftrightarrow> row_parent_id r \<noteq> None"
  by (auto simp: scanJob_def row_ok_def split: option.splits)

lemma scanJob_old:
  "row_ok r \<Longrightarrow> old_terminal t (scanJob r) \<longleftrightarrow> row_terminal_before (UnixNano t) r"
proof -
  have T: "Terminal st \<longleftrightarrow> st \<in> {JobSucceeded, JobFailed, JobCanceled}" for st
    by (cases st) (auto simp: Terminal_def Active_def)
  have Z: "time_Unix n < t \<longleftrightarrow> n < UnixNano t" "time_Unix n = 0 \<longleftrightarrow> n = UnixNano 0" for n
    by (auto simp: time_Unix_def UnixNano_def)
  assume "row_ok r"
  then show ?thesis
    by (auto simp: old_terminal_def row_terminal_before_def scanJob_def row_ok_def T Z IsZero_def
        split: option.splits)
qed

lemma sql_invar_distinct: "sql_invar s \<Longrightarrow> distinct (map job_ID (map scanJob (sql_jobs s)))"
  by (simp add: sql_invar_def)

lemma sql_ran: "sql_invar s \<Longrightarrow> ran (sql_jobs_of s) = scanJob ` set (sql_jobs s)"
  using ran_key_map [OF sql_invar_distinct] by (simp add: sql_jobs_of_def)

lemma sql_find: "map_option scanJob (find (\<lambda>r. row_id r = i) (sql_jobs s)) = sql_jobs_of s i"
proof -
  have "map_option scanJob (find (\<lambda>r. row_id r = i) xs) = key_map job_ID (map scanJob xs) i" for xs
    by (induction xs) auto
  then show ?thesis by (simp add: sql_jobs_of_def)
qed

lemma sql_same_jobs:
  assumes "sql_jobs s1 = sql_jobs s"
  shows "sql_invar s1 = sql_invar s" and "sql_jobs_of s1 = sql_jobs_of s"
  using assms by (simp_all add: sql_invar_def sql_jobs_of_def)

subsection \<open>Statements keep the invariant\<close>

lemma sql_exec_cases:
  obtains (fail) e s1 where "sql_exec stmt s = (Inl (ErrDriver e), s1)" "sql_jobs s1 = sql_jobs s"
  | (run) s1 where "sql_exec stmt s = stmt s1" "sql_jobs s1 = sql_jobs s"
  by (rule sql_exec_tables [of stmt s]) (auto dest: sql_tables_eqD)

lemma is_driver_ErrDriver [simp]: "is_driver (ErrDriver e)"
  by (simp add: is_driver_def)

lemma sql_exec_ok:
  assumes "sql_invar s" and "\<And>e. E (ErrDriver e)"
    and "\<And>s1. sql_jobs s1 = sql_jobs s \<Longrightarrow> sql_invar s1 \<Longrightarrow> sql_jobs_of s1 = sql_jobs_of s \<Longrightarrow>
           op_ok sql_invar sql_jobs_of s E Q (stmt s1)"
  shows "op_ok sql_invar sql_jobs_of s E Q (sql_exec stmt s)"
proof (cases rule: sql_exec_cases [of stmt s])
  case (fail e s1)
  with assms(1,2) sql_same_jobs [of s1 s] show ?thesis by (simp add: op_ok_def)
next
  case (run s1)
  with assms(1,3) sql_same_jobs [of s1 s] show ?thesis by simp
qed

lemma sql_then_ok:
  assumes "op_ok sql_invar sql_jobs_of s E Q rs"
    and "\<And>x s1. sql_invar s1 \<Longrightarrow> Q x (sql_jobs_of s1) \<Longrightarrow> op_ok sql_invar sql_jobs_of s E R (k x s1)"
  shows "op_ok sql_invar sql_jobs_of s E R (sql_then rs k)"
proof (cases rs)
  case (Pair r s1)
  show ?thesis
  proof (cases r)
    case (Inl e)
    with Pair assms(1) show ?thesis by (simp add: sql_then_def op_ok_def)
  next
    case (Inr x)
    with Pair assms op_ok_Inr [of sql_invar sql_jobs_of s E Q x s1] show ?thesis
      by (simp add: sql_then_def)
  qed
qed

lemma exec_update_ok:
  assumes inv: "sql_invar s" and E: "\<And>e. E (ErrDriver e)"
    and R: "\<And>r. R r \<longleftrightarrow> P (scanJob r)"
    and g: "\<And>r. row_id (g r) = row_id r" "\<And>r. row_ok r \<Longrightarrow> row_ok (g r)"
    and f: "\<And>r. row_ok r \<Longrightarrow> R r \<Longrightarrow> r \<in> set (sql_jobs s) \<Longrightarrow> scanJob (g r) = f (scanJob r)"
    and fid: "\<And>j. job_ID (f j) = job_ID j"
  shows "op_ok sql_invar sql_jobs_of s E (bulk_spec P f (sql_jobs_of s)) (exec_update_jobs R g s)"
  unfolding exec_update_jobs_def
proof (rule sql_exec_ok [OF inv], goal_cases)
  case (1 e)
  show ?case by (rule E)
next
  case (2 s1)
  let ?rows = "map (\<lambda>r. if R r then g r else r) (sql_jobs s)"
  have keys: "map row_id ?rows = map row_id (sql_jobs s)" using g(1) by simp
  have inv': "sql_invar (s1\<lparr>sql_jobs := ?rows\<rparr>)"
    using inv g(2) keys by (auto simp: sql_invar_def simp del: map_map)
  have rows: "map scanJob ?rows = map (\<lambda>j. if P j then f j else j) (map scanJob (sql_jobs s))"
    using f R inv by (auto simp: sql_invar_def)
  have "key_map job_ID (map scanJob ?rows) i =
      map_option (\<lambda>j. if P j then f j else j) (key_map job_ID (map scanJob (sql_jobs s)) i)" for i
    unfolding rows using fid by (intro key_map_map) simp
  moreover have "length (filter R (sql_jobs s)) = length (filter P (map scanJob (sql_jobs s)))"
    by (simp add: filter_map comp_def R [abs_def, symmetric])
  ultimately have "bulk_spec P f (sql_jobs_of s) (length (filter R (sql_jobs s)))
      (sql_jobs_of (s1\<lparr>sql_jobs := ?rows\<rparr>))"
    using card_key_map [OF sql_invar_distinct [OF inv], of P]
    by (simp add: bulk_spec_def sql_jobs_of_def)
  with inv' 2(1) show ?case
    by (simp add: op_ok_def sql_update_def)
qed

text \<open>An update by primary key touches at most one job.\<close>

lemma bulk_cas:
  assumes "bulk_spec (\<lambda>j. job_ID j = i \<and> P j) f m n m'"
    and ids: "\<And>i j. m i = Some j \<Longrightarrow> job_ID j = i"
  shows "cas_spec P f i m (0 < n) m'"
proof -
  have m': "m' k = map_option (\<lambda>j. if job_ID j = i \<and> P j then f j else j) (m k)" for k
    using assms(1) by (simp add: bulk_spec_def)
  have S: "{k. \<exists>j. m k = Some j \<and> job_ID j = i \<and> P j} = {k. k = i \<and> (\<exists>j. m i = Some j \<and> P j)}"
    using ids by auto
  have n: "n = card {k. \<exists>j. m k = Some j \<and> job_ID j = i \<and> P j}"
    using assms(1) by (simp add: bulk_spec_def)
  have other: "k \<noteq> i \<Longrightarrow> m' k = m k" for k
    using ids by (cases "m k") (auto simp: m')
  show ?thesis
  proof (cases "\<exists>j. m i = Some j \<and> P j")
    case True
    then obtain j where j: "m i = Some j" "P j" by blast
    with ids have "m' i = Some (f j)" by (auto simp: m')
    with other have "m' = m(i \<mapsto> f j)" by auto
    moreover have "n = 1" using n S j by simp
    ultimately show ?thesis using j by (simp add: cas_spec_def)
  next
    case False
    then have "m' i = m i" by (cases "m i") (auto simp: m')
    with other have "m' = m" by (intro ext) (metis)
    moreover have "n = 0" using n S False by simp
    ultimately show ?thesis using False by (auto simp: cas_spec_def split: option.splits)
  qed
qed

lemma sql_ids: "sql_invar s \<Longrightarrow> sql_jobs_of s i = Some j \<Longrightarrow> job_ID j = i"
  by (auto simp: sql_jobs_of_def dest: key_map_SomeD)

lemma exec_cas_ok:
  assumes "sql_invar s" and "\<And>e. E (ErrDriver e)"
    and "\<And>r. R r \<longleftrightarrow> P (scanJob r)"
    and "\<And>r. row_id (g r) = row_id r" "\<And>r. row_ok r \<Longrightarrow> row_ok (g r)"
    and "\<And>r. row_ok r \<Longrightarrow> row_id r = i \<Longrightarrow> r \<in> set (sql_jobs s) \<Longrightarrow> scanJob (g r) = f (scanJob r)"
    and "\<And>j. job_ID (f j) = job_ID j"
  shows "op_ok sql_invar sql_jobs_of s E (\<lambda>n m'. cas_spec P f i (sql_jobs_of s) (0 < n) m')
    (exec_update_jobs (\<lambda>r. row_id r = i \<and> R r) g s)"
proof -
  have "op_ok sql_invar sql_jobs_of s E
      (bulk_spec (\<lambda>j. job_ID j = i \<and> P j) f (sql_jobs_of s))
      (exec_update_jobs (\<lambda>r. row_id r = i \<and> R r) g s)"
    using assms by (intro exec_update_ok) auto
  then show ?thesis
    using bulk_cas sql_ids [OF assms(1)] by (fastforce simp: op_ok_def split: sum.splits)
qed

subsection \<open>Operations meet the contract\<close>

lemma sql_GetJob_ok:
  assumes "sql_invar s"
  shows "op_ok sql_invar sql_jobs_of s
    (\<lambda>e. is_driver e \<or> e = ErrNotFound \<and> sql_jobs_of s i = None)
    (\<lambda>j m'. m' = sql_jobs_of s \<and> sql_jobs_of s i = Some j) (sql_GetJob i s)"
  unfolding sql_GetJob_def
proof (rule sql_exec_ok [OF assms], goal_cases)
  case (2 s1)
  then show ?case
    using sql_find [of i s1] by (auto simp: op_ok_def split: option.splits)
qed simp

lemma insert_job_ok:
  assumes "sql_invar s" and "row_ok row" and "sql_jobs_of s (row_id row) = None"
  shows "op_ok sql_invar sql_jobs_of s is_driver
    (\<lambda>_ m'. m' = (sql_jobs_of s)(row_id row \<mapsto> scanJob row)) (insert_job row s)"
  unfolding insert_job_def
proof (rule sql_exec_ok [OF assms(1)], goal_cases)
  case (2 s1)
  from assms(3) have "row_id row \<notin> row_id ` set (sql_jobs s)"
    by (simp add: sql_jobs_of_def key_map_None image_image)
  moreover from this have
    "sql_jobs_of (s1\<lparr>sql_jobs := sql_jobs s @ [row]\<rparr>) = (sql_jobs_of s)(row_id row \<mapsto> scanJob row)"
    using key_map_append_fresh [of job_ID "scanJob row" "map scanJob (sql_jobs s)"]
    by (simp add: sql_jobs_of_def image_image)
  ultimately show ?case
    using 2(1) assms(1,2) by (auto simp: op_ok_def sql_invar_def)
qed simp

lemma insert_get_ok:
  assumes "sql_invar s" and "row_ok row" and "sql_jobs_of s (row_id row) = None"
    and "sql_then (insert_job row s) (\<lambda>_. sql_GetJob (row_id row)) = (r, s')"
  shows "sql_invar s' \<and>
    (case r of
       Inl e \<Rightarrow> is_driver e \<and>
         (sql_jobs_of s' = sql_jobs_of s \<or> sql_jobs_of s' = (sql_jobs_of s)(row_id row \<mapsto> scanJob row))
     | Inr j \<Rightarrow> j = scanJob row \<and> sql_jobs_of s' = (sql_jobs_of s)(row_id row \<mapsto> j))"
proof (cases "insert_job row s")
  case (Pair q s1)
  note ins = insert_job_ok [OF assms(1-3), unfolded Pair]
  show ?thesis
  proof (cases q)
    case (Inl e)
    with ins Pair assms(4) show ?thesis by (auto simp: op_ok_def sql_then_def)
  next
    case (Inr u)
    with ins have "sql_invar s1" and jobs: "sql_jobs_of s1 = (sql_jobs_of s)(row_id row \<mapsto> scanJob row)"
      by (auto simp: op_ok_def)
    with sql_GetJob_ok [of s1 "row_id row"] show ?thesis
      using Pair Inr assms(4) by (auto simp: op_ok_def sql_then_def split: sum.splits)
  qed
qed

lemma sql_list_ok:
  assumes "sql_invar s"
  shows "list_spec f (sql_jobs_of s)
    (map scanJob (take (nat (clampJobLimit (f_Limit f)))
       (rev (sort_key row_id (filter (sql_where f) (sql_jobs s))))))"
proof -
  let ?rows = "rev (sort_key row_id (filter (sql_where f) (sql_jobs s)))"
  have "sorted_wrt (\<lambda>a b. row_id b < row_id a) ?rows"
    using assms by (intro sorted_wrt_rev_sort_key) (simp add: sql_invar_def distinct_map_filter)
  then have "sorted_wrt (\<lambda>a b. job_ID b < job_ID a) (map scanJob ?rows)"
    by (simp add: sorted_wrt_map)
  moreover have m: "sql_where f r \<longleftrightarrow> job_matches f (scanJob r)" if "r \<in> set (sql_jobs s)" for r
    using scanJob_parent [of r "f_ParentID f"] that assms
    by (auto simp: sql_where_def job_matches_def sql_invar_def split: option.splits)
  have "set (map scanJob ?rows) = {j \<in> ran (sql_jobs_of s). job_matches f j}"
    using sql_ran [OF assms] m by auto
  ultimately show ?thesis
    unfolding list_spec_def by (intro exI [of _ "map scanJob ?rows"] conjI) (simp_all only: take_map)
qed

lemma sort_key_Cons_min:
  assumes "sort_key k xs = c # cs"
  shows "c \<in> set xs" and "\<forall>x\<in>set xs. k c \<le> k x"
proof -
  have "set (c # cs) = set xs" by (metis assms set_sort)
  moreover have "sorted (map k (c # cs))" by (metis assms sorted_sort_key)
  ultimately show "c \<in> set xs" "\<forall>x\<in>set xs. k c \<le> k x" by auto
qed

lemma claimNextWhere_ok:
  assumes "sql_invar s" and "\<And>r. W r \<longleftrightarrow> P (row_kind r)"
  shows "op_ok sql_invar sql_jobs_of s is_driver (claim_spec P now (sql_jobs_of s)) (claimNextWhere now W s)"
  unfolding claimNextWhere_def
proof (rule sql_exec_ok [OF assms(1)], goal_cases)
  case (2 s1)
  let ?q = "filter (\<lambda>r. row_state r = JobQueued \<and> W r) (sql_jobs s)"
  let ?k = "\<lambda>r. (row_created r, row_id r)"
  let ?g = "\<lambda>r::JobRow. r\<lparr>row_state := JobRunning, row_started := Some (UnixNano now)\<rparr>"
  have d: "distinct (map row_id (sql_jobs s))" using assms(1) by (simp add: sql_invar_def)
  show ?case
  proof (cases "sort_key ?k ?q")
    case Nil
    then have "?q = []" by (metis set_sort set_empty)
    then have "\<forall>j\<in>ran (sql_jobs_of s). \<not> claimable P j"
      using assms(2) sql_ran [OF assms(1)] by (auto simp: filter_empty_conv claimable_def)
    with Nil 2 show ?thesis by (simp add: op_ok_def claim_spec_def)
  next
    case (Cons c cs)
    from sort_key_Cons_min [OF Cons] have c: "c \<in> set (sql_jobs s)" "row_state c = JobQueued" "W c"
      and least: "\<And>r. r \<in> set ?q \<Longrightarrow> ?k c \<le> ?k r" by auto
    have look: "key_map row_id (sql_jobs s) (row_id c) = Some c"
      using d c(1) by (simp add: key_map_Some)
    let ?rows = "map (\<lambda>r. if row_id r = row_id c then ?g r else r) (sql_jobs s)"
    have upd: "upd_first (\<lambda>r. row_id r = row_id c \<and> row_state r = JobQueued) ?g (sql_jobs s) = (Some (?g c), ?rows)"
      using upd_first_key [OF d, of ?g "row_id c" "\<lambda>r. row_state r = JobQueued"] look c(2) by simp
    have scan: "scanJob (?g c) = start_job now (scanJob c)"
      by (simp add: scanJob_def start_job_def)
    have jobs: "sql_jobs_of s (row_id c) = Some (scanJob c)"
      using sql_invar_distinct [OF assms(1)] c(1) by (auto simp: sql_jobs_of_def key_map_Some)
    have "map scanJob ?rows = map (\<lambda>j. if job_ID j = row_id c then start_job now j else j) (map scanJob (sql_jobs s))"
      by (simp add: scanJob_def start_job_def)
    then have after: "sql_jobs_of (s1\<lparr>sql_jobs := ?rows\<rparr>) =
        (sql_jobs_of s)(row_id c \<mapsto> start_job now (scanJob c))"
      using key_map_upd_key [OF sql_invar_distinct [OF assms(1)], of "start_job now" "row_id c"] jobs
      by (simp add: sql_jobs_of_def del: map_map)
    have inv: "sql_invar (s1\<lparr>sql_jobs := ?rows\<rparr>)"
      using assms(1) by (auto simp: sql_invar_def row_ok_def simp del: map_map)
    have old: "\<forall>j1\<in>ran (sql_jobs_of s). claimable P j1 \<longrightarrow> job_Created (scanJob c) \<le> job_Created j1"
    proof (intro ballI impI)
      fix j1 assume "j1 \<in> ran (sql_jobs_of s)" "claimable P j1"
      then obtain r where "r \<in> set ?q" "j1 = scanJob r"
        using sql_ran [OF assms(1)] assms(2) by (auto simp: claimable_def)
      with least [of r] show "job_Created (scanJob c) \<le> job_Created j1" by auto
    qed
    have "claim_spec P now (sql_jobs_of s) (Some (scanJob (?g c))) (sql_jobs_of (s1\<lparr>sql_jobs := ?rows\<rparr>))"
      using jobs scan after old c assms(2) by (simp add: claim_spec_def claimable_def)
    with Cons upd inv 2(1) show ?thesis by (simp add: op_ok_def)
  qed
qed simp

lemma sql_AppendStep_ok:
  assumes "sql_invar s"
  shows "op_ok sql_invar sql_jobs_of s
    (\<lambda>e. is_driver e \<or> e = ErrNotFound \<and> sql_jobs_of s i = None)
    (\<lambda>_ m'. \<exists>j. sql_jobs_of s i = Some j \<and> m' = (sql_jobs_of s)(i \<mapsto> add_step step j))
    (sql_AppendStep i step s)"
    (is "op_ok _ _ _ ?E ?Q _")
  unfolding sql_AppendStep_def
proof (rule sql_then_ok [where Q = "\<lambda>arr m'. m' = sql_jobs_of s \<and>
        (\<exists>j. sql_jobs_of s i = Some j \<and> job_Steps j = arr)"], goal_cases)
  case 1
  show ?case
  proof (rule sql_exec_ok [OF assms], goal_cases)
    case (2 s1)
    then show ?case
      using sql_find [of i s1, symmetric] by (auto simp: op_ok_def split: option.splits)
  qed simp
next
  case (2 arr s1)
  then obtain j where j: "sql_jobs_of s i = Some j" "job_Steps j = arr" and eq: "sql_jobs_of s1 = sql_jobs_of s"
    by blast
  have steps: "row_steps r = arr" if "r \<in> set (sql_jobs s1)" "row_id r = i" for r
    using that j key_map_Some [OF sql_invar_distinct [OF 2(1)], of i "scanJob r"] eq
    by (auto simp: sql_jobs_of_def)
  have "op_ok sql_invar sql_jobs_of s1 ?E
      (\<lambda>n m'. cas_spec (\<lambda>_. True) (add_step step) i (sql_jobs_of s1) (0 < n) m')
      (exec_update_jobs (\<lambda>r. row_id r = i \<and> True) (\<lambda>r. r\<lparr>row_steps := coalesceStep arr step\<rparr>) s1)"
    using steps by (intro exec_cas_ok [OF 2(1)]) (auto simp: row_ok_def scanJob_def add_step_def)
  then have "op_ok sql_invar sql_jobs_of s ?E (\<lambda>_. ?Q ())
      (exec_update_jobs (\<lambda>r. row_id r = i) (\<lambda>r. r\<lparr>row_steps := coalesceStep arr step\<rparr>) s1)"
    using j(1) eq by (auto simp: op_ok_def cas_spec_def split: sum.splits)
  then show ?case
    by (rule sql_then_ok) (auto simp: op_ok_def)
qed

lemma null_if_empty_scan [simp]:
  "(case null_if_empty msg of None \<Rightarrow> '''' | Some e \<Rightarrow> e) = msg"
  by (simp add: null_if_empty_def)

lemma sql_Finish_ok:
  assumes "sql_invar s" and "0 < now"
  shows "op_ok sql_invar sql_jobs_of s
    (\<lambda>e. is_driver e \<or> e = ErrInvalidTerminalState st \<and> \<not> Terminal st \<or> e = ErrNotFound \<and> sql_jobs_of s i = None)
    (\<lambda>_ m'. Terminal st \<and>
       (\<exists>j. sql_jobs_of s i = Some j \<and> m' = (sql_jobs_of s)(i \<mapsto> end_job now st msg j)))
    (sql_Finish now i st msg s)"
    (is "op_ok _ _ _ ?E _ _")
proof (cases "Terminal st")
  case False
  then have "sql_Finish now i st msg s = (Inl (ErrInvalidTerminalState st), s)"
    by (cases st) (auto simp: sql_Finish_def Terminal_def Active_def)
  with False assms(1) show ?thesis by (simp add: op_ok_def)
next
  case True
  let ?g = "\<lambda>r. r\<lparr>row_state := st, row_error := null_if_empty msg, row_finished := Some (UnixNano now)\<rparr>"
  let ?k = "\<lambda>(n::nat) s1. if n = 0 then (Inl ErrNotFound, s1) else (Inr (), s1)"
  have run: "sql_Finish now i st msg s = sql_then (exec_update_jobs (\<lambda>r. row_id r = i \<and> True) ?g s) ?k"
    using True by (cases st) (simp_all add: sql_Finish_def Terminal_def Active_def)
  have "op_ok sql_invar sql_jobs_of s ?E
      (\<lambda>n m'. cas_spec (\<lambda>_. True) (end_job now st msg) i (sql_jobs_of s) (0 < n) m')
      (exec_update_jobs (\<lambda>r. row_id r = i \<and> True) ?g s)"
    using assms(2) by (intro exec_cas_ok [OF assms(1)]) (auto simp: row_ok_def scanJob_def end_job_def)
  then show ?thesis
    unfolding run
    by (rule sql_then_ok) (use True in \<open>auto simp: op_ok_def cas_spec_def split: option.splits\<close>)
qed

lemma exec_bool_ok:
  assumes "op_ok sql_invar sql_jobs_of s E (\<lambda>n m'. C (0 < n) m') rs"
  shows "op_ok sql_invar sql_jobs_of s E C (sql_then rs (\<lambda>(n::nat) s1. (Inr (n > 0), s1)))"
  using assms by (rule sql_then_ok) (simp add: op_ok_def)

lemma sql_FailRunning_ok:
  assumes "sql_invar s" and "0 < now"
  shows "op_ok sql_invar sql_jobs_of s is_driver
    (bulk_spec (\<lambda>j. job_State j = JobRunning) (end_job now JobFailed reason) (sql_jobs_of s))
    (sql_FailRunning now reason s)"
  unfolding sql_FailRunning_def using assms(2)
  by (intro exec_update_ok [OF assms(1)]) (auto simp: row_ok_def scanJob_def end_job_def)

lemma sql_MarkReconciling_ok:
  assumes "sql_invar s"
  shows "op_ok sql_invar sql_jobs_of s is_driver
    (bulk_spec (\<lambda>j. job_State j = JobRunning \<and> job_Kind j \<in> set kinds) reconcile_job (sql_jobs_of s))
    (sql_MarkReconciling kinds s)"
proof (cases "length kinds = 0")
  case True
  then show ?thesis
    using assms by (auto simp: sql_MarkReconciling_def op_ok_def bulk_spec_def option.map_ident)
next
  case False
  then have "sql_MarkReconciling kinds s =
      exec_update_jobs (\<lambda>r. row_state r = JobRunning \<and> row_kind r \<in> set kinds)
        (\<lambda>r. r\<lparr>row_state := JobReconciling\<rparr>) s"
    by (simp add: sql_MarkReconciling_def)
  then show ?thesis
    by (simp only:, intro exec_update_ok [OF assms]) (auto simp: row_ok_def scanJob_def reconcile_job_def)
qed

lemma sql_ResolveReconciling_ok:
  assumes "sql_invar s" and "0 < now"
  shows "op_ok sql_invar sql_jobs_of s
    (\<lambda>e. is_driver e \<or> e = ErrInvalidTerminalState st \<and> st \<notin> {JobSucceeded, JobFailed})
    (\<lambda>b m'. st \<in> {JobSucceeded, JobFailed} \<and>
       cas_spec (\<lambda>j. job_State j = JobReconciling) (end_job now st msg) i (sql_jobs_of s) b m')
    (sql_ResolveReconciling now i st msg s)"
proof (cases "st \<in> {JobSucceeded, JobFailed}")
  case False
  with assms(1) show ?thesis by (simp add: sql_ResolveReconciling_def op_ok_def)
next
  case True
  then have run: "sql_ResolveReconciling now i st msg s =
      sql_then (exec_update_jobs (\<lambda>r. row_id r = i \<and> row_state r = JobReconciling)
        (\<lambda>r. r\<lparr>row_state := st, row_error := null_if_empty msg, row_finished := Some (UnixNano now)\<rparr>) s)
        (\<lambda>n s1. (Inr (n > 0), s1))"
    by (auto simp: sql_ResolveReconciling_def)
  have "op_ok sql_invar sql_jobs_of s
      (\<lambda>e. is_driver e \<or> e = ErrInvalidTerminalState st \<and> st \<notin> {JobSucceeded, JobFailed})
      (cas_spec (\<lambda>j. job_State j = JobReconciling) (end_job now st msg) i (sql_jobs_of s))
      (sql_ResolveReconciling now i st msg s)"
    unfolding run using assms(2)
    by (intro exec_bool_ok exec_cas_ok [OF assms(1)]) (auto simp: row_ok_def scanJob_def end_job_def)
  with True show ?thesis by simp
qed

lemma sql_CancelReconciling_ok:
  assumes "sql_invar s" and "0 < now"
  shows "op_ok sql_invar sql_jobs_of s is_driver
    (cas_spec (\<lambda>j. job_State j = JobReconciling) (cancel_job now) i (sql_jobs_of s))
    (sql_CancelReconciling now i s)"
  unfolding sql_CancelReconciling_def using assms(2)
  by (intro exec_bool_ok exec_cas_ok [OF assms(1)]) (auto simp: row_ok_def scanJob_def cancel_job_def)

lemma sql_CancelQueued_ok:
  assumes "sql_invar s" and "0 < now"
  shows "op_ok sql_invar sql_jobs_of s is_driver
    (cas_spec (\<lambda>j. job_State j = JobQueued) (cancel_job now) i (sql_jobs_of s))
    (sql_CancelQueued now i s)"
  unfolding sql_CancelQueued_def using assms(2)
  by (intro exec_bool_ok exec_cas_ok [OF assms(1)]) (auto simp: row_ok_def scanJob_def cancel_job_def)

text \<open>A transaction either leaves the tables as they were or has the effect of its body.\<close>

lemma sql_tx_tables:
  obtains (fail) e s' s1 s2 where "sql_tx body s = (Inl e, s')" "sql_tables s' = sql_tables s"
      "is_driver e \<or> body s1 = (Inl e, s2)" "sql_tables s1 = sql_tables s"
  | (commit) s1 x s2 s' where "sql_tx body s = (Inr x, s')" "body s1 = (Inr x, s2)"
      "sql_tables s1 = sql_tables s" "sql_tables s' = sql_tables s2"
proof (cases rule: sql_exec_tables [of "\<lambda>s. (Inr (), s)" s])
  case (fail e s1)
  then show thesis
    by (intro that(1) [of "ErrDriver e" "s\<lparr>sql_verdicts := sql_verdicts s1\<rparr>" s s])
      (auto simp: sql_tx_def sql_then_def sql_tables_def)
next
  case (run s1)
  obtain q s2 where body: "body s1 = (q, s2)" by fastforce
  show thesis
  proof (cases q)
    case (Inl e)
    with run body show thesis
      by (intro that(1) [of e "s\<lparr>sql_verdicts := sql_verdicts s2\<rparr>" s1 s2])
        (auto simp: sql_tx_def sql_then_def sql_tables_def)
  next
    case (Inr x)
    show thesis
    proof (cases rule: sql_exec_tables [of "\<lambda>s. (Inr x, s)" s2])
      case (fail e s3)
      with run body Inr show thesis
        by (intro that(1) [of "ErrDriver e" "s\<lparr>sql_verdicts := sql_verdicts s3\<rparr>" s s])
          (auto simp: sql_tx_def sql_then_def sql_tables_def)
    next
      case commit: (run s3)
      with run body Inr show thesis
        by (intro that(2) [of x s3 s1 s2]) (auto simp: sql_tx_def sql_then_def)
    qed
  qed
qed

lemma sql_tx_cases:
  obtains (fail) e s' s1 s2 where "sql_tx body s = (Inl e, s')" "sql_jobs s' = sql_jobs s"
      "is_driver e \<or> body s1 = (Inl e, s2)" "sql_jobs s1 = sql_jobs s"
  | (commit) s1 x s2 s' where "sql_tx body s = (Inr x, s')" "body s1 = (Inr x, s2)"
      "sql_jobs s1 = sql_jobs s" "sql_jobs s' = sql_jobs s2"
proof (cases rule: sql_tx_tables [of body s])
  case (fail e s' s1 s2)
  with that(1) sql_tables_eqD(1) show thesis by blast
next
  case (commit s1 x s2 s')
  with that(2) sql_tables_eqD(1) show thesis by blast
qed

lemma exec_delete_cases:
  obtains (fail) e s1 where "exec_delete_jobs P s = (Inl (ErrDriver e), s1)" "sql_jobs s1 = sql_jobs s"
  | (run) s1 where "exec_delete_jobs P s = (Inr (length (filter P (sql_jobs s))), s1)"
      "sql_jobs s1 = filter (\<lambda>r. \<not> P r) (sql_jobs s)"
  by (rule sql_exec_cases [of "\<lambda>s. case sql_delete P (sql_jobs s) of (n, rows) \<Rightarrow> (Inr n, s\<lparr>sql_jobs := rows\<rparr>)" s])
    (auto simp: exec_delete_jobs_def sql_delete_def intro: that)

text \<open>The rows the two deletes of \<^verbatim>\<open>PruneJobs\<close> leave.\<close>

definition sql_child_row :: "time \<Rightarrow> JobRow \<Rightarrow> bool" where
  "sql_child_row t r \<longleftrightarrow> row_parent_id r \<noteq> None \<and> row_terminal_before (UnixNano t) r"

definition sql_parent_row :: "time \<Rightarrow> JobRow list \<Rightarrow> JobRow \<Rightarrow> bool" where
  "sql_parent_row t rows r \<longleftrightarrow> row_terminal_before (UnixNano t) r \<and>
     Some (row_id r) \<notin> set (filter (\<lambda>p. p \<noteq> None) (map row_parent_id rows))"

lemma sql_PruneJobs_cases:
  obtains (fail) e s' where "sql_PruneJobs t s = (Inl e, s')" "is_driver e" "sql_jobs s' = sql_jobs s"
  | (commit) kept s' where "kept = filter (\<lambda>r. \<not> sql_child_row t r) (sql_jobs s)"
      "sql_PruneJobs t s = (Inr (length (filter (sql_child_row t) (sql_jobs s)) +
         length (filter (sql_parent_row t kept) kept)), s')"
      "sql_jobs s' = filter (\<lambda>r. \<not> sql_parent_row t kept r) kept"
proof -
  let ?body = "\<lambda>s. sql_then (exec_delete_jobs (sql_child_row t) s)
      (\<lambda>nChild s1. sql_then (exec_delete_jobs (sql_parent_row t (sql_jobs s1)) s1)
         (\<lambda>nParent s2. (Inr (nChild + nParent), s2)))"
  have run: "sql_PruneJobs t s = sql_tx ?body s"
    by (simp add: sql_PruneJobs_def sql_child_row_def [abs_def] sql_parent_row_def [abs_def] Let_def)
  have body: "(\<exists>e. q = Inl e \<and> is_driver e) \<or>
      (\<exists>kept. kept = filter (\<lambda>r. \<not> sql_child_row t r) (sql_jobs s1) \<and>
         q = Inr (length (filter (sql_child_row t) (sql_jobs s1)) +
           length (filter (sql_parent_row t kept) kept)) \<and>
         sql_jobs s3 = filter (\<lambda>r. \<not> sql_parent_row t kept r) kept)"
    if b: "?body s1 = (q, s3)" for s1 q s3
  proof (cases rule: exec_delete_cases [of "sql_child_row t" s1])
    case (fail e s2)
    with b show ?thesis by (auto simp: sql_then_def)
  next
    case (run s2)
    then show ?thesis
      using b by (cases rule: exec_delete_cases [of "sql_parent_row t (sql_jobs s2)" s2])
        (auto simp: sql_then_def)
  qed
  show thesis
  proof (cases rule: sql_tx_cases [of ?body s])
    case (fail e s' s1 s2)
    with body [of s1 "Inl e" s2] run show thesis by (intro that(1) [of e s']) auto
  next
    case (commit s1 x s2 s')
    with body [of s1 "Inr x" s2] run show thesis by (intro that(2) [OF refl, of s']) auto
  qed
qed

lemma sql_PruneJobs_ok:
  assumes inv: "sql_invar s"
  shows "op_ok sql_invar sql_jobs_of s is_driver (prune_spec t (sql_jobs_of s)) (sql_PruneJobs t s)"
proof (cases rule: sql_PruneJobs_cases [of t s])
  case (fail e s')
  with inv sql_same_jobs [of s' s] show ?thesis by (simp add: op_ok_def)
next
  case (commit kept s')
  let ?P = "pruned t (sql_jobs_of s)"
  have ok: "row_ok r" if "r \<in> set (sql_jobs s)" for r using inv that by (simp add: sql_invar_def)
  have child: "sql_child_row t r \<longleftrightarrow> pruned_child t (scanJob r)" if "r \<in> set (sql_jobs s)" for r
    using scanJob_old [OF ok [OF that]] scanJob_has_parent [OF ok [OF that]]
    by (simp add: sql_child_row_def pruned_child_def)
  have ref: "Some i \<in> set (filter (\<lambda>p. p \<noteq> None) (map row_parent_id kept)) \<longleftrightarrow>
      referenced t (sql_jobs_of s) i" for i
    unfolding referenced_def sql_ran [OF inv] commit(1)
    using child scanJob_parent ok by (auto simp: image_iff) metis+
  have parent: "sql_parent_row t kept r \<longleftrightarrow>
      old_terminal t (scanJob r) \<and> \<not> referenced t (sql_jobs_of s) (row_id r)"
    if "r \<in> set (sql_jobs s)" for r
    using scanJob_old [OF ok [OF that]] ref by (simp add: sql_parent_row_def)
  have P: "?P (scanJob r) \<longleftrightarrow> sql_child_row t r \<or> sql_parent_row t kept r" if "r \<in> set (sql_jobs s)" for r
    using child [OF that] parent [OF that] by (simp add: pruned_def)
  have rows: "sql_jobs s' = filter (\<lambda>r. \<not> ?P (scanJob r)) (sql_jobs s)"
    using P by (auto simp: commit(1,3) intro: filter_cong)
  have "length (filter (sql_child_row t) xs) + length (filter Q (filter (\<lambda>r. \<not> sql_child_row t r) xs)) =
      length (filter (\<lambda>r. sql_child_row t r \<or> Q r) xs)" for Q and xs :: "JobRow list"
    by (induction xs) auto
  then have n: "length (filter (sql_child_row t) (sql_jobs s)) + length (filter (sql_parent_row t kept) kept) =
      length (filter ?P (map scanJob (sql_jobs s)))"
    using P by (simp add: commit(1) filter_map comp_def cong: filter_cong)
  have inv': "sql_invar s'"
    using inv by (auto simp: sql_invar_def rows distinct_map_filter)
  have "map scanJob (sql_jobs s') = filter (\<lambda>j. \<not> ?P j) (map scanJob (sql_jobs s))"
    by (simp add: rows filter_map comp_def)
  then have "sql_jobs_of s' i = (case sql_jobs_of s i of None \<Rightarrow> None
      | Some j \<Rightarrow> if ?P j then None else Some j)" for i
    using key_map_filter [OF sql_invar_distinct [OF inv], of "\<lambda>j. \<not> ?P j" i]
    by (simp add: sql_jobs_of_def split: option.splits)
  moreover have "length (filter ?P (map scanJob (sql_jobs s))) =
      card {i. \<exists>j. sql_jobs_of s i = Some j \<and> ?P j}"
    using card_key_map [OF sql_invar_distinct [OF inv], of ?P] by (simp add: sql_jobs_of_def)
  ultimately show ?thesis
    using commit(2) n inv' by (simp add: op_ok_def prune_spec_def)
qed

lemma sql_SQLiteJobs_fields [simp]:
  "js_Enqueue SQLiteJobs = sql_Enqueue" "js_StartChild SQLiteJobs = sql_StartChild"
  "js_GetJob SQLiteJobs = sql_GetJob" "js_ListJobs SQLiteJobs = sql_ListJobs"
  "js_ClaimNext SQLiteJobs = sql_ClaimNext" "js_ClaimNextMatching SQLiteJobs = sql_ClaimNextMatching"
  "js_ClaimNextExcluding SQLiteJobs = sql_ClaimNextExcluding" "js_AppendStep SQLiteJobs = sql_AppendStep"
  "js_Finish SQLiteJobs = sql_Finish" "js_FailRunning SQLiteJobs = sql_FailRunning"
  "js_MarkReconciling SQLiteJobs = sql_MarkReconciling"
  "js_ResolveReconciling SQLiteJobs = sql_ResolveReconciling"
  "js_CancelReconciling SQLiteJobs = sql_CancelReconciling" "js_CancelQueued SQLiteJobs = sql_CancelQueued"
  "js_PruneJobs SQLiteJobs = sql_PruneJobs"
  by (simp_all add: SQLiteJobs_def)

lemma sql_Enqueue_ok:
  assumes "sql_invar s" and "sql_jobs_of s i = None" and "0 < now"
    and "sql_Enqueue i now kind args parent s = (r, s')"
  shows "sql_invar s' \<and>
    (case r of
       Inl e \<Rightarrow> is_driver e \<and> (sql_jobs_of s' = sql_jobs_of s \<or>
         sql_jobs_of s' = (sql_jobs_of s)(i \<mapsto> queued_job i now kind args parent))
     | Inr j \<Rightarrow> j = queued_job i now kind args parent \<and> sql_jobs_of s' = (sql_jobs_of s)(i \<mapsto> j))"
proof -
  define row where "row =
    \<lparr>row_id = i, row_kind = kind, row_args = (if length args = 0 then ''null'' else args),
     row_state = JobQueued, row_steps = [],
     row_parent_id = (if parent \<noteq> '''' then Some parent else None),
     row_error = None, row_created = UnixNano now, row_started = None, row_finished = None\<rparr>"
  have row: "row_id row = i" "row_ok row" "scanJob row = queued_job i now kind args parent"
    by (auto simp: row_def row_ok_def scanJob_def queued_job_def null_args_def)
  have "sql_then (insert_job row s) (\<lambda>_. sql_GetJob (row_id row)) = (r, s')"
    using assms(4) by (simp add: sql_Enqueue_def row_def)
  from insert_get_ok [OF assms(1) row(2) _ this] assms(2) show ?thesis
    by (simp add: row(1,3) split: sum.splits)
qed

lemma sql_StartChild_ok:
  assumes "sql_invar s" and "sql_jobs_of s i = None" and "0 < now"
    and "sql_StartChild i now kind args parent s = (r, s')"
  shows "sql_invar s' \<and>
    (case r of
       Inl e \<Rightarrow> is_driver e \<and> (sql_jobs_of s' = sql_jobs_of s \<or>
         sql_jobs_of s' = (sql_jobs_of s)(i \<mapsto> child_job i now kind args parent))
     | Inr j \<Rightarrow> j = child_job i now kind args parent \<and> sql_jobs_of s' = (sql_jobs_of s)(i \<mapsto> j))"
proof -
  define row where "row =
    \<lparr>row_id = i, row_kind = kind, row_args = (if length args = 0 then ''null'' else args),
     row_state = JobRunning, row_steps = [],
     row_parent_id = (if parent \<noteq> '''' then Some parent else None),
     row_error = None, row_created = UnixNano now, row_started = Some (UnixNano now),
     row_finished = None\<rparr>"
  have row: "row_id row = i" "row_ok row" "scanJob row = child_job i now kind args parent"
    by (auto simp: row_def row_ok_def scanJob_def child_job_def null_args_def)
  have "sql_then (insert_job row s) (\<lambda>_. sql_GetJob (row_id row)) = (r, s')"
    using assms(4) by (simp add: sql_StartChild_def row_def)
  from insert_get_ok [OF assms(1) row(2) _ this] assms(2) show ?thesis
    by (simp add: row(1,3) split: sum.splits)
qed

lemma sql_ListJobs_ok:
  assumes "sql_invar s"
  shows "op_ok sql_invar sql_jobs_of s is_driver
    (\<lambda>xs m'. m' = sql_jobs_of s \<and> list_spec f (sql_jobs_of s) xs) (sql_ListJobs f s)"
  unfolding sql_ListJobs_def
proof (rule sql_exec_ok [OF assms], goal_cases)
  case (2 s1)
  with sql_list_ok [OF 2(2), of f] show ?case by (simp add: op_ok_def)
qed simp

lemma sql_ClaimNextMatching_ok:
  assumes "sql_invar s"
  shows "op_ok sql_invar sql_jobs_of s is_driver
    (claim_spec (\<lambda>k. k \<in> set kinds) now (sql_jobs_of s)) (sql_ClaimNextMatching now kinds s)"
  using assms claimNextWhere_ok [OF assms, of "\<lambda>r. row_kind r \<in> set kinds" "\<lambda>k. k \<in> set kinds"]
  by (auto simp: sql_ClaimNextMatching_def op_ok_def claim_spec_def claimable_def)

lemma sql_ClaimNextExcluding_ok:
  assumes "sql_invar s"
  shows "op_ok sql_invar sql_jobs_of s is_driver
    (claim_spec (\<lambda>k. k \<notin> set kinds) now (sql_jobs_of s)) (sql_ClaimNextExcluding now kinds s)"
  using claimNextWhere_ok [OF assms, of "\<lambda>r. row_kind r \<notin> set kinds" "\<lambda>k. k \<notin> set kinds"]
    claimNextWhere_ok [OF assms, of "\<lambda>_. True" "\<lambda>_. True"]
  by (auto simp: sql_ClaimNextExcluding_def sql_ClaimNext_def)

interpretation sql: job_store SQLiteJobs sql_invar sql_jobs_of
proof (unfold_locales, goal_cases)
  case 1
  then show ?case by (rule sql_ids)
next
  case 2
  then show ?case by (simp add: sql_jobs_of_def dom_key_map)
next
  case (3 s i now kind args parent r s')
  with sql_Enqueue_ok [of s i now kind args parent r s'] show ?case by simp
next
  case (4 s i now kind args parent r s')
  with sql_StartChild_ok [of s i now kind args parent r s'] show ?case by simp
next
  case (7 s now)
  with claimNextWhere_ok [of s "\<lambda>_. True" "\<lambda>_. True"] show ?case by (simp add: sql_ClaimNext_def)
qed (simp_all add: sql_GetJob_ok sql_ListJobs_ok
      sql_ClaimNextMatching_ok sql_ClaimNextExcluding_ok sql_AppendStep_ok sql_Finish_ok
      sql_FailRunning_ok sql_MarkReconciling_ok sql_ResolveReconciling_ok [simplified]
      sql_CancelReconciling_ok sql_CancelQueued_ok sql_PruneJobs_ok)

end
