(* ===== verification/Job_System.thy ===== *)
theory Job_System
  imports Job_Api Memory_Jobs Sqlite_Jobs
begin

text \<open>
  The daemon's job machinery as one transition system: workers, reconcile tasks, cancel requests,
  enqueuers, retention and restarts interleave over one store. A label of a step carries what the
  environment chooses: which goroutine runs, the clock, new ids, what handlers and
  reconcilers do and return. The invariant is proved once for every \<^verbatim>\<open>job_store\<close>; the properties are
  its instances for the two backends.
\<close>

subsection \<open>The transition system\<close>

text \<open>
  \<open>d_used\<close> holds every id ever issued (\<^verbatim>\<open>newJobID\<close> never repeats one) and \<open>d_clock\<close> the last
  reading of the clock, which does not go backwards.
\<close>

record 's Daemon =
  d_runner :: "'s Runner"
  d_reqs :: "creq list"
  d_used :: "string list"
  d_clock :: time

datatype label =
    LStart time
  | LEnqueue string time string string string
  | LClaim nat time
  | LClaimKind nat time
  | LServed nat
  | LRunBegin nat time
  | LStep nat string time string string
  | LStartChild nat string time string string
  | LFinishChild nat string time JobState string
  | LReturn nat "string option"
  | LFinish nat time duration
  | LSweep
  | LLaunch
  | LRecStep nat time string string
  | LRecReturn nat JobState string bool "string option"
  | LResolve nat time
  | LSweepEnd
  | LRetention time duration
  | LCancel string
  | LReq nat time

fun label_time :: "label \<Rightarrow> time option" where
  "label_time (LStart t) = Some t"
| "label_time (LEnqueue _ t _ _ _) = Some t"
| "label_time (LClaim _ t) = Some t"
| "label_time (LClaimKind _ t) = Some t"
| "label_time (LRunBegin _ t) = Some t"
| "label_time (LStep _ _ t _ _) = Some t"
| "label_time (LStartChild _ _ t _ _) = Some t"
| "label_time (LFinishChild _ _ t _ _) = Some t"
| "label_time (LFinish _ t _) = Some t"
| "label_time (LRecStep _ t _ _) = Some t"
| "label_time (LResolve _ t) = Some t"
| "label_time (LRetention t _) = Some t"
| "label_time (LReq _ t) = Some t"
| "label_time _ = None"

definition tick :: "label \<Rightarrow> 's Daemon \<Rightarrow> 's Daemon option" where
  "tick a d =
     (case label_time a of
        None \<Rightarrow> Some d
      | Some t \<Rightarrow> if 0 < t \<and> d_clock d \<le> t then Some (d\<lparr>d_clock := t\<rparr>) else None)"

definition pc_at :: "nat \<Rightarrow> 's Runner \<Rightarrow> wpc option" where
  "pc_at w r = (if w < length (r_pcs r) then Some (r_pcs r ! w) else None)"

definition task_at :: "nat \<Rightarrow> 's Runner \<Rightarrow> (rpc list \<times> rpc) option" where
  "task_at k r =
     (case r_sweep r of
        None \<Rightarrow> None
      | Some sw \<Rightarrow> if k < length (sw_tasks sw) then Some (sw_tasks sw, sw_tasks sw ! k) else None)"

definition on_runner :: "'s Daemon \<Rightarrow> 's Runner option \<Rightarrow> 's Daemon option" where
  "on_runner d r = map_option (\<lambda>r'. d\<lparr>d_runner := r'\<rparr>) r"

text \<open>A worker's step.\<close>

definition worker_step :: "'s JobStore \<Rightarrow> label \<Rightarrow> 's Runner \<Rightarrow> 's Runner option" where
  "worker_step js a r =
     (case a of
        LClaim w t \<Rightarrow> if pc_at w r = Some WIdle then Some (claim js t w r) else None
      | LClaimKind w t \<Rightarrow>
          (case pc_at w r of Some (WRotating ks) \<Rightarrow> Some (claim_kind js t w ks r) | _ \<Rightarrow> None)
      | LServed w \<Rightarrow>
          (case pc_at w r of Some (WServing k job) \<Rightarrow> Some (record_served w k job r) | _ \<Rightarrow> None)
      | LRunBegin w t \<Rightarrow>
          (case pc_at w r of Some (WClaimed job) \<Rightarrow> Some (run_begin js t w job r) | _ \<Rightarrow> None)
      | LStep w i t step detail \<Rightarrow>
          (case pc_at w r of
             Some (WRunning job _ children) \<Rightarrow>
               if i = job_ID job \<or> i \<in> set children then Some (jc_Step js t i step detail r) else None
           | _ \<Rightarrow> None)
      | LReturn w err \<Rightarrow>
          (case pc_at w r of
             Some (WRunning job a _) \<Rightarrow> Some (run_return w job a err r) | _ \<Rightarrow> None)
      | LFinish w t d \<Rightarrow>
          (case pc_at w r of
             Some (WReturned job canceled err) \<Rightarrow> Some (run_finish js t d w job canceled err r)
           | _ \<Rightarrow> None)
      | _ \<Rightarrow> None)"

text \<open>A step of the reconcile loop or of one of its tasks.\<close>

definition reconcile_step :: "'s JobStore \<Rightarrow> label \<Rightarrow> 's Runner \<Rightarrow> 's Runner option" where
  "reconcile_step js a r =
     (case a of
        LSweep \<Rightarrow>
          if r_sweep r = None \<and> r_reconcilers r \<noteq> [] \<and> r_pcs r \<noteq> [] then Some (sweep_begin js r) else None
      | LLaunch \<Rightarrow> sweep_launch r
      | LRecStep k t step detail \<Rightarrow>
          (case task_at k r of
             Some (_, RCalling job _) \<Rightarrow> Some (jc_Step js t (job_ID job) step detail r) | _ \<Rightarrow> None)
      | LRecReturn k state message resolved err \<Rightarrow>
          (case task_at k r of
             Some (ts, RCalling job a) \<Rightarrow> Some (reconcile_return k ts job a state message resolved err r)
           | _ \<Rightarrow> None)
      | LResolve k t \<Rightarrow>
          (case task_at k r of
             Some (ts, RResolving job state message) \<Rightarrow> Some (reconcile_resolve js t k ts job state message r)
           | _ \<Rightarrow> None)
      | LSweepEnd \<Rightarrow> sweep_end r
      | _ \<Rightarrow> None)"

text \<open>
  A handler's use of the store besides its progress reports: the evacuate handler starts child jobs that are
  already running, and finishes each of them (\<^verbatim>\<open>internal/evacuate/handler.go\<close>, \<^verbatim>\<open>runChild\<close>).
\<close>

definition start_child ::
  "'s JobStore \<Rightarrow> nat \<Rightarrow> string \<Rightarrow> time \<Rightarrow> string \<Rightarrow> string \<Rightarrow> 's Runner \<Rightarrow> 's Runner option" where
  "start_child js w i t kind args r =
     (case pc_at w r of
        Some (WRunning job a children) \<Rightarrow>
          (case js_StartChild js i t kind args (job_ID job) (r_store r) of
             (Inl e, s) \<Rightarrow> Some (r\<lparr>r_store := s\<rparr>)
           | (Inr child, s) \<Rightarrow>
               Some (set_pc w (WRunning job a (job_ID child # children)) (r\<lparr>r_store := s\<rparr>)))
      | _ \<Rightarrow> None)"

definition finish_child ::
  "'s JobStore \<Rightarrow> nat \<Rightarrow> string \<Rightarrow> time \<Rightarrow> JobState \<Rightarrow> string \<Rightarrow> 's Runner \<Rightarrow> 's Runner option" where
  "finish_child js w i t state errMsg r =
     (case pc_at w r of
        Some (WRunning job a children) \<Rightarrow>
          if i \<in> set children \<and> Terminal state
          then Some (set_pc w (WRunning job a (removeAll i children)) (runner_finish js t i state errMsg r))
          else None
      | _ \<Rightarrow> None)"

definition daemon_step ::
  "(time \<Rightarrow> string) \<Rightarrow> 's JobStore \<Rightarrow> bool \<Rightarrow> label \<Rightarrow> 's Daemon \<Rightarrow> 's Daemon option" where
  "daemon_step fmt js canceller a d =
     (let r = d_runner d
      in case a of
        LStart t \<Rightarrow> Some (d\<lparr>d_runner := Start js t r, d_reqs := []\<rparr>)
      | LEnqueue i t kind args parent \<Rightarrow>
          if i \<in> set (d_used d) then None
          else Some (d\<lparr>d_used := i # d_used d,
                 d_runner := r\<lparr>r_store := snd (js_Enqueue js i t kind args parent (r_store r))\<rparr>\<rparr>)
      | LStartChild w i t kind args \<Rightarrow>
          if i \<in> set (d_used d) then None
          else on_runner (d\<lparr>d_used := i # d_used d\<rparr>) (start_child js w i t kind args r)
      | LFinishChild w i t state errMsg \<Rightarrow> on_runner d (finish_child js w i t state errMsg r)
      | LRetention t retention \<Rightarrow> Some (d\<lparr>d_runner := retention_sweep js t retention r\<rparr>)
      | LCancel i \<Rightarrow> Some (d\<lparr>d_reqs := d_reqs d @ [CGet i]\<rparr>)
      | LReq n t \<Rightarrow>
          if n < length (d_reqs d)
          then (case cancelJob fmt js canceller t (d_reqs d ! n) r of
                  None \<Rightarrow> None
                | Some (q, r') \<Rightarrow> Some (d\<lparr>d_runner := r', d_reqs := (d_reqs d)[n := q]\<rparr>))
          else None
      | _ \<Rightarrow>
          (case worker_step js a r of
             Some r' \<Rightarrow> Some (d\<lparr>d_runner := r'\<rparr>)
           | None \<Rightarrow> on_runner d (reconcile_step js a r)))"

text \<open>One step: the clock advances to the label's reading, then the goroutine runs.\<close>

definition exec ::
  "(time \<Rightarrow> string) \<Rightarrow> 's JobStore \<Rightarrow> bool \<Rightarrow> label \<Rightarrow> 's Daemon \<Rightarrow> 's Daemon option" where
  "exec fmt js canceller a d =
     (case tick a d of None \<Rightarrow> None | Some d' \<Rightarrow> daemon_step fmt js canceller a d')"

inductive reachable ::
  "(time \<Rightarrow> string) \<Rightarrow> 's JobStore \<Rightarrow> bool \<Rightarrow> 's Daemon \<Rightarrow> 's Daemon \<Rightarrow> bool"
  for fmt js canceller d0 where
  init: "reachable fmt js canceller d0 d0"
| step: "reachable fmt js canceller d0 d \<Longrightarrow> exec fmt js canceller a d = Some d' \<Longrightarrow>
    reachable fmt js canceller d0 d'"

fun execs ::
  "(time \<Rightarrow> string) \<Rightarrow> 's JobStore \<Rightarrow> bool \<Rightarrow> label list \<Rightarrow> 's Daemon \<Rightarrow> 's Daemon option" where
  "execs fmt js canceller [] d = Some d"
| "execs fmt js canceller (a # as) d =
     (case exec fmt js canceller a d of None \<Rightarrow> None | Some d' \<Rightarrow> execs fmt js canceller as d')"

lemma execs_reachable:
  "execs fmt js canceller as d = Some d' \<Longrightarrow> reachable fmt js canceller d0 d \<Longrightarrow>
   reachable fmt js canceller d0 d'"
  by (induction as arbitrary: d) (auto split: option.splits intro: reachable.step)

subsection \<open>How jobs evolve\<close>

fun next_states :: "JobState \<Rightarrow> JobState set" where
  "next_states JobQueued = {JobQueued, JobRunning, JobCanceled}"
| "next_states JobRunning = {JobRunning, JobSucceeded, JobFailed, JobCanceled}"
| "next_states JobReconciling = {JobReconciling, JobSucceeded, JobFailed, JobCanceled}"
| "next_states st = {st}"

text \<open>
  A job keeps its identity; its state moves along \<^const>\<open>next_states\<close>; a terminal job keeps its error and
  its end.
\<close>

definition job_evolves :: "Job \<Rightarrow> Job \<Rightarrow> bool" where
  "job_evolves j j' \<longleftrightarrow>
     job_ID j' = job_ID j \<and> job_Kind j' = job_Kind j \<and> job_Args j' = job_Args j \<and>
     job_ParentID j' = job_ParentID j \<and> job_Created j' = job_Created j \<and>
     job_State j' \<in> next_states (job_State j) \<and>
     (Terminal (job_State j) \<longrightarrow> job_Error j' = job_Error j \<and> job_Finished j' = job_Finished j)"

text \<open>
  A step of the jobs: only a terminal job disappears, only an unused id appears, and only a job
  in \<open>F\<close> leaves the running state.
\<close>

fun slot_evolves :: "bool \<Rightarrow> bool \<Rightarrow> Job option \<Rightarrow> Job option \<Rightarrow> bool" where
  "slot_evolves u f None o' \<longleftrightarrow> (u \<longrightarrow> o' = None)"
| "slot_evolves u f (Some j) None \<longleftrightarrow> Terminal (job_State j)"
| "slot_evolves u f (Some j) (Some j') \<longleftrightarrow>
     job_evolves j j' \<and> (job_State j = JobRunning \<and> \<not> f \<longrightarrow> job_State j' = JobRunning)"

definition evolve :: "string set \<Rightarrow> string set \<Rightarrow> jobmap \<Rightarrow> jobmap \<Rightarrow> bool" where
  "evolve used F m m' \<longleftrightarrow> (\<forall>i. slot_evolves (i \<in> used) (i \<in> F) (m i) (m' i))"

definition running :: "jobmap \<Rightarrow> string \<Rightarrow> bool" where
  "running m i \<longleftrightarrow> (\<exists>j. m i = Some j \<and> job_State j = JobRunning)"

lemma Terminal_iff: "Terminal st \<longleftrightarrow> st = JobSucceeded \<or> st = JobFailed \<or> st = JobCanceled"
  by (cases st) (auto simp: Terminal_def Active_def)

lemma next_states_terminal [simp]: "Terminal st \<Longrightarrow> next_states st = {st}"
  by (auto simp: Terminal_iff)

lemma next_states_self [simp]: "st \<in> next_states st"
  by (cases st) auto

lemma job_evolves_refl [simp]: "job_evolves j j"
  by (simp add: job_evolves_def)

lemma slot_evolves_refl [simp]: "slot_evolves u f x x"
  by (cases x) auto

lemma evolve_refl [simp]: "evolve used F m m"
  by (simp add: evolve_def)

lemma evolve_new: "m i = None \<Longrightarrow> i \<notin> used \<Longrightarrow> evolve used F m (m(i \<mapsto> j))"
  by (simp add: evolve_def)

lemma evolve_upd:
  "m i = Some j \<Longrightarrow> job_evolves j j' \<Longrightarrow>
   (job_State j = JobRunning \<Longrightarrow> i \<notin> F \<Longrightarrow> job_State j' = JobRunning) \<Longrightarrow> evolve used F m (m(i \<mapsto> j'))"
  by (simp add: evolve_def)

lemma slot_evolves_mono: "slot_evolves u f x y \<Longrightarrow> (u' \<Longrightarrow> u) \<Longrightarrow> (f \<Longrightarrow> f') \<Longrightarrow> slot_evolves u' f' x y"
  by (cases x; cases y) auto

lemma evolve_mono: "evolve used F m m' \<Longrightarrow> F \<subseteq> F' \<Longrightarrow> used' \<subseteq> used \<Longrightarrow> evolve used' F' m m'"
  unfolding evolve_def by (blast intro: slot_evolves_mono)

lemma evolve_running: "evolve used F m m' \<Longrightarrow> running m i \<Longrightarrow> i \<notin> F \<Longrightarrow> running m' i"
proof -
  assume ev: "evolve used F m m'" and "running m i" and i: "i \<notin> F"
  then obtain j where "m i = Some j" "job_State j = JobRunning" by (auto simp: running_def)
  moreover have "slot_evolves (i \<in> used) (i \<in> F) (m i) (m' i)"
    using ev by (simp add: evolve_def)
  ultimately show "running m' i"
    using i by (cases "m' i") (auto simp: running_def Terminal_iff)
qed

lemma evolve_Some:
  assumes "evolve used F m m'" and "m' i = Some j'" and "i \<in> used"
  obtains j where "m i = Some j" and "job_evolves j j'"
    and "job_State j = JobRunning \<Longrightarrow> i \<notin> F \<Longrightarrow> job_State j' = JobRunning"
proof -
  have "slot_evolves (i \<in> used) (i \<in> F) (m i) (Some j')"
    using assms(1,2) unfolding evolve_def by metis
  with assms(3) that show thesis by (cases "m i") auto
qed

lemma job_evolves_step: "job_evolves j (add_step step j)"
  by (simp add: job_evolves_def add_step_def)

lemma job_evolves_end:
  "job_State j = JobRunning \<or> job_State j = JobReconciling \<Longrightarrow> Terminal st \<Longrightarrow>
   job_evolves j (end_job now st msg j)"
  by (auto simp: job_evolves_def end_job_def Terminal_iff)

lemma job_evolves_cancel:
  "job_State j = JobQueued \<or> job_State j = JobReconciling \<Longrightarrow> job_evolves j (cancel_job now j)"
  by (auto simp: job_evolves_def cancel_job_def Terminal_iff)

lemma job_evolves_start: "job_State j = JobQueued \<Longrightarrow> job_evolves j (start_job now j)"
  by (auto simp: job_evolves_def start_job_def Terminal_iff)

lemma pruned_terminal: "pruned cutoff m j \<Longrightarrow> Terminal (job_State j)"
  by (auto simp: pruned_def pruned_child_def old_terminal_def)

lemma evolve_prune: "prune_spec cutoff m n m' \<Longrightarrow> evolve used F m m'"
  by (auto simp: prune_spec_def evolve_def pruned_terminal split: option.split)

subsection \<open>The store's operations as steps of its jobs\<close>

context job_store
begin

lemma finish_step:
  assumes "invar s" "0 < now" "Terminal st" "jobs_of s i = Some j"
  shows "invar (snd (js_Finish js now i st msg s)) \<and>
    (jobs_of (snd (js_Finish js now i st msg s)) = jobs_of s \<or>
     jobs_of (snd (js_Finish js now i st msg s)) = (jobs_of s)(i \<mapsto> end_job now st msg j))"
  using finish [OF assms(1,2), of st i msg] assms(3,4)
  by (auto simp: op_ok_def split: sum.splits)

lemma append_evolve:
  assumes "invar s"
  shows "invar (snd (js_AppendStep js i step s)) \<and>
    evolve used F (jobs_of s) (jobs_of (snd (js_AppendStep js i step s)))"
  using append_step [OF assms, of i step]
  by (auto simp: op_ok_def job_evolves_step intro!: evolve_upd split: sum.splits)

lemma enqueue_step:
  assumes "invar s" "0 < now" "jobs_of s i = None" "\<And>j. j \<in> ran (jobs_of s) \<Longrightarrow> job_Created j \<le> now"
  shows "invar (snd (js_Enqueue js i now kind args parent s)) \<and>
    (jobs_of (snd (js_Enqueue js i now kind args parent s)) = jobs_of s \<or>
     jobs_of (snd (js_Enqueue js i now kind args parent s)) =
       (jobs_of s)(i \<mapsto> queued_job i now kind args parent))"
proof (cases "js_Enqueue js i now kind args parent s")
  case (Pair x s')
  with enqueue [OF assms(1,3,2,4) Pair] show ?thesis by (auto split: sum.splits)
qed

lemma get_job_step:
  assumes "invar s" "js_GetJob js i s = (x, s')"
  shows "invar s'" "jobs_of s' = jobs_of s" "x = Inr j \<Longrightarrow> jobs_of s i = Some j"
  using get_job [OF assms(1), of i] assms(2) by (auto simp: op_ok_def split: sum.splits)

lemma prune_step:
  assumes "invar s"
  shows "invar (snd (js_PruneJobs js cutoff s)) \<and>
    evolve used F (jobs_of s) (jobs_of (snd (js_PruneJobs js cutoff s)))"
  using prune_jobs [OF assms, of cutoff] by (auto simp: op_ok_def intro: evolve_prune split: sum.splits)

end

subsection \<open>Ownership\<close>

text \<open>The running jobs a worker is responsible for.\<close>

fun pc_owned :: "wpc \<Rightarrow> string list" where
  "pc_owned WIdle = []"
| "pc_owned (WRotating _) = []"
| "pc_owned (WServing _ job) = [job_ID job]"
| "pc_owned (WClaimed job) = [job_ID job]"
| "pc_owned (WRunning job _ children) = job_ID job # children"
| "pc_owned (WReturned job _ _) = [job_ID job]"

text \<open>Every owned job is running, and no job has two owners.\<close>

definition own_ok :: "jobmap \<Rightarrow> wpc list \<Rightarrow> bool" where
  "own_ok m pcs \<longleftrightarrow>
     (\<forall>w<length pcs. distinct (pc_owned (pcs ! w)) \<and> (\<forall>i\<in>set (pc_owned (pcs ! w)). running m i)) \<and>
     (\<forall>v<length pcs. \<forall>w<length pcs. \<forall>i. i \<in> set (pc_owned (pcs ! v)) \<longrightarrow> i \<in> set (pc_owned (pcs ! w)) \<longrightarrow> v = w)"

lemma own_ok_mono: "own_ok m pcs \<Longrightarrow> (\<And>i. running m i \<Longrightarrow> running m' i) \<Longrightarrow> own_ok m' pcs"
  by (auto simp: own_ok_def)

lemma own_ok_upd:
  assumes "own_ok m pcs" and w: "w < length pcs" and "distinct (pc_owned pc)"
    and new: "\<And>i. i \<in> set (pc_owned pc) \<Longrightarrow> running m' i \<and> (i \<in> set (pc_owned (pcs ! w)) \<or> \<not> running m i)"
    and keep: "\<And>i. running m i \<Longrightarrow> i \<notin> set (pc_owned (pcs ! w)) \<Longrightarrow> running m' i"
  shows "own_ok m' (pcs[w := pc])"
proof -
  have run: "running m i" "i \<notin> set (pc_owned (pcs ! w))"
    if "v < length pcs" "v \<noteq> w" "i \<in> set (pc_owned (pcs ! v))" for v i
    using assms(1) w that unfolding own_ok_def by blast+
  have "i \<notin> set (pc_owned pc)" if "v < length pcs" "v \<noteq> w" "i \<in> set (pc_owned (pcs ! v))" for v i
    using run [OF that] new by blast
  moreover have "running m' i" if "v < length pcs" "v \<noteq> w" "i \<in> set (pc_owned (pcs ! v))" for v i
    using run [OF that] keep by blast
  moreover have "v = u" if "v < length pcs" "u < length pcs" "i \<in> set (pc_owned (pcs ! v))"
    "i \<in> set (pc_owned (pcs ! u))" for u v i
    using assms(1) that unfolding own_ok_def by blast
  moreover have "distinct (pc_owned (pcs ! v))" if "v < length pcs" for v
    using assms(1) that unfolding own_ok_def by blast
  ultimately show ?thesis
    using assms(3) new w unfolding own_ok_def by (auto simp: nth_list_update split: if_splits)
qed

text \<open>
  What a step of one worker does: it changes its own program counter, and the jobs it may end are its own.
\<close>

definition worker_move :: "string set \<Rightarrow> jobmap \<Rightarrow> wpc list \<Rightarrow> jobmap \<Rightarrow> wpc list \<Rightarrow> bool" where
  "worker_move used m pcs m' pcs' \<longleftrightarrow>
     (\<exists>w pc F. w < length pcs \<and> pcs' = pcs[w := pc] \<and> distinct (pc_owned pc) \<and>
        evolve used F m m' \<and> F \<subseteq> set (pc_owned (pcs ! w)) \<and>
        (\<forall>i\<in>set (pc_owned pc). running m' i \<and> (i \<in> set (pc_owned (pcs ! w)) \<or> \<not> running m i)))"

lemma worker_move_own:
  assumes own: "own_ok m pcs" and "worker_move used m pcs m' pcs'"
  shows "own_ok m' pcs'"
proof -
  from assms(2) obtain w pc F where w: "w < length pcs" and pcs': "pcs' = pcs[w := pc]"
    and d: "distinct (pc_owned pc)" and ev: "evolve used F m m'" and F: "F \<subseteq> set (pc_owned (pcs ! w))"
    and new: "\<forall>i\<in>set (pc_owned pc). running m' i \<and> (i \<in> set (pc_owned (pcs ! w)) \<or> \<not> running m i)"
    unfolding worker_move_def by blast
  show ?thesis
    unfolding pcs' using new F by (intro own_ok_upd [OF own w d]) (auto intro: evolve_running [OF ev])
qed

lemma worker_moveI:
  assumes "w < length pcs" "pcs' = pcs[w := pc]" "distinct (pc_owned pc)"
    and "evolve used F m m'" "F \<subseteq> set (pc_owned (pcs ! w))"
    and "\<And>i. i \<in> set (pc_owned pc) \<Longrightarrow> running m' i \<and> (i \<in> set (pc_owned (pcs ! w)) \<or> \<not> running m i)"
  shows "worker_move used m pcs m' pcs'"
  using assms unfolding worker_move_def by blast

lemma worker_move_stay:
  assumes "own_ok m pcs" "w < length pcs" "evolve used {} m m'"
  shows "worker_move used m pcs m' pcs"
proof -
  have "distinct (pc_owned (pcs ! w))" "\<forall>i\<in>set (pc_owned (pcs ! w)). running m i"
    using assms(1,2) unfolding own_ok_def by blast+
  with assms(2,3) show ?thesis
    by (intro worker_moveI [where w = w and F = "{}" and pc = "pcs ! w"]) (auto intro: evolve_running)
qed

lemma worker_move_evolve:
  "worker_move used m pcs m' pcs' \<Longrightarrow> \<exists>F. evolve used F m m' \<and> F \<subseteq> (\<Union>pc\<in>set pcs. set (pc_owned pc))"
  unfolding worker_move_def by (fastforce dest: nth_mem)

text \<open>Updates of the runner's components leave the others alone.\<close>

lemma runner_simps [simp]:
  "r_store (set_pc w pc r) = r_store r" "r_pcs (set_pc w pc r) = (r_pcs r)[w := pc]"
  "r_sweep (set_pc w pc r) = r_sweep r" "r_inflight (set_pc w pc r) = r_inflight r"
  "r_entries (set_pc w pc r) = r_entries r" "r_volumeRotation (set_pc w pc r) = r_volumeRotation r"
  "r_store (emit x r) = r_store r" "r_pcs (emit x r) = r_pcs r" "r_sweep (emit x r) = r_sweep r"
  "r_inflight (emit x r) = r_inflight r" "r_entries (emit x r) = r_entries r"
  "r_store (register i r) = r_store r" "r_pcs (register i r) = r_pcs r" "r_sweep (register i r) = r_sweep r"
  "r_store (deregister i r) = r_store r" "r_pcs (deregister i r) = r_pcs r"
  "r_sweep (deregister i r) = r_sweep r" "r_entries (deregister i r) = r_entries r"
  "r_store (set_tasks ts r) = r_store r" "r_pcs (set_tasks ts r) = r_pcs r"
  "r_inflight (set_tasks ts r) = r_inflight r" "r_entries (set_tasks ts r) = r_entries r"
  "r_pcs (runner_finish js now i st msg r) = r_pcs r" "r_sweep (runner_finish js now i st msg r) = r_sweep r"
  "r_inflight (runner_finish js now i st msg r) = r_inflight r"
  "r_entries (runner_finish js now i st msg r) = r_entries r"
  "r_pcs (jc_Step js now i step detail r) = r_pcs r" "r_sweep (jc_Step js now i step detail r) = r_sweep r"
  "r_inflight (jc_Step js now i step detail r) = r_inflight r"
  "r_entries (jc_Step js now i step detail r) = r_entries r"
  by (simp_all add: set_pc_def emit_def register_def deregister_def set_tasks_def runner_finish_def jc_Step_def)

lemma runner_static_simps [simp]:
  "r_handlers (set_pc w pc r) = r_handlers r" "r_reconcilers (set_pc w pc r) = r_reconcilers r"
  "r_inflight (register i r) = (r_inflight r)(i \<mapsto> length (r_entries r))"
  "r_entries (register i r) = r_entries r @ [\<lparr>ij_done = False, ij_canceled = False\<rparr>]"
  "r_inflight (deregister i r) = (r_inflight r)(i := None)"
  "r_sweep (set_tasks ts r) = map_option (\<lambda>sw. sw\<lparr>sw_tasks := ts\<rparr>) (r_sweep r)"
  by (simp_all add: set_pc_def register_def deregister_def set_tasks_def)

context job_store
begin

lemma claimed_effect:
  assumes op: "op_ok invar jobs_of (r_store r) is_driver (claim_spec P now (jobs_of (r_store r))) res"
    and found: "\<And>job. pc_owned (found job) = [job_ID job]" and none: "pc_owned none = []"
  obtains pc where "invar (r_store (claimed w found none res r))"
    and "r_pcs (claimed w found none res r) = (r_pcs r)[w := pc]" and "distinct (pc_owned pc)"
    and "evolve used {} (jobs_of (r_store r)) (jobs_of (r_store (claimed w found none res r)))"
    and "\<And>i. i \<in> set (pc_owned pc) \<Longrightarrow>
      running (jobs_of (r_store (claimed w found none res r))) i \<and> \<not> running (jobs_of (r_store r)) i"
proof (cases res)
  case (Pair x s)
  show thesis
  proof (cases x)
    case (Inl e)
    with Pair op show thesis by (intro that [of WIdle]) (auto simp: claimed_def op_ok_def)
  next
    case (Inr y)
    show thesis
    proof (cases y)
      case None
      with Pair Inr op none show thesis
        by (intro that [of none]) (auto simp: claimed_def op_ok_def claim_spec_def)
    next
      case (Some job)
      with Pair Inr op obtain j0 where j0: "jobs_of (r_store r) (job_ID job) = Some j0"
        "job_State j0 = JobQueued" "job = start_job now j0" "jobs_of s = (jobs_of (r_store r))(job_ID job \<mapsto> job)"
        "invar s"
        by (auto simp: op_ok_def claim_spec_def claimable_def)
      then have "evolve used {} (jobs_of (r_store r)) (jobs_of s)"
        using evolve_upd [of "jobs_of (r_store r)" "job_ID job" j0 job] job_evolves_start [of j0 now] by simp
      moreover have "running (jobs_of s) (job_ID job)" "\<not> running (jobs_of (r_store r)) (job_ID job)"
        using j0 by (auto simp: running_def)
      ultimately show thesis
        using Pair Inr Some j0(5) found by (intro that [of "found job"]) (auto simp: claimed_def)
    qed
  qed
qed

lemma claimed_move:
  assumes w: "w < length (r_pcs r)"
    and op: "op_ok invar jobs_of (r_store r) is_driver (claim_spec P now (jobs_of (r_store r))) res"
    and found: "\<And>job. pc_owned (found job) = [job_ID job]" and none: "pc_owned none = []"
  shows "invar (r_store (claimed w found none res r)) \<and>
    worker_move used (jobs_of (r_store r)) (r_pcs r) (jobs_of (r_store (claimed w found none res r)))
      (r_pcs (claimed w found none res r))"
  by (rule claimed_effect [OF op found none, where w = w and used = used])
    (use w in \<open>auto intro: worker_moveI [where F = "{}"]\<close>)

end

context job_store
begin

lemma runner_finish_evolve:
  assumes "invar (r_store r)" "0 < now" "Terminal st" "running (jobs_of (r_store r)) i"
  shows "invar (r_store (runner_finish js now i st msg r)) \<and>
    evolve used {i} (jobs_of (r_store r)) (jobs_of (r_store (runner_finish js now i st msg r)))"
proof -
  from assms(4) obtain j where "jobs_of (r_store r) i = Some j" "job_State j = JobRunning"
    by (auto simp: running_def)
  with finish_step [OF assms(1-3), of i j msg] assms(3) show ?thesis
    by (auto simp: runner_finish_def intro!: evolve_upd job_evolves_end)
qed

lemma jc_Step_evolve:
  assumes "invar (r_store r)"
  shows "invar (r_store (jc_Step js now i step detail r)) \<and>
    evolve used F (jobs_of (r_store r)) (jobs_of (r_store (jc_Step js now i step detail r)))"
  using append_evolve [OF assms] by (simp add: jc_Step_def)

lemma claim_move:
  assumes "invar (r_store r)" "pc_at w r = Some WIdle"
  shows "invar (r_store (claim js now w r)) \<and>
    worker_move used (jobs_of (r_store r)) (r_pcs r) (jobs_of (r_store (claim js now w r))) (r_pcs (claim js now w r))"
proof -
  from assms(2) have w: "w < length (r_pcs r)" and pc: "r_pcs r ! w = WIdle"
    by (auto simp: pc_at_def split: if_splits)
  obtain kinds ex where spec: "worker_specs r ! w = (kinds, ex)" by fastforce
  have move: "op_ok invar jobs_of (r_store r) is_driver (claim_spec P now (jobs_of (r_store r))) res \<Longrightarrow>
      invar (r_store (claimed w WClaimed WIdle res r)) \<and>
      worker_move used (jobs_of (r_store r)) (r_pcs r) (jobs_of (r_store (claimed w WClaimed WIdle res r)))
        (r_pcs (claimed w WClaimed WIdle res r))" for P res
    using w by (intro claimed_move) auto
  have stay: "worker_move used (jobs_of (r_store r)) (r_pcs r) (jobs_of (r_store r)) ((r_pcs r)[w := WRotating ks])" for ks
    using w by (intro worker_moveI [where F = "{}"]) auto
  show ?thesis
    using move [OF claim_next [OF assms(1)]] move [OF claim_matching [OF assms(1)]]
      move [OF claim_excluding [OF assms(1)]] stay assms(1)
    by (cases kinds; cases ex) (auto simp: claim_def spec split: option.splits)
qed

lemma claim_kind_move:
  assumes "invar (r_store r)" "pc_at w r = Some (WRotating ks)"
  shows "invar (r_store (claim_kind js now w ks r)) \<and>
    worker_move used (jobs_of (r_store r)) (r_pcs r) (jobs_of (r_store (claim_kind js now w ks r)))
      (r_pcs (claim_kind js now w ks r))"
proof -
  from assms(2) have w: "w < length (r_pcs r)" and pc: "r_pcs r ! w = WRotating ks"
    by (auto simp: pc_at_def split: if_splits)
  show ?thesis
  proof (cases ks)
    case Nil
    with w assms(1) show ?thesis
      by (auto simp: claim_kind_def intro!: worker_moveI [where F = "{}"])
  next
    case (Cons k rest)
    then show ?thesis
      unfolding claim_kind_def using w pc
      by (simp, intro claimed_move [OF w claim_matching [OF assms(1)]]) auto
  qed
qed

lemma run_begin_move:
  assumes "invar (r_store r)" "own_ok (jobs_of (r_store r)) (r_pcs r)" "0 < now"
    and "pc_at w r = Some (WClaimed job)"
  shows "invar (r_store (run_begin js now w job r)) \<and>
    worker_move used (jobs_of (r_store r)) (r_pcs r) (jobs_of (r_store (run_begin js now w job r)))
      (r_pcs (run_begin js now w job r))"
proof -
  from assms(4) have w: "w < length (r_pcs r)" and pc: "r_pcs r ! w = WClaimed job"
    by (auto simp: pc_at_def split: if_splits)
  with assms(2) have run: "running (jobs_of (r_store r)) (job_ID job)"
    unfolding own_ok_def by fastforce
  have fin: "invar (r_store (runner_finish js now (job_ID job) JobFailed msg r)) \<and>
      evolve used {job_ID job} (jobs_of (r_store r))
        (jobs_of (r_store (runner_finish js now (job_ID job) JobFailed msg r)))" for msg
    using assms(1,3) run by (intro runner_finish_evolve) (auto simp: Terminal_iff)
  show ?thesis
  proof (cases "job_Kind job \<in> set (r_handlers r)")
    case True
    with assms(1) w pc run show ?thesis
      by (auto simp: run_begin_def intro!: worker_moveI [where F = "{}"])
  next
    case False
    with fin w pc show ?thesis
      by (auto simp: run_begin_def intro!: worker_moveI [where F = "{job_ID job}"])
  qed
qed

lemma run_finish_move:
  assumes "invar (r_store r)" "own_ok (jobs_of (r_store r)) (r_pcs r)" "0 < now"
    and "pc_at w r = Some (WReturned job canceled err)"
  shows "invar (r_store (run_finish js now d w job canceled err r)) \<and>
    worker_move used (jobs_of (r_store r)) (r_pcs r) (jobs_of (r_store (run_finish js now d w job canceled err r)))
      (r_pcs (run_finish js now d w job canceled err r))"
proof -
  from assms(4) have w: "w < length (r_pcs r)" and pc: "r_pcs r ! w = WReturned job canceled err"
    by (auto simp: pc_at_def split: if_splits)
  with assms(2) have run: "running (jobs_of (r_store r)) (job_ID job)"
    unfolding own_ok_def by fastforce
  have fin: "invar (r_store (runner_finish js now (job_ID job) st msg r))"
    "evolve used {job_ID job} (jobs_of (r_store r))
        (jobs_of (r_store (runner_finish js now (job_ID job) st msg r)))" if "Terminal st" for st msg
    using runner_finish_evolve [OF assms(1,3) that run] by auto
  show ?thesis
    using fin [of JobCanceled] fin [of JobFailed] fin [of JobSucceeded] w pc
    by (cases err) (auto simp: run_finish_def Terminal_iff intro!: worker_moveI [where F = "{job_ID job}"])
qed

lemma worker_step_move:
  assumes inv: "invar (r_store r)" and own: "own_ok (jobs_of (r_store r)) (r_pcs r)"
    and t: "\<And>t. label_time a = Some t \<Longrightarrow> 0 < t" and step: "worker_step js a r = Some r'"
  shows "invar (r_store r') \<and>
    worker_move used (jobs_of (r_store r)) (r_pcs r) (jobs_of (r_store r')) (r_pcs r')"
proof (cases a)
  case (LClaim w now)
  with step inv claim_move [OF inv] show ?thesis by (auto simp: worker_step_def split: if_splits)
next
  case (LClaimKind w now)
  with step claim_kind_move [OF inv] show ?thesis
    by (auto simp: worker_step_def split: option.splits wpc.splits)
next
  case (LServed w)
  with step obtain k job where pc: "pc_at w r = Some (WServing k job)" and r': "r' = record_served w k job r"
    by (auto simp: worker_step_def split: option.splits wpc.splits)
  then have w: "w < length (r_pcs r)" "r_pcs r ! w = WServing k job"
    by (auto simp: pc_at_def split: if_splits)
  with own have "running (jobs_of (r_store r)) (job_ID job)" unfolding own_ok_def by fastforce
  with w inv r' show ?thesis
    by (auto simp: record_served_def intro!: worker_moveI [where F = "{}" and pc = "WClaimed job"])
next
  case (LRunBegin w now)
  with step t run_begin_move [OF inv own] show ?thesis
    by (auto simp: worker_step_def split: option.splits wpc.splits)
next
  case (LStep w i now st detail)
  with step obtain job x children where pc: "pc_at w r = Some (WRunning job x children)"
    and r': "r' = jc_Step js now i st detail r"
    by (auto simp: worker_step_def split: option.splits wpc.splits if_splits)
  then have w: "w < length (r_pcs r)" "r_pcs r ! w = WRunning job x children"
    by (auto simp: pc_at_def split: if_splits)
  have ev: "evolve used {} (jobs_of (r_store r)) (jobs_of (r_store r'))" and inv': "invar (r_store r')"
    using jc_Step_evolve [OF inv] r' by auto
  with worker_move_stay [OF own w(1) ev] r' show ?thesis by simp
next
  case (LReturn w err)
  with step obtain job x children where pc: "pc_at w r = Some (WRunning job x children)"
    and r': "r' = run_return w job x err r"
    by (auto simp: worker_step_def split: option.splits wpc.splits)
  then have w: "w < length (r_pcs r)" "r_pcs r ! w = WRunning job x children"
    by (auto simp: pc_at_def split: if_splits)
  with own have "running (jobs_of (r_store r)) (job_ID job)" unfolding own_ok_def by fastforce
  with w inv r' show ?thesis
    by (auto simp: run_return_def Let_def intro!: worker_moveI [where F = "{}"])
next
  case (LFinish w now d)
  with step t run_finish_move [OF inv own] show ?thesis
    by (auto simp: worker_step_def split: option.splits wpc.splits)
qed (use step in \<open>simp_all add: worker_step_def\<close>)

end

lemma cas_evolve:
  assumes "cas_spec (\<lambda>j. job_State j = st) f i m b m'" and "st \<noteq> JobRunning"
    and "\<And>j. job_State j = st \<Longrightarrow> job_evolves j (f j)"
  shows "evolve used F m m'"
  using assms by (auto simp: cas_spec_def intro!: evolve_upd split: option.splits if_splits)

lemma Cancel_simps [simp]:
  "r_store (snd (Cancel i r)) = r_store r" "r_pcs (snd (Cancel i r)) = r_pcs r"
  "r_sweep (snd (Cancel i r)) = r_sweep r" "r_inflight (snd (Cancel i r)) = r_inflight r"
  "length (r_entries (snd (Cancel i r))) = length (r_entries r)"
  by (simp_all add: Cancel_def split: option.splits)

context job_store
begin

lemma resolve_evolve:
  assumes "invar s" "0 < now"
  shows "invar (snd (js_ResolveReconciling js now i st msg s)) \<and>
    evolve used F (jobs_of s) (jobs_of (snd (js_ResolveReconciling js now i st msg s)))"
  using resolve_reconciling [OF assms, of st msg i]
  by (auto simp: op_ok_def Terminal_iff intro!: job_evolves_end elim!: cas_evolve split: sum.splits)

lemma cancel_reconciling_evolve:
  assumes "invar s" "0 < now" "js_CancelReconciling js now i s = (x, s')"
  shows "invar s' \<and> evolve used F (jobs_of s) (jobs_of s')"
  using cancel_reconciling [OF assms(1,2), of i] assms(3)
  by (auto simp: op_ok_def intro!: job_evolves_cancel elim!: cas_evolve split: sum.splits)

lemma cancel_queued_evolve:
  assumes "invar s" "0 < now" "js_CancelQueued js now i s = (x, s')"
  shows "invar s' \<and> evolve used F (jobs_of s) (jobs_of s')"
  using cancel_queued [OF assms(1,2), of i] assms(3)
  by (auto simp: op_ok_def intro!: job_evolves_cancel elim!: cas_evolve split: sum.splits)

lemma sweep_begin_step:
  assumes "invar (r_store r)"
  shows "invar (r_store (sweep_begin js r)) \<and> jobs_of (r_store (sweep_begin js r)) = jobs_of (r_store r) \<and>
    r_pcs (sweep_begin js r) = r_pcs r"
proof -
  let ?f = "\<lparr>f_State = Some JobReconciling, f_Kind = '''', f_ParentID = '''', f_Limit = MaxJobLimit, f_Before = ''''\<rparr>"
  show ?thesis
    using list_jobs [OF assms, of ?f]
    by (auto simp: sweep_begin_def op_ok_def split: prod.splits sum.splits)
qed

lemma reconcile_step_evolve:
  assumes inv: "invar (r_store r)" and t: "\<And>t. label_time a = Some t \<Longrightarrow> 0 < t"
    and step: "reconcile_step js a r = Some r'"
  shows "invar (r_store r') \<and> evolve used F (jobs_of (r_store r)) (jobs_of (r_store r')) \<and> r_pcs r' = r_pcs r"
proof (cases a)
  case LSweep
  with step sweep_begin_step [OF inv] show ?thesis
    by (auto simp: reconcile_step_def split: if_splits)
next
  case LLaunch
  with step inv show ?thesis
    by (auto simp: reconcile_step_def sweep_launch_def split: option.splits list.splits if_splits)
next
  case (LRecStep k now st detail)
  with step jc_Step_evolve [OF inv] show ?thesis
    by (auto simp: reconcile_step_def split: option.splits rpc.splits)
next
  case (LRecReturn k st msg resolved err)
  with step inv show ?thesis
    by (auto simp: reconcile_step_def reconcile_return_def Let_def split: option.splits rpc.splits if_splits)
next
  case (LResolve k now)
  with step t resolve_evolve [OF inv] show ?thesis
    by (auto simp: reconcile_step_def reconcile_resolve_def split: option.splits rpc.splits)
next
  case LSweepEnd
  with step inv show ?thesis
    by (auto simp: reconcile_step_def sweep_end_def split: option.splits if_splits)
qed (use step in \<open>simp_all add: reconcile_step_def\<close>)

lemma cancelJob_evolve:
  assumes inv: "invar (r_store r)" and t: "0 < now"
    and step: "cancelJob fmt js canceller now q r = Some (q', r')"
  shows "invar (r_store r') \<and> evolve used F (jobs_of (r_store r)) (jobs_of (r_store r')) \<and> r_pcs r' = r_pcs r"
proof -
  have get: "invar s \<and> jobs_of s = jobs_of (r_store r)" if "js_GetJob js i (r_store r) = (x, s)" for i x s
    using get_job_step [OF inv that] by auto
  show ?thesis
  proof (cases q)
    case (CGet i)
    with step get show ?thesis
      by (auto simp: cancelJob_def cancel_get_def split: prod.splits sum.splits)
  next
    case (CDispatch i st)
    with step inv cancel_reconciling_evolve [OF inv t] cancel_queued_evolve [OF inv t] show ?thesis
      by (auto simp: cancelJob_def cancel_dispatch_def split: JobState.splits prod.splits sum.splits)
  next
    case (CRunner i)
    then have "r' = r \<or> r' = snd (Cancel i r)"
      using step by (auto simp: cancelJob_def cancel_runner_def split: prod.splits if_splits)
    with inv show ?thesis by auto
  next
    case (CInterrupt i)
    with step inv show ?thesis by (auto simp: cancelJob_def cancel_interrupt_def)
  next
    case (CConflict i)
    with step get show ?thesis
      by (auto simp: cancelJob_def writeCancelConflict_def split: prod.splits sum.splits)
  next
    case (CAccept i)
    with step get show ?thesis
      by (auto simp: cancelJob_def writeAcceptedJob_def split: prod.splits sum.splits)
  qed (use step in \<open>simp add: cancelJob_def\<close>)
qed

lemma start_child_move:
  assumes inv: "invar (r_store r)" and own: "own_ok (jobs_of (r_store r)) (r_pcs r)" and "0 < now"
    and "jobs_of (r_store r) i = None" "i \<notin> used"
    and "\<And>j. j \<in> ran (jobs_of (r_store r)) \<Longrightarrow> job_Created j \<le> now"
    and step: "Job_System.start_child js w i now kind args r = Some r'"
  shows "invar (r_store r') \<and>
    worker_move used (jobs_of (r_store r)) (r_pcs r) (jobs_of (r_store r')) (r_pcs r') \<and>
    (jobs_of (r_store r') = jobs_of (r_store r) \<or>
     (\<exists>j. job_Created j = now \<and> job_Kind j = kind \<and> jobs_of (r_store r') = (jobs_of (r_store r))(i \<mapsto> j)))"
proof -
  from step obtain job a children where pc: "pc_at w r = Some (WRunning job a children)"
    by (auto simp: Job_System.start_child_def split: option.splits wpc.splits)
  then have w: "w < length (r_pcs r)" "r_pcs r ! w = WRunning job a children"
    by (auto simp: pc_at_def split: if_splits)
  obtain x s where call: "js_StartChild js i now kind args (job_ID job) (r_store r) = (x, s)" by fastforce
  note law = start_child [OF inv assms(4,3,6) call]
  let ?c = "child_job i now kind args (job_ID job)"
  have old: "distinct (pc_owned (WRunning job a children))"
    "\<forall>k\<in>set (pc_owned (WRunning job a children)). running (jobs_of (r_store r)) k"
    using own w unfolding own_ok_def by metis+
  have no: "\<not> running (jobs_of (r_store r)) i" using assms(4) by (simp add: running_def)
  have ev: "evolve used {} (jobs_of (r_store r)) ((jobs_of (r_store r))(i \<mapsto> ?c))"
    using assms(4,5) by (rule evolve_new)
  have new: "\<exists>j. job_Created j = now \<and> job_Kind j = kind \<and> (jobs_of (r_store r))(i \<mapsto> ?c) = (jobs_of (r_store r))(i \<mapsto> j)"
    by (intro exI [of _ ?c]) simp
  show ?thesis
  proof (cases x)
    case (Inl e)
    with step pc call have r': "r' = r\<lparr>r_store := s\<rparr>" by (simp add: Job_System.start_child_def)
    from Inl law have "invar s" and or: "jobs_of s = jobs_of (r_store r) \<or> jobs_of s = (jobs_of (r_store r))(i \<mapsto> ?c)"
      by auto
    with ev have "evolve used {} (jobs_of (r_store r)) (jobs_of s)" by auto
    moreover have "jobs_of s = jobs_of (r_store r) \<or>
        (\<exists>j. job_Created j = now \<and> job_Kind j = kind \<and> jobs_of s = (jobs_of (r_store r))(i \<mapsto> j))"
      using or new by (elim disjE) simp_all
    ultimately show ?thesis
      using worker_move_stay [OF own w(1)] \<open>invar s\<close> r' by simp
  next
    case (Inr child)
    with law have c: "child = ?c" "jobs_of s = (jobs_of (r_store r))(i \<mapsto> ?c)" "invar s" by auto
    with step pc call Inr have r': "r' = set_pc w (WRunning job a (i # children)) (r\<lparr>r_store := s\<rparr>)"
      by (simp add: Job_System.start_child_def)
    have "running (jobs_of s) k" if "running (jobs_of (r_store r)) k \<or> k = i" for k
      using that c no by (auto simp: running_def)
    with old no ev c have "worker_move used (jobs_of (r_store r)) (r_pcs r) (jobs_of s)
        ((r_pcs r)[w := WRunning job a (i # children)])"
      by (intro worker_moveI [where w = w and F = "{}" and pc = "WRunning job a (i # children)"]) (auto simp: w)
    with c new r' show ?thesis by simp
  qed
qed

lemma finish_child_move:
  assumes inv: "invar (r_store r)" and own: "own_ok (jobs_of (r_store r)) (r_pcs r)" and "0 < now"
    and step: "finish_child js w i now st msg r = Some r'"
  shows "invar (r_store r') \<and>
    worker_move used (jobs_of (r_store r)) (r_pcs r) (jobs_of (r_store r')) (r_pcs r')"
proof -
  from step obtain job a children where pc: "pc_at w r = Some (WRunning job a children)"
    and i: "i \<in> set children" "Terminal st"
    and r': "r' = set_pc w (WRunning job a (removeAll i children)) (runner_finish js now i st msg r)"
    by (auto simp: finish_child_def split: option.splits wpc.splits if_splits)
  then have w: "w < length (r_pcs r)" "r_pcs r ! w = WRunning job a children"
    by (auto simp: pc_at_def split: if_splits)
  have old: "distinct (pc_owned (WRunning job a children))"
    "\<forall>k\<in>set (pc_owned (WRunning job a children)). running (jobs_of (r_store r)) k"
    using own w unfolding own_ok_def by metis+
  have fin: "invar (r_store r')" "evolve used {i} (jobs_of (r_store r)) (jobs_of (r_store r'))"
    using runner_finish_evolve [OF inv assms(3) i(2), of i msg] old(2) i(1) r' by auto
  have pcs': "r_pcs r' = (r_pcs r)[w := WRunning job a (removeAll i children)]" by (simp add: r')
  have "worker_move used (jobs_of (r_store r)) (r_pcs r) (jobs_of (r_store r')) (r_pcs r')"
    using old i(1) w(2)
    by (intro worker_moveI [OF w(1) pcs' _ fin(2)])
      (auto simp: distinct_removeAll intro: evolve_running [OF fin(2)])
  with fin(1) show ?thesis by simp
qed

end

end
