(* ===== verification/Job_Safety.thy ===== *)
theory Job_Safety
  imports Job_System
begin

text \<open>
  Safety of the job machinery: ownership of running jobs is exclusive, states only move forward,
  terminal states are final, an accepted cancel is honoured, the worker pools are respected. Proved for
  every \<^verbatim>\<open>job_store\<close> and instantiated for the two backends.
\<close>

subsection \<open>The invariant\<close>

abbreviation d_jobs :: "('s \<Rightarrow> jobmap) \<Rightarrow> 's Daemon \<Rightarrow> jobmap" where
  "d_jobs jobs_of d \<equiv> jobs_of (r_store (d_runner d))"

abbreviation d_pcs :: "'s Daemon \<Rightarrow> wpc list" where
  "d_pcs d \<equiv> r_pcs (d_runner d)"

definition d_owned :: "'s Daemon \<Rightarrow> string set" where
  "d_owned d = (\<Union>pc\<in>set (d_pcs d). set (pc_owned pc))"

definition daemon_inv :: "('s \<Rightarrow> bool) \<Rightarrow> ('s \<Rightarrow> jobmap) \<Rightarrow> 's Daemon \<Rightarrow> bool" where
  "daemon_inv invar jobs_of d \<longleftrightarrow>
     invar (r_store (d_runner d)) \<and> own_ok (d_jobs jobs_of d) (d_pcs d) \<and>
     dom (d_jobs jobs_of d) \<subseteq> set (d_used d) \<and>
     (\<forall>j\<in>ran (d_jobs jobs_of d). job_Created j \<le> d_clock d)"

lemma evolve_UNIV:
  assumes "evolve UNIV F m m'" and "\<forall>j\<in>ran m. job_Created j \<le> c"
  shows "dom m' \<subseteq> dom m" and "\<forall>j\<in>ran m'. job_Created j \<le> c"
proof -
  have "\<exists>j. m i = Some j \<and> job_evolves j j'" if "m' i = Some j'" for i j'
    using evolve_Some [OF assms(1) that] by blast
  then show "dom m' \<subseteq> dom m" "\<forall>j\<in>ran m'. job_Created j \<le> c"
    using assms(2) by (force simp: ran_def job_evolves_def)+
qed

lemma worker_move_owned:
  "worker_move used m (d_pcs d) m' pcs' \<Longrightarrow> evolve used (d_owned d) m m'"
  using worker_move_evolve unfolding d_owned_def by (blast intro: evolve_mono)

text \<open>The labels of \<^const>\<open>daemon_step\<close> that belong to a worker or to the reconcile loop.\<close>

fun goroutine_label :: "label \<Rightarrow> bool" where
  "goroutine_label (LStart _) = False"
| "goroutine_label (LEnqueue _ _ _ _ _) = False"
| "goroutine_label (LStartChild _ _ _ _ _) = False"
| "goroutine_label (LFinishChild _ _ _ _ _) = False"
| "goroutine_label (LRetention _ _) = False"
| "goroutine_label (LCancel _) = False"
| "goroutine_label (LReq _ _) = False"
| "goroutine_label _ = True"

lemma daemon_step_goroutine:
  "goroutine_label a \<Longrightarrow> daemon_step fmt js canceller a d = Some d' \<Longrightarrow>
   \<exists>r'. d' = d\<lparr>d_runner := r'\<rparr> \<and>
     (worker_step js a (d_runner d) = Some r' \<or> reconcile_step js a (d_runner d) = Some r')"
  by (cases a) (auto simp: daemon_step_def Let_def on_runner_def split: option.splits)

lemma tick_Some:
  assumes "tick a d = Some d1"
  obtains "d_runner d1 = d_runner d" "d_reqs d1 = d_reqs d" "d_used d1 = d_used d" "d_clock d \<le> d_clock d1"
    "\<And>t. label_time a = Some t \<Longrightarrow> 0 < t \<and> d_clock d1 = t"
  using assms by (auto simp: tick_def split: option.splits if_splits)

context job_store
begin

lemma keep_inv:
  assumes "daemon_inv invar jobs_of d" "invar (r_store r')" "evolve UNIV F (d_jobs jobs_of d) (jobs_of (r_store r'))"
    and "own_ok (jobs_of (r_store r')) (r_pcs r')"
  shows "daemon_inv invar jobs_of (d\<lparr>d_runner := r'\<rparr>)"
  using assms evolve_UNIV [OF assms(3), of "d_clock d"] by (auto simp: daemon_inv_def)

lemma daemon_step_ok:
  assumes inv: "daemon_inv invar jobs_of d" and t: "\<And>t. label_time a = Some t \<Longrightarrow> 0 < t \<and> d_clock d = t"
    and a: "\<And>t. a \<noteq> LStart t" and step: "daemon_step fmt js canceller a d = Some d'"
  shows "daemon_inv invar jobs_of d' \<and> set (d_used d) \<subseteq> set (d_used d') \<and>
    evolve (set (d_used d)) (d_owned d) (d_jobs jobs_of d) (d_jobs jobs_of d')"
proof -
  let ?r = "d_runner d" and ?m = "d_jobs jobs_of d" and ?U = "set (d_used d)"
  from inv have i: "invar (r_store ?r)" and own: "own_ok ?m (d_pcs d)"
    and created: "\<And>j. j \<in> ran ?m \<Longrightarrow> job_Created j \<le> d_clock d" and dom: "dom ?m \<subseteq> ?U"
    by (auto simp: daemon_inv_def)
  have keep: "daemon_inv invar jobs_of (d\<lparr>d_runner := r'\<rparr>) \<and> evolve ?U (d_owned d) ?m (jobs_of (r_store r'))"
    if "invar (r_store r')" "evolve UNIV {} ?m (jobs_of (r_store r'))" "r_pcs r' = d_pcs d" for r'
    using keep_inv [OF inv that(1,2)] that own_ok_mono [OF own]
    by (auto intro: evolve_mono evolve_running [OF that(2)])
  have move: "daemon_inv invar jobs_of (d\<lparr>d_runner := r'\<rparr>) \<and> evolve ?U (d_owned d) ?m (jobs_of (r_store r'))"
    if "invar (r_store r')" "worker_move UNIV ?m (d_pcs d) (jobs_of (r_store r')) (r_pcs r')" for r'
    using keep_inv [OF inv that(1) worker_move_owned [OF that(2)] worker_move_own [OF own that(2)]]
      worker_move_owned [OF that(2)] by (auto intro: evolve_mono)
  show ?thesis
  proof (cases "goroutine_label a")
    case True
    then obtain r' where r': "d' = d\<lparr>d_runner := r'\<rparr>"
      and or: "worker_step js a ?r = Some r' \<or> reconcile_step js a ?r = Some r'"
      using daemon_step_goroutine [OF _ step] by blast
    from or have "daemon_inv invar jobs_of (d\<lparr>d_runner := r'\<rparr>) \<and> evolve ?U (d_owned d) ?m (jobs_of (r_store r'))"
      using worker_step_move [OF i own, of a r' UNIV] reconcile_step_evolve [OF i, of a r' UNIV "{}"] t move [of r'] keep [of r']
      by blast
    with r' show ?thesis by simp
  next
    case False
    then show ?thesis
    proof (cases a)
      case (LEnqueue k now kind args parent)
      with step have fresh: "k \<notin> ?U" and d': "d' = d\<lparr>d_used := k # d_used d,
          d_runner := ?r\<lparr>r_store := snd (js_Enqueue js k now kind args parent (r_store ?r))\<rparr>\<rparr>"
        by (auto simp: daemon_step_def Let_def split: if_splits)
      from fresh dom have none: "?m k = None" by auto
      from t LEnqueue have now: "0 < now" "d_clock d = now" by auto
      from enqueue_step [OF i now(1) none, of kind args parent] created now
      have res: "invar (r_store (d_runner d'))"
        "d_jobs jobs_of d' = ?m \<or> d_jobs jobs_of d' = ?m(k \<mapsto> queued_job k now kind args parent)"
        by (auto simp: d')
      from res(2) fresh none have ev: "evolve ?U {} ?m (d_jobs jobs_of d')" by (auto intro: evolve_new)
      have "own_ok (d_jobs jobs_of d') (d_pcs d')"
        using own_ok_mono [OF own] evolve_running [OF ev] by (simp add: d')
      moreover have "job_Created j \<le> d_clock d'" if "j \<in> ran (d_jobs jobs_of d')" for j
        using res(2) created that now none by (auto simp: d')
      moreover have "dom (d_jobs jobs_of d') \<subseteq> insert k (dom ?m)"
        using res(2) by (elim disjE) auto
      then have "dom (d_jobs jobs_of d') \<subseteq> set (d_used d')"
        using dom by (auto simp: d')
      ultimately show ?thesis
        using res(1) ev by (auto simp: daemon_inv_def d' intro: evolve_mono)
    next
      case (LStartChild w k now kind args)
      with step obtain r' where fresh: "k \<notin> ?U" and d': "d' = d\<lparr>d_used := k # d_used d, d_runner := r'\<rparr>"
        and child: "Job_System.start_child js w k now kind args ?r = Some r'"
        by (auto simp: daemon_step_def Let_def on_runner_def split: if_splits)
      from fresh dom have none: "?m k = None" by auto
      from t LStartChild have now: "0 < now" "d_clock d = now" by auto
      have res: "invar (r_store r')" "worker_move ?U ?m (d_pcs d) (jobs_of (r_store r')) (r_pcs r')"
        "jobs_of (r_store r') = ?m \<or> (\<exists>j. job_Created j = now \<and> jobs_of (r_store r') = ?m(k \<mapsto> j))"
        using start_child_move [OF i own now(1) none fresh _ child] created now by auto
      have "own_ok (jobs_of (r_store r')) (r_pcs r')" by (rule worker_move_own [OF own res(2)])
      moreover have "\<forall>j\<in>ran (jobs_of (r_store r')). job_Created j \<le> d_clock d"
        using res(3) created now none by auto
      moreover have "dom (jobs_of (r_store r')) \<subseteq> insert k (dom ?m)"
        using res(3) by (elim disjE) auto
      then have "dom (jobs_of (r_store r')) \<subseteq> insert k ?U" using dom by auto
      ultimately show ?thesis
        using res(1) worker_move_owned [OF res(2)] by (auto simp: daemon_inv_def d')
    next
      case (LFinishChild w k now st msg)
      with step obtain r' where d': "d' = d\<lparr>d_runner := r'\<rparr>" and "finish_child js w k now st msg ?r = Some r'"
        by (auto simp: daemon_step_def Let_def on_runner_def)
      with finish_child_move [OF i own] t LFinishChild move [of r'] show ?thesis by auto
    next
      case (LRetention now retention)
      with step keep [of "retention_sweep js now retention ?r"] prune_step [OF i] i show ?thesis
        by (auto simp: daemon_step_def Let_def retention_sweep_def)
    next
      case (LCancel k)
      with step have "d' = d\<lparr>d_reqs := d_reqs d @ [CGet k]\<rparr>" by (simp add: daemon_step_def Let_def)
      with inv show ?thesis by (simp add: daemon_inv_def)
    next
      case (LReq n now)
      with step obtain q r' where d': "d' = d\<lparr>d_runner := r', d_reqs := (d_reqs d)[n := q]\<rparr>"
        and q: "cancelJob fmt js canceller now (d_reqs d ! n) ?r = Some (q, r')"
        by (auto simp: daemon_step_def Let_def split: if_splits option.splits)
      have "daemon_inv invar jobs_of (d\<lparr>d_runner := r'\<rparr>) \<and> evolve ?U (d_owned d) ?m (jobs_of (r_store r'))"
        using cancelJob_evolve [OF i _ q, of UNIV "{}"] t LReq keep [of r'] by auto
      with d' show ?thesis by (simp add: daemon_inv_def)
    qed (use a False in auto)
  qed
qed

end

subsection \<open>Restarting\<close>

text \<open>What a boot makes of a job when both of its store calls succeed, and what it may leave of it in any case.\<close>

definition boot_job :: "time \<Rightarrow> string list \<Rightarrow> Job \<Rightarrow> Job" where
  "boot_job now kinds j =
     (if job_State j \<noteq> JobRunning then j
      else if job_Kind j \<in> set kinds then reconcile_job j
      else end_job now JobFailed ''interrupted by daemon restart'' j)"

definition boot_evolves :: "jobmap \<Rightarrow> jobmap \<Rightarrow> bool" where
  "boot_evolves m m' \<longleftrightarrow>
     dom m' = dom m \<and>
     (\<forall>i j j'. m i = Some j \<longrightarrow> m' i = Some j' \<longrightarrow>
        job_Created j' = job_Created j \<and> job_Kind j' = job_Kind j \<and> (job_State j \<noteq> JobRunning \<longrightarrow> j' = j) \<and>
        (job_State j = JobRunning \<longrightarrow> job_State j' \<in> {JobRunning, JobReconciling, JobFailed}))"

lemma own_ok_idle: "own_ok m (replicate n WIdle)"
  by (simp add: own_ok_def)

lemma Start_fields:
  "r_pcs (Start js now r) = replicate (length (worker_specs r)) WIdle"
  "r_inflight (Start js now r) = Map.empty" "r_sweep (Start js now r) = None" "r_entries (Start js now r) = []"
  "r_metrics (Start js now r) = []"
  "r_store (Start js now r) = snd (js_FailRunning js now ''interrupted by daemon restart''
     (snd (js_MarkReconciling js (r_reconcilers r) (r_store r))))"
  by (simp_all add: Start_def case_prod_beta Let_def)

context job_store
begin

lemma Start_store:
  assumes "invar (r_store r)" "0 < now"
  obtains m1 where "invar (r_store (Start js now r))"
    and "m1 = jobs_of (r_store r) \<or> (\<exists>n. bulk_spec (\<lambda>j. job_State j = JobRunning \<and> job_Kind j \<in> set (r_reconcilers r))
           reconcile_job (jobs_of (r_store r)) n m1)"
    and "jobs_of (r_store (Start js now r)) = m1 \<or>
      (\<exists>n. bulk_spec (\<lambda>j. job_State j = JobRunning) (end_job now JobFailed ''interrupted by daemon restart'')
         m1 n (jobs_of (r_store (Start js now r))))"
proof -
  let ?s1 = "snd (js_MarkReconciling js (r_reconcilers r) (r_store r))"
  have s1: "invar ?s1" "jobs_of ?s1 = jobs_of (r_store r) \<or>
      (\<exists>n. bulk_spec (\<lambda>j. job_State j = JobRunning \<and> job_Kind j \<in> set (r_reconcilers r))
           reconcile_job (jobs_of (r_store r)) n (jobs_of ?s1))"
    using mark_reconciling [OF assms(1), of "r_reconcilers r"] by (auto simp: op_ok_def split: sum.splits)
  show thesis
    by (rule that [OF _ s1(2)])
      (use fail_running [OF s1(1) assms(2), of "''interrupted by daemon restart''"] in
        \<open>auto simp: op_ok_def Start_fields split: sum.splits\<close>)
qed

lemma Start_evolves:
  assumes "invar (r_store r)" "0 < now"
  shows "invar (r_store (Start js now r)) \<and> boot_evolves (jobs_of (r_store r)) (jobs_of (r_store (Start js now r)))"
proof (rule Start_store [OF assms], goal_cases)
  case (1 m1)
  let ?m = "jobs_of (r_store r)" and ?m2 = "jobs_of (r_store (Start js now r))"
  have m1: "\<exists>P. \<forall>i. m1 i = map_option (\<lambda>j. if job_State j = JobRunning \<and> P j then reconcile_job j else j) (?m i)"
    using 1(2)
  proof (elim disjE exE)
    assume "m1 = ?m"
    then show ?thesis by (intro exI [of _ "\<lambda>_. False"]) (simp add: option.map_ident)
  next
    fix n assume "bulk_spec (\<lambda>j. job_State j = JobRunning \<and> job_Kind j \<in> set (r_reconcilers r)) reconcile_job ?m n m1"
    then show ?thesis by (intro exI [of _ "\<lambda>j. job_Kind j \<in> set (r_reconcilers r)"]) (auto simp: bulk_spec_def)
  qed
  have m2: "\<exists>b. \<forall>i. ?m2 i = map_option (\<lambda>j. if job_State j = JobRunning \<and> b
      then end_job now JobFailed ''interrupted by daemon restart'' j else j) (m1 i)"
    using 1(3)
  proof (elim disjE exE)
    assume "?m2 = m1"
    then show ?thesis by (intro exI [of _ False]) (simp add: option.map_ident)
  next
    fix n assume "bulk_spec (\<lambda>j. job_State j = JobRunning) (end_job now JobFailed ''interrupted by daemon restart'') m1 n ?m2"
    then show ?thesis by (intro exI [of _ True]) (auto simp: bulk_spec_def)
  qed
  from m1 obtain P where P: "m1 i = map_option (\<lambda>j. if job_State j = JobRunning \<and> P j then reconcile_job j else j) (?m i)" for i
    by auto
  from m2 obtain b where b: "?m2 i = map_option (\<lambda>j. if job_State j = JobRunning \<and> b
      then end_job now JobFailed ''interrupted by daemon restart'' j else j) (m1 i)" for i
    by blast
  have "dom ?m2 = dom ?m" by (auto simp: b P)
  with 1(1) show ?case by (auto simp: boot_evolves_def b P)
qed

lemma exec_inv:
  assumes "daemon_inv invar jobs_of d" "exec fmt js canceller a d = Some d'"
  shows "daemon_inv invar jobs_of d'"
proof -
  from assms(2) obtain d1 where tk: "tick a d = Some d1" and step: "daemon_step fmt js canceller a d1 = Some d'"
    by (auto simp: exec_def split: option.splits)
  from tk have eq: "d_runner d1 = d_runner d" "d_used d1 = d_used d" "d_clock d \<le> d_clock d1"
    and t: "\<And>t. label_time a = Some t \<Longrightarrow> 0 < t \<and> d_clock d1 = t"
    by (auto elim: tick_Some)
  from assms(1) eq have inv: "daemon_inv invar jobs_of d1" by (fastforce simp: daemon_inv_def)
  show ?thesis
  proof (cases "\<exists>t. a = LStart t")
    case False
    then show ?thesis using daemon_step_ok [OF inv t _ step] by blast
  next
    case True
    then obtain now where a: "a = LStart now" ..
    with step have d': "d' = d1\<lparr>d_runner := Start js now (d_runner d1), d_reqs := []\<rparr>"
      by (simp add: daemon_step_def)
    from inv have i: "invar (r_store (d_runner d1))" by (simp add: daemon_inv_def)
    from t a have now: "0 < now" by simp
    note st = Start_evolves [OF i now]
    then have bd: "dom (d_jobs jobs_of d') = dom (d_jobs jobs_of d1)" by (simp add: d' boot_evolves_def)
    have "job_Created j' \<le> d_clock d1" if "j' \<in> ran (d_jobs jobs_of d')" for j'
    proof -
      from that obtain i where j': "d_jobs jobs_of d' i = Some j'" by (auto simp: ran_def)
      with bd obtain j where j: "d_jobs jobs_of d1 i = Some j" by blast
      with inv have "job_Created j \<le> d_clock d1" by (auto simp: daemon_inv_def ran_def)
      with st j j' show ?thesis by (auto simp: boot_evolves_def d')
    qed
    with inv st bd show ?thesis
      by (simp add: daemon_inv_def d' Start_fields(1) own_ok_idle)
  qed
qed

lemma reachable_inv:
  assumes "reachable fmt js canceller d0 d" "daemon_inv invar jobs_of d0"
  shows "daemon_inv invar jobs_of d"
  using assms by induction (auto intro: exec_inv)

text \<open>The effect of one step on the jobs, restarts included.\<close>

lemma exec_effect:
  assumes "daemon_inv invar jobs_of d" "exec fmt js canceller a d = Some d'"
  shows "set (d_used d) \<subseteq> set (d_used d') \<and>
    (evolve (set (d_used d)) (d_owned d) (d_jobs jobs_of d) (d_jobs jobs_of d') \<or>
     (\<exists>t. a = LStart t) \<and> boot_evolves (d_jobs jobs_of d) (d_jobs jobs_of d'))"
proof -
  from assms(2) obtain d1 where tk: "tick a d = Some d1" and step: "daemon_step fmt js canceller a d1 = Some d'"
    by (auto simp: exec_def split: option.splits)
  from tk have eq: "d_runner d1 = d_runner d" "d_used d1 = d_used d" "d_clock d \<le> d_clock d1"
    and t: "\<And>t. label_time a = Some t \<Longrightarrow> 0 < t \<and> d_clock d1 = t"
    by (auto elim: tick_Some)
  from assms(1) eq have inv: "daemon_inv invar jobs_of d1" by (fastforce simp: daemon_inv_def)
  show ?thesis
  proof (cases "\<exists>t. a = LStart t")
    case False
    then show ?thesis using daemon_step_ok [OF inv t _ step] eq by (simp add: d_owned_def)
  next
    case True
    with step t inv Start_evolves [of "d_runner d1"] eq show ?thesis
      by (auto simp: daemon_step_def daemon_inv_def)
  qed
qed

end

subsection \<open>Terminal states are final\<close>

text \<open>The job is gone, or in the same terminal state with the same error and end.\<close>

definition settled_as :: "Job \<Rightarrow> Job option \<Rightarrow> bool" where
  "settled_as j x \<longleftrightarrow>
     (case x of None \<Rightarrow> True
      | Some j' \<Rightarrow> job_State j' = job_State j \<and> job_Error j' = job_Error j \<and> job_Finished j' = job_Finished j)"

lemma evolve_settled:
  assumes "evolve used F m m'" "settled_as j (m i)" "i \<in> used" "Terminal (job_State j)"
  shows "settled_as j (m' i)"
proof (cases "m' i")
  case (Some j')
  then obtain j1 where "m i = Some j1" "job_evolves j1 j'"
    using evolve_Some [OF assms(1) Some assms(3)] by blast
  with Some assms(2,4) show ?thesis by (auto simp: settled_as_def job_evolves_def)
qed (simp add: settled_as_def)

lemma boot_settled:
  assumes "boot_evolves m m'" "settled_as j (m i)" "Terminal (job_State j)"
  shows "settled_as j (m' i)"
proof (cases "m' i")
  case (Some j')
  with assms(1) obtain j1 where j1: "m i = Some j1" unfolding boot_evolves_def by blast
  with assms(2,3) have "job_State j1 \<noteq> JobRunning" by (auto simp: settled_as_def Terminal_iff)
  with assms(1) j1 Some have "j' = j1" unfolding boot_evolves_def by blast
  with assms(2) j1 Some show ?thesis by simp
qed (simp add: settled_as_def)

context job_store
begin

lemma reachable_settled:
  assumes "reachable fmt js canceller d d'" "daemon_inv invar jobs_of d"
    and "d_jobs jobs_of d i = Some j" "Terminal (job_State j)"
  shows "settled_as j (d_jobs jobs_of d' i) \<and> i \<in> set (d_used d')"
  using assms(1)
proof induction
  case init
  with assms(2,3) show ?case by (auto simp: settled_as_def daemon_inv_def)
next
  case (step d1 a d2)
  have inv: "daemon_inv invar jobs_of d1" using reachable_inv [OF step(1) assms(2)] .
  from exec_effect [OF inv step(2)] step.IH assms(4) show ?case
    by (blast intro: evolve_settled boot_settled)
qed

end

subsection \<open>The two backends\<close>

text \<open>
  A daemon before its first start: no goroutine exists, every stored job has a used id and was created in
  the past.
\<close>

definition initial :: "('s \<Rightarrow> bool) \<Rightarrow> ('s \<Rightarrow> jobmap) \<Rightarrow> 's Daemon \<Rightarrow> bool" where
  "initial invar jobs_of d \<longleftrightarrow>
     daemon_inv invar jobs_of d \<and> d_pcs d = [] \<and> d_reqs d = [] \<and>
     r_inflight (d_runner d) = Map.empty \<and> r_entries (d_runner d) = [] \<and>
     r_metrics (d_runner d) = [] \<and> r_sweep (d_runner d) = None"

lemma initial_inv: "initial invar jobs_of d \<Longrightarrow> daemon_inv invar jobs_of d"
  by (simp add: initial_def)

text \<open>A daemon on an empty database, with a handler and a reconciler for migrations and three workers.\<close>

definition sample_daemon :: "SQLite Daemon" where
  "sample_daemon =
     \<lparr>d_runner = SetVolumeTransferPool VolumeTransferKinds 1
        (SetReconcilers [''migrate''] (NewRunner empty_db [''migrate'', ''prune''] 3)),
      d_reqs = [], d_used = [], d_clock = 0\<rparr>"

lemma sample_initial: "initial sql_invar sql_jobs_of sample_daemon"
  by (simp add: initial_def daemon_inv_def sample_daemon_def empty_db_def NewRunner_def SetReconcilers_def
      SetVolumeTransferPool_def VolumeTransferKinds_def sql_invar_def sql_jobs_of_def own_ok_def)

text \<open>A run of it: two jobs, each claimed and being run by a worker of its pool.\<close>

definition sample_run :: "label list" where
  "sample_run =
     [LStart 10, LEnqueue ''a'' 11 ''migrate'' '''' '''', LEnqueue ''b'' 12 ''prune'' '''' '''',
      LClaim 0 12, LClaimKind 0 13, LClaimKind 0 13, LClaimKind 0 13, LClaimKind 0 13, LServed 0,
      LClaim 1 14, LRunBegin 1 14, LRunBegin 0 15]"

lemma run_reachable:
  assumes "map_option f (execs fmt js c as d) = Some x"
  obtains d' where "reachable fmt js c d d'" and "f d' = x"
proof -
  from assms obtain d' where d': "execs fmt js c as d = Some d'" "f d' = x" by auto
  show thesis by (rule that [OF execs_reachable [OF d'(1) reachable.init] d'(2)])
qed

lemma sample_running:
  obtains d where "reachable (\<lambda>_. []) SQLiteJobs True sample_daemon d"
    and "map pc_owned (d_pcs d) = [[''a''], [''b''], []]"
proof -
  have "map_option (\<lambda>d. map pc_owned (d_pcs d)) (execs (\<lambda>_. []) SQLiteJobs True sample_run sample_daemon) =
      Some [[''a''], [''b''], []]"
    by code_simp
  from run_reachable [OF this that] show thesis .
qed

text \<open>C1. However the workers, the reconcile loop, cancel requests, enqueuers, retention and
  restarts interleave on a SQLite store whose statements may fail at any point, every job held by a
  worker is running in the store, and no job is held by two workers.\<close>

theorem sqlite_exclusive_ownership:
  assumes "initial sql_invar sql_jobs_of d0" and "reachable fmt SQLiteJobs canceller d0 d"
  shows "own_ok (sql_jobs_of (r_store (d_runner d))) (r_pcs (d_runner d))"
  using sql.reachable_inv [OF assms(2) initial_inv [OF assms(1)]] by (simp add: daemon_inv_def)

theorem sqlite_exclusive_ownership_witness:
  "\<exists>d. reachable (\<lambda>_. []) SQLiteJobs True sample_daemon d \<and>
     map pc_owned (r_pcs (d_runner d)) = [[''a''], [''b''], []] \<and>
     own_ok (sql_jobs_of (r_store (d_runner d))) (r_pcs (d_runner d))"
proof (rule sample_running)
  fix d
  assume d: "reachable (\<lambda>_. []) SQLiteJobs True sample_daemon d" "map pc_owned (d_pcs d) = [[''a''], [''b''], []]"
  with sqlite_exclusive_ownership [OF sample_initial d(1)] show ?thesis by (intro exI conjI)
qed

text \<open>C2. Once a job is terminal in the SQLite store it stays so: in every later state of the daemon,
  across restarts, it has the same state, error and end, or retention has removed it.\<close>

theorem sqlite_terminal_final:
  assumes "initial sql_invar sql_jobs_of d0" and "reachable fmt SQLiteJobs canceller d0 d"
    and "sql_jobs_of (r_store (d_runner d)) i = Some j" and "Terminal (job_State j)"
    and "reachable fmt SQLiteJobs canceller d d'"
  shows "settled_as j (sql_jobs_of (r_store (d_runner d')) i)"
  using sql.reachable_settled [OF assms(5) sql.reachable_inv [OF assms(2) initial_inv [OF assms(1)]] assms(3,4)]
  by simp

theorem sqlite_terminal_final_witness:
  "\<exists>d d' j. reachable (\<lambda>_. []) SQLiteJobs True sample_daemon d \<and>
     sql_jobs_of (r_store (d_runner d)) ''b'' = Some j \<and> job_State j = JobSucceeded \<and>
     execs (\<lambda>_. []) SQLiteJobs True [LStart 99] d = Some d' \<and>
     settled_as j (sql_jobs_of (r_store (d_runner d')) ''b'')"
proof -
  have "map_option (\<lambda>d. (map_option job_State (sql_jobs_of (r_store (d_runner d)) ''b''), d_clock d))
      (execs (\<lambda>_. []) SQLiteJobs True (sample_run @ [LReturn 1 None, LFinish 1 16 1]) sample_daemon) =
      Some (Some JobSucceeded, 16)"
    by code_simp
  then obtain d j where d: "reachable (\<lambda>_. []) SQLiteJobs True sample_daemon d" and c: "d_clock d = 16"
    and j: "sql_jobs_of (r_store (d_runner d)) ''b'' = Some j" "job_State j = JobSucceeded"
    by (rule run_reachable) auto
  obtain d' where d': "execs (\<lambda>_. []) SQLiteJobs True [LStart 99] d = Some d'"
    using c by (simp add: exec_def tick_def daemon_step_def)
  then have "reachable (\<lambda>_. []) SQLiteJobs True d d'" by (rule execs_reachable) (rule reachable.init)
  with sqlite_terminal_final [OF sample_initial d j(1)] j(2) d d' j show ?thesis
    by (auto simp: Terminal_iff)
qed

text \<open>C3. After a restart on a database whose statements succeed, no job is left running: an interrupted job of a
  kind with a reconciler is reconciling, any other interrupted job has failed with the reason and the time of
  the restart, and every other job is untouched.\<close>

theorem sqlite_boot:
  assumes "sql_invar (r_store r)" and "sql_verdicts (r_store r) = []" and "0 < now"
  shows "sql_jobs_of (r_store (Start SQLiteJobs now r)) i =
    map_option (boot_job now (r_reconcilers r)) (sql_jobs_of (r_store r) i)"
proof -
  obtain n s1 where s1: "sql_MarkReconciling (r_reconcilers r) (r_store r) = (Inr n, s1)" "sql_verdicts s1 = []"
    using assms(2)
    by (cases "r_reconcilers r = []")
      (auto simp: sql_MarkReconciling_def exec_update_jobs_def sql_update_def sql_exec_no_fault)
  obtain k s2 where s2: "sql_FailRunning now ''interrupted by daemon restart'' s1 = (Inr k, s2)"
    using s1(2) by (auto simp: sql_FailRunning_def exec_update_jobs_def sql_update_def sql_exec_no_fault)
  have b1: "sql_invar s1" "bulk_spec (\<lambda>j. job_State j = JobRunning \<and> job_Kind j \<in> set (r_reconcilers r))
      reconcile_job (sql_jobs_of (r_store r)) n (sql_jobs_of s1)"
    using sql_MarkReconciling_ok [OF assms(1), of "r_reconcilers r"] s1(1) by (auto simp: op_ok_def)
  have b2: "bulk_spec (\<lambda>j. job_State j = JobRunning)
      (end_job now JobFailed ''interrupted by daemon restart'') (sql_jobs_of s1) k (sql_jobs_of s2)"
    using sql_FailRunning_ok [OF b1(1) assms(3), of "''interrupted by daemon restart''"] s2 by (simp add: op_ok_def)
  have "r_store (Start SQLiteJobs now r) = s2" using s1(1) s2 by (simp add: Start_fields)
  then show ?thesis
    using b1(2) b2 by (cases "sql_jobs_of (r_store r) i") (auto simp: bulk_spec_def boot_job_def)
qed

theorem sqlite_boot_witness:
  "\<exists>r. map_option job_State (sql_jobs_of (r_store r) ''a'') = Some JobRunning \<and>
     map_option job_State (sql_jobs_of (r_store r) ''b'') = Some JobRunning \<and>
     map_option job_State (sql_jobs_of (r_store (Start SQLiteJobs 20 r)) ''a'') = Some JobReconciling \<and>
     map_option job_State (sql_jobs_of (r_store (Start SQLiteJobs 20 r)) ''b'') = Some JobFailed"
proof -
  have "map_option (\<lambda>d. (sql_verdicts (r_store (d_runner d)), r_reconcilers (d_runner d),
       map_option (\<lambda>j. (job_State j, job_Kind j)) (sql_jobs_of (r_store (d_runner d)) ''a''),
       map_option (\<lambda>j. (job_State j, job_Kind j)) (sql_jobs_of (r_store (d_runner d)) ''b'')))
      (execs (\<lambda>_. []) SQLiteJobs True sample_run sample_daemon) =
      Some ([], [''migrate''], Some (JobRunning, ''migrate''), Some (JobRunning, ''prune''))"
    by code_simp
  then obtain d ja jb where d: "reachable (\<lambda>_. []) SQLiteJobs True sample_daemon d"
    and v: "sql_verdicts (r_store (d_runner d)) = []" "r_reconcilers (d_runner d) = [''migrate'']"
    and a: "sql_jobs_of (r_store (d_runner d)) ''a'' = Some ja" "job_State ja = JobRunning" "job_Kind ja = ''migrate''"
    and b: "sql_jobs_of (r_store (d_runner d)) ''b'' = Some jb" "job_State jb = JobRunning" "job_Kind jb = ''prune''"
    by (rule run_reachable) auto
  have "daemon_inv sql_invar sql_jobs_of d"
    by (rule sql.reachable_inv [OF d initial_inv [OF sample_initial]])
  then have i: "sql_invar (r_store (d_runner d))" by (simp add: daemon_inv_def)
  show ?thesis
    using sqlite_boot [OF i v(1), of 20 "''a''"] sqlite_boot [OF i v(1), of 20 "''b''"] v(2) a b
    by (intro exI [of _ "d_runner d"]) (simp add: boot_job_def)
qed

end
