(* ===== verification/Job_Cancellation.thy ===== *)
theory Job_Cancellation
  imports Job_Safety
begin

text \<open>
  Cancelling. The in-flight map always leads to the entry of the goroutine that runs the job, although
  entries are shared by address between the runner, its workers, the reconcile tasks and the API; so a cancel the
  API has accepted is a cancel the job will show.
\<close>

subsection \<open>The in-flight map and the sweep\<close>

fun task_job :: "rpc \<Rightarrow> Job" where
  "task_job (RCalling job _) = job"
| "task_job (RResolving job _ _) = job"

definition recon_jobs :: "'s Runner \<Rightarrow> Job set" where
  "recon_jobs r = (case r_sweep r of None \<Rightarrow> {} | Some sw \<Rightarrow> set (sw_pending sw) \<union> task_job ` set (sw_tasks sw))"

abbreviation recon_ids :: "'s Runner \<Rightarrow> string set" where
  "recon_ids r \<equiv> job_ID ` recon_jobs r"

definition calling_ids :: "'s Runner \<Rightarrow> string set" where
  "calling_ids r =
     (case r_sweep r of None \<Rightarrow> {} | Some sw \<Rightarrow> {job_ID job | job a. RCalling job a \<in> set (sw_tasks sw)})"

lemma calling_recon: "calling_ids r \<subseteq> recon_ids r"
  by (force simp: calling_ids_def recon_jobs_def split: option.splits)

lemma calling_ids_mono: "r_sweep r' = r_sweep r \<Longrightarrow> calling_ids r' = calling_ids r"
  by (simp add: calling_ids_def)

text \<open>A job the reconcile loop looks at is not queued and not running any more.\<close>

definition past_running :: "jobmap \<Rightarrow> string \<Rightarrow> bool" where
  "past_running m i \<longleftrightarrow> (\<forall>j. m i = Some j \<longrightarrow> job_State j \<notin> {JobQueued, JobRunning})"

definition recon_ok :: "string set \<Rightarrow> jobmap \<Rightarrow> 's Runner \<Rightarrow> bool" where
  "recon_ok used m r \<longleftrightarrow> (\<forall>i\<in>recon_ids r. i \<in> used \<and> past_running m i)"

text \<open>
  A worker inside a handler finds its own entry under its job's id; an entry in the map belongs to a
  worker inside a handler or to a reconcile task; two ids never share an entry.
\<close>

definition entries_ok :: "'s Runner \<Rightarrow> bool" where
  "entries_ok r \<longleftrightarrow>
     (\<forall>job a ch. WRunning job a ch \<in> set (r_pcs r) \<longrightarrow> r_inflight r (job_ID job) = Some a) \<and>
     (\<forall>i a. r_inflight r i = Some a \<longrightarrow>
        a < length (r_entries r) \<and>
        ((\<exists>job ch. WRunning job a ch \<in> set (r_pcs r) \<and> job_ID job = i) \<or> i \<in> calling_ids r)) \<and>
     (\<forall>i k a. r_inflight r i = Some a \<longrightarrow> r_inflight r k = Some a \<longrightarrow> i = k)"

lemma evolve_past_running:
  assumes "evolve used F m m'" "i \<in> used" "past_running m i"
  shows "past_running m' i"
  unfolding past_running_def
proof (intro allI impI)
  fix j' assume "m' i = Some j'"
  then obtain j where "m i = Some j" "job_evolves j j'" using evolve_Some [OF assms(1) _ assms(2)] by metis
  with assms(3) show "job_State j' \<notin> {JobQueued, JobRunning}"
    by (cases "job_State j") (auto simp: past_running_def job_evolves_def)
qed

lemma recon_ok_evolve:
  assumes "recon_ok used m r" "evolve used F m m'" "used \<subseteq> used'" "recon_ids r' \<subseteq> recon_ids r"
  shows "recon_ok used' m' r'"
  using assms evolve_past_running [OF assms(2)] unfolding recon_ok_def by blast

lemma recon_ids_mono:
  "r_sweep r' = r_sweep r \<Longrightarrow> recon_ids r' = recon_ids r"
  by (simp add: recon_jobs_def)

lemma past_running_not_running: "past_running m i \<Longrightarrow> \<not> running m i"
  by (auto simp: past_running_def running_def)

lemma recon_not_running: "recon_ok used m r \<Longrightarrow> i \<in> recon_ids r \<Longrightarrow> \<not> running m i"
  unfolding recon_ok_def using past_running_not_running by blast

lemma own_ok_running: "own_ok m pcs \<Longrightarrow> pc \<in> set pcs \<Longrightarrow> i \<in> set (pc_owned pc) \<Longrightarrow> running m i"
  unfolding own_ok_def by (metis in_set_conv_nth)

lemma own_ok_unique:
  "own_ok m pcs \<Longrightarrow> pc \<in> set pcs \<Longrightarrow> pc' \<in> set pcs \<Longrightarrow> i \<in> set (pc_owned pc) \<Longrightarrow>
   i \<in> set (pc_owned pc') \<Longrightarrow> pc = pc'"
  unfolding own_ok_def by (metis in_set_conv_nth)

subsection \<open>Steps keep the in-flight map right\<close>

lemma entries_same:
  assumes "entries_ok r" "r_inflight r' = r_inflight r" "length (r_entries r') = length (r_entries r)"
    and "\<And>job a ch. WRunning job a ch \<in> set (r_pcs r') \<Longrightarrow> \<exists>ch'. WRunning job a ch' \<in> set (r_pcs r)"
    and "\<And>job a ch. WRunning job a ch \<in> set (r_pcs r) \<Longrightarrow> \<exists>ch'. WRunning job a ch' \<in> set (r_pcs r')"
    and "\<And>i. i \<in> calling_ids r \<Longrightarrow> r_inflight r i \<noteq> None \<Longrightarrow> i \<in> calling_ids r'"
  shows "entries_ok r'"
  using assms unfolding entries_ok_def by (metis option.distinct(1))

lemma entries_okD:
  assumes "entries_ok r"
  shows "WRunning job a ch \<in> set (r_pcs r) \<Longrightarrow> r_inflight r (job_ID job) = Some a"
    and "r_inflight r i = Some a \<Longrightarrow> a < length (r_entries r)"
    and "r_inflight r i = Some a \<Longrightarrow>
      (\<exists>job ch. WRunning job a ch \<in> set (r_pcs r) \<and> job_ID job = i) \<or> i \<in> calling_ids r"
    and "r_inflight r i = Some a \<Longrightarrow> r_inflight r k = Some a \<Longrightarrow> i = k"
  using assms unfolding entries_ok_def by blast+

lemma entries_register_worker:
  assumes ok: "entries_ok r" and own: "own_ok m (r_pcs r)" and w: "w < length (r_pcs r)"
    and pc: "r_pcs r ! w = WClaimed job"
  shows "entries_ok (set_pc w (WRunning job (length (r_entries r)) []) (register (job_ID job) (emit x r)))"
    (is "entries_ok ?r'")
proof -
  let ?n = "length (r_entries r)"
  have other: "job_ID job' \<noteq> job_ID job" if "v < length (r_pcs r)" "r_pcs r ! v = WRunning job' a ch" for v job' a ch
    using own w pc that unfolding own_ok_def by fastforce
  have infl: "r_inflight r (job_ID job') = Some a" if "v < length (r_pcs r)" "r_pcs r ! v = WRunning job' a ch" for v job' a ch
    using ok that nth_mem [OF that(1)] unfolding entries_ok_def by metis
  have mem: "pc' \<in> set ((r_pcs r)[w :=
      WRunning job ?n []]) \<longleftrightarrow>
      pc' = WRunning job ?n [] \<or> (\<exists>v<length (r_pcs r). v \<noteq> w \<and> r_pcs r ! v = pc')" for pc'
    using w by (auto simp: in_set_conv_nth nth_list_update)
  have stay: "WRunning job' a ch \<in> set ((r_pcs r)[w := WRunning job ?n []])"
    if "WRunning job' a ch \<in> set (r_pcs r)" for job' a ch
  proof -
    from that obtain v where "v < length (r_pcs r)" "r_pcs r ! v = WRunning job' a ch" by (auto simp: in_set_conv_nth)
    with pc show ?thesis by (auto simp: mem)
  qed
  have bound: "r_inflight r i = Some a \<Longrightarrow> a < ?n" for i a using ok unfolding entries_ok_def by blast
  show ?thesis
    unfolding entries_ok_def
  proof (intro conjI allI impI, goal_cases)
    case (1 job' a ch)
    then show ?case using infl other by (auto simp: mem)
  next
    case (2 i a)
    then show ?case using bound by (auto split: if_splits intro: less_SucI)
  next
    case (3 i a)
    show ?case
    proof (cases "i = job_ID job")
      case True
      with 3 have "a = ?n" by simp
      with True w show ?thesis
        by (intro disjI1 exI [of _ job] exI [of _ "[]"]) (simp add: set_update_memI)
    next
      case False
      with 3 ok have "(\<exists>job' ch. WRunning job' a ch \<in> set (r_pcs r) \<and> job_ID job' = i) \<or> i \<in> calling_ids r"
        unfolding entries_ok_def by simp
      then show ?thesis
        using stay calling_ids_mono [of ?r' r] by simp blast
    qed
  next
    case (4 i k a)
    then show ?case using ok bound unfolding entries_ok_def by (auto split: if_splits)
  qed
qed

lemma entries_register_task:
  assumes ok: "entries_ok r" and "\<And>job a ch. WRunning job a ch \<in> set (r_pcs r) \<Longrightarrow> job_ID job \<noteq> i"
    and "r_pcs r' = r_pcs r" "r_inflight r' = (r_inflight r)(i \<mapsto> length (r_entries r))"
    "r_entries r' = r_entries r @ [e]" "calling_ids r \<subseteq> calling_ids r'" "i \<in> calling_ids r'"
  shows "entries_ok r'"
proof -
  have bound: "r_inflight r k = Some a \<Longrightarrow> a < length (r_entries r)" for k a
    using ok unfolding entries_ok_def by blast
  show ?thesis
    unfolding entries_ok_def assms(3-5)
  proof (intro conjI allI impI, goal_cases)
    case (1 job a ch)
    then show ?case using entries_okD(1) [OF ok] assms(2) by simp
  next
    case (2 k a)
    then show ?case using bound by (auto split: if_splits intro: less_SucI)
  next
    case (3 k a)
    then show ?case using entries_okD(3) [OF ok, of k a] assms(6,7) by (auto split: if_splits)
  next
    case (4 k l a)
    then show ?case using entries_okD(4) [OF ok, of k a l] bound by (auto split: if_splits)
  qed
qed

lemma entries_deregister:
  assumes ok: "entries_ok r"
    and "r_inflight r' = (r_inflight r)(i := None)" "length (r_entries r') = length (r_entries r)"
    and "\<And>job a ch. WRunning job a ch \<in> set (r_pcs r') \<longleftrightarrow> WRunning job a ch \<in> set (r_pcs r) \<and> job_ID job \<noteq> i"
    and "calling_ids r \<subseteq> insert i (calling_ids r')"
  shows "entries_ok r'"
  unfolding entries_ok_def assms(2-4)
proof (intro conjI allI impI, goal_cases)
  case (1 job a ch)
  then show ?case using entries_okD(1) [OF ok] by auto
next
  case (2 k a)
  then show ?case using entries_okD(2) [OF ok, of k] by (auto split: if_splits)
next
  case (3 k a)
  then show ?case using entries_okD(3) [OF ok, of k a] assms(5) by (auto split: if_splits)
next
  case (4 k l a)
  then show ?case using entries_okD(4) [OF ok, of k a l] by (auto split: if_splits)
qed

lemma in_set_upd:
  "w < length xs \<Longrightarrow> x \<in> set (xs[w := y]) \<longleftrightarrow> x = y \<or> (\<exists>v<length xs. v \<noteq> w \<and> xs ! v = x)"
  by (auto simp: in_set_conv_nth nth_list_update)

text \<open>A step of a worker.\<close>

fun in_handler :: "wpc \<Rightarrow> bool" where
  "in_handler (WRunning _ _ _) = True"
| "in_handler _ = False"

lemma handlers_upd:
  assumes "w < length pcs" "\<not> in_handler (pcs ! w)" "\<not> in_handler pc"
  shows "WRunning job a ch \<in> set (pcs[w := pc]) \<longleftrightarrow> WRunning job a ch \<in> set pcs"
proof
  assume "WRunning job a ch \<in> set (pcs[w := pc])"
  with assms(3) show "WRunning job a ch \<in> set pcs" using set_update_subset_insert [of pcs w pc] by auto
next
  assume "WRunning job a ch \<in> set pcs"
  then obtain i where i: "i < length pcs" "pcs ! i = WRunning job a ch" by (auto simp: in_set_conv_nth)
  with assms(2) have "pcs[w := pc] ! i = WRunning job a ch" by (cases "i = w") auto
  with i(1) show "WRunning job a ch \<in> set (pcs[w := pc])" by (metis length_list_update nth_mem)
qed

lemma claimed_fields:
  "r_sweep (claimed w found none res r) = r_sweep r" "r_inflight (claimed w found none res r) = r_inflight r"
  "r_entries (claimed w found none res r) = r_entries r"
  "\<exists>pc. r_pcs (claimed w found none res r) = (r_pcs r)[w := pc] \<and> (pc = WIdle \<or> pc = none \<or> (\<exists>job. pc = found job))"
  by (auto simp: claimed_def split: prod.splits sum.splits option.splits)

lemma entries_set_pc:
  assumes "entries_ok r" "r_inflight r' = r_inflight r" "r_entries r' = r_entries r" "r_sweep r' = r_sweep r"
    and "r_pcs r' = (r_pcs r)[w := pc]" "w < length (r_pcs r)" "\<not> in_handler (r_pcs r ! w)" "\<not> in_handler pc"
  shows "entries_ok r'"
  by (rule entries_same [OF assms(1,2)])
    (use assms(3-8) handlers_upd [OF assms(6-8)] calling_ids_mono [OF assms(4)] in auto)

lemma claimed_entries:
  assumes "entries_ok r" "w < length (r_pcs r)" "\<not> in_handler (r_pcs r ! w)"
    and "\<not> in_handler none" "\<And>job. \<not> in_handler (found job)"
  shows "entries_ok (claimed w found none res r)"
proof -
  obtain pc where pc: "r_pcs (claimed w found none res r) = (r_pcs r)[w := pc]"
      "pc = WIdle \<or> pc = none \<or> (\<exists>job. pc = found job)"
    using claimed_fields(4) by blast
  with assms(4,5) have "\<not> in_handler pc" by auto
  then show ?thesis by (rule entries_set_pc [OF assms(1) claimed_fields(2,3,1) pc(1) assms(2,3)])
qed

lemma pc_at_Some: "pc_at w r = Some pc \<longleftrightarrow> w < length (r_pcs r) \<and> r_pcs r ! w = pc"
  by (auto simp: pc_at_def)

lemma claim_entries:
  assumes "entries_ok r" "w < length (r_pcs r)" "r_pcs r ! w = WIdle"
  shows "entries_ok (claim js now w r) \<and> r_sweep (claim js now w r) = r_sweep r"
proof -
  have rot: "entries_ok (set_pc w (WRotating ks) r)" for ks
    by (rule entries_set_pc [OF assms(1), where w = w and pc = "WRotating ks"]) (use assms in auto)
  show ?thesis
    using assms rot
    by (auto simp: claim_def claimed_fields(1) claimed_entries [OF assms(1,2)]
        split: prod.splits bool.splits option.splits)
qed

lemma claim_kind_entries:
  assumes "entries_ok r" "w < length (r_pcs r)" "r_pcs r ! w = WRotating ks"
  shows "entries_ok (claim_kind js now w ks r) \<and> r_sweep (claim_kind js now w ks r) = r_sweep r"
proof -
  have "entries_ok (set_pc w WIdle r)"
    by (rule entries_set_pc [OF assms(1), where w = w and pc = WIdle]) (use assms in auto)
  then show ?thesis
    using assms
    by (auto simp: claim_kind_def claimed_fields(1) claimed_entries [OF assms(1,2)] split: list.splits)
qed

lemma run_return_entries:
  assumes ok: "entries_ok r" and own: "own_ok m (r_pcs r)" and w: "w < length (r_pcs r)" "r_pcs r ! w = WRunning job a ch"
  shows "entries_ok (run_return w job a err r)"
proof (rule entries_deregister [OF ok])
  show "r_inflight (run_return w job a err r) = (r_inflight r)(job_ID job := None)"
    by (simp add: run_return_def Let_def)
  show "length (r_entries (run_return w job a err r)) = length (r_entries r)"
    by (simp add: run_return_def Let_def)
  show "WRunning job' a' ch' \<in> set (r_pcs (run_return w job a err r)) \<longleftrightarrow>
      WRunning job' a' ch' \<in> set (r_pcs r) \<and> job_ID job' \<noteq> job_ID job" for job' a' ch'
  proof -
    have uniq: "v = w" if "v < length (r_pcs r)" "r_pcs r ! v = WRunning job' a' ch'" "job_ID job' = job_ID job" for v
      using own w that unfolding own_ok_def by (metis list.set_intros(1) pc_owned.simps(5))
    have "v \<noteq> w" if "v < length (r_pcs r)" "r_pcs r ! v = WRunning job' a' ch'" "job_ID job' \<noteq> job_ID job" for v
      using that w by auto
    with uniq have "(\<exists>v<length (r_pcs r). v \<noteq> w \<and> r_pcs r ! v = WRunning job' a' ch') \<longleftrightarrow>
        (\<exists>v<length (r_pcs r). r_pcs r ! v = WRunning job' a' ch') \<and> job_ID job' \<noteq> job_ID job"
      using w(1) by (metis own own_ok_def w(2) list.set_intros(1) pc_owned.simps(5))
    then show ?thesis
      using w(1) by (simp add: run_return_def Let_def in_set_upd in_set_conv_nth [of _ "r_pcs r"])
  qed
  show "calling_ids r \<subseteq> insert (job_ID job) (calling_ids (run_return w job a err r))"
    using calling_ids_mono [of "run_return w job a err r" r] by (auto simp: run_return_def Let_def)
qed

lemma worker_step_entries:
  assumes ok: "entries_ok r" and own: "own_ok m (r_pcs r)" and step: "worker_step js a r = Some r'"
  shows "entries_ok r' \<and> r_sweep r' = r_sweep r"
proof (cases a)
  case (LClaim w now)
  with step claim_entries [OF ok] show ?thesis by (auto simp: worker_step_def pc_at_Some split: if_splits)
next
  case (LClaimKind w now)
  with step claim_kind_entries [OF ok] show ?thesis
    by (auto simp: worker_step_def pc_at_Some split: option.splits wpc.splits)
next
  case (LServed w)
  with step obtain k job where w: "w < length (r_pcs r)" "r_pcs r ! w = WServing k job"
    and r': "r' = record_served w k job r"
    by (auto simp: worker_step_def pc_at_Some split: option.splits wpc.splits)
  then show ?thesis
    using entries_set_pc [OF ok, of r' w "WClaimed job"] by (simp add: record_served_def)
next
  case (LRunBegin w now)
  with step obtain job where w: "w < length (r_pcs r)" "r_pcs r ! w = WClaimed job" and r': "r' = run_begin js now w job r"
    by (auto simp: worker_step_def pc_at_Some split: option.splits wpc.splits)
  then show ?thesis
    using entries_register_worker [OF ok own w]
      entries_set_pc [OF ok, of "set_pc w WIdle (runner_finish js now (job_ID job) JobFailed msg r)" w WIdle for msg]
    by (auto simp: run_begin_def)
next
  case (LStep w i now st detail)
  with step have "r' = jc_Step js now i st detail r"
    by (auto simp: worker_step_def split: option.splits wpc.splits if_splits)
  then show ?thesis
    using entries_same [OF ok, of r'] calling_ids_mono [of r' r] by auto
next
  case (LReturn w err)
  with step obtain job x ch where w: "w < length (r_pcs r)" "r_pcs r ! w = WRunning job x ch"
    and r': "r' = run_return w job x err r"
    by (auto simp: worker_step_def pc_at_Some split: option.splits wpc.splits)
  then show ?thesis
    using run_return_entries [OF ok own w] by (auto simp: run_return_def Let_def)
next
  case (LFinish w now d)
  with step obtain job c err where w: "w < length (r_pcs r)" "r_pcs r ! w = WReturned job c err"
    and r': "r' = run_finish js now d w job c err r"
    by (auto simp: worker_step_def pc_at_Some split: option.splits wpc.splits)
  have f: "r_inflight r' = r_inflight r" "r_entries r' = r_entries r" "r_sweep r' = r_sweep r"
    "r_pcs r' = (r_pcs r)[w := WIdle]"
    by (auto simp: r' run_finish_def split: option.splits)
  from entries_set_pc [OF ok f w(1)] w f(3) show ?thesis by simp
qed (use step in \<open>simp_all add: worker_step_def\<close>)

text \<open>A step of the reconcile loop.\<close>

lemma set_drop_nth: "set (drop_nth k xs) \<subseteq> set xs"
  by (auto simp: drop_nth_def dest: in_set_takeD in_set_dropD)

lemma drop_nth_keeps: "k < length xs \<Longrightarrow> set xs \<subseteq> insert (xs ! k) (set (drop_nth k xs))"
  using id_take_nth_drop [of k xs] unfolding drop_nth_def
  by (metis Un_insert_right list.simps(15) order_refl set_append)

lemma task_at_Some:
  "task_at k r = Some (ts, t) \<longleftrightarrow>
   (\<exists>sw. r_sweep r = Some sw \<and> ts = sw_tasks sw \<and> k < length (sw_tasks sw) \<and> t = sw_tasks sw ! k)"
  by (auto simp: task_at_def split: option.splits)

lemma task_recon:
  assumes "task_at k r = Some (ts, RCalling job a)"
  shows "job_ID job \<in> recon_ids r"
proof -
  from assms obtain sw where "r_sweep r = Some sw" "RCalling job a \<in> set (sw_tasks sw)"
    unfolding task_at_Some by (metis nth_mem)
  then have "job_ID job \<in> calling_ids r" by (auto simp: calling_ids_def)
  with calling_recon [of r] show ?thesis by blast
qed

lemma sweep_launch_cases:
  assumes "sweep_launch r = Some r'"
  obtains (skip) sw job rest where "r_sweep r = Some sw" "sw_pending sw = job # rest"
      "r' = r\<lparr>r_sweep := Some (sw\<lparr>sw_pending := rest\<rparr>)\<rparr>"
  | (launch) sw job rest where "r_sweep r = Some sw" "sw_pending sw = job # rest"
      "r' = register (job_ID job) (r\<lparr>r_sweep := Some \<lparr>sw_pending = rest,
         sw_tasks = sw_tasks sw @ [RCalling job (length (r_entries r))]\<rparr>\<rparr>)"
  using assms by (auto simp: sweep_launch_def split: option.splits list.splits if_splits)

lemma sweep_launch_recon: "sweep_launch r = Some r' \<Longrightarrow> recon_ids r' \<subseteq> recon_ids r"
  by (erule sweep_launch_cases) (auto simp: recon_jobs_def)

lemma sweep_launch_entries:
  assumes ok: "entries_ok r" and rec: "recon_ok used m r" and own: "own_ok m (r_pcs r)"
    and step: "sweep_launch r = Some r'"
  shows "entries_ok r'"
  using step
proof (cases rule: sweep_launch_cases)
  case (skip sw job rest)
  then have "calling_ids r' = calling_ids r" by (simp add: calling_ids_def)
  with entries_same [OF ok, of r'] skip(3) show ?thesis by auto
next
  case (launch sw job rest)
  have "job_ID job \<in> recon_ids r" using launch(1,2) by (auto simp: recon_jobs_def)
  then have "\<not> running m (job_ID job)" using recon_not_running [OF rec] by simp
  then have no: "job_ID job' \<noteq> job_ID job" if "WRunning job' a ch \<in> set (r_pcs r)" for job' a ch
    using own_ok_running [OF own that, of "job_ID job'"] by auto
  show ?thesis
  proof (rule entries_register_task [OF ok no])
    show "r_pcs r' = r_pcs r" "r_inflight r' = (r_inflight r)(job_ID job \<mapsto> length (r_entries r))"
      "r_entries r' = r_entries r @ [\<lparr>ij_done = False, ij_canceled = False\<rparr>]"
      by (simp_all add: launch(3))
    show "calling_ids r \<subseteq> calling_ids r'" "job_ID job \<in> calling_ids r'"
      using launch(1) by (auto simp: calling_ids_def launch(3))
  qed
qed

lemma reconcile_return_fields:
  fixes r :: "'s Runner"
  assumes "task_at k r = Some (ts, RCalling job a)" and r': "r' = reconcile_return k ts job a st msg resolved err r"
  shows "r_pcs r' = r_pcs r" "r_inflight r' = (r_inflight r)(job_ID job := None)"
    "length (r_entries r') = length (r_entries r)" "recon_ids r' \<subseteq> recon_ids r"
    "calling_ids r \<subseteq> insert (job_ID job) (calling_ids r')"
    "\<And>x. ij_canceled (r_entries r' ! x) = ij_canceled (r_entries r ! x)"
proof -
  from assms(1) obtain sw where sw: "r_sweep r = Some sw" "ts = sw_tasks sw" "k < length ts" "ts ! k = RCalling job a"
    by (auto simp: task_at_Some)
  show "r_pcs r' = r_pcs r" "r_inflight r' = (r_inflight r)(job_ID job := None)"
    "length (r_entries r') = length (r_entries r)"
    by (simp_all add: r' reconcile_return_def Let_def)
  show "ij_canceled (r_entries r' ! x) = ij_canceled (r_entries r ! x)" for x
    by (cases "x = a"; cases "a < length (r_entries r)") (simp_all add: r' reconcile_return_def Let_def list_update_beyond)
  obtain ts' where s': "r_sweep r' = Some (sw\<lparr>sw_tasks := ts'\<rparr>)"
    and ts': "ts' = drop_nth k ts \<or> ts' = ts[k := RResolving job st msg]"
    by (cases "err \<noteq> None \<or> \<not> resolved")
      (auto simp: r' reconcile_return_def Let_def sw(1) split: if_splits)
  have upd:
    "set (ts[k := RResolving job st msg]) \<subseteq> insert (RResolving job st msg) (set ts)"
    by (rule set_update_subset_insert)
  have job: "job \<in> task_job ` set ts" using nth_mem [OF sw(3)] sw(4) by force
  have "task_job ` set ts' \<subseteq> task_job ` set ts"
    using ts' job set_drop_nth [of k ts] upd by auto
  then show "recon_ids r' \<subseteq> recon_ids r"
    using sw(1,2) s' by (auto simp: recon_jobs_def)
  have "set ts \<subseteq> insert (RCalling job a) (set ts')"
    using ts' drop_nth_keeps [OF sw(3)] sw(3,4) by (auto simp: in_set_upd in_set_conv_nth [of _ ts])
  then show "calling_ids r \<subseteq> insert (job_ID job) (calling_ids r')"
    using sw(1,2) s' by (auto simp: calling_ids_def)
qed

lemma reconcile_return_entries:
  assumes ok: "entries_ok r" and rec: "recon_ok used m r" and own: "own_ok m (r_pcs r)"
    and task: "task_at k r = Some (ts, RCalling job a)" and r': "r' = reconcile_return k ts job a st msg resolved err r"
  shows "entries_ok r'"
proof (rule entries_deregister [OF ok])
  note f = reconcile_return_fields [OF task r']
  show "r_inflight r' = (r_inflight r)(job_ID job := None)" "length (r_entries r') = length (r_entries r)"
    "calling_ids r \<subseteq> insert (job_ID job) (calling_ids r')" by (rule f)+
  have "job_ID job \<in> recon_ids r"
    using task by (rule task_recon)
  then have "\<not> running m (job_ID job)" using recon_not_running [OF rec] by simp
  then show "WRunning job' a' ch \<in> set (r_pcs r') \<longleftrightarrow> WRunning job' a' ch \<in> set (r_pcs r) \<and> job_ID job' \<noteq> job_ID job"
    for job' a' ch
    using own_ok_running [OF own, of "WRunning job' a' ch" "job_ID job'"] f(1) by auto
qed

lemma reconcile_resolve_fields:
  assumes "task_at k r = Some (ts, RResolving job st msg)" and r': "r' = reconcile_resolve js now k ts job st msg r"
  shows "r_pcs r' = r_pcs r" "r_inflight r' = r_inflight r" "r_entries r' = r_entries r"
    "recon_ids r' \<subseteq> recon_ids r" "calling_ids r' = calling_ids r"
proof -
  from assms(1) obtain sw where sw: "r_sweep r = Some sw" "ts = sw_tasks sw" "k < length ts" "ts ! k = RResolving job st msg"
    by (auto simp: task_at_Some)
  then have s': "r_sweep r' = Some (sw\<lparr>sw_tasks := drop_nth k ts\<rparr>)" by (simp add: r' reconcile_resolve_def)
  show "r_pcs r' = r_pcs r" "r_inflight r' = r_inflight r" "r_entries r' = r_entries r"
    by (simp_all add: r' reconcile_resolve_def)
  show "recon_ids r' \<subseteq> recon_ids r" "calling_ids r' = calling_ids r"
    using sw s' set_drop_nth [of k ts] drop_nth_keeps [OF sw(3)]
    by (auto simp: recon_jobs_def calling_ids_def)
qed

context job_store
begin

lemma sweep_begin_fields:
  assumes "invar (r_store r)" "r_sweep r = None"
  shows "r_inflight (sweep_begin js r) = r_inflight r" "r_entries (sweep_begin js r) = r_entries r"
    "\<And>i. i \<in> recon_ids (sweep_begin js r) \<Longrightarrow> \<exists>j. jobs_of (r_store r) i = Some j \<and> job_State j = JobReconciling"
    "calling_ids (sweep_begin js r) = {}"
proof -
  let ?f = "\<lparr>f_State = Some JobReconciling, f_Kind = '''', f_ParentID = '''', f_Limit = MaxJobLimit, f_Before = ''''\<rparr>"
  show "r_inflight (sweep_begin js r) = r_inflight r" "r_entries (sweep_begin js r) = r_entries r"
    "calling_ids (sweep_begin js r) = {}"
    using assms(2) by (simp_all add: sweep_begin_def calling_ids_def split: prod.splits sum.splits)
  fix i assume i: "i \<in> recon_ids (sweep_begin js r)"
  obtain x s where call: "js_ListJobs js ?f (r_store r) = (x, s)" by fastforce
  with i assms(2) obtain xs job where x: "x = Inr xs" and job: "job \<in> set xs" "i = job_ID job"
    by (auto simp: sweep_begin_def recon_jobs_def split: sum.splits)
  from list_jobs [OF assms(1), of ?f] call x have "list_spec ?f (jobs_of (r_store r)) xs" by (simp add: op_ok_def)
  with job have "job \<in> ran (jobs_of (r_store r))" "job_matches ?f job"
    by (auto simp: list_spec_def dest: in_set_takeD)
  then show "\<exists>j. jobs_of (r_store r) i = Some j \<and> job_State j = JobReconciling"
    using ids [OF assms(1)] job(2) by (auto simp: ran_def job_matches_def)
qed

lemma reconcile_step_entries:
  assumes inv: "invar (r_store r)" and ok: "entries_ok r" and rec: "recon_ok used (jobs_of (r_store r)) r"
    and own: "own_ok (jobs_of (r_store r)) (r_pcs r)" and step: "reconcile_step js a r = Some r'"
  shows "entries_ok r' \<and> (\<forall>i\<in>recon_ids r'. i \<in> recon_ids r \<or>
      (\<exists>j. jobs_of (r_store r) i = Some j \<and> job_State j = JobReconciling))"
proof (cases a)
  case LSweep
  with step have none: "r_sweep r = None" and r': "r' = sweep_begin js r"
    by (auto simp: reconcile_step_def split: if_splits)
  have "calling_ids r = {}" using none by (simp add: calling_ids_def)
  with entries_same [OF ok, of r'] sweep_begin_fields [OF inv none] sweep_begin_step [OF inv] r' show ?thesis
    by auto
next
  case LLaunch
  with step have "sweep_launch r = Some r'" by (simp add: reconcile_step_def)
  with sweep_launch_entries [OF ok rec own] sweep_launch_recon show ?thesis by blast
next
  case (LRecStep k now st detail)
  with step obtain i where "r' = jc_Step js now i st detail r"
    by (auto simp: reconcile_step_def split: option.splits rpc.splits)
  with entries_same [OF ok, of r'] calling_ids_mono [of r' r] recon_ids_mono [of r' r] show ?thesis by auto
next
  case (LRecReturn k st msg resolved err)
  with step obtain ts job x where t: "task_at k r = Some (ts, RCalling job x)"
    and r': "r' = reconcile_return k ts job x st msg resolved err r"
    by (auto simp: reconcile_step_def split: option.splits rpc.splits)
  with reconcile_return_entries [OF ok rec own t r'] reconcile_return_fields(4) [OF t r'] show ?thesis by blast
next
  case (LResolve k now)
  with step obtain ts job st msg where t: "task_at k r = Some (ts, RResolving job st msg)"
    and r': "r' = reconcile_resolve js now k ts job st msg r"
    by (auto simp: reconcile_step_def split: option.splits rpc.splits)
  note f = reconcile_resolve_fields [OF t r']
  from entries_same [OF ok, of r'] f show ?thesis by auto
next
  case LSweepEnd
  with step obtain sw where "r_sweep r = Some sw" "sw_tasks sw = []" "r' = r\<lparr>r_sweep := None\<rparr>"
    by (auto simp: reconcile_step_def sweep_end_def split: option.splits if_splits)
  with entries_same [OF ok, of r'] show ?thesis by (auto simp: calling_ids_def recon_jobs_def)
qed (use step in \<open>simp_all add: reconcile_step_def\<close>)

end

subsection \<open>Accepted cancels\<close>

text \<open>The worker will record the job as canceled.\<close>

fun will_cancel :: "inflightJob list \<Rightarrow> string \<Rightarrow> wpc \<Rightarrow> bool" where
  "will_cancel es i (WRunning job a _) \<longleftrightarrow> job_ID job = i \<and> a < length es \<and> ij_canceled (es ! a)"
| "will_cancel es i (WReturned job canceled _) \<longleftrightarrow> job_ID job = i \<and> canceled"
| "will_cancel es i _ \<longleftrightarrow> False"

text \<open>
  The job is canceled, or it is running and whoever holds it will record it so (nobody holds it when the write of
  its final state failed).
\<close>

definition cancel_due :: "jobmap \<Rightarrow> 's Runner \<Rightarrow> string \<Rightarrow> bool" where
  "cancel_due m r i \<longleftrightarrow>
     (\<forall>j. m i = Some j \<longrightarrow>
        job_State j = JobCanceled \<or>
        job_State j = JobRunning \<and>
          (\<forall>pc\<in>set (r_pcs r). i \<in> set (pc_owned pc) \<longrightarrow> will_cancel (r_entries r) i pc))"

definition never_recon :: "jobmap \<Rightarrow> 's Runner \<Rightarrow> string \<Rightarrow> bool" where
  "never_recon m r i \<longleftrightarrow> (\<forall>j. m i = Some j \<longrightarrow> job_State j \<noteq> JobReconciling) \<and> i \<notin> recon_ids r"

fun req_ok :: "string set \<Rightarrow> jobmap \<Rightarrow> 's Runner \<Rightarrow> creq \<Rightarrow> bool" where
  "req_ok used m r (CDispatch i st) \<longleftrightarrow>
     (st \<in> {JobQueued, JobRunning} \<longrightarrow> i \<in> used \<and> never_recon m r i)"
| "req_ok used m r (CRunner i) \<longleftrightarrow> i \<in> used \<and> never_recon m r i"
| "req_ok used m r (CInterrupt i) \<longleftrightarrow> i \<in> used \<and> cancel_due m r i"
| "req_ok used m r (CAccept i) \<longleftrightarrow> i \<in> used \<and> cancel_due m r i"
| "req_ok used m r (CDone (RespAccepted v)) \<longleftrightarrow> jv_ID v \<in> used \<and> cancel_due m r (jv_ID v)"
| "req_ok used m r _ \<longleftrightarrow> True"

definition es_mono :: "inflightJob list \<Rightarrow> inflightJob list \<Rightarrow> bool" where
  "es_mono es es' \<longleftrightarrow>
     length es \<le> length es' \<and> (\<forall>a<length es. ij_canceled (es ! a) \<longrightarrow> ij_canceled (es' ! a))"

lemma es_mono_refl [simp]: "es_mono es es"
  by (simp add: es_mono_def)

lemma es_mono_append [simp]: "es_mono es (es @ xs)"
  by (simp add: es_mono_def nth_append)

lemma es_mono_done [simp]: "es_mono es (es[a := (es ! a)\<lparr>ij_done := b\<rparr>])"
  unfolding es_mono_def by (cases "a < length es") (auto simp: nth_list_update list_update_beyond)

lemma es_mono_cancel: "es_mono es (es[a := \<lparr>ij_done = b, ij_canceled = True\<rparr>])"
  unfolding es_mono_def by (cases "a < length es") (auto simp: nth_list_update list_update_beyond)

lemma es_mono_Cancel: "es_mono (r_entries r) (r_entries (snd (Cancel i r)))"
  by (auto simp: Cancel_def es_mono_cancel split: option.splits)

lemma will_cancel_mono: "es_mono es es' \<Longrightarrow> will_cancel es i pc \<Longrightarrow> will_cancel es' i pc"
  by (cases pc) (auto simp: es_mono_def)

lemma will_cancel_owned: "will_cancel es i pc \<Longrightarrow> i \<in> set (pc_owned pc)"
  by (cases pc) auto

lemma never_recon_evolve:
  assumes "never_recon m r i" "evolve used F m m'" "i \<in> used"
    and "\<And>k. k \<in> recon_ids r' \<Longrightarrow> k \<in> recon_ids r \<or> (\<exists>j. m k = Some j \<and> job_State j = JobReconciling)"
  shows "never_recon m' r' i"
  unfolding never_recon_def
proof
  show "\<forall>j. m' i = Some j \<longrightarrow> job_State j \<noteq> JobReconciling"
  proof (intro allI impI)
    fix j' assume "m' i = Some j'"
    then obtain j where "m i = Some j" "job_evolves j j'" using evolve_Some [OF assms(2) _ assms(3)] by metis
    with assms(1) show "job_State j' \<noteq> JobReconciling"
      by (cases "job_State j") (auto simp: never_recon_def job_evolves_def)
  qed
  show "i \<notin> recon_ids r'" using assms(1,4) unfolding never_recon_def by blast
qed

lemma cancel_due_move:
  assumes due: "cancel_due m r i" and used: "i \<in> used" and own: "own_ok m (r_pcs r)"
    and ev: "evolve used F m m'" and len: "length (r_pcs r') = length (r_pcs r)"
    and act: "\<And>w. w < length (r_pcs r) \<Longrightarrow> running m i \<Longrightarrow> i \<in> set (pc_owned (r_pcs r' ! w)) \<Longrightarrow>
        i \<in> set (pc_owned (r_pcs r ! w)) \<and>
        (will_cancel (r_entries r) i (r_pcs r ! w) \<longrightarrow> will_cancel (r_entries r') i (r_pcs r' ! w))"
    and fin: "\<And>j'. m' i = Some j' \<Longrightarrow> running m i \<Longrightarrow>
        (\<forall>pc\<in>set (r_pcs r). i \<in> set (pc_owned pc) \<longrightarrow> will_cancel (r_entries r) i pc) \<Longrightarrow>
        job_State j' \<in> {JobRunning, JobCanceled}"
  shows "cancel_due m' r' i"
  unfolding cancel_due_def
proof (intro allI impI)
  fix j' assume j': "m' i = Some j'"
  then obtain j where j: "m i = Some j" "job_evolves j j'" using evolve_Some [OF ev _ used] by metis
  from due j(1) consider (canceled) "job_State j = JobCanceled"
    | (run) "job_State j = JobRunning" "\<forall>pc\<in>set (r_pcs r). i \<in> set (pc_owned pc) \<longrightarrow> will_cancel (r_entries r) i pc"
    unfolding cancel_due_def by blast
  then show "job_State j' = JobCanceled \<or> job_State j' = JobRunning \<and>
      (\<forall>pc\<in>set (r_pcs r'). i \<in> set (pc_owned pc) \<longrightarrow> will_cancel (r_entries r') i pc)"
  proof cases
    case canceled
    with j(2) show ?thesis by (simp add: job_evolves_def)
  next
    case run
    then have r: "running m i" using j(1) by (simp add: running_def)
    have "will_cancel (r_entries r') i pc" if "pc \<in> set (r_pcs r')" "i \<in> set (pc_owned pc)" for pc
    proof -
      from that(1) obtain w where w: "w < length (r_pcs r)" "pc = r_pcs r' ! w"
        using len by (metis in_set_conv_nth)
      with act [OF w(1) r] that(2) run(2) nth_mem [OF w(1)] show ?thesis by blast
    qed
    with fin [OF j' r run(2)] show ?thesis by auto
  qed
qed

lemma cancel_due_same_pcs:
  assumes "cancel_due m r i" "i \<in> used" "own_ok m (r_pcs r)" "evolve used {} m m'"
    and "r_pcs r' = r_pcs r" "es_mono (r_entries r) (r_entries r')"
  shows "cancel_due m' r' i"
  by (rule cancel_due_move [OF assms(1-4)])
    (use assms(5) will_cancel_mono [OF assms(6)] evolve_running [OF assms(4), of i] in \<open>auto simp: running_def\<close>)

lemma cancel_due_upd:
  assumes due: "cancel_due m r i" and used: "i \<in> used" and own: "own_ok m (r_pcs r)"
    and ev: "evolve used F m m'" and w: "w < length (r_pcs r)" and pcs: "r_pcs r' = (r_pcs r)[w := pc]"
    and es: "es_mono (r_entries r) (r_entries r')"
    and act: "running m i \<Longrightarrow> i \<in> set (pc_owned pc) \<Longrightarrow> i \<in> set (pc_owned (r_pcs r ! w)) \<and>
        (will_cancel (r_entries r) i (r_pcs r ! w) \<longrightarrow> will_cancel (r_entries r') i pc)"
    and fin: "\<And>j'. i \<in> F \<Longrightarrow> m' i = Some j' \<Longrightarrow> running m i \<Longrightarrow>
        (\<forall>pc\<in>set (r_pcs r). i \<in> set (pc_owned pc) \<longrightarrow> will_cancel (r_entries r) i pc) \<Longrightarrow>
        job_State j' \<in> {JobRunning, JobCanceled}"
  shows "cancel_due m' r' i"
proof (rule cancel_due_move [OF due used own ev])
  show "length (r_pcs r') = length (r_pcs r)" by (simp add: pcs)
  show "i \<in> set (pc_owned (r_pcs r ! v)) \<and>
      (will_cancel (r_entries r) i (r_pcs r ! v) \<longrightarrow> will_cancel (r_entries r') i (r_pcs r' ! v))"
    if "v < length (r_pcs r)" "running m i" "i \<in> set (pc_owned (r_pcs r' ! v))" for v
    using that act will_cancel_mono [OF es] w by (cases "v = w") (auto simp: pcs)
  show "job_State j' \<in> {JobRunning, JobCanceled}" if "m' i = Some j'" "running m i"
    "\<forall>pc\<in>set (r_pcs r). i \<in> set (pc_owned pc) \<longrightarrow> will_cancel (r_entries r) i pc" for j'
    using fin that evolve_running [OF ev, of i] by (cases "i \<in> F") (auto simp: running_def)
qed

context job_store
begin

lemma claimed_cancel:
  assumes due: "cancel_due (jobs_of (r_store r)) r i" "i \<in> used" "own_ok (jobs_of (r_store r)) (r_pcs r)"
    and w: "w < length (r_pcs r)"
    and op: "op_ok invar jobs_of (r_store r) is_driver (claim_spec P now (jobs_of (r_store r))) res"
    and "\<And>job. pc_owned (found job) = [job_ID job]" "pc_owned none = []"
  shows "cancel_due (jobs_of (r_store (claimed w found none res r))) (claimed w found none res r) i"
proof (rule claimed_effect [OF op assms(6,7), where w = w and used = used], goal_cases)
  case (1 pc)
  show ?case
    by (rule cancel_due_upd [OF due 1(4) w 1(2)]) (use 1(5) in \<open>auto simp: claimed_fields(3)\<close>)
qed

lemma run_begin_cancel:
  assumes inv: "invar (r_store r)" and due: "cancel_due (jobs_of (r_store r)) r i" "i \<in> used"
    and own: "own_ok (jobs_of (r_store r)) (r_pcs r)" and now: "0 < now"
    and w: "w < length (r_pcs r)" "r_pcs r ! w = WClaimed job"
  shows "cancel_due (jobs_of (r_store (run_begin js now w job r))) (run_begin js now w job r) i"
proof -
  have mem: "WClaimed job \<in> set (r_pcs r)" using w by (metis nth_mem)
  have run: "running (jobs_of (r_store r)) (job_ID job)"
    by (rule own_ok_running [OF own mem]) simp
  show ?thesis
  proof (cases "job_Kind job \<in> set (r_handlers r)")
    case True
    then have r': "run_begin js now w job r = set_pc w (WRunning job (length (r_entries r)) [])
        (register (job_ID job) (emit (JobStarted (job_Kind job)) r))" by (simp add: run_begin_def)
    show ?thesis
      unfolding r'
      by (rule cancel_due_upd [where F = "{}", OF due own _ w(1)]) (use w in auto)
  next
    case False
    let ?msg = "''no handler for kind '' @ job_Kind job"
    have r': "run_begin js now w job r = set_pc w WIdle (runner_finish js now (job_ID job) JobFailed ?msg r)"
      using False by (simp add: run_begin_def)
    have ev: "evolve used {job_ID job} (jobs_of (r_store r))
        (jobs_of (r_store (runner_finish js now (job_ID job) JobFailed ?msg r)))"
      using runner_finish_evolve [OF inv now _ run] by (auto simp: Terminal_iff)
    show ?thesis
      unfolding r'
      by (rule cancel_due_upd [where F = "{job_ID job}", OF due own _ w(1)]) (use ev mem in auto)
  qed
qed

lemma run_finish_cancel:
  assumes inv: "invar (r_store r)" and due: "cancel_due (jobs_of (r_store r)) r i" "i \<in> used"
    and own: "own_ok (jobs_of (r_store r)) (r_pcs r)" and now: "0 < now"
    and w: "w < length (r_pcs r)" "r_pcs r ! w = WReturned job c err"
  shows "cancel_due (jobs_of (r_store (run_finish js now d w job c err r))) (run_finish js now d w job c err r) i"
proof -
  let ?r' = "run_finish js now d w job c err r"
  have mem: "WReturned job c err \<in> set (r_pcs r)" using w by (metis nth_mem)
  have run: "running (jobs_of (r_store r)) (job_ID job)"
    by (rule own_ok_running [OF own mem]) simp
  obtain st msg where st: "Terminal st" "r_store ?r' = r_store (runner_finish js now (job_ID job) st msg r)"
    and c: "c \<Longrightarrow> st = JobCanceled"
  proof (rule that)
    let ?st = "if c then JobCanceled else case err of None \<Rightarrow> JobSucceeded | Some _ \<Rightarrow> JobFailed"
    let ?msg = "if c then ''canceled by operator'' else case err of None \<Rightarrow> '''' | Some e \<Rightarrow> e"
    show "Terminal ?st" "c \<Longrightarrow> ?st = JobCanceled" by (simp_all add: Terminal_iff split: option.splits)
    show "r_store ?r' = r_store (runner_finish js now (job_ID job) ?st ?msg r)"
      by (cases c; cases err) (simp_all add: run_finish_def)
  qed
  have ev:
    "evolve used {job_ID job} (jobs_of (r_store r)) (jobs_of (r_store ?r'))"
    unfolding st(2) using runner_finish_evolve [OF inv now st(1) run] by blast
  from run obtain j where j: "jobs_of (r_store r) (job_ID job) = Some j" "job_State j = JobRunning"
    by (auto simp: running_def)
  have fin: "job_State j' \<in> {JobRunning, JobCanceled}"
    if "c" "jobs_of (r_store ?r') (job_ID job) = Some j'" for j'
    using finish_step [OF inv now st(1) j(1), of msg] j c [OF that(1)] that(2) [unfolded st(2)]
    by (auto simp: runner_finish_def)
  have f: "r_pcs ?r' = (r_pcs r)[w := WIdle]" "r_entries ?r' = r_entries r"
    by (auto simp: run_finish_def split: option.splits)
  show ?thesis
    by (rule cancel_due_upd [OF due own ev w(1) f(1)]) (use f(2) fin mem in force)+
qed

lemma worker_step_cancel:
  assumes inv: "invar (r_store r)" and due: "cancel_due (jobs_of (r_store r)) r i" "i \<in> used"
    and own: "own_ok (jobs_of (r_store r)) (r_pcs r)"
    and t: "\<And>t. label_time a = Some t \<Longrightarrow> 0 < t" and step: "worker_step js a r = Some r'"
  shows "cancel_due (jobs_of (r_store r')) r' i"
proof (cases a)
  case (LClaim w now)
  with step have w: "w < length (r_pcs r)" "r_pcs r ! w = WIdle" and r': "r' = claim js now w r"
    by (auto simp: worker_step_def pc_at_Some split: if_splits)
  have rot: "cancel_due (jobs_of (r_store r)) (set_pc w (WRotating ks) r) i" for ks
    by (rule cancel_due_upd [where F = "{}", OF due own _ w(1)]) auto
  note cl = claimed_cancel [OF due own w(1), where found = WClaimed and none = WIdle]
  show ?thesis
    using rot cl [OF claim_next [OF inv]] cl [OF claim_matching [OF inv]] cl [OF claim_excluding [OF inv]]
    by (auto simp: r' claim_def split: prod.splits bool.splits option.splits)
next
  case (LClaimKind w now)
  with step obtain ks where w: "w < length (r_pcs r)" "r_pcs r ! w = WRotating ks" and r': "r' = claim_kind js now w ks r"
    by (auto simp: worker_step_def pc_at_Some split: option.splits wpc.splits)
  have idle: "cancel_due (jobs_of (r_store r)) (set_pc w WIdle r) i"
    by (rule cancel_due_upd [where F = "{}", OF due own _ w(1)]) auto
  show ?thesis
    using idle claimed_cancel [OF due own w(1) claim_matching [OF inv]]
    by (auto simp: r' claim_kind_def split: list.splits)
next
  case (LServed w)
  with step obtain k job where w: "w < length (r_pcs r)" "r_pcs r ! w = WServing k job"
    and r': "r' = record_served w k job r"
    by (auto simp: worker_step_def pc_at_Some split: option.splits wpc.splits)
  show ?thesis
    unfolding r' by (rule cancel_due_upd [where F = "{}" and pc = "WClaimed job", OF due own _ w(1)])
      (use w in \<open>auto simp: record_served_def\<close>)
next
  case (LRunBegin w now)
  with step t run_begin_cancel [OF inv due own] show ?thesis
    by (auto simp: worker_step_def pc_at_Some split: option.splits wpc.splits)
next
  case (LStep w k now st detail)
  with step have r': "r' = jc_Step js now k st detail r"
    by (auto simp: worker_step_def split: option.splits wpc.splits if_splits)
  show ?thesis
    using jc_Step_evolve [OF inv] by (intro cancel_due_same_pcs [OF due own]) (auto simp: r')
next
  case (LReturn w err)
  with step obtain job x ch where w: "w < length (r_pcs r)" "r_pcs r ! w = WRunning job x ch"
    and r': "r' = run_return w job x err r"
    by (auto simp: worker_step_def pc_at_Some split: option.splits wpc.splits)
  show ?thesis
    unfolding r'
    by (rule cancel_due_upd [where F = "{}" and pc = "WReturned job (ij_canceled (r_entries r ! x)) err", OF due own _ w(1)])
      (use w in \<open>auto simp: run_return_def Let_def\<close>)
next
  case (LFinish w now d)
  with step t run_finish_cancel [OF inv due own] show ?thesis
    by (auto simp: worker_step_def pc_at_Some split: option.splits wpc.splits)
qed (use step in \<open>simp_all add: worker_step_def\<close>)

end

subsection \<open>Requests keep their promise\<close>

lemma req_ok_step:
  assumes "req_ok used m r q" "used \<subseteq> used'" "evolve used F m m'"
    and "\<And>k. k \<in> recon_ids r' \<Longrightarrow> k \<in> recon_ids r \<or> (\<exists>j. m k = Some j \<and> job_State j = JobReconciling)"
    and "\<And>i. i \<in> used \<Longrightarrow> cancel_due m r i \<Longrightarrow> cancel_due m' r' i"
  shows "req_ok used' m' r' q"
proof -
  have never: "never_recon m' r' i" if "never_recon m r i" "i \<in> used" for i
    using never_recon_evolve [OF that(1) assms(3) that(2) assms(4)] by blast
  show ?thesis
  proof (cases q)
    case (CDone x)
    with assms(1,2,5) show ?thesis by (cases x) auto
  qed (use assms(1,2,5) never in auto)
qed

lemma recon_ok_step:
  assumes "recon_ok used m r" "dom m \<subseteq> used" "used \<subseteq> used'" "evolve used F m m'"
    and "\<And>k. k \<in> recon_ids r' \<Longrightarrow> k \<in> recon_ids r \<or> (\<exists>j. m k = Some j \<and> job_State j = JobReconciling)"
  shows "recon_ok used' m' r'"
  unfolding recon_ok_def
proof (intro ballI conjI)
  fix k assume k: "k \<in> recon_ids r'"
  then have "k \<in> used \<and> past_running m k"
    using assms(1,2) assms(5) [OF k] unfolding recon_ok_def past_running_def by fastforce
  with assms(3) evolve_past_running [OF assms(4)] show "k \<in> used'" "past_running m' k" by blast+
qed

lemma reconcile_step_mono:
  "reconcile_step js a r = Some r' \<Longrightarrow> es_mono (r_entries r) (r_entries r')"
  by (auto simp: reconcile_step_def sweep_begin_def sweep_launch_def reconcile_return_def reconcile_resolve_def
      sweep_end_def Let_def split: label.splits if_splits option.splits list.splits prod.splits sum.splits rpc.splits)

lemma accepted_by_runner:
  assumes "entries_ok r" "own_ok m (r_pcs r)" "never_recon m r i" "Cancel i r = (True, r')"
  shows "cancel_due m r' i"
proof -
  from assms(4) obtain a where a: "r_inflight r i = Some a"
    and r': "r' = r\<lparr>r_entries := (r_entries r)[a := \<lparr>ij_done = True, ij_canceled = True\<rparr>]\<rparr>"
    by (auto simp: Cancel_def split: option.splits)
  have "i \<notin> calling_ids r" using assms(3) calling_recon by (auto simp: never_recon_def)
  with entries_okD(3) [OF assms(1) a] obtain job ch where pc: "WRunning job a ch \<in> set (r_pcs r)" "job_ID job = i"
    by blast
  then have "running m i" using own_ok_running [OF assms(2) pc(1)] by simp
  moreover have "will_cancel (r_entries r') i x" if "x \<in> set (r_pcs r)" "i \<in> set (pc_owned x)" for x
    using own_ok_unique [OF assms(2) that(1) pc(1) that(2)] pc(2) entries_okD(2) [OF assms(1) a]
    by (simp add: r')
  ultimately show ?thesis by (auto simp: cancel_due_def running_def r')
qed

context job_store
begin

lemma cancelJob_req:
  assumes inv: "invar (r_store r)" and own: "own_ok (jobs_of (r_store r)) (r_pcs r)" and now: "0 < now"
    and ok: "entries_ok r" and rec: "recon_ok used (jobs_of (r_store r)) r" and dom: "dom (jobs_of (r_store r)) \<subseteq> used"
    and req: "req_ok used (jobs_of (r_store r)) r q" and step: "cancelJob fmt js canceller now q r = Some (q', r')"
  shows "req_ok used (jobs_of (r_store r')) r' q'"
proof (cases q)
  case (CGet i)
  obtain x s where call: "js_GetJob js i (r_store r) = (x, s)" by fastforce
  note g = get_job_step [OF inv call]
  have "never_recon (jobs_of (r_store r)) (r\<lparr>r_store := s\<rparr>) i" "i \<in> used"
    if "jobs_of (r_store r) i = Some j" "job_State j \<in> {JobQueued, JobRunning}" for j
    using that rec dom unfolding never_recon_def recon_ok_def past_running_def by (auto simp: recon_jobs_def)
  with CGet step call g show ?thesis
    by (auto simp: cancelJob_def cancel_get_def split: sum.splits)
next
  case (CDispatch i st)
  show ?thesis
  proof (cases st)
    case JobQueued
    obtain x s where call: "js_CancelQueued js now i (r_store r) = (x, s)" by fastforce
    have ev: "evolve used {} (jobs_of (r_store r)) (jobs_of s)"
      using cancel_queued_evolve [OF inv now call] by blast
    from req CDispatch JobQueued have old: "never_recon (jobs_of (r_store r)) r i" "i \<in> used" by auto
    have nr: "never_recon (jobs_of s) (r\<lparr>r_store := s\<rparr>) i" "i \<in> used"
      by (rule never_recon_evolve [OF old(1) ev old(2)], simp add: recon_jobs_def) (rule old(2))
    have "cancel_due (jobs_of s) (r\<lparr>r_store := s\<rparr>) i" if "x = Inr True"
      using cancel_queued [OF inv now, of i] call that
      by (auto simp: op_ok_def cas_spec_def cancel_due_def split: option.splits if_splits)
    with CDispatch JobQueued step call nr show ?thesis
      by (auto simp: cancelJob_def cancel_dispatch_def split: sum.splits)
  next
    case JobReconciling
    obtain x s where call: "js_CancelReconciling js now i (r_store r) = (x, s)" by fastforce
    have "cancel_due (jobs_of s) (r\<lparr>r_store := s\<rparr>) i \<and> i \<in> used" if "x = Inr True"
      using cancel_reconciling [OF inv now, of i] call that dom
      by (auto simp: op_ok_def cas_spec_def cancel_due_def split: option.splits if_splits)
    with CDispatch JobReconciling step call show ?thesis
      by (auto simp: cancelJob_def cancel_dispatch_def split: sum.splits)
  qed (use CDispatch step req in \<open>auto simp: cancelJob_def cancel_dispatch_def\<close>)
next
  case (CRunner i)
  with req have nr: "never_recon (jobs_of (r_store r)) r i" "i \<in> used" by auto
  obtain b r'' where call: "Cancel i r = (b, r'')" by fastforce
  then have st: "r_store r'' = r_store r" by (auto simp: Cancel_def split: option.splits)
  show ?thesis
  proof (cases "canceller \<and> b")
    case True
    with CRunner step call have "q' = CAccept i" "r' = r''" by (auto simp: cancelJob_def cancel_runner_def)
    with accepted_by_runner [OF ok own nr(1)] call True nr(2) st show ?thesis by simp
  next
    case False
    with CRunner step call have "q' = CConflict i"
      by (auto simp: cancelJob_def cancel_runner_def split: if_splits)
    then show ?thesis by simp
  qed
next
  case (CInterrupt i)
  have "cancel_due (jobs_of (r_store r)) (snd (Cancel i r)) i" if "cancel_due (jobs_of (r_store r)) r i" "i \<in> used"
    by (rule cancel_due_same_pcs [OF that own]) (simp_all add: es_mono_Cancel)
  with CInterrupt step req show ?thesis by (auto simp: cancelJob_def cancel_interrupt_def)
next
  case (CConflict i)
  with step show ?thesis by (auto simp: cancelJob_def writeCancelConflict_def split: prod.splits sum.splits)
next
  case (CAccept i)
  obtain x s where call: "js_GetJob js i (r_store r) = (x, s)" by fastforce
  note g = get_job_step [OF inv call]
  have "cancel_due (jobs_of (r_store r)) (r\<lparr>r_store := s\<rparr>) i" "i \<in> used"
    using req CAccept by (auto simp: cancel_due_def)
  with CAccept step call g ids [OF inv] show ?thesis
    by (auto simp: cancelJob_def writeAcceptedJob_def toJobView_def split: sum.splits)
qed (use step in \<open>simp add: cancelJob_def\<close>)

lemma cancelJob_fields:
  assumes "cancelJob fmt js canceller now q r = Some (q', r')"
  shows "r_sweep r' = r_sweep r" "es_mono (r_entries r) (r_entries r')" "r_inflight r' = r_inflight r"
    "length (r_entries r') = length (r_entries r)"
proof -
  have "(\<exists>s. r' = r\<lparr>r_store := s\<rparr>) \<or> (\<exists>i. r' = snd (Cancel i r)) \<or> r' = r"
    using assms
    by (auto simp: cancelJob_def cancel_get_def cancel_dispatch_def cancel_runner_def cancel_interrupt_def
        writeCancelConflict_def writeAcceptedJob_def split: creq.splits prod.splits sum.splits if_splits JobState.splits)
      (metis snd_conv)+
  then show "r_sweep r' = r_sweep r" "es_mono (r_entries r) (r_entries r')" "r_inflight r' = r_inflight r"
    "length (r_entries r') = length (r_entries r)"
    by (auto simp: es_mono_Cancel)
qed

end

definition cancel_inv :: "('s \<Rightarrow> jobmap) \<Rightarrow> 's Daemon \<Rightarrow> bool" where
  "cancel_inv jobs_of d \<longleftrightarrow>
     entries_ok (d_runner d) \<and> recon_ok (set (d_used d)) (d_jobs jobs_of d) (d_runner d) \<and>
     (\<forall>q\<in>set (d_reqs d). req_ok (set (d_used d)) (d_jobs jobs_of d) (d_runner d) q)"

lemma cancel_inv_step:
  assumes inv: "cancel_inv jobs_of d" and dom: "dom (d_jobs jobs_of d) \<subseteq> set (d_used d)"
    and ev: "evolve (set (d_used d)) F (d_jobs jobs_of d) (d_jobs jobs_of d')"
    and used: "set (d_used d) \<subseteq> set (d_used d')" and reqs: "set (d_reqs d') \<subseteq> set (d_reqs d)"
    and entries: "entries_ok (d_runner d')"
    and rec: "\<And>k. k \<in> recon_ids (d_runner d') \<Longrightarrow>
      k \<in> recon_ids (d_runner d) \<or> (\<exists>j. d_jobs jobs_of d k = Some j \<and> job_State j = JobReconciling)"
    and due: "\<And>i. i \<in> set (d_used d) \<Longrightarrow> cancel_due (d_jobs jobs_of d) (d_runner d) i \<Longrightarrow>
      cancel_due (d_jobs jobs_of d') (d_runner d') i"
  shows "cancel_inv jobs_of d'"
  unfolding cancel_inv_def
proof (intro conjI ballI)
  from inv have "recon_ok (set (d_used d)) (d_jobs jobs_of d) (d_runner d)" by (simp add: cancel_inv_def)
  then show "recon_ok (set (d_used d')) (d_jobs jobs_of d') (d_runner d')"
    using recon_ok_step [OF _ dom used ev rec] by blast
  fix q assume "q \<in> set (d_reqs d')"
  with reqs inv have "req_ok (set (d_used d)) (d_jobs jobs_of d) (d_runner d) q" by (auto simp: cancel_inv_def)
  then show "req_ok (set (d_used d')) (d_jobs jobs_of d') (d_runner d') q"
    by (rule req_ok_step [OF _ used ev]) (use rec due in blast)+
qed (rule entries)

lemma cancel_due_store: "cancel_due m (r\<lparr>r_store := s\<rparr>) i = cancel_due m r i"
  by (simp add: cancel_due_def)

lemma set_upd_handler:
  assumes "w < length pcs" "pcs ! w = WRunning job a ch"
  shows "WRunning job' a' x \<in> set (pcs[w := WRunning job a ch']) \<Longrightarrow> \<exists>y. WRunning job' a' y \<in> set pcs"
    and "WRunning job' a' x \<in> set pcs \<Longrightarrow> \<exists>y. WRunning job' a' y \<in> set (pcs[w := WRunning job a ch'])"
proof -
  assume "WRunning job' a' x \<in> set (pcs[w := WRunning job a ch'])"
  then show "\<exists>y. WRunning job' a' y \<in> set pcs"
    using assms in_set_upd [OF assms(1)] by (metis nth_mem wpc.inject(4))
next
  assume "WRunning job' a' x \<in> set pcs"
  then obtain v where v: "v < length pcs" "pcs ! v = WRunning job' a' x" by (auto simp: in_set_conv_nth)
  show "\<exists>y. WRunning job' a' y \<in> set (pcs[w := WRunning job a ch'])"
    using v assms in_set_upd [OF assms(1)] by (metis wpc.inject(4))
qed

lemma entries_children:
  assumes ok: "entries_ok r" and w: "w < length (r_pcs r)" "r_pcs r ! w = WRunning job a ch"
    and "r_pcs r' = (r_pcs r)[w := WRunning job a ch']" "r_inflight r' = r_inflight r"
    "r_entries r' = r_entries r" "r_sweep r' = r_sweep r"
  shows "entries_ok r'"
proof (rule entries_same [OF ok assms(5)])
  show "length (r_entries r') = length (r_entries r)" by (simp add: assms(6))
  show "\<And>job a ch. WRunning job a ch \<in> set (r_pcs r') \<Longrightarrow> \<exists>ch'. WRunning job a ch' \<in> set (r_pcs r)"
    "\<And>job a ch. WRunning job a ch \<in> set (r_pcs r) \<Longrightarrow> \<exists>ch'. WRunning job a ch' \<in> set (r_pcs r')"
    using set_upd_handler [OF w] unfolding assms(4) by blast+
  show "\<And>i. i \<in> calling_ids r \<Longrightarrow> i \<in> calling_ids r'" using calling_ids_mono [OF assms(7)] by simp
qed

context job_store
begin

lemma start_child_fields:
  assumes inv: "invar (r_store r)" and own: "own_ok (jobs_of (r_store r)) (r_pcs r)" and now: "0 < now"
    and none: "jobs_of (r_store r) i = None" and "i \<notin> used"
    and created: "\<And>j. j \<in> ran (jobs_of (r_store r)) \<Longrightarrow> job_Created j \<le> now"
    and step: "Job_System.start_child js w i now kind args r = Some r'" and ok: "entries_ok r"
  shows "entries_ok r' \<and> r_sweep r' = r_sweep r \<and>
    (\<forall>k\<in>used. cancel_due (jobs_of (r_store r)) r k \<longrightarrow> cancel_due (jobs_of (r_store r')) r' k)"
proof -
  from step obtain job a children where w: "w < length (r_pcs r)" "r_pcs r ! w = WRunning job a children"
    by (auto simp: Job_System.start_child_def pc_at_Some split: option.splits wpc.splits)
  obtain x s where call: "js_StartChild js i now kind args (job_ID job) (r_store r) = (x, s)" by fastforce
  let ?c = "child_job i now kind args (job_ID job)"
  have law: "jobs_of s = jobs_of (r_store r) \<or> jobs_of s = (jobs_of (r_store r))(i \<mapsto> ?c)"
    "x = Inr child \<Longrightarrow> job_ID child = i" for child
    using start_child [OF inv none now created call] by (auto split: sum.splits)
  then have ev: "evolve used {} (jobs_of (r_store r)) (jobs_of s)"
    using evolve_new [where m = "jobs_of (r_store r)", OF none \<open>i \<notin> used\<close>] by (elim disjE) auto
  obtain ch' where f: "r_pcs r' = (r_pcs r)[w := WRunning job a ch']" "set ch' \<subseteq> insert i (set children)"
    "r_inflight r' = r_inflight r" "r_entries r' = r_entries r" "r_sweep r' = r_sweep r" "r_store r' = s"
  proof (cases x)
    case (Inl e)
    with step w call have "r' = r\<lparr>r_store := s\<rparr>" by (simp add: Job_System.start_child_def pc_at_def)
    moreover have "(r_pcs r)[w := WRunning job a children] = r_pcs r" by (metis w(2) list_update_id)
    ultimately show thesis using that [of children] by auto
  next
    case (Inr child)
    with step w call have "r' = set_pc w (WRunning job a (job_ID child # children)) (r\<lparr>r_store := s\<rparr>)"
      by (simp add: Job_System.start_child_def pc_at_def)
    with law(2) [OF Inr] that [of "i # children"] show thesis by simp
  qed
  have "cancel_due (jobs_of s) r' k" if "k \<in> used" "cancel_due (jobs_of (r_store r)) r k" for k
    by (rule cancel_due_upd [OF that(2,1) own ev w(1) f(1)]) (use w f \<open>i \<notin> used\<close> that(1) in auto)
  with entries_children [OF ok w f(1,3,4,5)] f show ?thesis by auto
qed

lemma finish_child_fields:
  assumes inv: "invar (r_store r)" and own: "own_ok (jobs_of (r_store r)) (r_pcs r)" and now: "0 < now"
    and step: "finish_child js w i now st msg r = Some r'" and ok: "entries_ok r"
  shows "entries_ok r' \<and> r_sweep r' = r_sweep r \<and>
    (\<forall>k\<in>used. cancel_due (jobs_of (r_store r)) r k \<longrightarrow> cancel_due (jobs_of (r_store r')) r' k)"
proof -
  from step obtain job a children where w: "w < length (r_pcs r)" "r_pcs r ! w = WRunning job a children"
    and i: "i \<in> set children" "Terminal st"
    and r': "r' = set_pc w (WRunning job a (removeAll i children)) (runner_finish js now i st msg r)"
    by (auto simp: finish_child_def pc_at_Some split: option.splits wpc.splits if_splits)
  have pc: "WRunning job a children \<in> set (r_pcs r)" using w by (metis nth_mem)
  have "job_ID job \<noteq> i" using own w i(1) unfolding own_ok_def by fastforce
  then have not: "\<not> will_cancel es i (WRunning job a children)" for es by simp
  have "running (jobs_of (r_store r)) i" using own_ok_running [OF own pc] i(1) by simp
  then have ev: "evolve used {i} (jobs_of (r_store r)) (jobs_of (r_store r'))"
    using runner_finish_evolve [OF inv now i(2)] by (simp add: r')
  have f: "r_pcs r' = (r_pcs r)[w := WRunning job a (removeAll i children)]" "r_inflight r' = r_inflight r"
    "r_entries r' = r_entries r" "r_sweep r' = r_sweep r" by (simp_all add: r')
  have "cancel_due (jobs_of (r_store r')) r' k" if "k \<in> used" "cancel_due (jobs_of (r_store r)) r k" for k
    by (rule cancel_due_upd [OF that(2,1) own ev w(1) f(1)]) (use w f pc i not in force)+
  with entries_children [OF ok w f] f show ?thesis by auto
qed

end

context job_store
begin

lemma goroutine_cancel_inv:
  assumes inv: "daemon_inv invar jobs_of d" and cinv: "cancel_inv jobs_of d"
    and t: "\<And>t. label_time a = Some t \<Longrightarrow> 0 < t"
    and or: "worker_step js a (d_runner d) = Some r' \<or> reconcile_step js a (d_runner d) = Some r'"
    and ev: "evolve (set (d_used d)) (d_owned d) (d_jobs jobs_of d) (jobs_of (r_store r'))"
  shows "cancel_inv jobs_of (d\<lparr>d_runner := r'\<rparr>)"
proof -
  let ?r = "d_runner d"
  from inv have i: "invar (r_store ?r)" and own: "own_ok (d_jobs jobs_of d) (d_pcs d)"
    and dom: "dom (d_jobs jobs_of d) \<subseteq> set (d_used d)" by (auto simp: daemon_inv_def)
  from cinv have ok: "entries_ok ?r" and rec: "recon_ok (set (d_used d)) (d_jobs jobs_of d) ?r"
    by (auto simp: cancel_inv_def)
  from or show ?thesis
  proof
    assume w: "worker_step js a ?r = Some r'"
    note e = worker_step_entries [OF ok own w]
    show ?thesis
    proof (rule cancel_inv_step [OF cinv dom, where F = "d_owned d"])
      show "entries_ok (d_runner (d\<lparr>d_runner := r'\<rparr>))" using e by simp
      show "k \<in> recon_ids ?r \<or> (\<exists>j. d_jobs jobs_of d k = Some j \<and> job_State j = JobReconciling)"
        if "k \<in> recon_ids (d_runner (d\<lparr>d_runner := r'\<rparr>))" for k
        using that e recon_ids_mono [of r' ?r] by simp
      show "cancel_due (d_jobs jobs_of (d\<lparr>d_runner := r'\<rparr>)) (d_runner (d\<lparr>d_runner := r'\<rparr>)) k"
        if "k \<in> set (d_used d)" "cancel_due (d_jobs jobs_of d) ?r k" for k
        using worker_step_cancel [OF i that(2,1) own t w] by simp
    qed (use ev in simp_all)
  next
    assume s: "reconcile_step js a ?r = Some r'"
    note e = reconcile_step_entries [OF i ok rec own s]
    have ev0: "evolve (set (d_used d)) {} (d_jobs jobs_of d) (jobs_of (r_store r'))" "r_pcs r' = r_pcs ?r"
      using reconcile_step_evolve [OF i t s] by auto
    show ?thesis
    proof (rule cancel_inv_step [OF cinv dom, where F = "{}"])
      show "entries_ok (d_runner (d\<lparr>d_runner := r'\<rparr>))" using e by simp
      show "k \<in> recon_ids ?r \<or> (\<exists>j. d_jobs jobs_of d k = Some j \<and> job_State j = JobReconciling)"
        if "k \<in> recon_ids (d_runner (d\<lparr>d_runner := r'\<rparr>))" for k
        using that e by auto
      show "cancel_due (d_jobs jobs_of (d\<lparr>d_runner := r'\<rparr>)) (d_runner (d\<lparr>d_runner := r'\<rparr>)) k"
        if "k \<in> set (d_used d)" "cancel_due (d_jobs jobs_of d) ?r k" for k
        using cancel_due_same_pcs [OF that(2,1) own ev0 reconcile_step_mono [OF s]] by simp
    qed (use ev0 in simp_all)
  qed
qed

lemma store_only_cancel_inv:
  assumes inv: "daemon_inv invar jobs_of d" and cinv: "cancel_inv jobs_of d"
    and ev: "evolve (set (d_used d)) {} (d_jobs jobs_of d) (jobs_of s)"
    and d': "d_runner d' = (d_runner d)\<lparr>r_store := s\<rparr>" "set (d_used d) \<subseteq> set (d_used d')" "d_reqs d' = d_reqs d"
  shows "cancel_inv jobs_of d'"
proof -
  from inv have own: "own_ok (d_jobs jobs_of d) (d_pcs d)"
    and dom: "dom (d_jobs jobs_of d) \<subseteq> set (d_used d)" by (auto simp: daemon_inv_def)
  show ?thesis
  proof (rule cancel_inv_step [OF cinv dom, where F = "{}"])
    show "entries_ok (d_runner d')"
      using cinv by (auto simp: cancel_inv_def entries_ok_def calling_ids_def d')
    show "cancel_due (d_jobs jobs_of d') (d_runner d') k"
      if "k \<in> set (d_used d)" "cancel_due (d_jobs jobs_of d) (d_runner d) k" for k
      using cancel_due_same_pcs [OF that(2,1) own ev, of "d_runner d'"] d' by simp
  qed (use ev d' in \<open>auto simp: recon_jobs_def\<close>)
qed

lemma request_cancel_inv:
  assumes inv: "daemon_inv invar jobs_of d" and cinv: "cancel_inv jobs_of d" and now: "0 < now"
    and n: "n < length (d_reqs d)" and q: "cancelJob fmt js canceller now (d_reqs d ! n) (d_runner d) = Some (q, r')"
  shows "cancel_inv jobs_of (d\<lparr>d_runner := r', d_reqs := (d_reqs d)[n := q]\<rparr>)"
proof -
  let ?r = "d_runner d"
  from inv have i: "invar (r_store ?r)" and own: "own_ok (d_jobs jobs_of d) (d_pcs d)"
    and dom: "dom (d_jobs jobs_of d) \<subseteq> set (d_used d)" by (auto simp: daemon_inv_def)
  from cinv have ok: "entries_ok ?r" and rec: "recon_ok (set (d_used d)) (d_jobs jobs_of d) ?r"
    and req: "req_ok (set (d_used d)) (d_jobs jobs_of d) ?r (d_reqs d ! n)"
    using n by (auto simp: cancel_inv_def)
  note f = cancelJob_fields [OF q]
  have ev: "evolve (set (d_used d)) {} (d_jobs jobs_of d) (jobs_of (r_store r'))" "r_pcs r' = r_pcs ?r"
    using cancelJob_evolve [OF i now q] by auto
  have "cancel_inv jobs_of (d\<lparr>d_runner := r'\<rparr>)"
  proof (rule cancel_inv_step [OF cinv dom, where F = "{}"])
    show "entries_ok (d_runner (d\<lparr>d_runner := r'\<rparr>))"
      using entries_same [OF ok f(3,4)] calling_ids_mono [OF f(1)] ev(2) by auto
    show "cancel_due (d_jobs jobs_of (d\<lparr>d_runner := r'\<rparr>)) (d_runner (d\<lparr>d_runner := r'\<rparr>)) k"
      if "k \<in> set (d_used d)" "cancel_due (d_jobs jobs_of d) ?r k" for k
      using cancel_due_same_pcs [OF that(2,1) own ev f(2)] by simp
  qed (use ev f(1) recon_ids_mono [OF f(1)] in auto)
  moreover have "req_ok (set (d_used d)) (jobs_of (r_store r')) r' q"
    by (rule cancelJob_req [OF i own now ok rec dom req q])
  ultimately show ?thesis
    using set_update_subset_insert [of "d_reqs d" n q] by (auto simp: cancel_inv_def)
qed

lemma daemon_step_cancel_inv:
  assumes inv: "daemon_inv invar jobs_of d" and cinv: "cancel_inv jobs_of d"
    and t: "\<And>t. label_time a = Some t \<Longrightarrow> 0 < t \<and> d_clock d = t"
    and step: "daemon_step fmt js canceller a d = Some d'"
  shows "cancel_inv jobs_of d'"
proof (cases "goroutine_label a")
  case True
  then obtain r' where r': "d' = d\<lparr>d_runner := r'\<rparr>"
    and or: "worker_step js a (d_runner d) = Some r' \<or> reconcile_step js a (d_runner d) = Some r'"
    using daemon_step_goroutine [OF _ step] by blast
  have "\<And>t. a \<noteq> LStart t" using True by auto
  then have "evolve (set (d_used d)) (d_owned d) (d_jobs jobs_of d) (d_jobs jobs_of d')"
    using daemon_step_ok [OF inv t _ step] by blast
  with goroutine_cancel_inv [OF inv cinv _ or] t r' show ?thesis by simp
next
  case False
  let ?r = "d_runner d" and ?U = "set (d_used d)"
  from inv have i: "invar (r_store ?r)" and own: "own_ok (d_jobs jobs_of d) (d_pcs d)"
    and created: "\<And>j. j \<in> ran (d_jobs jobs_of d) \<Longrightarrow> job_Created j \<le> d_clock d"
    and dom: "dom (d_jobs jobs_of d) \<subseteq> ?U" by (auto simp: daemon_inv_def)
  from cinv have ok: "entries_ok ?r" by (simp add: cancel_inv_def)
  from False show ?thesis
  proof (cases a)
    case (LStart now)
    with step have "d' = d\<lparr>d_runner := Start js now ?r, d_reqs := []\<rparr>" by (simp add: daemon_step_def)
    then show ?thesis
      by (simp add: cancel_inv_def entries_ok_def recon_ok_def recon_jobs_def Start_fields)
  next
    case (LEnqueue k now kind args parent)
    with step have fresh: "k \<notin> ?U" and d': "d' = d\<lparr>d_used := k # d_used d,
        d_runner := ?r\<lparr>r_store := snd (js_Enqueue js k now kind args parent (r_store ?r))\<rparr>\<rparr>"
      by (auto simp: daemon_step_def Let_def split: if_splits)
    from fresh dom have none: "d_jobs jobs_of d k = None" by auto
    have "evolve ?U {} (d_jobs jobs_of d) (jobs_of (snd (js_Enqueue js k now kind args parent (r_store ?r))))"
      using enqueue_step [OF i _ none, of now kind args parent] created t LEnqueue evolve_new [of "d_jobs jobs_of d", OF none fresh]
      by auto
    then show ?thesis by (rule store_only_cancel_inv [OF inv cinv]) (auto simp: d')
  next
    case (LStartChild w k now kind args)
    with step obtain r' where fresh: "k \<notin> ?U" and d': "d' = d\<lparr>d_used := k # d_used d, d_runner := r'\<rparr>"
      and child: "Job_System.start_child js w k now kind args ?r = Some r'"
      by (auto simp: daemon_step_def Let_def on_runner_def split: if_splits)
    from fresh dom have none: "d_jobs jobs_of d k = None" by auto
    have f: "entries_ok r'" "r_sweep r' = r_sweep ?r"
      "\<forall>k\<in>?U. cancel_due (d_jobs jobs_of d) ?r k \<longrightarrow> cancel_due (jobs_of (r_store r')) r' k"
      using start_child_fields [OF i own _ none fresh _ child ok] created t LStartChild by auto
    have "evolve ?U (d_owned d) (d_jobs jobs_of d) (d_jobs jobs_of d')"
      using daemon_step_ok [OF inv t _ step] LStartChild by blast
    then show ?thesis
      by (rule cancel_inv_step [OF cinv dom]) (use f recon_ids_mono [OF f(2)] d' in auto)
  next
    case (LFinishChild w k now st msg)
    with step obtain r' where d': "d' = d\<lparr>d_runner := r'\<rparr>" and fin: "finish_child js w k now st msg ?r = Some r'"
      by (auto simp: daemon_step_def Let_def on_runner_def)
    have f: "entries_ok r'" "r_sweep r' = r_sweep ?r"
      "\<forall>k\<in>?U. cancel_due (d_jobs jobs_of d) ?r k \<longrightarrow> cancel_due (jobs_of (r_store r')) r' k"
      using finish_child_fields [OF i own _ fin ok] t LFinishChild by auto
    have "evolve ?U (d_owned d) (d_jobs jobs_of d) (d_jobs jobs_of d')"
      using daemon_step_ok [OF inv t _ step] LFinishChild by blast
    then show ?thesis
      by (rule cancel_inv_step [OF cinv dom]) (use f recon_ids_mono [OF f(2)] d' in auto)
  next
    case (LRetention now retention)
    with step have d': "d' = d\<lparr>d_runner := retention_sweep js now retention ?r\<rparr>" by (simp add: daemon_step_def Let_def)
    have "\<exists>s. retention_sweep js now retention ?r = ?r\<lparr>r_store := s\<rparr> \<and> evolve ?U {} (d_jobs jobs_of d) (jobs_of s)"
    proof (cases "retention \<le> 0")
      case True
      then show ?thesis by (intro exI [of _ "r_store ?r"]) (simp add: retention_sweep_def)
    next
      case False
      with prune_step [OF i] show ?thesis by (auto simp: retention_sweep_def)
    qed
    then obtain s where "retention_sweep js now retention ?r = ?r\<lparr>r_store := s\<rparr>" "evolve ?U {} (d_jobs jobs_of d) (jobs_of s)"
      by blast
    then show ?thesis using store_only_cancel_inv [OF inv cinv, of s d'] d' by simp
  next
    case (LCancel k)
    with step have "d' = d\<lparr>d_reqs := d_reqs d @ [CGet k]\<rparr>" by (simp add: daemon_step_def Let_def)
    with cinv show ?thesis by (auto simp: cancel_inv_def)
  next
    case (LReq n now)
    with step obtain q r' where "n < length (d_reqs d)" "d' = d\<lparr>d_runner := r', d_reqs := (d_reqs d)[n := q]\<rparr>"
      "cancelJob fmt js canceller now (d_reqs d ! n) ?r = Some (q, r')"
      by (auto simp: daemon_step_def Let_def split: if_splits option.splits)
    with request_cancel_inv [OF inv cinv] t LReq show ?thesis by auto
  qed auto
qed

lemma reachable_cancel_inv:
  assumes "reachable fmt js canceller d0 d" "daemon_inv invar jobs_of d0" "cancel_inv jobs_of d0"
  shows "cancel_inv jobs_of d"
  using assms(1)
proof induction
  case init
  show ?case by (rule assms(3))
next
  case (step d a d')
  have inv: "daemon_inv invar jobs_of d" by (rule reachable_inv [OF step(1) assms(2)])
  from step(2) obtain d1 where tk: "tick a d = Some d1" and ds: "daemon_step fmt js canceller a d1 = Some d'"
    by (auto simp: exec_def split: option.splits)
  from tk have eq: "d_runner d1 = d_runner d" "d_used d1 = d_used d" "d_reqs d1 = d_reqs d" "d_clock d \<le> d_clock d1"
    and t: "\<And>t. label_time a = Some t \<Longrightarrow> 0 < t \<and> d_clock d1 = t"
    by (auto elim: tick_Some)
  from inv eq have "daemon_inv invar jobs_of d1" by (fastforce simp: daemon_inv_def)
  moreover from step.IH eq have "cancel_inv jobs_of d1" by (simp add: cancel_inv_def)
  ultimately show ?case using daemon_step_cancel_inv t ds by blast
qed

end

subsection \<open>The property on SQLite\<close>

lemma initial_cancel_inv: "initial invar jobs_of d \<Longrightarrow> cancel_inv jobs_of d"
  by (simp add: initial_def cancel_inv_def entries_ok_def recon_ok_def recon_jobs_def)


text \<open>The job's handler returns success after the cancel was accepted; the job is recorded as canceled.\<close>

definition cancel_run :: "label list" where
  "cancel_run = sample_run @ [LCancel ''b'', LReq 0 16, LReq 0 16, LReq 0 16, LReq 0 16, LReturn 1 None, LFinish 1 17 2]"


end
