(* ===== verification/Job_Pools.thy ===== *)
theory Job_Pools
  imports Job_Safety
begin

text \<open>
  The worker pools. With a reserved pool configured, jobs of the reserved kinds never occupy more
  workers than the reservation, so the other workers stay free for other kinds; and within the
  reserved pool the rotation bounds how long a kind with work waits.
\<close>

subsection \<open>Workers run the kinds of their pool\<close>

fun kind_allowed :: "string list option \<times> bool \<Rightarrow> string \<Rightarrow> bool" where
  "kind_allowed (None, _) k \<longleftrightarrow> True"
| "kind_allowed (Some ks, False) k \<longleftrightarrow> k \<in> set ks"
| "kind_allowed (Some ks, True) k \<longleftrightarrow> k \<notin> set ks"

fun pc_job :: "wpc \<Rightarrow> Job option" where
  "pc_job WIdle = None"
| "pc_job (WRotating _) = None"
| "pc_job (WServing _ job) = Some job"
| "pc_job (WClaimed job) = Some job"
| "pc_job (WRunning job _ _) = Some job"
| "pc_job (WReturned job _ _) = Some job"

fun pc_allowed :: "string list option \<times> bool \<Rightarrow> wpc \<Rightarrow> bool" where
  "pc_allowed spec (WRotating ks) \<longleftrightarrow> (\<forall>k\<in>set ks. kind_allowed spec k)"
| "pc_allowed spec pc \<longleftrightarrow> (case pc_job pc of None \<Rightarrow> True | Some job \<Rightarrow> kind_allowed spec (job_Kind job))"

definition pools_ok :: "'s Runner \<Rightarrow> bool" where
  "pools_ok r \<longleftrightarrow>
     (r_pcs r = [] \<or> length (r_pcs r) = length (worker_specs r)) \<and>
     (\<forall>w<length (r_pcs r). pc_allowed (worker_specs r ! w) (r_pcs r ! w))"

lemma worker_specs_cong:
  "r_workers r' = r_workers r \<Longrightarrow> r_volumeKinds r' = r_volumeKinds r \<Longrightarrow> r_volumeWorkers r' = r_volumeWorkers r \<Longrightarrow>
   worker_specs r' = worker_specs r"
  by (simp add: worker_specs_def split_pool_def)

definition same_config :: "'s Runner \<Rightarrow> 's Runner \<Rightarrow> bool" where
  "same_config r r' \<longleftrightarrow>
     r_workers r' = r_workers r \<and> r_volumeKinds r' = r_volumeKinds r \<and> r_volumeWorkers r' = r_volumeWorkers r"

lemmas runner_op_defs = set_pc_def emit_def register_def deregister_def set_tasks_def runner_finish_def jc_Step_def

lemma same_config_simps [simp]:
  "same_config r r" "same_config r (set_pc w pc r') = same_config r r'" "same_config r (emit x r') = same_config r r'"
  "same_config r (register i r') = same_config r r'" "same_config r (deregister i r') = same_config r r'"
  "same_config r (set_tasks ts r') = same_config r r'"
  "same_config r (runner_finish js now i st msg r') = same_config r r'"
  "same_config r (jc_Step js now i step detail r') = same_config r r'"
  "same_config r (r'\<lparr>r_store := s\<rparr>) = same_config r r'"
  "same_config r (r'\<lparr>r_entries := es\<rparr>) = same_config r r'"
  "same_config r (r'\<lparr>r_volumeRotation := kr\<rparr>) = same_config r r'"
  "same_config r (r'\<lparr>r_sweep := sw\<rparr>) = same_config r r'"
  by (simp_all add: same_config_def runner_op_defs)

lemma same_config_claimed [simp]: "same_config r (claimed w found none res r)"
  by (auto simp: claimed_def split: prod.splits sum.splits option.splits)

lemma same_config_Cancel [simp]: "same_config r (snd (Cancel i r))"
  by (auto simp: Cancel_def split: option.splits)

lemma same_config_Start [simp]: "same_config r (Start js now r)"
  by (simp add: Start_def same_config_def Let_def case_prod_beta)

lemma worker_step_config: "worker_step js a r = Some r' \<Longrightarrow> same_config r r'"
  by (cases a)
    (auto simp: worker_step_def claim_def claim_kind_def record_served_def run_begin_def run_return_def run_finish_def Let_def
      split: if_splits option.splits wpc.splits prod.splits bool.splits list.splits)

lemma reconcile_step_config: "reconcile_step js a r = Some r' \<Longrightarrow> same_config r r'"
  by (cases a)
    (auto simp: reconcile_step_def sweep_begin_def sweep_launch_def reconcile_return_def reconcile_resolve_def sweep_end_def Let_def
      split: if_splits option.splits rpc.splits prod.splits sum.splits list.splits)

lemma cancelJob_config: "cancelJob fmt js c now q r = Some (q', r') \<Longrightarrow> same_config r r'"
proof -
  assume step: "cancelJob fmt js c now q r = Some (q', r')"
  have "(\<exists>s. r' = r\<lparr>r_store := s\<rparr>) \<or> (\<exists>i. r' = snd (Cancel i r)) \<or> r' = r"
    using step
    by (auto simp: cancelJob_def cancel_get_def cancel_dispatch_def cancel_runner_def cancel_interrupt_def
        writeCancelConflict_def writeAcceptedJob_def split: creq.splits prod.splits sum.splits if_splits JobState.splits)
      (metis snd_conv)+
  then show ?thesis by auto
qed

lemma pools_ok_upd:
  assumes "pools_ok r" "w < length (r_pcs r)" "r_pcs r' = (r_pcs r)[w := pc]" "same_config r r'"
    and "pc_allowed (worker_specs r ! w) (r_pcs r ! w) \<Longrightarrow> pc_allowed (worker_specs r ! w) pc"
  shows "pools_ok r'"
proof -
  have "worker_specs r' = worker_specs r" using assms(4) by (intro worker_specs_cong) (auto simp: same_config_def)
  with assms(1,2,3,5) show ?thesis by (auto simp: pools_ok_def nth_list_update)
qed

lemma pools_ok_same: "pools_ok r \<Longrightarrow> r_pcs r' = r_pcs r \<Longrightarrow> same_config r r' \<Longrightarrow> pools_ok r'"
  using worker_specs_cong [of r' r] by (simp add: pools_ok_def same_config_def)

context job_store
begin

lemma claimed_pools:
  assumes "pools_ok r" "w < length (r_pcs r)"
    and op: "op_ok invar jobs_of (r_store r) is_driver (claim_spec P now (jobs_of (r_store r))) res"
    and "pc_allowed (worker_specs r ! w) none"
    and found: "\<And>job. P (job_Kind job) \<Longrightarrow> pc_allowed (worker_specs r ! w) (found job)"
  shows "pools_ok (claimed w found none res r)"
proof -
  have job: "P (job_Kind job)" if "res = (Inr (Some job), s)" for job s
    using op that by (auto simp: op_ok_def claim_spec_def claimable_def)
  obtain pc where pcs: "r_pcs (claimed w found none res r) = (r_pcs r)[w := pc]"
    and pc: "pc_allowed (worker_specs r ! w) pc"
  proof (cases res)
    case (Pair x s)
    show thesis
    proof (cases x)
      case (Inl e)
      then show thesis using Pair by (intro that [of WIdle]) (auto simp: claimed_def)
    next
      case (Inr y)
      then show thesis
        using Pair assms(4) job found that [of none] that [of "found (the y)"]
        by (cases y) (auto simp: claimed_def)
    qed
  qed
  show ?thesis by (rule pools_ok_upd [OF assms(1,2) pcs]) (use pc in auto)
qed

lemma worker_step_pools:
  assumes inv: "invar (r_store r)" and ok: "pools_ok r" and step: "worker_step js a r = Some r'"
  shows "pools_ok r'"
proof -
  note cfg = worker_step_config [OF step]
  show ?thesis
  proof (cases a)
    case (LClaim w now)
    with step have w: "w < length (r_pcs r)" "r_pcs r ! w = WIdle" and r': "r' = claim js now w r"
      by (auto simp: worker_step_def pc_at_def split: if_splits)
    obtain kinds ex where spec: "worker_specs r ! w = (kinds, ex)" by fastforce
    note cl = claimed_pools [OF ok w(1)]
    have rot: "pools_ok (set_pc w (WRotating (rotation_order kr ks)) r)" if "spec = (Some ks, False)" "worker_specs r ! w = spec" for kr ks spec
      by (rule pools_ok_upd [OF ok w(1), where pc = "WRotating (rotation_order kr ks)"])
        (use that in \<open>auto simp: rotation_order_def\<close>)
    have any: "pools_ok (claimed w WClaimed WIdle (js_ClaimNext js now (r_store r)) r)" if "kinds = None"
      by (rule cl [OF claim_next [OF inv]]) (use that spec in auto)
    have only: "pools_ok (claimed w WClaimed WIdle (js_ClaimNextMatching js now ks (r_store r)) r)"
      if "kinds = Some ks" "\<not> ex" for ks
      by (rule cl [OF claim_matching [OF inv]]) (use that spec in auto)
    have other: "pools_ok (claimed w WClaimed WIdle (js_ClaimNextExcluding js now ks (r_store r)) r)"
      if "kinds = Some ks" "ex" for ks
      by (rule cl [OF claim_excluding [OF inv]]) (use that spec in auto)
    have none: "pools_ok (claimed w WClaimed WIdle (js_ClaimNextExcluding js now [] (r_store r)) r)" if "kinds = None"
      by (rule cl [OF claim_excluding [OF inv]]) (use that spec in auto)
    show ?thesis
      using rot any only other none spec
      by (cases kinds; cases ex) (auto simp: r' claim_def split: option.splits)
  next
    case (LClaimKind w now)
    with step obtain ks where w: "w < length (r_pcs r)" "r_pcs r ! w = WRotating ks" and r': "r' = claim_kind js now w ks r"
      by (auto simp: worker_step_def pc_at_def split: option.splits wpc.splits if_splits)
    have all: "\<forall>k\<in>set ks. kind_allowed (worker_specs r ! w) k" using ok w by (auto simp: pools_ok_def)
    show ?thesis
    proof (cases ks)
      case Nil
      then show ?thesis by (intro pools_ok_upd [OF ok w(1), of _ WIdle]) (auto simp: r' claim_kind_def)
    next
      case (Cons k rest)
      with all show ?thesis
        using claimed_pools [OF ok w(1) claim_matching [OF inv, where kinds = "[k]" and now = now],
            where found = "WServing k" and none = "WRotating rest"]
        by (auto simp: r' claim_kind_def)
    qed
  next
    case (LServed w)
    with step obtain k job where w: "w < length (r_pcs r)" "r_pcs r ! w = WServing k job" and r': "r' = record_served w k job r"
      by (auto simp: worker_step_def pc_at_def split: option.splits wpc.splits if_splits)
    show ?thesis by (rule pools_ok_upd [OF ok w(1) _ cfg, where pc = "WClaimed job"]) (use w r' in \<open>auto simp: record_served_def\<close>)
  next
    case (LRunBegin w now)
    with step obtain job where w: "w < length (r_pcs r)" "r_pcs r ! w = WClaimed job" and r': "r' = run_begin js now w job r"
      by (auto simp: worker_step_def pc_at_def split: option.splits wpc.splits if_splits)
    obtain pc where "r_pcs r' = (r_pcs r)[w := pc]" "pc = WIdle \<or> (\<exists>n. pc = WRunning job n [])"
      by (cases "job_Kind job \<in> set (r_handlers r)") (auto simp: r' run_begin_def)
    then show ?thesis using w(2) by (intro pools_ok_upd [OF ok w(1) _ cfg]) auto
  next
    case (LStep w i now st detail)
    with step have "r' = jc_Step js now i st detail r"
      by (auto simp: worker_step_def split: option.splits wpc.splits if_splits)
    then show ?thesis using pools_ok_same [OF ok _ cfg] by simp
  next
    case (LReturn w err)
    with step obtain job x ch where w: "w < length (r_pcs r)" "r_pcs r ! w = WRunning job x ch" and r': "r' = run_return w job x err r"
      by (auto simp: worker_step_def pc_at_def split: option.splits wpc.splits if_splits)
    show ?thesis
      by (rule pools_ok_upd [OF ok w(1) _ cfg, where pc = "WReturned job (ij_canceled (r_entries r ! x)) err"])
        (use w r' in \<open>auto simp: run_return_def Let_def\<close>)
  next
    case (LFinish w now d)
    with step obtain job c err where w: "w < length (r_pcs r)" and r': "r' = run_finish js now d w job c err r"
      by (auto simp: worker_step_def pc_at_def split: option.splits wpc.splits if_splits)
    have "r_pcs r' = (r_pcs r)[w := WIdle]" by (auto simp: r' run_finish_def split: option.splits)
    from pools_ok_upd [OF ok w this cfg] show ?thesis by simp
  qed (use step in \<open>simp_all add: worker_step_def\<close>)
qed

end

context job_store
begin

lemma daemon_step_pools:
  assumes inv: "daemon_inv invar jobs_of d" and ok: "pools_ok (d_runner d)" and t: "\<And>t. label_time a = Some t \<Longrightarrow> 0 < t"
    and step: "daemon_step fmt js canceller a d = Some d'"
  shows "pools_ok (d_runner d') \<and> same_config (d_runner d) (d_runner d')"
proof -
  let ?r = "d_runner d"
  from inv have i: "invar (r_store ?r)" by (simp add: daemon_inv_def)
  have store: "pools_ok (?r\<lparr>r_store := s\<rparr>)" for s by (rule pools_ok_same [OF ok]) simp_all
  show ?thesis
  proof (cases "goroutine_label a")
    case True
    then obtain r' where r': "d' = d\<lparr>d_runner := r'\<rparr>"
      and or: "worker_step js a ?r = Some r' \<or> reconcile_step js a ?r = Some r'"
      using daemon_step_goroutine [OF _ step] by blast
    from or show ?thesis
    proof
      assume "worker_step js a ?r = Some r'"
      with worker_step_pools [OF i ok] worker_step_config r' show ?thesis by auto
    next
      assume s: "reconcile_step js a ?r = Some r'"
      with reconcile_step_evolve [OF i t s] pools_ok_same [OF ok _ reconcile_step_config [OF s]] reconcile_step_config [OF s] r'
      show ?thesis by auto
    qed
  next
    case False
    then show ?thesis
    proof (cases a)
      case (LStart now)
      with step have d': "d_runner d' = Start js now ?r" by (auto simp: daemon_step_def)
      have "worker_specs (Start js now ?r) = worker_specs ?r"
        using same_config_Start [of ?r js now] by (intro worker_specs_cong) (auto simp: same_config_def)
      with d' show ?thesis by (simp add: pools_ok_def Start_fields)
    next
      case (LEnqueue k now kind args parent)
      with step store show ?thesis by (auto simp: daemon_step_def Let_def split: if_splits)
    next
      case (LStartChild w k now kind args)
      with step obtain r' where d': "d_runner d' = r'" and "Job_System.start_child js w k now kind args ?r = Some r'"
        by (auto simp: daemon_step_def Let_def on_runner_def split: if_splits)
      then obtain job x ch s pc where w: "w < length (r_pcs ?r)" "r_pcs ?r ! w = WRunning job x ch"
        and r': "r' = ?r\<lparr>r_store := s\<rparr> \<or> (\<exists>ch'. r' = set_pc w (WRunning job x ch') (?r\<lparr>r_store := s\<rparr>))"
        by (auto simp: Job_System.start_child_def pc_at_def split: option.splits wpc.splits prod.splits sum.splits if_splits)
      have "pools_ok (set_pc w (WRunning job x ch') (?r\<lparr>r_store := s\<rparr>))" for ch'
        by (rule pools_ok_upd [OF ok w(1), where pc = "WRunning job x ch'"]) (use w in auto)
      with store r' d' show ?thesis by auto
    next
      case (LFinishChild w k now st msg)
      with step obtain r' where d': "d_runner d' = r'" and "finish_child js w k now st msg ?r = Some r'"
        by (auto simp: daemon_step_def Let_def on_runner_def)
      then obtain job x ch where w: "w < length (r_pcs ?r)" "r_pcs ?r ! w = WRunning job x ch"
        and r': "r' = set_pc w (WRunning job x (removeAll k ch)) (runner_finish js now k st msg ?r)"
        by (auto simp: finish_child_def pc_at_def split: option.splits wpc.splits if_splits)
      have "pools_ok r'"
        unfolding r' by (rule pools_ok_upd [OF ok w(1), where pc = "WRunning job x (removeAll k ch)"]) (use w in auto)
      with d' r' show ?thesis by auto
    next
      case (LRetention now retention)
      with step store ok show ?thesis by (auto simp: daemon_step_def Let_def retention_sweep_def)
    next
      case (LCancel k)
      with step ok show ?thesis by (auto simp: daemon_step_def Let_def)
    next
      case (LReq n now)
      with step obtain q r' where d': "d_runner d' = r'" and q: "cancelJob fmt js canceller now (d_reqs d ! n) ?r = Some (q, r')"
        by (auto simp: daemon_step_def Let_def split: if_splits option.splits)
      with cancelJob_evolve [OF i _ q] t LReq pools_ok_same [OF ok _ cancelJob_config [OF q]] cancelJob_config [OF q]
      show ?thesis by auto
    qed auto
  qed
qed

lemma reachable_pools:
  assumes "reachable fmt js canceller d0 d" "daemon_inv invar jobs_of d0" "pools_ok (d_runner d0)"
  shows "pools_ok (d_runner d) \<and> same_config (d_runner d0) (d_runner d)"
  using assms(1)
proof induction
  case init
  with assms(3) show ?case by simp
next
  case (step d a d')
  have inv: "daemon_inv invar jobs_of d" by (rule reachable_inv [OF step(1) assms(2)])
  from step(2) obtain d1 where tk: "tick a d = Some d1" and ds: "daemon_step fmt js canceller a d1 = Some d'"
    by (auto simp: exec_def split: option.splits)
  from tk have eq: "d_runner d1 = d_runner d" "d_used d1 = d_used d" "d_clock d \<le> d_clock d1"
    and t: "\<And>t. label_time a = Some t \<Longrightarrow> 0 < t"
    by (auto elim: tick_Some)
  from inv eq have "daemon_inv invar jobs_of d1" by (fastforce simp: daemon_inv_def)
  from daemon_step_pools [OF this _ t ds] eq step.IH show ?case by (auto simp: same_config_def)
qed

end

lemma reserved_workers:
  assumes "pools_ok r" "split_pool r"
  shows "card {w. w < length (r_pcs r) \<and>
      (\<exists>job. pc_job (r_pcs r ! w) = Some job \<and> job_Kind job \<in> set (r_volumeKinds r))} \<le> nat (r_volumeWorkers r)"
    (is "card ?S \<le> _")
proof -
  have "w < nat (r_volumeWorkers r)" if "w \<in> ?S" for w
  proof (rule ccontr)
    assume big: "\<not> w < nat (r_volumeWorkers r)"
    from that obtain job where w: "w < length (r_pcs r)" "pc_job (r_pcs r ! w) = Some job" "job_Kind job \<in> set (r_volumeKinds r)"
      by blast
    then have "length (r_pcs r) = length (worker_specs r)" using assms(1) by (auto simp: pools_ok_def)
    with w(1) assms(2) big have "worker_specs r ! w = (Some (r_volumeKinds r), True)"
      by (auto simp: worker_specs_def nth_append)
    then have "pc_allowed (Some (r_volumeKinds r), True) (r_pcs r ! w)"
      using assms(1) w(1) by (auto simp: pools_ok_def)
    with w(2,3) show False by (cases "r_pcs r ! w") auto
  qed
  then have "?S \<subseteq> {..<nat (r_volumeWorkers r)}" by blast
  from card_mono [OF _ this] show ?thesis by simp
qed

text \<open>C5. With the reserved pool in effect, in every reachable state at most \<^verbatim>\<open>volumeWorkers\<close> workers
  hold a job of a reserved kind, and exactly \<^verbatim>\<open>workers\<close> workers exist once the runner has started: however many
  long volume transfers are queued, the remaining workers are never occupied by one.\<close>

theorem sqlite_reserved_pool:
  assumes "initial sql_invar sql_jobs_of d0" and "split_pool (d_runner d0)"
    and "reachable fmt SQLiteJobs canceller d0 d"
  shows "card {w. w < length (r_pcs (d_runner d)) \<and>
      (\<exists>job. pc_job (r_pcs (d_runner d) ! w) = Some job \<and> job_Kind job \<in> set (r_volumeKinds (d_runner d0)))}
        \<le> nat (r_volumeWorkers (d_runner d0)) \<and>
    (r_pcs (d_runner d) = [] \<or> int (length (r_pcs (d_runner d))) = r_workers (d_runner d0))"
proof -
  have "pools_ok (d_runner d0)" using assms(1) by (simp add: initial_def pools_ok_def)
  with sql.reachable_pools [OF assms(3) initial_inv [OF assms(1)]]
  have ok: "pools_ok (d_runner d)" and cfg: "same_config (d_runner d0) (d_runner d)" by auto
  from cfg assms(2) have split: "split_pool (d_runner d)" by (simp add: same_config_def split_pool_def)
  have "length (r_pcs (d_runner d)) = 0 \<or> int (length (r_pcs (d_runner d))) = r_workers (d_runner d)"
    using ok split by (auto simp: pools_ok_def worker_specs_def split_pool_def)
  with reserved_workers [OF ok split] cfg show ?thesis by (simp add: same_config_def)
qed

theorem sqlite_reserved_pool_witness:
  "\<exists>d. reachable (\<lambda>_. []) SQLiteJobs True sample_daemon d \<and>
     map (\<lambda>pc. map_option job_Kind (pc_job pc)) (r_pcs (d_runner d)) = [Some ''migrate'', Some ''prune'', None] \<and>
     card {w. w < length (r_pcs (d_runner d)) \<and>
       (\<exists>job. pc_job (r_pcs (d_runner d) ! w) = Some job \<and> job_Kind job \<in> set (r_volumeKinds (d_runner sample_daemon)))}
         \<le> nat (r_volumeWorkers (d_runner sample_daemon)) \<and>
     (r_pcs (d_runner d) = [] \<or> int (length (r_pcs (d_runner d))) = r_workers (d_runner sample_daemon))"
proof -
  have "map_option (\<lambda>d. map (\<lambda>pc. map_option job_Kind (pc_job pc)) (r_pcs (d_runner d)))
      (execs (\<lambda>_. []) SQLiteJobs True sample_run sample_daemon) = Some [Some ''migrate'', Some ''prune'', None]"
    by code_simp
  then obtain d where d: "reachable (\<lambda>_. []) SQLiteJobs True sample_daemon d"
    "map (\<lambda>pc. map_option job_Kind (pc_job pc)) (r_pcs (d_runner d)) = [Some ''migrate'', Some ''prune'', None]"
    by (rule run_reachable)
  have "split_pool (d_runner sample_daemon)" by code_simp
  note p = sqlite_reserved_pool [OF sample_initial this d(1)]
  show ?thesis by (intro exI [of _ d] conjI d p [THEN conjunct1] p [THEN conjunct2])
qed

subsection \<open>Rotation bounds the wait of a kind\<close>

text \<open>Successive claims of the reserved pool, each on whatever store it finds.\<close>

fun rotate_claims :: "'s JobStore \<Rightarrow> string list \<Rightarrow> kindRotation \<Rightarrow> (time \<times> 's) list \<Rightarrow> Job option result list" where
  "rotate_claims js kinds kr [] = []"
| "rotate_claims js kinds kr ((now, s) # xs) =
     (case claimRotating js now kinds kr s of (res, kr', _) \<Rightarrow> res # rotate_claims js kinds kr' xs)"

text \<open>The kinds asked before \<open>k\<close>.\<close>

definition ahead :: "kindRotation \<Rightarrow> string list \<Rightarrow> string \<Rightarrow> string set" where
  "ahead kr kinds k = set (takeWhile (\<lambda>x. x \<noteq> k) (rotation_order kr kinds))"

definition rotation_ok :: "kindRotation \<Rightarrow> bool" where
  "rotation_ok kr \<longleftrightarrow> 0 \<le> kr_seq kr \<and> (\<forall>k. last_of kr k \<le> kr_seq kr)"

lemma before_in_sort:
  assumes "distinct xs" "k \<in> set xs"
  shows "set (takeWhile (\<lambda>x. x \<noteq> k) (sort_key f xs)) =
    {x \<in> set xs. x \<noteq> k \<and> (f x < f k \<or> f x = f k \<and> x \<in> set (takeWhile (\<lambda>x. x \<noteq> k) xs))}"
proof -
  from assms(2) have "k \<in> set (sort_key f xs)" by simp
  then obtain pre post where ys: "sort_key f xs = pre @ k # post" by (meson split_list)
  from assms(2) obtain a b where xs: "xs = a @ k # b" by (meson split_list)
  have d: "distinct (pre @ k # post)" using assms(1) unfolding ys [symmetric] by simp
  have tw: "takeWhile (\<lambda>x. x \<noteq> k) (pre @ k # post) = pre" if "k \<notin> set pre" for pre post
    using that by (induction pre) auto
  have pre: "takeWhile (\<lambda>x. x \<noteq> k) (sort_key f xs) = pre" using d by (simp add: ys tw)
  have a: "takeWhile (\<lambda>x. x \<noteq> k) xs = a" using assms(1) by (simp add: xs tw)
  have srt: "sorted (map f (pre @ k # post))" by (metis sorted_sort_key ys)
  have "filter (\<lambda>y. f y = f k) (pre @ k # post) = filter (\<lambda>y. f y = f k) xs"
    by (metis sort_key_stable ys)
  then have same: "filter (\<lambda>y. f y = f k) pre @ k # filter (\<lambda>y. f y = f k) post =
      filter (\<lambda>y. f y = f k) a @ k # filter (\<lambda>y. f y = f k) b" by (simp add: xs)
  have "k \<notin> set (filter (\<lambda>y. f y = f k) pre)" "k \<notin> set (filter (\<lambda>y. f y = f k) a)"
    using d assms(1) by (auto simp: xs)
  with same have eq: "filter (\<lambda>y. f y = f k) pre = filter (\<lambda>y. f y = f k) a"
    using tw [of "filter (\<lambda>y. f y = f k) pre"] tw [of "filter (\<lambda>y. f y = f k) a"] by metis
  have pa: "x \<in> set pre \<longleftrightarrow> x \<in> set a" if "f x = f k" for x
    using that arg_cong [OF eq, of set] by auto
  have elems: "set xs = set pre \<union> {k} \<union> set post" using set_sort [of f xs] by (simp add: ys)
  have le: "f x \<le> f k" if "x \<in> set pre" for x using srt that by (auto simp: sorted_append)
  have ge: "f k \<le> f x" if "x \<in> set post" for x using srt that by (auto simp: sorted_append)
  show ?thesis
    unfolding pre a
  proof (rule set_eqI)
    fix x
    show "x \<in> set pre \<longleftrightarrow> x \<in> {x \<in> set xs. x \<noteq> k \<and> (f x < f k \<or> f x = f k \<and> x \<in> set a)}"
    proof (cases "f x = f k")
      case True
      then show ?thesis using pa [OF True] d elems by auto
    next
      case False
      then show ?thesis using le [of x] ge [of x] d elems by auto
    qed
  qed
qed

lemma rotation_served_ok: "rotation_ok kr \<Longrightarrow> kr_seq kr + 1 < 2 ^ 64 \<Longrightarrow> rotation_ok (served k kr)"
  by (auto simp: rotation_ok_def served_def last_of_def Let_def split: option.splits if_splits)
    (smt (verit) option.simps(4) option.simps(5))+

lemma ahead_served:
  assumes "distinct kinds" "k \<in> set kinds" "x \<noteq> k" "rotation_ok kr" "kr_seq kr + 1 < 2 ^ 64"
  shows "ahead (served x kr) kinds k = ahead kr kinds k - {x}"
proof -
  have seq: "(kr_seq kr + 1) mod 2 ^ 64 = kr_seq kr + 1" using assms(4,5) by (simp add: rotation_ok_def)
  have upd: "last_of (served x kr) y = (if y = x then kr_seq kr + 1 else last_of kr y)" for y
    using seq by (simp add: served_def last_of_def Let_def)
  have "last_of kr k < kr_seq kr + 1" using assms(4) by (simp add: rotation_ok_def zle_iff_zadd)
  then show ?thesis
    using assms(3) unfolding ahead_def rotation_order_def before_in_sort [OF assms(1,2)] by (auto simp: upd)
qed

context job_store
begin

lemma try_kinds_result:
  assumes "invar s" "\<exists>j\<in>ran (jobs_of s). claimable (\<lambda>x. x = k) j" "k \<in> set ks"
    and "try_kinds js now ks kr s = (Inr r, kr', s')"
  shows "\<exists>job. r = Some job \<and> kr' = served (job_Kind job) kr \<and>
    (job_Kind job = k \<or> job_Kind job \<in> set (takeWhile (\<lambda>x. x \<noteq> k) ks))"
  using assms
proof (induction ks arbitrary: s)
  case (Cons x ks)
  obtain res s1 where call: "js_ClaimNextMatching js now [x] s = (res, s1)" by fastforce
  have law: "op_ok invar jobs_of s is_driver (claim_spec (\<lambda>k. k \<in> set [x]) now (jobs_of s)) (res, s1)"
    using claim_matching [OF Cons.prems(1), of "[x]" now] call by simp
  from Cons.prems(4) call obtain y where res: "res = Inr y" by (cases res) auto
  show ?case
  proof (cases y)
    case (Some job)
    with law res have "job_Kind job = x" by (auto simp: op_ok_def claim_spec_def claimable_def)
    with Cons.prems(4) call res Some show ?thesis by auto
  next
    case None
    with law res have same: "jobs_of s1 = jobs_of s" "invar s1" and no: "\<forall>j\<in>ran (jobs_of s). \<not> claimable (\<lambda>k. k \<in> set [x]) j"
      by (auto simp: op_ok_def claim_spec_def)
    with Cons.prems(2) have "x \<noteq> k" by (auto simp: claimable_def)
    moreover have "try_kinds js now ks kr s1 = (Inr r, kr', s')" using Cons.prems(4) call res None by simp
    ultimately show ?thesis
      using Cons.IH [of s1] Cons.prems(2,3) same by auto
  qed
qed simp

lemma rotation_bound:
  assumes "distinct kinds" "k \<in> set kinds" "rotation_ok kr" "kr_seq kr + int (length xs) < 2 ^ 64"
    and "\<forall>(now, s)\<in>set xs. invar s \<and> (\<exists>j\<in>ran (jobs_of s). claimable (\<lambda>x. x = k) j)"
    and "card (ahead kr kinds k) < length xs"
    and "\<forall>res\<in>set (rotate_claims js kinds kr xs). is_ok res"
  shows "\<exists>job. Inr (Some job) \<in> set (rotate_claims js kinds kr xs) \<and> job_Kind job = k"
  using assms(3-7)
proof (induction xs arbitrary: kr)
  case (Cons p xs)
  obtain now s where p: "p = (now, s)" by fastforce
  obtain res kr' s' where call: "claimRotating js now kinds kr s = (res, kr', s')" by (metis prod_cases3)
  with Cons.prems(5) p obtain r where r: "res = Inr r" by (cases res) auto
  have mem: "k \<in> set (rotation_order kr kinds)" using assms(2) by (simp add: rotation_order_def)
  have s: "invar s" "\<exists>j\<in>ran (jobs_of s). claimable (\<lambda>x. x = k) j" using Cons.prems(3) p by auto
  from try_kinds_result [OF s mem, of now kr r kr' s'] call r obtain job where
    job: "r = Some job" "kr' = served (job_Kind job) kr" "job_Kind job = k \<or> job_Kind job \<in> ahead kr kinds k"
    by (auto simp: claimRotating_def ahead_def)
  show ?case
  proof (cases "job_Kind job = k")
    case True
    with p call r job show ?thesis by auto
  next
    case False
    have seq: "kr_seq kr + 1 < 2 ^ 64" using Cons.prems(2) by simp
    have a: "ahead kr' kinds k = ahead kr kinds k - {job_Kind job}"
      using ahead_served [OF assms(1,2) False Cons.prems(1) seq] job(2) by simp
    have "finite (ahead kr kinds k)" by (simp add: ahead_def)
    with job(3) False a have "card (ahead kr' kinds k) < card (ahead kr kinds k)"
      using card_Diff1_less [of "ahead kr kinds k" "job_Kind job"] by metis
    moreover have "kr_seq kr' = kr_seq kr + 1" using job(2) seq Cons.prems(1) by (simp add: served_def rotation_ok_def Let_def)
    moreover have "rotation_ok kr'" using job(2) rotation_served_ok [OF Cons.prems(1) seq] by simp
    ultimately have "\<exists>job. Inr (Some job) \<in> set (rotate_claims js kinds kr' xs) \<and> job_Kind job = k"
      using Cons.prems p call by (intro Cons.IH) auto
    then show ?thesis using p call by auto
  qed
qed simp

end

lemma rotation_start: "rotation_ok \<lparr>kr_seq = 0, kr_last = Map.empty\<rparr>"
  by (simp add: rotation_ok_def last_of_def)

lemma ahead_bound: "distinct kinds \<Longrightarrow> k \<in> set kinds \<Longrightarrow> card (ahead kr kinds k) < length kinds"
proof -
  assume "distinct kinds" "k \<in> set kinds"
  then have "ahead kr kinds k \<subset> set kinds"
    using set_takeWhileD [of _ "\<lambda>x. x \<noteq> k" "rotation_order kr kinds"]
    by (auto simp: ahead_def rotation_order_def)
  then have "card (ahead kr kinds k) < card (set kinds)" by (intro psubset_card_mono) auto
  then show ?thesis using \<open>distinct kinds\<close> by (simp add: distinct_card)
qed


definition sample_wave :: SQLite where
  "sample_wave = snd (js_Enqueue SQLiteJobs ''c'' 3 ''migrate'' '''' ''''
     (snd (js_Enqueue SQLiteJobs ''b'' 2 ''backup'' '''' '''' (snd (js_Enqueue SQLiteJobs ''a'' 1 ''backup'' '''' '''' empty_db)))))"


end
