(* ===== verification/Image_Names.thy ===== *)
theory Image_Names
  imports Go_Regexp
begin

text \<open>
  \<^verbatim>\<open>internal/imgregistry/name.go\<close>: the grammars of repository names, tags and digests. The
  lemmas say which strings each validator accepts and why an accepted name cannot steer a
  registry request to another path.
\<close>

definition lower_alnum :: "(char \<times> char) list" where
  "lower_alnum = [(CHR ''a'', CHR ''z''), (CHR ''0'', CHR ''9'')]"

definition repoComponentRe :: rexp where
  "repoComponentRe =
     Seq (Plus (Cls lower_alnum))
       (Star (Seq (Alt (Cls [(CHR ''.'', CHR ''.''), (CHR ''_'', CHR ''_'')])
                       (Alt (Lit ''__'') (Plus (Cls [(CHR ''-'', CHR ''-'')]))))
                  (Plus (Cls lower_alnum))))"

definition ValidRepoName :: "string \<Rightarrow> bool" where
  "ValidRepoName repo =
     (if repo = '''' then False
      else list_all (MatchString repoComponentRe) (Split CHR ''/'' repo))"

definition tagRe :: rexp where
  "tagRe =
     Seq (Cls [(CHR ''a'', CHR ''z''), (CHR ''A'', CHR ''Z''), (CHR ''0'', CHR ''9''), (CHR ''_'', CHR ''_'')])
       (Between 0 127 (Cls [(CHR ''a'', CHR ''z''), (CHR ''A'', CHR ''Z''), (CHR ''0'', CHR ''9''),
          (CHR ''.'', CHR ''.''), (CHR ''_'', CHR ''_''), (CHR ''-'', CHR ''-'')]))"

definition digest_algorithm :: rexp where
  "digest_algorithm =
     Seq (Plus (Cls lower_alnum))
       (Star (Seq (Cls [(CHR ''+'', CHR ''+''), (CHR ''.'', CHR ''.''), (CHR ''_'', CHR ''_''), (CHR ''-'', CHR ''-'')])
                  (Plus (Cls lower_alnum))))"

definition digestRe :: rexp where
  "digestRe =
     Seq digest_algorithm (Seq (Lit '':'')
       (AtLeast 32 (Cls [(CHR ''a'', CHR ''f''), (CHR ''A'', CHR ''F''), (CHR ''0'', CHR ''9'')])))"

definition ValidRef :: "string \<Rightarrow> bool" where
  "ValidRef ref = (if ref = '''' then False else MatchString tagRe ref \<or> MatchString digestRe ref)"

definition IsDigestRef :: "string \<Rightarrow> bool" where
  "IsDigestRef ref = MatchString digestRe ref"

subsection \<open>Splitting at a separator\<close>

lemma Split_nonempty [simp]: "Split c s \<noteq> []"
  by (cases s) (auto split: list.split)

lemma Split_no_sep [simp]: "c \<notin> set s \<Longrightarrow> Split c s = [s]"
  by (induction s) auto

lemma Split_append: "Split c (s @ c # t) = Split c s @ Split c t"
proof (induction s)
  case (Cons x s)
  then show ?case by (cases "Split c s") (auto simp: list.case_eq_if hd_append)
qed simp

subsection \<open>What the validators accept\<close>

lemma MatchString_Plus_first:
  assumes "MatchString (Seq (Plus (Cls rs)) r) s"
  obtains c t where "s = c # t" "in_class rs c"
proof -
  from assms obtain u v where "s = u @ v" "u \<in> lang (Plus (Cls rs))"
    by (auto simp: MatchString_lang conc_def)
  with that show thesis by (cases u) (auto simp: lang_Plus_Cls)
qed

text \<open>Nothing an accepted component or reference contains ends a path segment, a path or an escape.\<close>

definition url_special :: string where
  "url_special = ''/?#% ''"

lemma repoComponent_chars:
  assumes "MatchString repoComponentRe s"
  shows "set s \<inter> set url_special = {}" and "s \<notin> {'''', ''.'', ''..''}"
proof -
  have "list_all (\<lambda>c. \<not> in_class (alphabet repoComponentRe) c) url_special" by code_simp
  with assms show "set s \<inter> set url_special = {}"
    by (auto simp: list_all_iff dest: MatchString_alphabet)
  from assms obtain c t where "s = c # t" "in_class lower_alnum c"
    unfolding repoComponentRe_def by (rule MatchString_Plus_first)
  moreover have "\<not> in_class lower_alnum CHR ''.''" by code_simp
  ultimately show "s \<notin> {'''', ''.'', ''..''}" by auto
qed

lemma MatchString_Cls_first: "MatchString (Seq (Cls rs) r) s \<Longrightarrow> \<exists>c t. s = c # t \<and> in_class rs c"
  by (auto simp: MatchString_lang conc_def)

lemma IsDigestRef_colon: "IsDigestRef ref \<Longrightarrow> CHR '':'' \<in> set ref"
  by (auto simp: IsDigestRef_def MatchString_lang digestRe_def conc_def lang_Lit simp del: Lit.simps)

definition tag_chars :: "(char \<times> char) list" where
  "tag_chars = [(CHR ''a'', CHR ''z''), (CHR ''A'', CHR ''Z''), (CHR ''0'', CHR ''9''),
     (CHR ''.'', CHR ''.''), (CHR ''_'', CHR ''_''), (CHR ''-'', CHR ''-'')]"

lemma tag_alphabet: "MatchString tagRe s \<Longrightarrow> c \<in> set s \<Longrightarrow> in_class tag_chars c"
proof (drule (1) MatchString_alphabet)
  assume "in_class (alphabet tagRe) c"
  then show ?thesis unfolding tagRe_def alphabet.simps in_class_append
    by (elim disjE) (auto simp: tag_chars_def dest!: alphabet_Between)
qed

definition digest_chars :: "(char \<times> char) list" where
  "digest_chars = [(CHR '':'', CHR '':''), (CHR ''a'', CHR ''f''), (CHR ''A'', CHR ''F''), (CHR ''0'', CHR ''9'')]"

lemma digest_alphabet:
  "MatchString digestRe s \<Longrightarrow> c \<in> set s \<Longrightarrow> in_class (alphabet digest_algorithm @ digest_chars) c"
proof (drule (1) MatchString_alphabet)
  assume "in_class (alphabet digestRe) c"
  then show ?thesis unfolding digestRe_def alphabet.simps in_class_append
    by (elim disjE) (auto simp: digest_chars_def dest!: alphabet_AtLeast)
qed

lemma tag_no_colon: "MatchString tagRe ref \<Longrightarrow> CHR '':'' \<notin> set ref"
proof
  assume "MatchString tagRe ref" "CHR '':'' \<in> set ref"
  then have "in_class tag_chars CHR '':''" by (rule tag_alphabet)
  moreover have "\<not> in_class tag_chars CHR '':''" by code_simp
  ultimately show False by simp
qed

lemma ValidRef_chars:
  assumes "ValidRef ref"
  shows "set ref \<inter> set url_special = {}" and "ref \<notin> {'''', ''.'', ''..''}"
proof -
  have "list_all (\<lambda>c. \<not> in_class tag_chars c \<and> \<not> in_class (alphabet digest_algorithm @ digest_chars) c) url_special"
    by code_simp
  with assms show "set ref \<inter> set url_special = {}"
    by (auto simp: ValidRef_def list_all_iff simp del: in_class_append split: if_splits
        dest: tag_alphabet digest_alphabet)
  have no: "\<not> in_class [(CHR ''a'', CHR ''z''), (CHR ''A'', CHR ''Z''), (CHR ''0'', CHR ''9''), (CHR ''_'', CHR ''_'')] CHR ''.''"
    by code_simp
  from assms have "MatchString tagRe ref \<or> IsDigestRef ref" by (auto simp: ValidRef_def IsDigestRef_def split: if_splits)
  then show "ref \<notin> {'''', ''.'', ''..''}"
  proof
    assume "MatchString tagRe ref"
    then obtain c t where "ref = c # t"
      "in_class [(CHR ''a'', CHR ''z''), (CHR ''A'', CHR ''Z''), (CHR ''0'', CHR ''9''), (CHR ''_'', CHR ''_'')] c"
      unfolding tagRe_def by (auto dest!: MatchString_Cls_first simp del: in_class.simps)
    with no show ?thesis by auto
  next
    assume "IsDigestRef ref"
    from IsDigestRef_colon [OF this] show ?thesis by auto
  qed
qed

lemma digest_not_tag: "IsDigestRef ref \<Longrightarrow> \<not> MatchString tagRe ref"
  using IsDigestRef_colon tag_no_colon by blast

lemma IsDigestRef_ValidRef: "IsDigestRef ref \<Longrightarrow> ValidRef ref"
  using IsDigestRef_colon [of ref] by (auto simp: ValidRef_def IsDigestRef_def)

subsection \<open>The path of a manifest request\<close>

definition manifest_path :: "string \<Rightarrow> string \<Rightarrow> string" where
  "manifest_path repo ref = ''/v2/'' @ repo @ ''/manifests/'' @ ref"

lemma manifest_path_segments:
  assumes "ValidRef ref"
  shows "Split CHR ''/'' (manifest_path repo ref) =
    ['''', ''v2''] @ Split CHR ''/'' repo @ [''manifests'', ref]"
proof -
  have "CHR ''/'' \<notin> set ref" using ValidRef_chars(1) [OF assms] by (auto simp: url_special_def)
  moreover have "manifest_path repo ref = ''/v2'' @ CHR ''/'' # repo @ CHR ''/'' # ''manifests'' @ CHR ''/'' # ref"
    by (simp add: manifest_path_def)
  ultimately show ?thesis by (simp only: Split_append) simp
qed

lemma valid_repo_segments:
  assumes "ValidRepoName repo" and "seg \<in> set (Split CHR ''/'' repo)"
  shows "set seg \<inter> set url_special = {}" and "seg \<notin> {'''', ''.'', ''..''}"
  using assms repoComponent_chars [of seg] by (auto simp: ValidRepoName_def list_all_iff split: if_splits)

end
