(* ===== verification/Registry_Client.thy ===== *)
theory Registry_Client
  imports Go_Errors Image_Names Store_Data "HOL-Library.Multiset"
begin

text \<open>
  \<^verbatim>\<open>internal/imgregistry/client.go\<close>: the registry client. The registry itself is the transport
  \<open>hc_HTTP\<close>, a function on an arbitrary state of the outside world that answers each request; so
  every theorem holds for a registry that changes between two requests. The client's \<^verbatim>\<open>Client\<close>
  interface is the record \<open>'w Client\<close>.
\<close>

subsection \<open>Data\<close>

record Layer =
  layer_Digest :: string
  layer_Size :: int

record Manifest =
  m_Digest :: string
  m_ConfigDigest :: string
  m_Layers :: "Layer list"
  m_Size :: int

record TagGroup =
  tg_Digest :: string
  tg_Tags :: "string list"
  tg_Created :: time
  tg_Size :: int

record DroppedTag =
  dt_Tag :: string
  dt_Vanished :: bool
  dt_Err :: rerr

record TagListing =
  tl_Groups :: "TagGroup list"
  tl_Dropped :: "DroppedTag list"

record 'w Client =
  cl_Catalog :: "('w, string list) call"
  cl_Tags :: "string \<Rightarrow> ('w, TagGroup list) call"
  cl_ResolveTags :: "string \<Rightarrow> ('w, TagListing) call"
  cl_TagCount :: "string \<Rightarrow> ('w, nat) call"
  cl_Manifest :: "string \<Rightarrow> string \<Rightarrow> ('w, Manifest) call"
  cl_Delete :: "string \<Rightarrow> string \<Rightarrow> ('w, unit) call"

subsection \<open>HTTP\<close>

record Auth =
  auth_Mode :: string
  auth_Username :: string
  auth_Password :: string

record Request =
  rq_Method :: string
  rq_URL :: string
  rq_Accept :: string
  rq_BasicAuth :: "(string \<times> string) option"

text \<open>A response; \<open>rs_Body\<close> is \<open>None\<close> when the body is not a JSON value.\<close>

record Response =
  rs_Status :: int
  rs_Link :: string
  rs_ContentDigest :: string
  rs_Body :: "json option"

text \<open>
  \<^verbatim>\<open>HTTPClient\<close>, with what it takes from the standard library: the transport, whether
  \<^verbatim>\<open>net/url\<close> accepts a request's URL, the path and raw query \<^verbatim>\<open>url.Parse\<close> finds, and
  \<^verbatim>\<open>time.Parse\<close> of an RFC 3339 instant.
\<close>

record 'w HTTPClient =
  hc_BaseURL :: string
  hc_Auth :: Auth
  hc_HTTP :: "Request \<Rightarrow> 'w \<Rightarrow> Response option \<times> 'w"
  hc_ValidURL :: "string \<Rightarrow> bool"
  hc_ParseURL :: "string \<Rightarrow> (string \<times> string) option"
  hc_ParseTime :: "string \<Rightarrow> time option"

definition NewHTTPClient :: "string \<Rightarrow> Auth \<Rightarrow> 'w HTTPClient \<Rightarrow> 'w HTTPClient" where
  "NewHTTPClient baseURL auth lib = lib\<lparr>hc_BaseURL := TrimRightFunc (\<lambda>c. c = CHR ''/'') baseURL, hc_Auth := auth\<rparr>"

definition new_request :: "'w HTTPClient \<Rightarrow> string \<Rightarrow> string \<Rightarrow> string \<Rightarrow> Request" where
  "new_request c method path accept =
     \<lparr>rq_Method = method, rq_URL = hc_BaseURL c @ path, rq_Accept = accept,
      rq_BasicAuth = (if auth_Mode (hc_Auth c) = ''basic''
                      then Some (auth_Username (hc_Auth c), auth_Password (hc_Auth c)) else None)\<rparr>"

text \<open>A request and the reading of its status: 404 is the one answer that means absence.\<close>

definition send :: "'w HTTPClient \<Rightarrow> Request \<Rightarrow> ('w, Response) call" where
  "send c req w =
     (if \<not> hc_ValidURL c (rq_URL req) then (Inl (RErr [] ''new request''), w)
      else case hc_HTTP c req w of
        (None, w') \<Rightarrow> (Inl (RErr [RegUnreachable] ''transport''), w')
      | (Some resp, w') \<Rightarrow>
          if rs_Status resp = 404 then (Inl (RErr [RegNotFound] ''not found''), w')
          else if rs_Status resp < 200 \<or> 300 \<le> rs_Status resp then (Inl (RErr [RegUnreachable] ''status''), w')
          else (Inr resp, w'))"

definition http_do :: "'w HTTPClient \<Rightarrow> string \<Rightarrow> ('w, Response) call" where
  "http_do c path = send c (new_request c ''GET'' path '''')"

subsection \<open>Decoding\<close>

text \<open>
  \<^verbatim>\<open>encoding/json\<close> into the structs the client declares: a key matches a field up to case, the
  last match counts; an absent field or a null is the zero value; a value of another type is an error.
\<close>

definition json_field :: "string \<Rightarrow> (string \<times> json) list \<Rightarrow> json option" where
  "json_field k kvs = map_of (map (\<lambda>(x, v). (ToLower x, v)) (rev kvs)) k"

fun json_object :: "json \<Rightarrow> (string \<times> json) list option" where
  "json_object (JObject kvs) = Some kvs"
| "json_object JNull = Some []"
| "json_object _ = None"

fun json_string :: "json \<Rightarrow> string option" where
  "json_string (JString s) = Some s"
| "json_string JNull = Some ''''"
| "json_string _ = None"

fun json_int64 :: "json \<Rightarrow> int option" where
  "json_int64 (JNumber s) = Atoi s"
| "json_int64 JNull = Some 0"
| "json_int64 _ = None"

fun json_list :: "(json \<Rightarrow> 'a option) \<Rightarrow> json \<Rightarrow> 'a list option" where
  "json_list f (JArray xs) = those (map f xs)"
| "json_list f JNull = Some []"
| "json_list f _ = None"

definition opt_field :: "string \<Rightarrow> (json \<Rightarrow> 'a option) \<Rightarrow> 'a \<Rightarrow> (string \<times> json) list \<Rightarrow> 'a option" where
  "opt_field k f zero kvs = (case json_field k kvs of None \<Rightarrow> Some zero | Some v \<Rightarrow> f v)"

definition decode_strings :: "string \<Rightarrow> json option \<Rightarrow> string list option" where
  "decode_strings k body =
     Option.bind body (\<lambda>j. Option.bind (json_object j) (opt_field k (json_list json_string) []))"

definition decode_blob :: "json \<Rightarrow> (string \<times> int) option" where
  "decode_blob j = Option.bind (json_object j) (\<lambda>kvs.
     Option.bind (opt_field ''digest'' json_string '''' kvs) (\<lambda>d.
       map_option (Pair d) (opt_field ''size'' json_int64 0 kvs)))"

definition decode_config :: "json \<Rightarrow> (string \<times> int) option option" where
  "decode_config j = (case j of JNull \<Rightarrow> Some None | _ \<Rightarrow> map_option Some (decode_blob j))"

text \<open>A manifest body: its config, its layers, and whether a \<^verbatim>\<open>manifests\<close> key is present.\<close>

definition decode_manifest :: "json option \<Rightarrow> ((string \<times> int) option \<times> (string \<times> int) list \<times> bool) option" where
  "decode_manifest body =
     Option.bind body (\<lambda>j. Option.bind (json_object j) (\<lambda>kvs.
       Option.bind (opt_field ''config'' decode_config None kvs) (\<lambda>cfg.
         Option.bind (opt_field ''layers'' (json_list decode_blob) [] kvs) (\<lambda>layers.
           Some (cfg, layers, json_field ''manifests'' kvs \<noteq> None)))))"

subsection \<open>Pages\<close>

definition catalogPageSize :: string where
  "catalogPageSize = ''100''"

definition maxPaginationPages :: nat where
  "maxPaginationPages = 1000"

text \<open>Whether a string contains another.\<close>

fun str_contains :: "string \<Rightarrow> string \<Rightarrow> bool" where
  "str_contains [] p \<longleftrightarrow> p = []"
| "str_contains (c # s) p \<longleftrightarrow> HasPrefix (c # s) p \<or> str_contains s p"

definition rel_next :: string where
  "rel_next = ''rel='' @ [CHR 0x22] @ ''next'' @ [CHR 0x22]"

fun next_entry :: "(string \<Rightarrow> (string \<times> string) option) \<Rightarrow> string list \<Rightarrow> string" where
  "next_entry parse [] = ''''"
| "next_entry parse (part # parts) =
     (if \<not> str_contains part rel_next then next_entry parse parts
      else case (IndexByte part CHR ''<'', IndexByte part CHR ''>'') of
        (Some start, Some stop) \<Rightarrow>
          if stop \<le> start then next_entry parse parts
          else (case parse (take (stop - (start + 1)) (drop (start + 1) part)) of
                  None \<Rightarrow> next_entry parse parts
                | Some (path, query) \<Rightarrow> if query = '''' then path else path @ ''?'' @ query)
      | _ \<Rightarrow> next_entry parse parts)"

definition nextLinkPath :: "(string \<Rightarrow> (string \<times> string) option) \<Rightarrow> string \<Rightarrow> string" where
  "nextLinkPath parse link = (if link = '''' then '''' else next_entry parse (Split CHR '','' link))"

text \<open>The loop of \<^verbatim>\<open>Catalog\<close> and \<^verbatim>\<open>listTags\<close>: follow the next links, at most \<open>maxPaginationPages\<close> of them.\<close>

function follow_pages :: "'w HTTPClient \<Rightarrow> string \<Rightarrow> nat \<Rightarrow> string \<Rightarrow> string list \<Rightarrow> ('w, string list) call" where
  "follow_pages c key pages path acc w =
     (if path = '''' then (Inr acc, w)
      else if maxPaginationPages \<le> pages then (Inl (RErr [RegUnreachable] ''exceeded pages''), w)
      else case http_do c path w of
        (Inl e, w') \<Rightarrow> (Inl e, w')
      | (Inr resp, w') \<Rightarrow>
          (case decode_strings key (rs_Body resp) of
             None \<Rightarrow> (Inl (RErr [RegUnreachable] ''decode page''), w')
           | Some names \<Rightarrow>
               follow_pages c key (pages + 1) (nextLinkPath (hc_ParseURL c) (rs_Link resp)) (acc @ names) w'))"
  by pat_completeness auto

termination
  by (relation "measure (\<lambda>(_, _, pages, _). maxPaginationPages - pages)") auto

declare follow_pages.simps [simp del]

definition http_Catalog :: "'w HTTPClient \<Rightarrow> ('w, string list) call" where
  "http_Catalog c = follow_pages c ''repositories'' 0 (''/v2/_catalog?n='' @ catalogPageSize) []"

definition listTags :: "'w HTTPClient \<Rightarrow> string \<Rightarrow> ('w, string list) call" where
  "listTags c repo = follow_pages c ''tags'' 0 (''/v2/'' @ repo @ ''/tags/list?n='' @ catalogPageSize) []"

definition http_TagCount :: "'w HTTPClient \<Rightarrow> string \<Rightarrow> ('w, nat) call" where
  "http_TagCount c repo w =
     (case listTags c repo w of (Inl e, w') \<Rightarrow> (Inl e, w') | (Inr tags, w') \<Rightarrow> (Inr (length tags), w'))"

definition tagStillListed :: "'w HTTPClient \<Rightarrow> string \<Rightarrow> string \<Rightarrow> ('w, bool) call" where
  "tagStillListed c repo tag w =
     (case listTags c repo w of (Inl e, w') \<Rightarrow> (Inl e, w') | (Inr tags, w') \<Rightarrow> (Inr (tag \<in> set tags), w'))"

subsection \<open>Manifests and blobs\<close>

definition manifestAccept :: string where
  "manifestAccept =
     ''application/vnd.docker.distribution.manifest.v2+json, application/vnd.oci.image.manifest.v1+json, '' @
     ''application/vnd.docker.distribution.manifest.list.v2+json, application/vnd.oci.image.index.v1+json, '' @
     ''application/vnd.docker.distribution.manifest.v1+json, application/vnd.oci.artifact.manifest.v1+json''"

definition http_Manifest :: "'w HTTPClient \<Rightarrow> string \<Rightarrow> string \<Rightarrow> ('w, Manifest) call" where
  "http_Manifest c repo ref w =
     (case send c (new_request c ''GET'' (manifest_path repo ref) manifestAccept) w of
        (Inl e, w') \<Rightarrow> (Inl e, w')
      | (Inr resp, w') \<Rightarrow>
          (case decode_manifest (rs_Body resp) of
             None \<Rightarrow> (Inl (RErr [RegUnreachable] ''decode manifest''), w')
           | Some (cfg, layers, index) \<Rightarrow>
               let m = \<lparr>m_Digest = rs_ContentDigest resp, m_ConfigDigest = '''', m_Layers = [], m_Size = 0\<rparr>
               in if m_Digest m = '''' then (Inl (RErr [RegUnreachable] ''no Docker-Content-Digest header''), w')
                  else if index then (Inr m, w')
                  else
                    let m1 = (case cfg of None \<Rightarrow> m | Some (d, n) \<Rightarrow> m\<lparr>m_ConfigDigest := d, m_Size := n\<rparr>)
                    in (Inr (fold (\<lambda>(d, n) m. m\<lparr>m_Layers := m_Layers m @ [\<lparr>layer_Digest = d, layer_Size = n\<rparr>],
                                                 m_Size := wrap64 (m_Size m + n)\<rparr>) layers m1), w')))"

definition manifestDigest :: "'w HTTPClient \<Rightarrow> string \<Rightarrow> string \<Rightarrow> ('w, string) call" where
  "manifestDigest c repo ref w =
     (case send c (new_request c ''HEAD'' (manifest_path repo ref) manifestAccept) w of
        (Inl e, w') \<Rightarrow> (Inl e, w')
      | (Inr resp, w') \<Rightarrow>
          if rs_ContentDigest resp = '''' then (Inl (RErr [RegUnreachable] ''no Docker-Content-Digest header''), w')
          else (Inr (rs_ContentDigest resp), w'))"

definition blobCreated :: "'w HTTPClient \<Rightarrow> string \<Rightarrow> string \<Rightarrow> ('w, time) call" where
  "blobCreated c repo digest w =
     (case http_do c (''/v2/'' @ repo @ ''/blobs/'' @ digest) w of
        (Inl e, w') \<Rightarrow> (Inl e, w')
      | (Inr resp, w') \<Rightarrow>
          (case Option.bind (rs_Body resp) (\<lambda>j. Option.bind (json_object j) (opt_field ''created'' json_string '''')) of
             None \<Rightarrow> (Inl (RErr [] ''decode config blob''), w')
           | Some created \<Rightarrow>
               if created = '''' then (Inr 0, w')
               else (case hc_ParseTime c created of
                       None \<Rightarrow> (Inl (RErr [] ''parse time''), w')
                     | Some t \<Rightarrow> (Inr t, w'))))"

subsection \<open>Resolving the tags of a repository\<close>

record tagResolution =
  tr_tag :: string
  tr_manifest :: "rerr + Manifest"

record digestGroup =
  dg_group :: TagGroup
  dg_configDigest :: string

text \<open>
  Phase 1. The goroutines write disjoint slots and only the registry sees their order; the
  transport may answer anything, so one order stands for all.
\<close>

fun fetch_manifests :: "'w HTTPClient \<Rightarrow> string \<Rightarrow> string list \<Rightarrow> 'w \<Rightarrow> tagResolution list \<times> 'w" where
  "fetch_manifests c repo [] w = ([], w)"
| "fetch_manifests c repo (tag # tags) w =
     (case http_Manifest c repo tag w of
        (m, w1) \<Rightarrow>
          (case fetch_manifests c repo tags w1 of
             (rs, w2) \<Rightarrow> (\<lparr>tr_tag = tag, tr_manifest = m\<rparr> # rs, w2)))"

text \<open>A tag no manifest was read for: its digest by HEAD, or why it is dropped.\<close>

definition second_look :: "'w HTTPClient \<Rightarrow> string \<Rightarrow> string \<Rightarrow> 'w \<Rightarrow> (DroppedTag + Manifest) \<times> 'w" where
  "second_look c repo tag w =
     (case manifestDigest c repo tag w of
        (Inr d, w') \<Rightarrow> (Inr \<lparr>m_Digest = d, m_ConfigDigest = '''', m_Layers = [], m_Size = 0\<rparr>, w')
      | (Inl _, w') \<Rightarrow>
          (case tagStillListed c repo tag w' of
             (Inl lerr, w2) \<Rightarrow>
               (Inl \<lparr>dt_Tag = tag, dt_Vanished = False,
                     dt_Err = RErr (RegUnreachable # wraps lerr) ''could not re-read the tag list''\<rparr>, w2)
           | (Inr True, w2) \<Rightarrow>
               (Inl \<lparr>dt_Tag = tag, dt_Vanished = False,
                     dt_Err = RErr [RegUnreachable] ''still listed but its manifest could not be read''\<rparr>, w2)
           | (Inr False, w2) \<Rightarrow>
               (Inl \<lparr>dt_Tag = tag, dt_Vanished = True,
                     dt_Err = RErr [RegNotFound] ''no longer in the tag list''\<rparr>, w2)))"

text \<open>Phase 2. \<^verbatim>\<open>byDigest\<close> and \<^verbatim>\<open>order\<close> together are the list of groups in order of first appearance.\<close>

fun add_tag :: "string \<Rightarrow> Manifest \<Rightarrow> digestGroup list \<Rightarrow> digestGroup list" where
  "add_tag tag m [] =
     [\<lparr>dg_group = \<lparr>tg_Digest = m_Digest m, tg_Tags = [tag], tg_Created = 0, tg_Size = m_Size m\<rparr>,
       dg_configDigest = m_ConfigDigest m\<rparr>]"
| "add_tag tag m (g # gs) =
     (if tg_Digest (dg_group g) = m_Digest m
      then g\<lparr>dg_group := (dg_group g)\<lparr>tg_Tags := tg_Tags (dg_group g) @ [tag]\<rparr>\<rparr> # gs
      else g # add_tag tag m gs)"

fun group_tags ::
  "'w HTTPClient \<Rightarrow> string \<Rightarrow> tagResolution list \<Rightarrow> digestGroup list \<Rightarrow> DroppedTag list \<Rightarrow> 'w \<Rightarrow>
     (digestGroup list \<times> DroppedTag list) \<times> 'w" where
  "group_tags c repo [] groups dropped w = ((groups, dropped), w)"
| "group_tags c repo (r # rs) groups dropped w =
     (case tr_manifest r of
        Inr m \<Rightarrow> group_tags c repo rs (add_tag (tr_tag r) m groups) dropped w
      | Inl _ \<Rightarrow>
          (case second_look c repo (tr_tag r) w of
             (Inr m, w') \<Rightarrow> group_tags c repo rs (add_tag (tr_tag r) m groups) dropped w'
           | (Inl d, w') \<Rightarrow> group_tags c repo rs groups (dropped @ [d]) w'))"

text \<open>Phase 3. A blob that cannot be read leaves the creation time zero.\<close>

fun fetch_created :: "'w HTTPClient \<Rightarrow> string \<Rightarrow> digestGroup list \<Rightarrow> 'w \<Rightarrow> TagGroup list \<times> 'w" where
  "fetch_created c repo [] w = ([], w)"
| "fetch_created c repo (g # gs) w =
     (let (tg, w1) =
        (if dg_configDigest g = '''' then (dg_group g, w)
         else case blobCreated c repo (dg_configDigest g) w of
           (Inr t, w1) \<Rightarrow> ((dg_group g)\<lparr>tg_Created := t\<rparr>, w1)
         | (Inl _, w1) \<Rightarrow> (dg_group g, w1))
      in case fetch_created c repo gs w1 of (tgs, w2) \<Rightarrow> (tg # tgs, w2))"

text \<open>
  \<^verbatim>\<open>sort.Slice\<close> orders the groups newest first; where it leaves groups of one instant is not
  specified, and the model keeps them in order of appearance.
\<close>

definition http_ResolveTags :: "'w HTTPClient \<Rightarrow> string \<Rightarrow> ('w, TagListing) call" where
  "http_ResolveTags c repo w =
     (case listTags c repo w of
        (Inl e, w1) \<Rightarrow> (Inl e, w1)
      | (Inr tagNames, w1) \<Rightarrow>
          (case fetch_manifests c repo tagNames w1 of
             (rs, w2) \<Rightarrow>
               (case group_tags c repo rs [] [] w2 of
                  ((groups, dropped), w3) \<Rightarrow>
                    (case fetch_created c repo groups w3 of
                       (tgs, w4) \<Rightarrow>
                         (Inr \<lparr>tl_Groups = sort_key (\<lambda>g. - tg_Created g) tgs, tl_Dropped = dropped\<rparr>, w4)))))"

definition http_Tags :: "'w HTTPClient \<Rightarrow> string \<Rightarrow> ('w, TagGroup list) call" where
  "http_Tags c repo w =
     (case http_ResolveTags c repo w of (Inl e, w') \<Rightarrow> (Inl e, w') | (Inr l, w') \<Rightarrow> (Inr (tl_Groups l), w'))"

subsection \<open>Deleting a manifest\<close>

definition http_Delete :: "'w HTTPClient \<Rightarrow> string \<Rightarrow> string \<Rightarrow> ('w, unit) call" where
  "http_Delete c repo digest w =
     (if \<not> ValidRepoName repo then (Inl (RErr [] ''invalid repo name''), w)
      else if \<not> ValidRef digest \<or> \<not> IsDigestRef digest then (Inl (RErr [] ''ref must be digest-form''), w)
      else case send c (new_request c ''DELETE'' (manifest_path repo digest) '''') w of
        (Inl e, w') \<Rightarrow> (Inl e, w')
      | (Inr _, w') \<Rightarrow> (Inr (), w'))"

definition HTTPClient :: "'w HTTPClient \<Rightarrow> 'w Client" where
  "HTTPClient c =
     \<lparr>cl_Catalog = http_Catalog c, cl_Tags = http_Tags c, cl_ResolveTags = http_ResolveTags c,
      cl_TagCount = http_TagCount c, cl_Manifest = http_Manifest c, cl_Delete = http_Delete c\<rparr>"

subsection \<open>The states a request leads to\<close>

inductive later :: "'w HTTPClient \<Rightarrow> 'w \<Rightarrow> 'w \<Rightarrow> bool" for c where
  later_refl [simp, intro!]: "later c w w"
| later_step: "later c w w1 \<Longrightarrow> hc_HTTP c req w1 = (r, w2) \<Longrightarrow> later c w w2"

lemma later_trans [trans]: "later c w w1 \<Longrightarrow> later c w1 w2 \<Longrightarrow> later c w w2"
  by (rotate_tac, induction rule: later.induct) (auto intro: later_step)

lemma later_send: "send c req w = (r, w') \<Longrightarrow> later c w w'"
  by (auto simp: send_def split: if_splits prod.splits option.splits intro: later_step)

lemma later_do: "http_do c path w = (r, w') \<Longrightarrow> later c w w'"
  by (simp add: http_do_def later_send)

lemma later_pages: "follow_pages c key pages path acc w = (r, w') \<Longrightarrow> later c w w'"
proof (induction c key pages path acc w arbitrary: r w' rule: follow_pages.induct)
  case (1 c key pages path acc w)
  obtain res w1 where do: "http_do c path w = (res, w1)" by fastforce
  note l = later_do [OF do]
  show ?case
  proof (cases "path = '''' \<or> maxPaginationPages \<le> pages")
    case True
    with 1(2) show ?thesis by (auto simp: follow_pages.simps [of c key pages path acc w] split: if_splits)
  next
    case False
    show ?thesis
    proof (cases res)
      case (Inl e)
      with 1(2) False do l show ?thesis by (simp add: follow_pages.simps [of c key pages path acc w])
    next
      case (Inr resp)
      show ?thesis
      proof (cases "decode_strings key (rs_Body resp)")
        case None
        with 1(2) False do l Inr show ?thesis by (simp add: follow_pages.simps [of c key pages path acc w])
      next
        case (Some names)
        with 1(2) False do Inr have "follow_pages c key (pages + 1) (nextLinkPath (hc_ParseURL c) (rs_Link resp)) (acc @ names) w1 = (r, w')"
          by (simp add: follow_pages.simps [of c key pages path acc w])
        with 1(1) False do Inr Some have "later c w1 w'" by auto
        with l show ?thesis by (rule later_trans)
      qed
    qed
  qed
qed

lemma later_listTags: "listTags c repo w = (r, w') \<Longrightarrow> later c w w'"
  by (simp add: listTags_def later_pages)

lemma later_Manifest: "http_Manifest c repo ref w = (r, w') \<Longrightarrow> later c w w'"
  by (auto simp: http_Manifest_def Let_def split: prod.splits sum.splits option.splits if_splits dest: later_send)

lemma later_manifestDigest: "manifestDigest c repo ref w = (r, w') \<Longrightarrow> later c w w'"
  by (auto simp: manifestDigest_def split: prod.splits sum.splits if_splits dest: later_send)

lemma later_blobCreated: "blobCreated c repo d w = (r, w') \<Longrightarrow> later c w w'"
  by (auto simp: blobCreated_def split: prod.splits sum.splits option.splits if_splits dest: later_do)

lemma later_tagStillListed: "tagStillListed c repo tag w = (r, w') \<Longrightarrow> later c w w'"
  by (auto simp: tagStillListed_def split: prod.splits sum.splits dest: later_listTags)

subsection \<open>What a listing says\<close>

text \<open>
  The evidence behind a listing: the registry gave digest \<open>d\<close> for \<open>tag\<close>, or it gave a complete tag list
  without \<open>tag\<close>, at some point after the state \<open>w\<close>.
\<close>

definition answered :: "'w HTTPClient \<Rightarrow> string \<Rightarrow> 'w \<Rightarrow> string \<Rightarrow> string \<Rightarrow> bool" where
  "answered c repo w tag d \<longleftrightarrow>
     (\<exists>w1. later c w w1 \<and>
        ((\<exists>m. fst (http_Manifest c repo tag w1) = Inr m \<and> m_Digest m = d) \<or>
         fst (manifestDigest c repo tag w1) = Inr d))"

definition gone :: "'w HTTPClient \<Rightarrow> string \<Rightarrow> 'w \<Rightarrow> string \<Rightarrow> bool" where
  "gone c repo w tag \<longleftrightarrow>
     (\<exists>w1 tags. later c w w1 \<and> fst (listTags c repo w1) = Inr tags \<and> tag \<notin> set tags)"

definition dropped_ok :: "'w HTTPClient \<Rightarrow> string \<Rightarrow> 'w \<Rightarrow> DroppedTag \<Rightarrow> bool" where
  "dropped_ok c repo w d \<longleftrightarrow> (dt_Vanished d \<longrightarrow> gone c repo w (dt_Tag d))"

definition group_ok :: "'w HTTPClient \<Rightarrow> string \<Rightarrow> 'w \<Rightarrow> TagGroup \<Rightarrow> bool" where
  "group_ok c repo w g \<longleftrightarrow>
     tg_Tags g \<noteq> [] \<and> tg_Digest g \<noteq> '''' \<and> (\<forall>t\<in>set (tg_Tags g). answered c repo w t (tg_Digest g))"

lemma Manifest_digest: "http_Manifest c repo ref w = (Inr m, w') \<Longrightarrow> m_Digest m \<noteq> ''''"
proof -
  have keep: "m_Digest (fold (\<lambda>(d, n) m. m\<lparr>m_Layers := m_Layers m @ [\<lparr>layer_Digest = d, layer_Size = n\<rparr>],
      m_Size := wrap64 (m_Size m + n)\<rparr>) ls m) = m_Digest m" for ls m
    by (induction ls arbitrary: m) auto
  assume "http_Manifest c repo ref w = (Inr m, w')"
  then show ?thesis
    by (auto simp: http_Manifest_def Let_def keep split: prod.splits sum.splits option.splits if_splits)
qed

lemma manifestDigest_digest: "manifestDigest c repo ref w = (Inr d, w') \<Longrightarrow> d \<noteq> ''''"
  by (auto simp: manifestDigest_def split: prod.splits sum.splits if_splits)

lemma fetch_manifests_later: "fetch_manifests c repo tags w = (rs, w') \<Longrightarrow> later c w w'"
proof (induction tags arbitrary: w rs w')
  case (Cons tag tags)
  obtain m w1 where m: "http_Manifest c repo tag w = (m, w1)" by fastforce
  obtain rs' w2 where r: "fetch_manifests c repo tags w1 = (rs', w2)" by fastforce
  from Cons.prems m r have "w' = w2" by simp
  with later_trans [OF later_Manifest [OF m] Cons.IH [OF r]] show ?case by simp
qed simp

lemma fetch_manifests_answers:
  "fetch_manifests c repo tags w = (rs, w') \<Longrightarrow>
     map tr_tag rs = tags \<and>
     (\<forall>r\<in>set rs. \<forall>m. tr_manifest r = Inr m \<longrightarrow> m_Digest m \<noteq> '''' \<and> answered c repo w (tr_tag r) (m_Digest m))"
proof (induction tags arbitrary: w rs w')
  case (Cons tag tags)
  obtain m w1 where m: "http_Manifest c repo tag w = (m, w1)" by fastforce
  obtain rs' w2 where r: "fetch_manifests c repo tags w1 = (rs', w2)" by fastforce
  have rs: "rs = \<lparr>tr_tag = tag, tr_manifest = m\<rparr> # rs'" using Cons.prems m r by simp
  have lift: "answered c repo w1 t d \<Longrightarrow> answered c repo w t d" for t d
    using later_trans [OF later_Manifest [OF m]] by (auto simp: answered_def)
  have first: "m = Inr x \<Longrightarrow> m_Digest x \<noteq> '''' \<and> answered c repo w tag (m_Digest x)" for x
    using m Manifest_digest [of c repo tag w x w1] by (auto simp: answered_def intro!: exI [of _ w])
  from Cons.IH [OF r] first lift show ?case by (auto simp: rs)
qed simp

lemma second_look_later: "second_look c repo tag w = (x, w') \<Longrightarrow> later c w w'"
  by (auto simp: second_look_def split: prod.splits sum.splits bool.splits
      dest: later_manifestDigest later_tagStillListed intro: later_trans)

lemma second_look_Inr:
  "second_look c repo tag w = (Inr m, w') \<Longrightarrow> m_Digest m \<noteq> '''' \<and> answered c repo w tag (m_Digest m)"
  by (auto simp: second_look_def answered_def split: prod.splits sum.splits bool.splits
      dest: manifestDigest_digest intro!: exI [of _ w])

lemma second_look_Inl:
  assumes "second_look c repo tag w = (Inl d, w')"
  shows "dt_Tag d = tag \<and> dropped_ok c repo w d"
proof -
  obtain r w1 where h: "manifestDigest c repo tag w = (r, w1)" by fastforce
  obtain t w2 where t: "listTags c repo w1 = (t, w2)" by fastforce
  show ?thesis
    using assms h t later_manifestDigest [OF h]
    by (cases r; cases t)
      (auto simp: second_look_def tagStillListed_def dropped_ok_def gone_def split: if_splits bool.splits intro!: exI [of _ w1])
qed

lemma add_tag_digests:
  "map (tg_Digest \<circ> dg_group) (add_tag tag m gs) =
     (if m_Digest m \<in> (tg_Digest \<circ> dg_group) ` set gs then map (tg_Digest \<circ> dg_group) gs
      else map (tg_Digest \<circ> dg_group) gs @ [m_Digest m])"
  by (induction gs) auto

lemma add_tag_distinct:
  "distinct (map (tg_Digest \<circ> dg_group) gs) \<Longrightarrow> distinct (map (tg_Digest \<circ> dg_group) (add_tag tag m gs))"
  unfolding add_tag_digests by auto

lemma add_tag_tags:
  "mset (concat (map (tg_Tags \<circ> dg_group) (add_tag tag m gs))) = add_mset tag (mset (concat (map (tg_Tags \<circ> dg_group) gs)))"
  by (induction gs) auto

lemma add_tag_ok:
  "\<forall>g\<in>set gs. group_ok c repo w (dg_group g) \<Longrightarrow> m_Digest m \<noteq> '''' \<Longrightarrow> answered c repo w tag (m_Digest m) \<Longrightarrow>
     \<forall>g\<in>set (add_tag tag m gs). group_ok c repo w (dg_group g)"
proof (induction gs)
  case Nil
  then show ?case by (simp add: group_ok_def)
next
  case (Cons g gs)
  then have g: "group_ok c repo w (dg_group g)" and gs: "\<forall>g\<in>set gs. group_ok c repo w (dg_group g)" by auto
  show ?case
  proof (cases "tg_Digest (dg_group g) = m_Digest m")
    case True
    from g Cons.prems(3) have "group_ok c repo w ((dg_group g)\<lparr>tg_Tags := tg_Tags (dg_group g) @ [tag]\<rparr>)"
      by (auto simp: group_ok_def True)
    with True gs show ?thesis by simp
  next
    case False
    with Cons.IH [OF gs Cons.prems(2,3)] g show ?thesis by simp
  qed
qed

lemma evidence_mono:
  "later c w w1 \<Longrightarrow> answered c repo w1 t d \<Longrightarrow> answered c repo w t d"
  "later c w w1 \<Longrightarrow> dropped_ok c repo w1 x \<Longrightarrow> dropped_ok c repo w x"
  by (auto simp: answered_def dropped_ok_def gone_def intro: later_trans)

lemma group_tags_ok:
  assumes "group_tags c repo rs gs ds w1 = ((gs', ds'), w2)" and "later c w w1"
    and "distinct (map (tg_Digest \<circ> dg_group) gs)" and "\<forall>g\<in>set gs. group_ok c repo w (dg_group g)"
    and "\<forall>d\<in>set ds. dropped_ok c repo w d"
    and "\<forall>r\<in>set rs. \<forall>m. tr_manifest r = Inr m \<longrightarrow> m_Digest m \<noteq> '''' \<and> answered c repo w (tr_tag r) (m_Digest m)"
  shows "distinct (map (tg_Digest \<circ> dg_group) gs') \<and> (\<forall>g\<in>set gs'. group_ok c repo w (dg_group g)) \<and>
    (\<forall>d\<in>set ds'. dropped_ok c repo w d) \<and>
    mset (concat (map (tg_Tags \<circ> dg_group) gs')) + mset (map dt_Tag ds') =
      mset (concat (map (tg_Tags \<circ> dg_group) gs)) + mset (map dt_Tag ds) + mset (map tr_tag rs)"
  using assms
proof (induction rs arbitrary: gs ds w1)
  case (Cons r rs)
  note prems = Cons.prems
  have add: "m_Digest m \<noteq> '''' \<Longrightarrow> answered c repo w (tr_tag r) (m_Digest m) \<Longrightarrow> later c w wx \<Longrightarrow>
      group_tags c repo rs (add_tag (tr_tag r) m gs) ds wx = ((gs', ds'), w2) \<Longrightarrow> ?case" for m wx
    using Cons.IH [OF _ _ add_tag_distinct [OF prems(3)] add_tag_ok [OF prems(4)] prems(5)] prems(6)
    by (simp add: add_tag_tags [unfolded comp_def])
  show ?case
  proof (cases "tr_manifest r")
    case (Inr m)
    with prems(1,2,6) show ?thesis by (intro add [of m w1]) auto
  next
    case (Inl e)
    obtain x wx where look: "second_look c repo (tr_tag r) w1 = (x, wx)" by fastforce
    have lx: "later c w wx" by (rule later_trans [OF prems(2) second_look_later [OF look]])
    show ?thesis
    proof (cases x)
      case (Inr m)
      with second_look_Inr [of c repo "tr_tag r" w1 m wx] look evidence_mono(1) [OF prems(2)]
      have "m_Digest m \<noteq> ''''" "answered c repo w (tr_tag r) (m_Digest m)" by auto
      with prems(1) Inl Inr look lx show ?thesis by (intro add [of m wx]) auto
    next
      case d: (Inl d)
      with second_look_Inl [of c repo "tr_tag r" w1 d wx] look evidence_mono(2) [OF prems(2)]
      have "dt_Tag d = tr_tag r" "dropped_ok c repo w d" by auto
      with Cons.IH [of gs "ds @ [d]" wx] prems Inl d look lx show ?thesis by auto
    qed
  qed
qed simp

lemma fetch_created_same:
  "fetch_created c repo gs w = (tgs, w') \<Longrightarrow>
     map tg_Digest tgs = map (tg_Digest \<circ> dg_group) gs \<and> map tg_Tags tgs = map (tg_Tags \<circ> dg_group) gs"
  by (induction gs arbitrary: w tgs) (auto simp: Let_def split: if_splits prod.splits sum.splits)

lemma ResolveTags_listing:
  assumes "http_ResolveTags c repo w = (Inr l, w')"
  shows "\<exists>tags w1. listTags c repo w = (Inr tags, w1) \<and>
    mset (concat (map tg_Tags (tl_Groups l))) + mset (map dt_Tag (tl_Dropped l)) = mset tags \<and>
    distinct (map tg_Digest (tl_Groups l)) \<and>
    sorted_wrt (\<lambda>a b. tg_Created b \<le> tg_Created a) (tl_Groups l) \<and>
    (\<forall>g\<in>set (tl_Groups l). group_ok c repo w1 g) \<and>
    (\<forall>d\<in>set (tl_Dropped l). dropped_ok c repo w1 d)"
proof -
  from assms obtain tags w1 where l1: "listTags c repo w = (Inr tags, w1)"
    by (auto simp: http_ResolveTags_def split: prod.splits sum.splits)
  obtain rs w2 where l2: "fetch_manifests c repo tags w1 = (rs, w2)" by fastforce
  obtain gs ds w3 where l3: "group_tags c repo rs [] [] w2 = ((gs, ds), w3)" by (metis prod.exhaust)
  obtain tgs w4 where l4: "fetch_created c repo gs w3 = (tgs, w4)" by fastforce
  have l: "tl_Groups l = sort_key (\<lambda>g. - tg_Created g) tgs" "tl_Dropped l = ds"
    using assms l1 l2 l3 l4 by (auto simp: http_ResolveTags_def)
  have rs: "map tr_tag rs = tags" "\<forall>r\<in>set rs. \<forall>m. tr_manifest r = Inr m \<longrightarrow> m_Digest m \<noteq> '''' \<and> answered c repo w1 (tr_tag r) (m_Digest m)"
    using fetch_manifests_answers [OF l2] by auto
  have g: "distinct (map (tg_Digest \<circ> dg_group) gs)" "\<forall>g\<in>set gs. group_ok c repo w1 (dg_group g)"
    "\<forall>d\<in>set ds. dropped_ok c repo w1 d"
    "mset (concat (map (tg_Tags \<circ> dg_group) gs)) + mset (map dt_Tag ds) = mset tags"
    using group_tags_ok [OF l3 fetch_manifests_later [OF l2] _ _ _ rs(2)] rs(1) by (simp_all add: comp_def flip: mset_map)
  have same: "map tg_Digest tgs = map (tg_Digest \<circ> dg_group) gs" "map tg_Tags tgs = map (tg_Tags \<circ> dg_group) gs"
    using fetch_created_same [OF l4] by auto
  have ok: "group_ok c repo w1 g" if "g \<in> set tgs" for g
  proof -
    from that obtain i where i: "i < length tgs" "g = tgs ! i" by (auto simp: in_set_conv_nth)
    moreover from same(1) have "length tgs = length gs" by (metis length_map)
    ultimately have "tg_Digest g = tg_Digest (dg_group (gs ! i))" "tg_Tags g = tg_Tags (dg_group (gs ! i))" "gs ! i \<in> set gs"
      using arg_cong [OF same(1), of "\<lambda>xs. xs ! i"] arg_cong [OF same(2), of "\<lambda>xs. xs ! i"] by auto
    with g(2) show ?thesis by (simp add: group_ok_def)
  qed
  have "sorted (map (\<lambda>g. - tg_Created g) (tl_Groups l))" by (simp add: l)
  then have srt: "sorted_wrt (\<lambda>a b. tg_Created b \<le> tg_Created a) (tl_Groups l)"
    by (simp add: sorted_wrt_map)
  have m: "mset (tl_Groups l) = mset tgs" by (simp add: l)
  then have "mset (map tg_Digest (tl_Groups l)) = mset (map tg_Digest tgs)" by simp
  then have d: "distinct (map tg_Digest (tl_Groups l))" using g(1) unfolding same(1) by (metis mset_eq_imp_distinct_iff)
  have "mset (concat (map tg_Tags xs)) = \<Sum>\<^sub># (image_mset (mset \<circ> tg_Tags) (mset xs))" for xs :: "TagGroup list"
    by (induction xs) auto
  then have "mset (concat (map tg_Tags (tl_Groups l))) = mset (concat (map tg_Tags tgs))" by (simp add: m)
  with same(2) g(4) have t: "mset (concat (map tg_Tags (tl_Groups l))) + mset (map dt_Tag (tl_Dropped l)) = mset tags"
    by (simp add: l(2))
  show ?thesis
    by (intro exI conjI ballI, rule l1, rule t, rule d, rule srt) (use ok g(3) in \<open>auto simp: l\<close>)
qed

subsection \<open>Observing the requests\<close>

text \<open>The same client with the requests it sends written down.\<close>

definition traced :: "'w HTTPClient \<Rightarrow> ('w \<times> Request list) HTTPClient" where
  "traced c =
     \<lparr>hc_BaseURL = hc_BaseURL c, hc_Auth = hc_Auth c,
      hc_HTTP = (\<lambda>req (w, log). case hc_HTTP c req w of (r, w') \<Rightarrow> (r, (w', log @ [req]))),
      hc_ValidURL = hc_ValidURL c, hc_ParseURL = hc_ParseURL c, hc_ParseTime = hc_ParseTime c\<rparr>"

lemma traced_simps [simp]:
  "hc_BaseURL (traced c) = hc_BaseURL c" "hc_ValidURL (traced c) = hc_ValidURL c"
  "hc_ParseURL (traced c) = hc_ParseURL c" "new_request (traced c) = new_request c"
  by (simp_all add: traced_def new_request_def fun_eq_iff)

lemma traced_send:
  "send (traced c) req (w, log) =
     (case send c req w of (r, w') \<Rightarrow> (r, (w', if hc_ValidURL c (rq_URL req) then log @ [req] else log)))"
  by (auto simp: send_def traced_def split: prod.splits option.splits)

lemma traced_do:
  "\<exists>new. length new \<le> 1 \<and> http_do (traced c) path (w, log) = (case http_do c path w of (r, w') \<Rightarrow> (r, (w', log @ new)))"
  by (cases "hc_ValidURL c (rq_URL (new_request c ''GET'' path ''''))")
    (auto simp: http_do_def traced_send split: prod.splits intro: exI [of _ "[]"] exI [of _ "[_]"])

lemma traced_pages:
  "\<exists>new. length new \<le> maxPaginationPages - pages \<and>
     follow_pages (traced c) key pages path acc (w, log) =
       (case follow_pages c key pages path acc w of (r, w') \<Rightarrow> (r, (w', log @ new)))"
proof (induction c key pages path acc w arbitrary: log rule: follow_pages.induct)
  case (1 c key pages path acc w)
  note unf = follow_pages.simps [of c key pages path acc w]
    follow_pages.simps [of "traced c" key pages path acc "(w, log)"]
  show ?case
  proof (cases "path = '''' \<or> maxPaginationPages \<le> pages")
    case True
    then show ?thesis by (auto simp: unf intro!: exI [of _ "[]"])
  next
    case False
    obtain res w1 where do: "http_do c path w = (res, w1)" by fastforce
    obtain n1 where n1: "length n1 \<le> 1" "http_do (traced c) path (w, log) = (res, (w1, log @ n1))"
      using traced_do [of c path w log] do by auto
    have one: "length n1 \<le> maxPaginationPages - pages" using n1(1) False by linarith
    show ?thesis
    proof (cases res)
      case (Inl e)
      with False do n1(2) one show ?thesis by (auto simp: unf)
    next
      case (Inr resp)
      show ?thesis
      proof (cases "decode_strings key (rs_Body resp)")
        case None
        with False do n1(2) one Inr show ?thesis by (auto simp: unf)
      next
        case (Some names)
        have "\<exists>n2. length n2 \<le> maxPaginationPages - (pages + 1) \<and>
          follow_pages (traced c) key (pages + 1) (nextLinkPath (hc_ParseURL c) (rs_Link resp)) (acc @ names) (w1, log @ n1) =
            (case follow_pages c key (pages + 1) (nextLinkPath (hc_ParseURL c) (rs_Link resp)) (acc @ names) w1 of
               (r, w') \<Rightarrow> (r, (w', (log @ n1) @ n2)))"
          by (rule 1) (use False do Inr Some in auto)
        then obtain n2 where n2: "length n2 \<le> maxPaginationPages - (pages + 1)"
          "follow_pages (traced c) key (pages + 1) (nextLinkPath (hc_ParseURL c) (rs_Link resp)) (acc @ names) (w1, log @ n1) =
            (case follow_pages c key (pages + 1) (nextLinkPath (hc_ParseURL c) (rs_Link resp)) (acc @ names) w1 of
               (r, w') \<Rightarrow> (r, (w', (log @ n1) @ n2)))"
          by auto
        from False have "\<not> maxPaginationPages \<le> pages" by simp
        with n1(1) n2(1) have "length (n1 @ n2) \<le> maxPaginationPages - pages" by simp
        with False do n1(2) n2(2) Inr Some show ?thesis by (intro exI [of _ "n1 @ n2"]) (simp add: unf split: prod.split)
      qed
    qed
  qed
qed

lemma pages_bounded:
  "case follow_pages (traced c) key 0 path acc (w, []) of
     (r, (w', log)) \<Rightarrow> length log \<le> maxPaginationPages \<and> follow_pages c key 0 path acc w = (r, w')"
proof -
  from traced_pages [of 0 c key path acc w "[]"] obtain new where "length new \<le> maxPaginationPages"
    "follow_pages (traced c) key 0 path acc (w, []) = (case follow_pages c key 0 path acc w of (r, w') \<Rightarrow> (r, (w', new)))"
    by auto
  then show ?thesis by (simp split: prod.splits)
qed

text \<open>C25. Listing always ends: whatever next links the registry keeps sending, \<^verbatim>\<open>Catalog\<close> and
  \<^verbatim>\<open>listTags\<close> send at most \<^verbatim>\<open>maxPaginationPages\<close> requests; writing the requests down changes
  neither the answer nor the registry.\<close>

theorem pagination_bounded:
  "(case http_Catalog (traced c) (w, []) of
      (r, (w', log)) \<Rightarrow> length log \<le> maxPaginationPages \<and> http_Catalog c w = (r, w')) \<and>
   (case listTags (traced c) repo (w, []) of
      (r, (w', log)) \<Rightarrow> length log \<le> maxPaginationPages \<and> listTags c repo w = (r, w'))"
  unfolding http_Catalog_def listTags_def by (intro conjI pages_bounded)

text \<open>C23. A delete reaches the registry as at most one request, and only as \<^verbatim>\<open>DELETE\<close> of a manifest path of
  this client's registry: its path has exactly the segments \<^verbatim>\<open>v2\<close>, those of the repository, \<^verbatim>\<open>manifests\<close>
  and the reference; no segment is empty, \<^verbatim>\<open>.\<close> or \<^verbatim>\<open>..\<close> or contains a character special to URLs; and the
  reference is a digest, never a tag.\<close>

theorem delete_request_confined:
  assumes "http_Delete (traced c) repo digest (w, []) = (r, (w', log))" and "log \<noteq> []"
  shows "\<exists>req path. log = [req] \<and> rq_Method req = ''DELETE'' \<and> rq_URL req = hc_BaseURL c @ path \<and>
    Split CHR ''/'' path = ['''', ''v2''] @ Split CHR ''/'' repo @ [''manifests'', digest] \<and>
    (\<forall>seg\<in>set (Split CHR ''/'' repo) \<union> {digest}. seg \<notin> {'''', ''.'', ''..''} \<and> set seg \<inter> set url_special = {}) \<and>
    \<not> MatchString tagRe digest"
proof -
  from assms have v: "ValidRepoName repo" "ValidRef digest" "IsDigestRef digest"
    by (auto simp: http_Delete_def split: if_splits)
  with assms have "log = [new_request c ''DELETE'' (manifest_path repo digest) '''']"
    by (auto simp: http_Delete_def traced_send split: prod.splits sum.splits if_splits)
  moreover have "rq_Method (new_request c ''DELETE'' (manifest_path repo digest) '''') = ''DELETE''"
    "rq_URL (new_request c ''DELETE'' (manifest_path repo digest) '''') = hc_BaseURL c @ manifest_path repo digest"
    by (simp_all add: new_request_def)
  moreover have "\<forall>seg\<in>set (Split CHR ''/'' repo) \<union> {digest}. seg \<notin> {'''', ''.'', ''..''} \<and> set seg \<inter> set url_special = {}"
    using valid_repo_segments [OF v(1)] ValidRef_chars [OF v(2)] by blast
  ultimately show ?thesis
    using manifest_path_segments [OF v(2)] digest_not_tag [OF v(3)] by blast
qed

subsection \<open>A small registry\<close>

text \<open>
  Two repositories. \<^verbatim>\<open>app\<close> has a release and its alias, an orphan, a tag the registry cannot serve
  and a stale feature branch; \<^verbatim>\<open>base\<close> shares the release's digest. Deleted manifests are the state.
\<close>

definition sample_digest :: "char \<Rightarrow> string" where
  "sample_digest c = ''sha256:'' @ replicate 64 c"

definition sample_tags :: "(string \<times> (string \<times> char) list) list" where
  "sample_tags =
     [(''app'', [(''latest'', CHR ''a''), (''0a1b2c3'', CHR ''a''), (''dead123'', CHR ''b''), (''feat-x'', CHR ''c'')]),
      (''base'', [(''2024.01.01'', CHR ''a''), (''beef456'', CHR ''d'')])]"

definition sample_json :: "string \<Rightarrow> json option" where
  "sample_json url =
     (if url = ''http://reg:5000/v2/_catalog?n=100''
      then Some (JObject [(''repositories'', JArray (map (JString \<circ> fst) sample_tags))])
      else map_option (\<lambda>(repo, tags). JObject [(''tags'', JArray (map (JString \<circ> fst) tags))])
        (find (\<lambda>(repo, tags). url = ''http://reg:5000/v2/'' @ repo @ ''/tags/list?n=100'') sample_tags))"

definition sample_manifest :: "string \<Rightarrow> string option" where
  "sample_manifest url =
     map_option (sample_digest \<circ> snd)
       (find (\<lambda>(path, _). url = ''http://reg:5000'' @ path)
         (concat (map (\<lambda>(repo, tags). map (\<lambda>(tag, d). (manifest_path repo tag, d)) tags) sample_tags)))"

definition sample_http :: "Request \<Rightarrow> string list \<Rightarrow> Response option \<times> string list" where
  "sample_http req deleted =
     (let ok = \<lparr>rs_Status = 200, rs_Link = '''', rs_ContentDigest = '''', rs_Body = None\<rparr>
      in if rq_Method req = ''DELETE'' then (Some (ok\<lparr>rs_Status := 202\<rparr>), rq_URL req # deleted)
         else case sample_json (rq_URL req) of
           Some j \<Rightarrow> (Some (ok\<lparr>rs_Body := Some j\<rparr>), deleted)
         | None \<Rightarrow>
             (case sample_manifest (rq_URL req) of
                Some d \<Rightarrow> (Some (ok\<lparr>rs_ContentDigest := d, rs_Body := Some (JObject [(''config'', JObject [(''digest'', JString ''sha256:cfg'')])])\<rparr>), deleted)
              | None \<Rightarrow> (Some (ok\<lparr>rs_Body := Some (JObject [(''created'', JString ''2024'')])\<rparr>), deleted)))"

definition sample_client :: "string list HTTPClient" where
  "sample_client =
     NewHTTPClient ''http://reg:5000/'' \<lparr>auth_Mode = ''none'', auth_Username = '''', auth_Password = ''''\<rparr>
       \<lparr>hc_BaseURL = '''', hc_Auth = \<lparr>auth_Mode = '''', auth_Username = '''', auth_Password = ''''\<rparr>,
        hc_HTTP = sample_http, hc_ValidURL = (\<lambda>_. True), hc_ParseURL = (\<lambda>_. None), hc_ParseTime = (\<lambda>_. Some 100)\<rparr>"

text \<open>The deleting request of a witness.\<close>

theorem delete_request_confined_witness:
  "\<exists>req path. snd (snd (http_Delete (traced sample_client) ''app'' (sample_digest CHR ''b'') ([], []))) = [req] \<and>
    rq_Method req = ''DELETE'' \<and> rq_URL req = hc_BaseURL sample_client @ path \<and>
    Split CHR ''/'' path = ['''', ''v2''] @ Split CHR ''/'' ''app'' @ [''manifests'', sample_digest CHR ''b''] \<and>
    (\<forall>seg\<in>set (Split CHR ''/'' ''app'') \<union> {sample_digest CHR ''b''}.
       seg \<notin> {'''', ''.'', ''..''} \<and> set seg \<inter> set url_special = {}) \<and>
    \<not> MatchString tagRe (sample_digest CHR ''b'')"
proof -
  obtain r w' log where run: "http_Delete (traced sample_client) ''app'' (sample_digest CHR ''b'') ([], []) = (r, (w', log))"
    by (metis prod.exhaust)
  have "snd (snd (http_Delete (traced sample_client) ''app'' (sample_digest CHR ''b'') ([], []))) \<noteq> []" by code_simp
  then have "log \<noteq> []" by (simp add: run)
  from delete_request_confined [OF run this] show ?thesis by (simp only: run snd_conv)
qed

text \<open>C24. A tag listing hides nothing: every tag the registry listed is in exactly one group or among the
  dropped ones, each tag of a group was answered with the group's digest, each digest has one group,
  the newest first, and a drop is called vanished only when the registry's own complete tag list,
  read after the failure, no longer had the tag.\<close>

theorem resolve_tags_complete:
  assumes "http_ResolveTags c repo w = (Inr l, w')"
  shows "\<exists>tags w1. listTags c repo w = (Inr tags, w1) \<and>
    mset (concat (map tg_Tags (tl_Groups l))) + mset (map dt_Tag (tl_Dropped l)) = mset tags \<and>
    distinct (map tg_Digest (tl_Groups l)) \<and>
    sorted_wrt (\<lambda>a b. tg_Created b \<le> tg_Created a) (tl_Groups l) \<and>
    (\<forall>g\<in>set (tl_Groups l). \<forall>t\<in>set (tg_Tags g). answered c repo w1 t (tg_Digest g)) \<and>
    (\<forall>d\<in>set (tl_Dropped l). dt_Vanished d \<longrightarrow> gone c repo w1 (dt_Tag d))"
  using ResolveTags_listing [OF assms] by (simp only: group_ok_def dropped_ok_def) blast

theorem resolve_tags_complete_witness:
  "\<exists>l w'. http_ResolveTags sample_client ''app'' [] = (Inr l, w') \<and>
    map tg_Tags (tl_Groups l) = [[''latest'', ''0a1b2c3''], [''dead123''], [''feat-x'']] \<and>
    (\<exists>tags w1. listTags sample_client ''app'' [] = (Inr tags, w1) \<and>
      mset (concat (map tg_Tags (tl_Groups l))) + mset (map dt_Tag (tl_Dropped l)) = mset tags \<and>
      distinct (map tg_Digest (tl_Groups l)) \<and>
      sorted_wrt (\<lambda>a b. tg_Created b \<le> tg_Created a) (tl_Groups l) \<and>
      (\<forall>g\<in>set (tl_Groups l). \<forall>t\<in>set (tg_Tags g). answered sample_client ''app'' w1 t (tg_Digest g)) \<and>
      (\<forall>d\<in>set (tl_Dropped l). dt_Vanished d \<longrightarrow> gone sample_client ''app'' w1 (dt_Tag d)))"
proof -
  obtain r w' where run: "http_ResolveTags sample_client ''app'' [] = (r, w')" by fastforce
  have "(case fst (http_ResolveTags sample_client ''app'' []) of Inr l \<Rightarrow> map tg_Tags (tl_Groups l) | Inl _ \<Rightarrow> []) =
    [[''latest'', ''0a1b2c3''], [''dead123''], [''feat-x'']]" by code_simp
  with run obtain l where l: "r = Inr l" "map tg_Tags (tl_Groups l) = [[''latest'', ''0a1b2c3''], [''dead123''], [''feat-x'']]"
    by (auto split: sum.splits)
  have run': "http_ResolveTags sample_client ''app'' [] = (Inr l, w')" using run l(1) by simp
  show ?thesis
    by (rule exI [of _ l], rule exI [of _ w'], intro conjI, rule run', rule l(2), rule resolve_tags_complete [OF run'])
qed

end
