(* ===== verification/Registry_Cache.thy ===== *)
theory Registry_Cache
  imports Registry_Client
begin

text \<open>
  The contract of \<^verbatim>\<open>imgregistry.Client\<close> as the locale \<open>registry_client\<close>, and
  \<^verbatim>\<open>internal/imgregistry/cache.go\<close>: \<^verbatim>\<open>CachingClient\<close>, a client whose state is the inner client's
  state and the cached listings. Both clients meet the contract.
\<close>

subsection \<open>The contract\<close>

definition listing_ok :: "TagListing \<Rightarrow> bool" where
  "listing_ok l \<longleftrightarrow> distinct (map tg_Digest (tl_Groups l)) \<and>
     (\<forall>g\<in>set (tl_Groups l). tg_Digest g \<noteq> '''' \<and> tg_Tags g \<noteq> [])"

locale registry_client =
  fixes cl :: "'w Client" and inv :: "'w \<Rightarrow> bool"
  assumes catalog_inv: "inv w \<Longrightarrow> cl_Catalog cl w = (r1, w') \<Longrightarrow> inv w'"
    and tags_inv: "inv w \<Longrightarrow> cl_Tags cl repo w = (r2, w') \<Longrightarrow> inv w'"
    and resolve_inv: "inv w \<Longrightarrow> cl_ResolveTags cl repo w = (r3, w') \<Longrightarrow> inv w'"
    and count_inv: "inv w \<Longrightarrow> cl_TagCount cl repo w = (r4, w') \<Longrightarrow> inv w'"
    and manifest_inv: "inv w \<Longrightarrow> cl_Manifest cl repo ref w = (r5, w') \<Longrightarrow> inv w'"
    and delete_inv: "inv w \<Longrightarrow> cl_Delete cl repo digest w = (r6, w') \<Longrightarrow> inv w'"
    and resolve_ok: "inv w \<Longrightarrow> cl_ResolveTags cl repo w = (Inr l, w') \<Longrightarrow> listing_ok l"
    and tags_groups: "inv w \<Longrightarrow> cl_Tags cl repo w =
      (case cl_ResolveTags cl repo w of (Inl e, w') \<Rightarrow> (Inl e, w') | (Inr l, w') \<Rightarrow> (Inr (tl_Groups l), w'))"

lemma http_listing_ok: "http_ResolveTags c repo w = (Inr l, w') \<Longrightarrow> listing_ok l"
  by (drule ResolveTags_listing) (auto simp: listing_ok_def group_ok_def)

interpretation http: registry_client "HTTPClient c" "\<lambda>_. True" for c
  by unfold_locales (auto simp: HTTPClient_def http_Tags_def dest: http_listing_ok)

subsection \<open>The cache\<close>

definition TagsCacheTTL :: duration where
  "TagsCacheTTL = 5 * minute"

record tagsCacheEntry =
  ce_listing :: TagListing
  ce_expires :: time

type_synonym cache = "string \<rightharpoonup> tagsCacheEntry"

definition pass_through :: "('w, 'a) call \<Rightarrow> ('w \<times> cache, 'a) call" where
  "pass_through f s = (case f (fst s) of (r, w') \<Rightarrow> (r, (w', snd s)))"

text \<open>\<open>clock\<close> is \<^verbatim>\<open>time.Now\<close>. Listings are values here, so \<^verbatim>\<open>cloneListing\<close> is the identity.\<close>

definition cc_ResolveTags :: "'w Client \<Rightarrow> duration \<Rightarrow> ('w \<Rightarrow> time \<times> 'w) \<Rightarrow> string \<Rightarrow> ('w \<times> cache, TagListing) call" where
  "cc_ResolveTags inner ttl clock repo s =
     (let fetch = (\<lambda>w.
            case cl_ResolveTags inner repo w of
              (Inl e, w1) \<Rightarrow> (Inl e, (w1, snd s))
            | (Inr l, w1) \<Rightarrow>
                (case clock w1 of
                   (now, w2) \<Rightarrow> (Inr l, (w2, (snd s)(repo \<mapsto> \<lparr>ce_listing = l, ce_expires = now + ttl\<rparr>)))))
      in case snd s repo of
           None \<Rightarrow> fetch (fst s)
         | Some entry \<Rightarrow>
             (case clock (fst s) of
                (now, w1) \<Rightarrow> if now < ce_expires entry then (Inr (ce_listing entry), (w1, snd s)) else fetch w1))"

definition cc_Tags :: "'w Client \<Rightarrow> duration \<Rightarrow> ('w \<Rightarrow> time \<times> 'w) \<Rightarrow> string \<Rightarrow> ('w \<times> cache, TagGroup list) call" where
  "cc_Tags inner ttl clock repo s =
     (case cc_ResolveTags inner ttl clock repo s of
        (Inl e, s') \<Rightarrow> (Inl e, s')
      | (Inr l, s') \<Rightarrow> (Inr (tl_Groups l), s'))"

definition cc_Delete :: "'w Client \<Rightarrow> string \<Rightarrow> string \<Rightarrow> ('w \<times> cache, unit) call" where
  "cc_Delete inner repo digest s =
     (case cl_Delete inner repo digest (fst s) of
        (Inl e, w') \<Rightarrow> (Inl e, (w', snd s))
      | (Inr _, w') \<Rightarrow> (Inr (), (w', (snd s)(repo := None))))"

definition CachingClient :: "'w Client \<Rightarrow> duration \<Rightarrow> ('w \<Rightarrow> time \<times> 'w) \<Rightarrow> ('w \<times> cache) Client" where
  "CachingClient inner ttl clock =
     \<lparr>cl_Catalog = pass_through (cl_Catalog inner), cl_Tags = cc_Tags inner ttl clock,
      cl_ResolveTags = cc_ResolveTags inner ttl clock,
      cl_TagCount = (\<lambda>repo. pass_through (cl_TagCount inner repo)),
      cl_Manifest = (\<lambda>repo ref. pass_through (cl_Manifest inner repo ref)),
      cl_Delete = cc_Delete inner\<rparr>"

text \<open>\<^verbatim>\<open>NewCachingClient\<close> starts with nothing cached.\<close>

definition NewCachingClient :: "'w \<Rightarrow> 'w \<times> cache" where
  "NewCachingClient w = (w, Map.empty)"

definition cache_ok :: "cache \<Rightarrow> bool" where
  "cache_ok m \<longleftrightarrow> (\<forall>entry\<in>ran m. listing_ok (ce_listing entry))"

lemma cache_ok_upd: "cache_ok m \<Longrightarrow> listing_ok l \<Longrightarrow> cache_ok (m(repo \<mapsto> \<lparr>ce_listing = l, ce_expires = t\<rparr>))"
  by (auto simp: cache_ok_def ran_def)

lemma cache_ok_del: "cache_ok m \<Longrightarrow> cache_ok (m(repo := None))"
  by (auto simp: cache_ok_def ran_def)

context registry_client
begin

lemma cc_resolve:
  assumes "inv (fst s)" and "\<And>w. inv w \<Longrightarrow> inv (snd (clock w))" and "cache_ok (snd s)"
    and "cc_ResolveTags cl ttl clock repo s = (r, s')"
  shows "inv (fst s') \<and> cache_ok (snd s') \<and> (\<forall>l. r = Inr l \<longrightarrow> listing_ok l)"
proof -
  have fetch: "inv (fst s') \<and> cache_ok (snd s') \<and> (\<forall>l. r = Inr l \<longrightarrow> listing_ok l)"
    if "inv w" and eq: "(r, s') = (case cl_ResolveTags cl repo w of
         (Inl e, w1) \<Rightarrow> (Inl e, (w1, snd s))
       | (Inr l, w1) \<Rightarrow> (case clock w1 of (now, w2) \<Rightarrow>
           (Inr l, (w2, (snd s)(repo \<mapsto> \<lparr>ce_listing = l, ce_expires = now + ttl\<rparr>)))))" for w
  proof (cases "cl_ResolveTags cl repo w")
    case (Pair x w1)
    note i = resolve_inv [OF that(1) Pair]
    show ?thesis
    proof (cases x)
      case (Inl e)
      with eq Pair i assms(3) show ?thesis by simp
    next
      case (Inr l)
      have "listing_ok l" using resolve_ok [OF that(1), of repo l w1] Pair Inr by simp
      with eq Pair Inr assms(2) [OF i] assms(3) show ?thesis
        by (cases "clock w1") (simp add: cache_ok_upd)
    qed
  qed
  show ?thesis
  proof (cases "snd s repo")
    case None
    with assms(4) show ?thesis by (intro fetch [OF assms(1)]) (simp add: cc_ResolveTags_def Let_def)
  next
    case (Some entry)
    obtain now w1 where c: "clock (fst s) = (now, w1)" by fastforce
    with assms(2) [OF assms(1)] have "inv w1" by simp
    moreover have "listing_ok (ce_listing entry)" using assms(3) Some by (auto simp: cache_ok_def ran_def)
    ultimately show ?thesis
      using assms(3,4) Some c fetch [of w1] by (auto simp: cc_ResolveTags_def Let_def split: if_splits)
  qed
qed

lemma caching_client:
  assumes "\<And>w. inv w \<Longrightarrow> inv (snd (clock w))"
  shows "registry_client (CachingClient cl ttl clock) (\<lambda>s. inv (fst s) \<and> cache_ok (snd s))"
proof (unfold_locales, goal_cases)
  case (1 s r s')
  then show ?case
    using catalog_inv [of "fst s"] by (cases "cl_Catalog cl (fst s)") (auto simp: CachingClient_def pass_through_def)
next
  case (2 s repo r s')
  then show ?case
    using cc_resolve [of s clock ttl repo] assms
    by (cases "cc_ResolveTags cl ttl clock repo s"; cases "fst (cc_ResolveTags cl ttl clock repo s)")
      (auto simp: CachingClient_def cc_Tags_def)
next
  case (3 s repo r s')
  then show ?case using cc_resolve [of s clock ttl repo r s'] assms by (simp add: CachingClient_def)
next
  case (4 s repo r s')
  then show ?case
    using count_inv [of "fst s" repo] by (cases "cl_TagCount cl repo (fst s)") (auto simp: CachingClient_def pass_through_def)
next
  case (5 s repo ref r s')
  then show ?case
    using manifest_inv [of "fst s" repo ref]
    by (cases "cl_Manifest cl repo ref (fst s)") (auto simp: CachingClient_def pass_through_def)
next
  case (6 s repo digest r s')
  then show ?case
    using delete_inv [of "fst s" repo digest]
    by (cases "cl_Delete cl repo digest (fst s)"; cases "fst (cl_Delete cl repo digest (fst s))")
      (auto simp: CachingClient_def cc_Delete_def cache_ok_del)
next
  case (7 s repo l s')
  then show ?case using cc_resolve [of s clock ttl repo "Inr l" s'] assms by (simp add: CachingClient_def)
next
  case (8 s repo)
  then show ?case by (simp add: CachingClient_def cc_Tags_def)
qed

end

interpretation cached: registry_client "CachingClient (HTTPClient c) ttl clock" "\<lambda>s. True \<and> cache_ok (snd s)" for c ttl clock
  by (rule http.caching_client) simp


definition sample_clock :: "string list \<Rightarrow> time \<times> string list" where
  "sample_clock w = (5, w)"


end
