(* ===== verification/Registry_Refs.thy ===== *)
theory Registry_Refs
  imports Registry_Cache
begin

text \<open>
  The image references of \<^verbatim>\<open>internal/registryprune/inuse.go\<close>: which registry host and repository a
  reference names, whether it is a bare digest, and \<^verbatim>\<open>resolveRef\<close>, which turns a reference
  into the manifest digest to protect. The registry is seen through \<^verbatim>\<open>ManifestResolver\<close>.
\<close>

subsection \<open>Bare digests\<close>

definition bareImageIDRe :: rexp where
  "bareImageIDRe = Rep 64 (Cls [(CHR ''a'', CHR ''f''), (CHR ''0'', CHR ''9'')])"

definition digestAlgoHexLen :: "(string \<times> nat) list" where
  "digestAlgoHexLen = [(''sha256'', 64), (''sha384'', 96), (''sha512'', 128)]"

definition digestShapedRe :: rexp where
  "digestShapedRe = Seq digest_algorithm (Seq (Lit '':'') (AtLeast 32 (Cls [(CHR ''a'', CHR ''f''), (CHR ''0'', CHR ''9'')])))"

datatype bareDigestKind = notBareDigest | trustedBareDigest | suspectBareDigest

definition canonicalDigestHexLen :: "nat \<Rightarrow> bool" where
  "canonicalDigestHexLen n = list_ex (\<lambda>(_, want). n = want) digestAlgoHexLen"

text \<open>Neither part of a digest-shaped string contains a colon, so the submatches are what surrounds it.\<close>

definition classifyBareDigest :: "string \<Rightarrow> bareDigestKind" where
  "classifyBareDigest ref =
     (if \<not> MatchString digestShapedRe ref \<or> \<not> IsDigestRef ref then notBareDigest
      else
        let algo = takeWhile (\<lambda>c. c \<noteq> CHR '':'') ref; hex = drop (length algo + 1) ref
        in case map_of digestAlgoHexLen algo of
             Some want \<Rightarrow> if length hex = want then trustedBareDigest else suspectBareDigest
           | None \<Rightarrow> if canonicalDigestHexLen (length hex) then suspectBareDigest else notBareDigest)"

subsection \<open>Names and hosts\<close>

definition publicRegistryHosts :: "string list" where
  "publicRegistryHosts =
     [''docker.io'', ''index.docker.io'', ''registry-1.docker.io'', ''quay.io'', ''ghcr.io'', ''gcr.io'',
      ''registry.k8s.io'', ''k8s.gcr.io'', ''public.ecr.aws'', ''mcr.microsoft.com'', ''registry.gitlab.com'',
      ''codeberg.org'']"

definition isImageParam :: "string \<Rightarrow> bool" where
  "isImageParam name = (let n = ToLower name in n = ''image'' \<or> HasSuffix n ''_image'')"

definition splitRef :: "string \<Rightarrow> string \<times> string \<times> string" where
  "splitRef ref =
     (case LastIndexByte ref CHR ''@'' of
        Some i \<Rightarrow> (take i ref, '''', ToLower (drop (i + 1) ref))
      | None \<Rightarrow>
          (case (LastIndexByte ref CHR ''/'', LastIndexByte ref CHR '':'') of
             (None, Some colon) \<Rightarrow> (take colon ref, drop (colon + 1) ref, '''')
           | (Some slash, Some colon) \<Rightarrow>
               if slash < colon then (take colon ref, drop (colon + 1) ref, '''') else (ref, '''', '''')
           | _ \<Rightarrow> (ref, '''', '''')))"

definition looksLikeRegistryHost :: "string \<Rightarrow> bool" where
  "looksLikeRegistryHost s \<longleftrightarrow> s = ''localhost'' \<or> ContainsAny s ''.:''"

definition isOurHost :: "string \<Rightarrow> string list \<Rightarrow> bool" where
  "isOurHost h registryHosts = list_ex (EqualFold h) registryHosts"

definition hostComponent :: "string \<Rightarrow> string" where
  "hostComponent name =
     (case IndexByte name CHR ''/'' of
        None \<Rightarrow> if looksLikeRegistryHost name then name else ''''
      | Some slash \<Rightarrow> let first = take slash name in if looksLikeRegistryHost first then first else '''')"

definition repoFromName :: "string \<Rightarrow> string list \<Rightarrow> string \<times> bool" where
  "repoFromName name registryHosts =
     (if name = '''' then ('''', True)
      else
        let h = hostComponent name
        in if h = '''' then (name, True)
           else if name = h then ('''', True)
           else if \<not> isOurHost h registryHosts then ('''', False)
           else (drop (length h + 1) name, True))"

text \<open>\<^verbatim>\<open>strings.Index\<close>.\<close>

fun str_index :: "string \<Rightarrow> string \<Rightarrow> nat option" where
  "str_index [] p = (if p = [] then Some 0 else None)"
| "str_index (c # s) p = (if HasPrefix (c # s) p then Some 0 else map_option Suc (str_index s p))"

definition normalizeRegistryHost :: "string \<Rightarrow> string + string" where
  "normalizeRegistryHost raw =
     (let h0 = ToLower (TrimSpace raw);
          h1 = (case str_index h0 ''://'' of Some i \<Rightarrow> drop (i + 3) h0 | None \<Rightarrow> h0);
          h = TrimSpace (TrimRightFunc (\<lambda>c. c = CHR ''/'') h1)
      in if h = '''' then Inl ''empty''
         else if ContainsAny h ''/'' then Inl ''must be a bare host[:port], with no path''
         else if \<not> list_all (\<lambda>c. \<not> IsSpace c) h then Inl ''must not contain whitespace''
         else if ContainsAny h ''@?#'' then Inl ''must be a bare host[:port], with no userinfo, query or fragment''
         else if \<not> looksLikeRegistryHost h then Inl ''can never be the host component of an image reference''
         else Inr h)"

definition ValidateRegistryHost :: "string \<Rightarrow> string option" where
  "ValidateRegistryHost raw = (case normalizeRegistryHost raw of Inl e \<Rightarrow> Some e | Inr _ \<Rightarrow> None)"

subsection \<open>Resolving a reference\<close>

record 'w ManifestResolver =
  mr_Catalog :: "('w, string list) call"
  mr_Manifest :: "string \<Rightarrow> string \<Rightarrow> ('w, Manifest) call"

record refOutcome =
  ro_Digest :: string
  ro_Covered :: bool
  ro_Foreign :: bool
  ro_Qualified :: bool
  ro_HostMatched :: bool

definition no_outcome :: refOutcome where
  "no_outcome = \<lparr>ro_Digest = '''', ro_Covered = False, ro_Foreign = False, ro_Qualified = False, ro_HostMatched = False\<rparr>"

definition qualify :: "string list \<Rightarrow> string \<Rightarrow> refOutcome" where
  "qualify registryHosts name =
     (let h = hostComponent name
      in if h \<noteq> '''' \<and> ToLower h \<notin> set publicRegistryHosts
         then no_outcome\<lparr>ro_Qualified := True, ro_HostMatched := isOurHost h registryHosts\<rparr> else no_outcome)"

text \<open>A reference by tag: the catalog gate, the grammar and the registry's answer.\<close>

definition resolve_tag ::
  "'w ManifestResolver \<Rightarrow> string set \<Rightarrow> string list \<Rightarrow> string \<Rightarrow> string \<Rightarrow> ('w, refOutcome) call" where
  "resolve_tag reg known registryHosts name tag0 w =
     (let out = qualify registryHosts name; (repo, ours) = repoFromName name registryHosts
      in if \<not> ours then (Inr (out\<lparr>ro_Covered := True, ro_Foreign := True\<rparr>), w)
         else if repo = '''' then (Inl (RErr [] ''cannot derive a repository''), w)
         else if repo \<notin> known then (Inr (out\<lparr>ro_Covered := True, ro_Foreign := True\<rparr>), w)
         else
           let tag = (if tag0 = '''' then ''latest'' else tag0)
           in if \<not> ValidRef tag \<or> \<not> ValidRepoName repo then (Inl (RErr [] ''invalid repository/tag''), w)
              else case mr_Manifest reg repo tag w of
                (Inl e, w') \<Rightarrow> (Inl (RErr (wraps e) ''resolving''), w')
              | (Inr m, w') \<Rightarrow>
                  if m_Digest m = '''' then (Inl (RErr [] ''registry returned no digest''), w')
                  else if \<not> IsDigestRef (ToLower (m_Digest m)) then (Inl (RErr [] ''malformed digest''), w')
                  else (Inr (out\<lparr>ro_Digest := ToLower (m_Digest m), ro_Covered := True\<rparr>), w'))"

definition resolveRef ::
  "'w ManifestResolver \<Rightarrow> string set \<Rightarrow> string list \<Rightarrow> string \<Rightarrow> ('w, refOutcome) call" where
  "resolveRef reg known registryHosts ref0 w =
     (let ref = TrimSpace ref0
      in if ref = '''' then (Inl (RErr [] ''image reference is empty''), w)
         else if MatchString bareImageIDRe (ToLower ref)
         then (Inr (no_outcome\<lparr>ro_Digest := ''sha256:'' @ ToLower ref\<rparr>), w)
         else case classifyBareDigest (ToLower ref) of
           trustedBareDigest \<Rightarrow> (Inr (no_outcome\<lparr>ro_Digest := ToLower ref, ro_Covered := True\<rparr>), w)
         | suspectBareDigest \<Rightarrow> (Inl (RErr [] ''digest-shaped but no registered algorithm produces it''), w)
         | notBareDigest \<Rightarrow>
             (case splitRef ref of
                (name, tag, digest) \<Rightarrow>
                  if digest \<noteq> '''' then
                    if \<not> IsDigestRef digest then (Inl (RErr [] ''malformed digest in reference''), w)
                    else (Inr ((qualify registryHosts name)\<lparr>ro_Digest := digest, ro_Covered := True\<rparr>), w)
                  else resolve_tag reg known registryHosts name tag w))"

subsection \<open>Strings\<close>

lemma IndexByte_append: "c \<notin> set s \<Longrightarrow> IndexByte (s @ c # t) c = Some (length s)"
  by (induction s) auto

lemma LastIndexByte_append: "c \<notin> set t \<Longrightarrow> LastIndexByte (s @ c # t) c = Some (length s)"
  by (simp add: LastIndexByte_def IndexByte_append)

lemma LastIndexByte_None: "LastIndexByte s c = None \<longleftrightarrow> c \<notin> set s"
  by (simp add: LastIndexByte_def IndexByte_None)

lemma LastIndexByte_shape: "LastIndexByte s c = Some i \<Longrightarrow> \<exists>a b. s = a @ c # b \<and> length a = i \<and> c \<notin> set b"
proof -
  assume i: "LastIndexByte s c = Some i"
  then have "c \<in> set s" by (metis LastIndexByte_None option.distinct(1))
  then obtain a b where "s = a @ c # b" "c \<notin> set b" by (meson split_list_last)
  with i LastIndexByte_append [of c b a] show ?thesis by auto
qed

lemma dropWhile_none: "list_all (\<lambda>c. \<not> P c) s \<Longrightarrow> dropWhile P s = s"
  by (cases s) auto

lemma TrimSpace_no_space: "list_all (\<lambda>c. \<not> IsSpace c) s \<Longrightarrow> TrimSpace s = s"
  by (simp add: TrimSpace_def TrimRightFunc_def TrimLeftSpace_def dropWhile_none)

lemma char_lower_eq: "\<not> (CHR ''A'' \<le> c \<and> c \<le> CHR ''Z'') \<Longrightarrow> char_lower d = c \<Longrightarrow> \<not> (CHR ''a'' \<le> c \<and> c \<le> CHR ''z'') \<Longrightarrow> d = c"
proof (rule ccontr)
  assume c: "\<not> (CHR ''a'' \<le> c \<and> c \<le> CHR ''z'')" and eq: "char_lower d = c" and "d \<noteq> c"
  then have up: "CHR ''A'' \<le> d \<and> d \<le> CHR ''Z''" unfolding char_lower_def by (metis (full_types))
  define n :: nat where "n = of_char d"
  from up have n: "65 \<le> n" "n \<le> 90" by (auto simp: less_eq_char_def n_def)
  from up eq have "c = char_of (n + 32)" by (simp add: char_lower_def n_def)
  moreover from n have "of_char (char_of (n + 32) :: char) = n + 32" by (simp add: of_char_of)
  ultimately show False using c n by (simp add: less_eq_char_def)
qed

text \<open>Lower-casing neither makes nor removes a character that is no letter.\<close>

lemma ToLower_nonletter:
  assumes "\<not> (CHR ''A'' \<le> c \<and> c \<le> CHR ''Z'')" and "\<not> (CHR ''a'' \<le> c \<and> c \<le> CHR ''z'')"
  shows "c \<in> set (ToLower s) \<longleftrightarrow> c \<in> set s"
proof
  assume "c \<in> set (ToLower s)"
  then obtain d where "d \<in> set s" "char_lower d = c" by (auto simp: ToLower_def)
  with char_lower_eq [OF assms(1) _ assms(2), of d] show "c \<in> set s" by simp
next
  assume "c \<in> set s"
  moreover have "char_lower c = c" unfolding char_lower_def using assms(1) by (rule if_not_P)
  ultimately show "c \<in> set (ToLower s)" unfolding ToLower_def by force
qed

lemma set_TrimSpace: "set (TrimSpace s) \<subseteq> set s"
proof
  fix c
  assume "c \<in> set (TrimSpace s)"
  then have "c \<in> set (dropWhile IsSpace (rev (dropWhile IsSpace s)))"
    by (simp add: TrimSpace_def TrimRightFunc_def TrimLeftSpace_def)
  then have "c \<in> set (dropWhile IsSpace s)" by (auto dest: set_dropWhileD)
  then show "c \<in> set s" by (rule set_dropWhileD)
qed

subsection \<open>Splitting references\<close>

lemma splitRef_tag:
  assumes "CHR ''@'' \<notin> set name" "CHR ''@'' \<notin> set tag" "CHR '':'' \<notin> set tag" "CHR ''/'' \<notin> set tag"
  shows "splitRef (name @ '':'' @ tag) = (name, tag, '''')"
proof -
  have c: "LastIndexByte (name @ CHR '':'' # tag) CHR '':'' = Some (length name)"
    using assms(3) by (rule LastIndexByte_append)
  have a: "LastIndexByte (name @ CHR '':'' # tag) CHR ''@'' = None"
    using assms(1,2) by (simp add: LastIndexByte_None)
  have s: "slash < length name" if l: "LastIndexByte (name @ CHR '':'' # tag) CHR ''/'' = Some slash" for slash
  proof -
    from LastIndexByte_shape [OF l] obtain x y where xy: "name @ CHR '':'' # tag = x @ CHR ''/'' # y" "length x = slash"
      by blast
    then have "CHR ''/'' = (name @ CHR '':'' # tag) ! slash" by (metis nth_append_length)
    then have "slash \<noteq> length name" "\<not> length name < slash \<or> CHR ''/'' \<in> set tag"
      using xy(2) arg_cong [OF xy(1), of length] by (auto simp: nth_append nth_Cons' split: if_splits)
    with assms(4) show ?thesis by linarith
  qed
  from a c s show ?thesis by (auto simp: splitRef_def split: option.splits)
qed

lemma splitRef_digest:
  "CHR ''@'' \<notin> set d \<Longrightarrow> splitRef (name @ ''@'' @ d) = (name, '''', ToLower d)"
  using LastIndexByte_append [of "CHR ''@''" d name] by (simp add: splitRef_def)

text \<open>The host component is the first path element when that looks like a host.\<close>

lemma hostComponent_qualified:
  "looksLikeRegistryHost h \<Longrightarrow> CHR ''/'' \<notin> set h \<Longrightarrow> hostComponent (h @ ''/'' @ rest) = h"
  by (simp add: hostComponent_def IndexByte_append Let_def)

lemma looksLikeRegistryHost_lower: "looksLikeRegistryHost (ToLower h) \<Longrightarrow> ToLower h \<noteq> ''localhost'' \<Longrightarrow> looksLikeRegistryHost h"
  using ToLower_nonletter [of "CHR ''.''" h] ToLower_nonletter [of "CHR '':''" h]
  by (auto simp: looksLikeRegistryHost_def ContainsAny_def)

subsection \<open>Normal forms of the configured hosts\<close>

lemma normalizeRegistryHost_Inr:
  assumes "normalizeRegistryHost raw = Inr h"
  shows "h \<noteq> ''''" "CHR ''/'' \<notin> set h" "list_all (\<lambda>c. \<not> IsSpace c) h" "set h \<inter> set ''@?#'' = {}"
    "looksLikeRegistryHost h" "ToLower h = h"
proof -
  define h0 where "h0 = ToLower (TrimSpace raw)"
  define h1 where "h1 = (case str_index h0 ''://'' of Some i \<Rightarrow> drop (i + 3) h0 | None \<Rightarrow> h0)"
  have h: "h = TrimSpace (TrimRightFunc (\<lambda>c. c = CHR ''/'') h1)"
    and rest: "h \<noteq> ''''" "\<not> ContainsAny h ''/''" "list_all (\<lambda>c. \<not> IsSpace c) h" "\<not> ContainsAny h ''@?#''" "looksLikeRegistryHost h"
    using assms unfolding normalizeRegistryHost_def Let_def h0_def [symmetric] h1_def [symmetric]
    by (simp_all split: if_splits)
  show "h \<noteq> ''''" "list_all (\<lambda>c. \<not> IsSpace c) h" "looksLikeRegistryHost h" by (fact rest)+
  show "CHR ''/'' \<notin> set h" "set h \<inter> set ''@?#'' = {}" using rest(2,4) by (auto simp: ContainsAny_def)
  have "char_lower c = c" if "c \<in> set h0" for c using that by (auto simp: h0_def ToLower_def)
  moreover have "set h1 \<subseteq> set h0" by (auto simp: h1_def split: option.splits dest: in_set_dropD)
  moreover have "set (TrimRightFunc (\<lambda>c. c = CHR ''/'') h1) \<subseteq> set h1"
    by (auto simp: TrimRightFunc_def dest: set_dropWhileD)
  ultimately have "char_lower c = c" if "c \<in> set h" for c using that set_TrimSpace h by blast
  then show "ToLower h = h" by (simp add: ToLower_def map_idI)
qed

lemma str_index_occurs: "str_index s p = Some i \<Longrightarrow> set p \<subseteq> set s"
proof (induction s arbitrary: i)
  case (Cons c s)
  show ?case
  proof (cases "HasPrefix (c # s) p")
    case True
    then obtain t where "c # s = p @ t" by (auto simp: HasPrefix_iff)
    then have "set p \<subseteq> set (c # s)" by simp
    then show ?thesis .
  next
    case False
    with Cons show ?thesis by auto
  qed
qed (auto split: if_splits)

lemma normalizeRegistryHost_idem: "normalizeRegistryHost raw = Inr h \<Longrightarrow> normalizeRegistryHost h = Inr h"
proof -
  assume n: "normalizeRegistryHost raw = Inr h"
  note p = normalizeRegistryHost_Inr [OF n]
  have "str_index h ''://'' = None"
  proof (rule ccontr)
    assume "str_index h ''://'' \<noteq> None"
    then obtain i where "str_index h ''://'' = Some i" by auto
    from str_index_occurs [OF this] p(2) show False by auto
  qed
  moreover have "TrimSpace h = h" using p(3) by (rule TrimSpace_no_space)
  moreover have "TrimRightFunc (\<lambda>c. c = CHR ''/'') h = h"
  proof -
    have "c \<noteq> CHR ''/''" if "c \<in> set (rev h)" for c using p(2) that by (metis set_rev)
    then have "dropWhile (\<lambda>c. c = CHR ''/'') (rev h) = rev h" by (intro dropWhile_none) (simp add: list_all_iff)
    then show ?thesis by (simp add: TrimRightFunc_def)
  qed
  ultimately show ?thesis
    using p by (auto simp: normalizeRegistryHost_def Let_def ContainsAny_def)
qed

subsection \<open>What a reference resolves to\<close>

lemma bareImageID_digest:
  assumes "MatchString bareImageIDRe s"
  shows "IsDigestRef (''sha256:'' @ s)"
proof -
  let ?hex = "Cls [(CHR ''a'', CHR ''f''), (CHR ''A'', CHR ''F''), (CHR ''0'', CHR ''9'')]"
  have "''sha256'' \<in> lang digest_algorithm" by (simp only: MatchString_lang [symmetric]) code_simp
  moreover have "'':'' \<in> lang (Lit '':'')" by (simp add: lang_Lit del: Lit.simps)
  moreover have "s \<in> lang (AtLeast 32 ?hex)"
    using assms unfolding MatchString_lang bareImageIDRe_def lang_Rep_Cls lang_AtLeast_Cls by (auto simp: list_all_iff)
  ultimately have "''sha256'' @ ('':'' @ s) \<in> lang digestRe"
    unfolding digestRe_def lang.simps(4) conc_def by blast
  then show ?thesis by (simp add: IsDigestRef_def MatchString_lang)
qed

definition skipped_as_foreign :: "string set \<Rightarrow> string list \<Rightarrow> string \<Rightarrow> bool" where
  "skipped_as_foreign known hosts ref \<longleftrightarrow>
     (let name = fst (splitRef (TrimSpace ref)); h = hostComponent name
      in h \<noteq> '''' \<and> h \<noteq> name \<and> \<not> isOurHost h hosts \<or>
         (\<exists>repo. repoFromName name hosts = (repo, True) \<and> repo \<noteq> '''' \<and> repo \<notin> known))"

lemma qualify_simps [simp]:
  "ro_Digest (qualify hosts name) = ''''" "ro_Covered (qualify hosts name) = False" "ro_Foreign (qualify hosts name) = False"
  by (simp_all add: qualify_def no_outcome_def Let_def)

lemma repoFromName_foreign:
  "repoFromName name hosts = (r, False) \<Longrightarrow>
     hostComponent name \<noteq> '''' \<and> hostComponent name \<noteq> name \<and> \<not> isOurHost (hostComponent name) hosts"
  by (auto simp: repoFromName_def Let_def split: if_splits)

lemma resolve_tag_sound:
  assumes "resolve_tag reg known hosts name tag w = (Inr out, w')"
  shows "ro_Covered out \<and>
    (if ro_Digest out = ''''
     then ro_Foreign out \<and> (hostComponent name \<noteq> '''' \<and> hostComponent name \<noteq> name \<and> \<not> isOurHost (hostComponent name) hosts \<or>
            (\<exists>repo. repoFromName name hosts = (repo, True) \<and> repo \<noteq> '''' \<and> repo \<notin> known))
     else IsDigestRef (ro_Digest out) \<and> ToLower (ro_Digest out) = ro_Digest out)"
proof -
  obtain repo ours where r: "repoFromName name hosts = (repo, ours)" by fastforce
  show ?thesis
  proof (cases "ours \<and> repo \<noteq> '''' \<and> repo \<in> known")
    case False
    then show ?thesis
      using assms r repoFromName_foreign [of name hosts repo] by (auto simp: resolve_tag_def Let_def split: if_splits)
  next
    case True
    with assms r show ?thesis
      by (auto simp: resolve_tag_def Let_def ToLower_def split: if_splits prod.splits sum.splits)
  qed
qed


definition sample_resolver :: "string list ManifestResolver" where
  "sample_resolver = \<lparr>mr_Catalog = http_Catalog sample_client, mr_Manifest = http_Manifest sample_client\<rparr>"


subsection \<open>References to this registry\<close>

lemma set_Split: "x \<in> set s \<Longrightarrow> x = c \<or> (\<exists>p\<in>set (Split c s). x \<in> set p)"
proof (induction s)
  case (Cons y s)
  then show ?case by (cases "y = c"; cases "Split c s") auto
qed simp

definition repo_chars :: "(char \<times> char) list" where
  "repo_chars = (CHR ''/'', CHR ''/'') # alphabet repoComponentRe"

lemma repo_alphabet: "ValidRepoName repo \<Longrightarrow> c \<in> set repo \<Longrightarrow> in_class repo_chars c"
  using set_Split [of c repo "CHR ''/''"]
  by (auto simp: repo_chars_def ValidRepoName_def list_all_iff split: if_splits dest: MatchString_alphabet)

definition white_space :: string where
  "white_space = [CHR '' '', CHR 0x09, CHR 0x0A, CHR 0x0B, CHR 0x0C, CHR 0x0D]"

lemma IsSpace_iff: "IsSpace c \<longleftrightarrow> c \<in> set white_space"
  by (simp add: IsSpace_def white_space_def)

lemma alphabet_excludes:
  assumes "\<And>c. c \<in> set s \<Longrightarrow> in_class cs c" and "list_all (\<lambda>c. \<not> in_class cs c) bad"
  shows "set s \<inter> set bad = {}"
  using assms by (auto simp: list_all_iff)

lemma repo_excludes: "ValidRepoName repo \<Longrightarrow> set repo \<inter> set (CHR ''@'' # CHR '':'' # white_space) = {}"
  by (rule alphabet_excludes [OF repo_alphabet], assumption+) code_simp

lemma tag_excludes: "MatchString tagRe tag \<Longrightarrow> set tag \<inter> set (CHR ''@'' # CHR '':'' # CHR ''/'' # white_space) = {}"
  by (rule alphabet_excludes [OF tag_alphabet], assumption+) code_simp

lemma slash_not_bare:
  assumes "CHR ''/'' \<in> set s"
  shows "\<not> MatchString bareImageIDRe (ToLower s)" "classifyBareDigest (ToLower s) = notBareDigest"
proof -
  have "\<not> CHR ''A'' \<le> CHR ''/''" "\<not> CHR ''a'' \<le> CHR ''/''" by code_simp+
  with assms have sl: "CHR ''/'' \<in> set (ToLower s)" by (subst ToLower_nonletter) auto
  show "\<not> MatchString bareImageIDRe (ToLower s)"
  proof
    assume "MatchString bareImageIDRe (ToLower s)"
    then have "in_class (alphabet bareImageIDRe) CHR ''/''" using sl by (rule MatchString_alphabet)
    then have "in_class (alphabet (Cls [(CHR ''a'', CHR ''f''), (CHR ''0'', CHR ''9'')])) CHR ''/''"
      unfolding bareImageIDRe_def by (rule alphabet_Rep)
    moreover have "\<not> in_class (alphabet (Cls [(CHR ''a'', CHR ''f''), (CHR ''0'', CHR ''9'')])) CHR ''/''" by code_simp
    ultimately show False by contradiction
  qed
  have "\<not> IsDigestRef (ToLower s)"
  proof
    assume "IsDigestRef (ToLower s)"
    from ValidRef_chars(1) [OF IsDigestRef_ValidRef [OF this]] sl show False by (auto simp: url_special_def)
  qed
  then show "classifyBareDigest (ToLower s) = notBareDigest" by (simp add: classifyBareDigest_def)
qed

lemma own_name:
  assumes "normalizeRegistryHost raw = Inr h" and "h \<in> set hosts" and "ToLower h' = h" and "h = ''localhost'' \<longrightarrow> h' = h"
  shows "hostComponent (h' @ ''/'' @ repo) = h'" and "repoFromName (h' @ ''/'' @ repo) hosts = (repo, True)"
proof -
  note p = normalizeRegistryHost_Inr [OF assms(1)]
  have looks: "looksLikeRegistryHost h'"
    using p(5) looksLikeRegistryHost_lower [of h'] assms(3,4) by (cases "h = ''localhost''") auto
  have "\<not> CHR ''A'' \<le> CHR ''/''" "\<not> CHR ''a'' \<le> CHR ''/''" by code_simp+
  with p(2) assms(3) have "CHR ''/'' \<notin> set h'" using ToLower_nonletter [of "CHR ''/''" h'] by auto
  from hostComponent_qualified [OF looks this] show host: "hostComponent (h' @ ''/'' @ repo) = h'" .
  have "h' \<noteq> ''''" using p(1) assms(3) by (auto simp: ToLower_def)
  moreover have "isOurHost h' hosts"
    unfolding isOurHost_def list_ex_iff EqualFold_def using assms(2,3) p(6) by (intro bexI [of _ h]) simp_all
  ultimately show "repoFromName (h' @ ''/'' @ repo) hosts = (repo, True)"
    using host by (simp add: repoFromName_def Let_def)
qed



text \<open>C28. A tagged reference to a repository of this registry is always taken to the registry: it resolves
  to exactly the digest the registry answers for that repository and tag, and when the registry does
  not answer, or answers something that is no digest, the result is an error, never a skip.\<close>

theorem resolveRef_own_tag:
  assumes "normalizeRegistryHost raw = Inr h" and "h \<in> set hosts" and "repo \<in> known" and "ValidRepoName repo"
    and "MatchString tagRe tag" and "mr_Manifest reg repo tag w = (res, w')"
  shows "resolveRef reg known hosts (h @ ''/'' @ repo @ '':'' @ tag) w =
    (case res of
       Inr m \<Rightarrow>
         (if IsDigestRef (ToLower (m_Digest m))
          then Inr ((qualify hosts (h @ ''/'' @ repo))\<lparr>ro_Digest := ToLower (m_Digest m), ro_Covered := True\<rparr>)
          else if m_Digest m = '''' then Inl (RErr [] ''registry returned no digest'')
          else Inl (RErr [] ''malformed digest''))
     | Inl e \<Rightarrow> Inl (RErr (wraps e) ''resolving''), w')"
proof -
  note p = normalizeRegistryHost_Inr [OF assms(1)]
  let ?name = "h @ ''/'' @ repo"
  let ?ref = "?name @ '':'' @ tag"
  have repo: "set repo \<inter> set (CHR ''@'' # CHR '':'' # white_space) = {}" using assms(4) by (rule repo_excludes)
  have tag: "set tag \<inter> set (CHR ''@'' # CHR '':'' # CHR ''/'' # white_space) = {}" using assms(5) by (rule tag_excludes)
  have "\<forall>c\<in>set ?ref. \<not> IsSpace c"
    using p(3) repo tag unfolding IsSpace_iff list_all_iff by (auto simp: white_space_def)
  then have trim: "TrimSpace ?ref = ?ref" by (intro TrimSpace_no_space) (simp only: list_all_iff)
  have split: "splitRef ?ref = (?name, tag, '''')"
    by (rule splitRef_tag) (use p(4) repo tag in auto)
  have slash: "CHR ''/'' \<in> set ?ref" by simp
  have name: "repoFromName ?name hosts = (repo, True)" by (rule own_name(2) [OF assms(1,2) p(6)]) simp
  have v: "ValidRef tag" "tag \<noteq> ''''" using assms(5) by (auto simp: ValidRef_def dest: MatchString_Cls_first simp: tagRe_def)
  have r: "repo \<noteq> ''''" using assms(4) by (auto simp: ValidRepoName_def)
  have nd: "\<not> IsDigestRef (ToLower '''')" using IsDigestRef_colon [of "''''"] by (auto simp: ToLower_def)
  have "resolveRef reg known hosts ?ref w = resolve_tag reg known hosts ?name tag w"
    unfolding resolveRef_def Let_def trim split slash_not_bare(2) [OF slash] using slash_not_bare(1) [OF slash] by simp
  also have "\<dots> = (case res of
       Inr m \<Rightarrow>
         (if IsDigestRef (ToLower (m_Digest m))
          then Inr ((qualify hosts ?name)\<lparr>ro_Digest := ToLower (m_Digest m), ro_Covered := True\<rparr>)
          else if m_Digest m = '''' then Inl (RErr [] ''registry returned no digest'')
          else Inl (RErr [] ''malformed digest''))
     | Inl e \<Rightarrow> Inl (RErr (wraps e) ''resolving''), w')"
    using assms(3,4,6) v r nd unfolding resolve_tag_def name Let_def by (auto split: sum.splits)
  finally show ?thesis by simp
qed

theorem resolveRef_own_tag_witness:
  "fst (resolveRef sample_resolver {''app'', ''base''} [''reg:5000''] (''reg:5000'' @ ''/'' @ ''app'' @ '':'' @ ''feat-x'') []) =
     Inr \<lparr>ro_Digest = sample_digest CHR ''c'', ro_Covered = True, ro_Foreign = False, ro_Qualified = True, ro_HostMatched = True\<rparr>"
proof -
  have n: "normalizeRegistryHost ''http://reg:5000'' = Inr ''reg:5000''" by code_simp
  have v: "ValidRepoName ''app''" "MatchString tagRe ''feat-x''" by code_simp+
  obtain res w' where m: "mr_Manifest sample_resolver ''app'' ''feat-x'' [] = (res, w')" by fastforce
  have "map_sum (\<lambda>_. ()) m_Digest (fst (mr_Manifest sample_resolver ''app'' ''feat-x'' [])) = Inr (sample_digest CHR ''c'')"
    by code_simp
  then obtain x where x: "res = Inr x" "m_Digest x = sample_digest CHR ''c''" using m by (cases res) auto
  have d: "IsDigestRef (ToLower (sample_digest CHR ''c''))" "ToLower (sample_digest CHR ''c'') = sample_digest CHR ''c''"
    "qualify [''reg:5000''] (''reg:5000'' @ ''/'' @ ''app'') = no_outcome\<lparr>ro_Qualified := True, ro_HostMatched := True\<rparr>"
    by code_simp+
  from resolveRef_own_tag [OF n _ _ v m, of "[''reg:5000'']" "{''app'', ''base''}"] x d
  show ?thesis by (simp add: no_outcome_def)
qed

end
