(* ===== verification/Registry_InUse.thy ===== *)
theory Registry_InUse
  imports Registry_Refs
begin

text \<open>
  \<^verbatim>\<open>BuildInUseSet\<close> of \<^verbatim>\<open>internal/registryprune/inuse.go\<close>: the digests of the whole fleet that must not
  be deleted. The fleet (hosts, inventory, specs, clock) is the record \<open>'w Fleet\<close> of the interfaces the
  code takes; it shares the state of the outside world with the registry.
\<close>

subsection \<open>Data\<close>

record InUseSet =
  ius_Valid :: bool
  ius_Digests :: "string set"
  ius_NonDigestObserved :: "string list"
  ius_ForeignSkipped :: "string list"

definition no_set :: InUseSet where
  "no_set = \<lparr>ius_Valid = False, ius_Digests = {}, ius_NonDigestObserved = [], ius_ForeignSkipped = []\<rparr>"

text \<open>A nil map answers like an empty one.\<close>

definition Has :: "InUseSet \<Rightarrow> string \<Rightarrow> bool" where
  "Has s digest \<longleftrightarrow> ToLower (TrimSpace digest) \<in> ius_Digests s"

definition Len :: "InUseSet \<Rightarrow> nat" where
  "Len s = card (ius_Digests s)"

text \<open>What the sweep reads of \<^verbatim>\<open>instance.Observed\<close> and \<^verbatim>\<open>instance.Freshness\<close>.\<close>

record ObservedContainer =
  oc_Name :: string
  oc_Image :: string
  oc_ImageTag :: string
  oc_IsInfra :: bool

record Observed =
  ob_Slug :: string
  ob_Containers :: "ObservedContainer list"

record Freshness =
  fr_FetchedAt :: time
  fr_Reachable :: bool
  fr_HasData :: bool

text \<open>
  \<^verbatim>\<open>HostEnumerator\<close>, \<^verbatim>\<open>InventorySource\<close>, \<^verbatim>\<open>SpecSource\<close> and the clock. A spec's parameters come in
  the order in which the map happens to be iterated.
\<close>

record 'w Fleet =
  fl_Hosts :: "'w \<Rightarrow> string list \<times> 'w"
  fl_Inventory :: "string \<Rightarrow> ('w, Observed list \<times> Freshness) call"
  fl_ListSpecKeys :: "string \<Rightarrow> ('w, SpecKey list) call"
  fl_GetSpec :: "string \<Rightarrow> string \<Rightarrow> string \<Rightarrow> ('w, Spec) call"
  fl_Now :: "'w \<Rightarrow> time \<times> 'w"

record PruneConfig =
  pc_RegistryHosts :: "string list"
  pc_MaxSnapshotAge :: duration

text \<open>The variables the sweep accumulates into.\<close>

record sweep_acc =
  sw_digests :: "string set"
  sw_nonDigest :: "string list"
  sw_foreign :: "string set"
  sw_seen :: nat
  sw_matched :: nat

definition unsafe :: "string \<Rightarrow> rerr" where
  "unsafe what = RErr [UnsafeToPrune] what"

subsection \<open>The sweep\<close>

definition countQualified :: "refOutcome \<Rightarrow> sweep_acc \<Rightarrow> sweep_acc" where
  "countQualified o' a =
     (if \<not> ro_Qualified o' then a
      else a\<lparr>sw_seen := sw_seen a + 1, sw_matched := sw_matched a + (if ro_HostMatched o' then 1 else 0)\<rparr>)"

text \<open>What an outcome adds to the accumulated sets.\<close>

definition record_outcome :: "string \<Rightarrow> refOutcome \<Rightarrow> sweep_acc \<Rightarrow> sweep_acc" where
  "record_outcome ref got a =
     (let a1 = countQualified got a;
          a2 = (if ro_Digest got \<noteq> '''' then a1\<lparr>sw_digests := insert (ro_Digest got) (sw_digests a1)\<rparr> else a1)
      in if ro_Foreign got then a2\<lparr>sw_foreign := insert (TrimSpace ref) (sw_foreign a2)\<rparr> else a2)"

definition sweep_container ::
  "'w ManifestResolver \<Rightarrow> string set \<Rightarrow> string list \<Rightarrow> string \<Rightarrow> string \<Rightarrow> ObservedContainer \<Rightarrow> sweep_acc \<Rightarrow> ('w, sweep_acc) call" where
  "sweep_container reg known ourHosts host slug c a w =
     (if oc_IsInfra c then (Inr a, w)
      else case resolveRef reg known ourHosts (oc_Image c) w of
        (Inl _, w1) \<Rightarrow> (Inl (unsafe ''running container''), w1)
      | (Inr got, w1) \<Rightarrow>
          let a1 = record_outcome (oc_Image c) got a;
              not_covered = (\<lambda>a. if \<not> ro_Covered got
                then a\<lparr>sw_nonDigest := sw_nonDigest a @ [host @ ''/'' @ slug @ ''/'' @ oc_Name c]\<rparr> else a)
          in case resolveRef reg known ourHosts (oc_ImageTag c) w1 of
               (Inr gotTag, w2) \<Rightarrow> (Inr (not_covered (record_outcome (oc_ImageTag c) gotTag a1)), w2)
             | (Inl terr, w2) \<Rightarrow>
                 if errors_Is terr RegUnreachable then (Inl (unsafe ''resolving image tag''), w2)
                 else (Inr (not_covered a1), w2))"

fun sweep_list :: "('x \<Rightarrow> sweep_acc \<Rightarrow> ('w, sweep_acc) call) \<Rightarrow> 'x list \<Rightarrow> sweep_acc \<Rightarrow> ('w, sweep_acc) call" where
  "sweep_list f [] a w = (Inr a, w)"
| "sweep_list f (x # xs) a w =
     (case f x a w of (Inl e, w') \<Rightarrow> (Inl e, w') | (Inr a', w') \<Rightarrow> sweep_list f xs a' w')"

definition sweep_instance ::
  "'w ManifestResolver \<Rightarrow> string set \<Rightarrow> string list \<Rightarrow> string \<Rightarrow> Observed \<Rightarrow> sweep_acc \<Rightarrow> ('w, sweep_acc) call" where
  "sweep_instance reg known ourHosts host o' =
     sweep_list (sweep_container reg known ourHosts host (ob_Slug o')) (ob_Containers o')"

definition sweep_param ::
  "'w ManifestResolver \<Rightarrow> string set \<Rightarrow> string list \<Rightarrow> string \<times> json \<Rightarrow> sweep_acc \<Rightarrow> ('w, sweep_acc) call" where
  "sweep_param reg known ourHosts p a w =
     (case p of
        (name, v) \<Rightarrow>
          if \<not> isImageParam name then (Inr a, w)
          else case v of
            JString s \<Rightarrow>
              if TrimSpace s = '''' then (Inr a, w)
              else (case resolveRef reg known ourHosts s w of
                      (Inl _, w') \<Rightarrow> (Inl (unsafe ''spec parameter''), w')
                    | (Inr got, w') \<Rightarrow> (Inr (record_outcome s got a), w'))
          | _ \<Rightarrow> (Inl (unsafe ''parameter is not an image reference''), w))"

definition sweep_spec ::
  "'w Fleet \<Rightarrow> 'w ManifestResolver \<Rightarrow> string set \<Rightarrow> string list \<Rightarrow> string \<Rightarrow> SpecKey \<Rightarrow> sweep_acc \<Rightarrow> ('w, sweep_acc) call" where
  "sweep_spec fl reg known ourHosts host k a w =
     (case fl_GetSpec fl host (key_Template k) (key_Slug k) w of
        (Inl _, w1) \<Rightarrow> (Inl (unsafe ''reading spec''), w1)
      | (Inr sp, w1) \<Rightarrow> sweep_list (sweep_param reg known ourHosts) (spec_Parameters sp) a w1)"

definition sweep_host ::
  "'w Fleet \<Rightarrow> 'w ManifestResolver \<Rightarrow> string set \<Rightarrow> string list \<Rightarrow> duration \<Rightarrow> string \<Rightarrow> sweep_acc \<Rightarrow> ('w, sweep_acc) call" where
  "sweep_host fl reg known ourHosts maxAge host a w =
     (case fl_Inventory fl host w of
        (Inl _, w1) \<Rightarrow> (Inl (unsafe ''inventory''), w1)
      | (Inr (obs, fresh), w1) \<Rightarrow>
          if \<not> fr_Reachable fresh then (Inl (unsafe ''host unreachable''), w1)
          else if \<not> fr_HasData fresh then (Inl (unsafe ''no inventory snapshot''), w1)
          else if IsZero (fr_FetchedAt fresh) then (Inl (unsafe ''snapshot is older''), w1)
          else case fl_Now fl w1 of
            (now, w2) \<Rightarrow>
              if maxAge < time_Sub now (fr_FetchedAt fresh) then (Inl (unsafe ''snapshot is older''), w2)
              else case sweep_list (sweep_instance reg known ourHosts host) obs a w2 of
                (Inl e, w3) \<Rightarrow> (Inl e, w3)
              | (Inr a1, w3) \<Rightarrow>
                  (case fl_ListSpecKeys fl host w3 of
                     (Inl _, w4) \<Rightarrow> (Inl (unsafe ''listing specs''), w4)
                   | (Inr keys, w4) \<Rightarrow> sweep_list (sweep_spec fl reg known ourHosts host) keys a1 w4))"

text \<open>The returned set goes with the error: it is empty but for the image IDs that caused it.\<close>

definition conclude :: "sweep_acc \<Rightarrow> InUseSet \<times> rerr option" where
  "conclude a =
     (if sw_nonDigest a \<noteq> []
      then (no_set\<lparr>ius_NonDigestObserved := sw_nonDigest a\<rparr>, Some (unsafe ''image ID rather than a manifest digest''))
      else if 0 < sw_seen a \<and> sw_matched a = 0
      then (no_set, Some (unsafe ''no host-qualified image reference matched a configured registry host''))
      else if sw_digests a = {} then (no_set, Some (unsafe ''fleet-wide in-use digest count is zero''))
      else (\<lparr>ius_Valid = True, ius_Digests = sw_digests a, ius_NonDigestObserved = sw_nonDigest a,
             ius_ForeignSkipped = sorted_list_of_set (sw_foreign a)\<rparr>, None))"

definition no_sweep :: sweep_acc where
  "no_sweep = \<lparr>sw_digests = {}, sw_nonDigest = [], sw_foreign = {}, sw_seen = 0, sw_matched = 0\<rparr>"

fun normalizeHosts :: "string list \<Rightarrow> string + string list" where
  "normalizeHosts [] = Inr []"
| "normalizeHosts (raw # raws) =
     (case normalizeRegistryHost raw of
        Inl e \<Rightarrow> Inl e
      | Inr h \<Rightarrow> (case normalizeHosts raws of Inl e \<Rightarrow> Inl e | Inr hs \<Rightarrow> Inr (h # hs)))"

definition BuildInUseSet ::
  "'w Fleet \<Rightarrow> 'w ManifestResolver \<Rightarrow> PruneConfig \<Rightarrow> 'w \<Rightarrow> (InUseSet \<times> rerr option) \<times> 'w" where
  "BuildInUseSet fl reg cfg w =
     (if pc_MaxSnapshotAge cfg \<le> 0 then ((no_set, Some (unsafe ''max snapshot age is not configured'')), w)
      else if pc_RegistryHosts cfg = [] then ((no_set, Some (unsafe ''no registry host is configured'')), w)
      else case normalizeHosts (pc_RegistryHosts cfg) of
        Inl _ \<Rightarrow> ((no_set, Some (unsafe ''registry host'')), w)
      | Inr ourHosts \<Rightarrow>
          (case fl_Hosts fl w of
             (hosts, w1) \<Rightarrow>
               (case mr_Catalog reg w1 of
                  (Inl _, w2) \<Rightarrow> ((no_set, Some (unsafe ''registry catalog'')), w2)
                | (Inr repos, w2) \<Rightarrow>
                    (case sweep_list (sweep_host fl reg (set repos) ourHosts (pc_MaxSnapshotAge cfg)) hosts no_sweep w2 of
                       (Inl e, w3) \<Rightarrow> ((no_set, Some e), w3)
                     | (Inr a, w3) \<Rightarrow> (conclude a, w3)))))"

subsection \<open>The states of the world during a sweep\<close>

inductive during :: "'w Fleet \<Rightarrow> 'w ManifestResolver \<Rightarrow> 'w \<Rightarrow> 'w \<Rightarrow> bool" for fl reg where
  during_refl [simp, intro!]: "during fl reg w w"
| during_hosts: "during fl reg w w1 \<Longrightarrow> fl_Hosts fl w1 = (r1, w2) \<Longrightarrow> during fl reg w w2"
| during_inventory: "during fl reg w w1 \<Longrightarrow> fl_Inventory fl h w1 = (r2, w2) \<Longrightarrow> during fl reg w w2"
| during_keys: "during fl reg w w1 \<Longrightarrow> fl_ListSpecKeys fl h w1 = (r3, w2) \<Longrightarrow> during fl reg w w2"
| during_spec: "during fl reg w w1 \<Longrightarrow> fl_GetSpec fl h t s w1 = (r4, w2) \<Longrightarrow> during fl reg w w2"
| during_now: "during fl reg w w1 \<Longrightarrow> fl_Now fl w1 = (r5, w2) \<Longrightarrow> during fl reg w w2"
| during_catalog: "during fl reg w w1 \<Longrightarrow> mr_Catalog reg w1 = (r6, w2) \<Longrightarrow> during fl reg w w2"
| during_manifest: "during fl reg w w1 \<Longrightarrow> mr_Manifest reg repo ref w1 = (r7, w2) \<Longrightarrow> during fl reg w w2"

lemma during_resolve:
  "during fl reg w0 w \<Longrightarrow> resolveRef reg known ours ref w = (r, w') \<Longrightarrow> during fl reg w0 w'"
  by (auto simp: resolveRef_def resolve_tag_def Let_def split: if_splits prod.splits sum.splits bareDigestKind.splits
      intro: during_manifest)

subsection \<open>What a finished sweep has protected\<close>

text \<open>The digests \<open>D\<close> cover a reference: at some point of the sweep it resolved, to nothing or to a digest in \<open>D\<close>.\<close>

definition ref_protected ::
  "'w Fleet \<Rightarrow> 'w ManifestResolver \<Rightarrow> string set \<Rightarrow> string list \<Rightarrow> 'w \<Rightarrow> bool \<Rightarrow> string set \<Rightarrow> string \<Rightarrow> bool" where
  "ref_protected fl reg known ours w0 covered D ref \<longleftrightarrow>
     (\<exists>w got. during fl reg w0 w \<and> fst (resolveRef reg known ours ref w) = Inr got \<and>
        (covered \<longrightarrow> ro_Covered got) \<and> (ro_Digest got \<noteq> '''' \<longrightarrow> ro_Digest got \<in> D))"

text \<open>A running container: its image is covered, and its tag is too unless the registry says it has no such tag.\<close>

definition container_protected ::
  "'w Fleet \<Rightarrow> 'w ManifestResolver \<Rightarrow> string set \<Rightarrow> string list \<Rightarrow> 'w \<Rightarrow> bool \<Rightarrow> string set \<Rightarrow> ObservedContainer \<Rightarrow> bool" where
  "container_protected fl reg known ours w0 covered D c \<longleftrightarrow>
     oc_IsInfra c \<or>
     ref_protected fl reg known ours w0 covered D (oc_Image c) \<and>
     (ref_protected fl reg known ours w0 False D (oc_ImageTag c) \<or>
      (\<exists>w e. during fl reg w0 w \<and> fst (resolveRef reg known ours (oc_ImageTag c) w) = Inl e \<and> \<not> errors_Is e RegUnreachable))"

definition param_protected ::
  "'w Fleet \<Rightarrow> 'w ManifestResolver \<Rightarrow> string set \<Rightarrow> string list \<Rightarrow> 'w \<Rightarrow> string set \<Rightarrow> string \<times> json \<Rightarrow> bool" where
  "param_protected fl reg known ours w0 D p \<longleftrightarrow>
     (isImageParam (fst p) \<longrightarrow>
        (\<exists>s. snd p = JString s \<and> (TrimSpace s \<noteq> '''' \<longrightarrow> ref_protected fl reg known ours w0 False D s)))"

definition spec_protected ::
  "'w Fleet \<Rightarrow> 'w ManifestResolver \<Rightarrow> string set \<Rightarrow> string list \<Rightarrow> 'w \<Rightarrow> string set \<Rightarrow> string \<Rightarrow> SpecKey \<Rightarrow> bool" where
  "spec_protected fl reg known ours w0 D host k \<longleftrightarrow>
     (\<exists>w sp. during fl reg w0 w \<and> fst (fl_GetSpec fl host (key_Template k) (key_Slug k) w) = Inr sp \<and>
        (\<forall>p\<in>set (spec_Parameters sp). param_protected fl reg known ours w0 D p))"

definition host_protected ::
  "'w Fleet \<Rightarrow> 'w ManifestResolver \<Rightarrow> string set \<Rightarrow> string list \<Rightarrow> duration \<Rightarrow> 'w \<Rightarrow> bool \<Rightarrow> string set \<Rightarrow> string \<Rightarrow> bool" where
  "host_protected fl reg known ours maxAge w0 covered D host \<longleftrightarrow>
     (\<exists>w1 obs fresh w2. during fl reg w0 w1 \<and> fst (fl_Inventory fl host w1) = Inr (obs, fresh) \<and>
        fr_Reachable fresh \<and> fr_HasData fresh \<and> \<not> IsZero (fr_FetchedAt fresh) \<and>
        during fl reg w0 w2 \<and> time_Sub (fst (fl_Now fl w2)) (fr_FetchedAt fresh) \<le> maxAge \<and>
        (\<forall>o'\<in>set obs. \<forall>c\<in>set (ob_Containers o'). container_protected fl reg known ours w0 covered D c)) \<and>
     (\<exists>w3 keys. during fl reg w0 w3 \<and> fst (fl_ListSpecKeys fl host w3) = Inr keys \<and>
        (\<forall>k\<in>set keys. spec_protected fl reg known ours w0 D host k))"

text \<open>Digests only grow; once an image ID has been seen it stays recorded.\<close>

definition acc_le :: "sweep_acc \<Rightarrow> sweep_acc \<Rightarrow> bool" where
  "acc_le a b \<longleftrightarrow> sw_digests a \<subseteq> sw_digests b \<and> (sw_nonDigest b = [] \<longrightarrow> sw_nonDigest a = [])"

lemma acc_le_refl [simp, intro!]: "acc_le a a"
  by (simp add: acc_le_def)

lemma acc_le_trans: "acc_le a b \<Longrightarrow> acc_le b c \<Longrightarrow> acc_le a c"
  by (auto simp: acc_le_def)

lemma ref_protected_mono:
  "ref_protected fl reg known ours w0 b D ref \<Longrightarrow> D \<subseteq> D' \<Longrightarrow> (b' \<longrightarrow> b) \<Longrightarrow> ref_protected fl reg known ours w0 b' D' ref"
  by (auto simp: ref_protected_def)

lemma container_protected_mono:
  "container_protected fl reg known ours w0 b D c \<Longrightarrow> D \<subseteq> D' \<Longrightarrow> (b' \<longrightarrow> b) \<Longrightarrow> container_protected fl reg known ours w0 b' D' c"
  by (auto simp: container_protected_def intro: ref_protected_mono)

lemma param_protected_mono:
  "param_protected fl reg known ours w0 D p \<Longrightarrow> D \<subseteq> D' \<Longrightarrow> param_protected fl reg known ours w0 D' p"
  by (auto simp: param_protected_def intro: ref_protected_mono)

lemma spec_protected_mono:
  "spec_protected fl reg known ours w0 D host k \<Longrightarrow> D \<subseteq> D' \<Longrightarrow> spec_protected fl reg known ours w0 D' host k"
  unfolding spec_protected_def by (meson param_protected_mono)

lemma host_protected_mono:
  "host_protected fl reg known ours m w0 b D host \<Longrightarrow> D \<subseteq> D' \<Longrightarrow> (b' \<longrightarrow> b) \<Longrightarrow> host_protected fl reg known ours m w0 b' D' host"
  unfolding host_protected_def by (meson container_protected_mono spec_protected_mono)

lemma record_outcome_digests:
  "sw_digests (record_outcome ref got a) = (if ro_Digest got \<noteq> '''' then insert (ro_Digest got) (sw_digests a) else sw_digests a)"
  by (simp add: record_outcome_def countQualified_def Let_def)

lemma record_outcome_nonDigest [simp]: "sw_nonDigest (record_outcome ref got a) = sw_nonDigest a"
  by (simp add: record_outcome_def countQualified_def Let_def)

text \<open>One pass over a list: what each step establishes, and later steps keep, holds of all elements.\<close>

lemma sweep_list_all:
  assumes "sweep_list f xs a w = (Inr a', w')" and "during fl reg w0 w"
    and step: "\<And>x a w a' w'. x \<in> set xs \<Longrightarrow> during fl reg w0 w \<Longrightarrow> f x a w = (Inr a', w') \<Longrightarrow>
      acc_le a a' \<and> during fl reg w0 w' \<and> Q x a'"
    and keep: "\<And>x a a'. Q x a \<Longrightarrow> acc_le a a' \<Longrightarrow> Q x a'"
  shows "acc_le a a' \<and> during fl reg w0 w' \<and> (\<forall>x\<in>set xs. Q x a')"
  using assms(1,2) step
proof (induction xs arbitrary: a w)
  case (Cons x xs)
  from Cons.prems(1) obtain a1 w1 where s: "f x a w = (Inr a1, w1)" "sweep_list f xs a1 w1 = (Inr a', w')"
    by (auto split: prod.splits sum.splits)
  from Cons.prems(3) [OF _ Cons.prems(2) s(1)] have one: "acc_le a a1" "during fl reg w0 w1" "Q x a1" by auto
  from Cons.IH [OF s(2) one(2) Cons.prems(3)] have rest: "acc_le a1 a'" "during fl reg w0 w'" "\<forall>y\<in>set xs. Q y a'" by auto
  with one keep [OF one(3) rest(1)] show ?case by (auto intro: acc_le_trans)
qed simp

lemma sweep_container_ok:
  assumes "sweep_container reg known ours host slug c a w = (Inr a', w')" and "during fl reg w0 w"
  shows "acc_le a a' \<and> during fl reg w0 w' \<and>
    container_protected fl reg known ours w0 (sw_nonDigest a' = []) (sw_digests a') c"
proof (cases "oc_IsInfra c")
  case True
  with assms show ?thesis by (simp add: sweep_container_def container_protected_def)
next
  case False
  with assms(1) obtain got w1 where g: "resolveRef reg known ours (oc_Image c) w = (Inr got, w1)"
    by (auto simp: sweep_container_def split: prod.splits sum.splits)
  obtain tr w2 where t: "resolveRef reg known ours (oc_ImageTag c) w1 = (tr, w2)" by fastforce
  have d1: "during fl reg w0 w1" by (rule during_resolve [OF assms(2) g])
  have d2: "during fl reg w0 w2" by (rule during_resolve [OF d1 t])
  define a1 where "a1 = record_outcome (oc_Image c) got a"
  define a2 where "a2 = (case tr of Inr gotTag \<Rightarrow> record_outcome (oc_ImageTag c) gotTag a1 | Inl _ \<Rightarrow> a1)"
  have a': "a' = (if \<not> ro_Covered got then a2\<lparr>sw_nonDigest := sw_nonDigest a2 @ [host @ ''/'' @ slug @ ''/'' @ oc_Name c]\<rparr> else a2)"
    "w' = w2" "\<And>e. tr = Inl e \<Longrightarrow> \<not> errors_Is e RegUnreachable"
    using assms(1) False g t
    by (auto simp: sweep_container_def Let_def a1_def a2_def split: sum.splits if_splits)
  have n2: "sw_nonDigest a2 = sw_nonDigest a" by (simp add: a2_def a1_def split: sum.split)
  have s1: "sw_digests a \<subseteq> sw_digests a1" "ro_Digest got \<noteq> '''' \<Longrightarrow> ro_Digest got \<in> sw_digests a1"
    by (auto simp: a1_def record_outcome_digests)
  have s2: "sw_digests a1 \<subseteq> sw_digests a2" "\<And>x. tr = Inr x \<Longrightarrow> ro_Digest x \<noteq> '''' \<Longrightarrow> ro_Digest x \<in> sw_digests a2"
    by (auto simp: a2_def record_outcome_digests split: sum.splits)
  have D: "sw_digests a' = sw_digests a2" by (simp add: a'(1))
  have "acc_le a a'" using s1(1) s2(1) n2 D a'(1) by (auto simp: acc_le_def split: if_splits)
  moreover have "ref_protected fl reg known ours w0 (sw_nonDigest a' = []) (sw_digests a') (oc_Image c)"
    unfolding ref_protected_def using assms(2) g s1(2) s2(1) D a'(1) by (intro exI [of _ w] exI [of _ got]) auto
  moreover have "ref_protected fl reg known ours w0 False (sw_digests a') (oc_ImageTag c) \<or>
      (\<exists>w e. during fl reg w0 w \<and> fst (resolveRef reg known ours (oc_ImageTag c) w) = Inl e \<and> \<not> errors_Is e RegUnreachable)"
  proof (cases tr)
    case (Inl e)
    with t d1 a'(3) show ?thesis by (metis fst_conv)
  next
    case (Inr x)
    with t d1 s2(2) D show ?thesis unfolding ref_protected_def by (intro disjI1 exI [of _ w1] exI [of _ x]) auto
  qed
  ultimately show ?thesis using d2 a'(2) by (simp add: container_protected_def)
qed

lemma container_keep:
  "container_protected fl reg known ours w0 (sw_nonDigest a = []) (sw_digests a) c \<Longrightarrow> acc_le a a' \<Longrightarrow>
   container_protected fl reg known ours w0 (sw_nonDigest a' = []) (sw_digests a') c"
  by (rule container_protected_mono) (auto simp: acc_le_def)

lemma sweep_instance_ok:
  assumes "sweep_instance reg known ours host o' a w = (Inr a', w')" and "during fl reg w0 w"
  shows "acc_le a a' \<and> during fl reg w0 w' \<and>
    (\<forall>c\<in>set (ob_Containers o'). container_protected fl reg known ours w0 (sw_nonDigest a' = []) (sw_digests a') c)"
  by (rule sweep_list_all [OF assms(1) [unfolded sweep_instance_def] assms(2) sweep_container_ok container_keep])

lemma sweep_param_ok:
  assumes "sweep_param reg known ours p a w = (Inr a', w')" and "during fl reg w0 w"
  shows "acc_le a a' \<and> during fl reg w0 w' \<and> param_protected fl reg known ours w0 (sw_digests a') p"
proof (cases "\<exists>s. isImageParam (fst p) \<and> snd p = JString s \<and> TrimSpace s \<noteq> ''''")
  case False
  with assms show ?thesis
    by (cases p) (auto simp: sweep_param_def param_protected_def split: if_splits json.splits)
next
  case True
  then obtain name s where p: "p = (name, JString s)" "isImageParam name" "TrimSpace s \<noteq> ''''" by (cases p) auto
  with assms(1) obtain got where g: "resolveRef reg known ours s w = (Inr got, w')" "a' = record_outcome s got a"
    by (auto simp: sweep_param_def split: prod.splits sum.splits)
  have "ref_protected fl reg known ours w0 False (sw_digests a') s"
    unfolding ref_protected_def using g assms(2) by (intro exI [of _ w] exI [of _ got]) (auto simp: record_outcome_digests)
  with p g during_resolve [OF assms(2) g(1)] show ?thesis
    by (auto simp: param_protected_def acc_le_def record_outcome_digests)
qed

lemma sweep_spec_ok:
  assumes "sweep_spec fl reg known ours host k a w = (Inr a', w')" and "during fl reg w0 w"
  shows "acc_le a a' \<and> during fl reg w0 w' \<and> spec_protected fl reg known ours w0 (sw_digests a') host k"
proof -
  from assms(1) obtain sp w1 where s: "fl_GetSpec fl host (key_Template k) (key_Slug k) w = (Inr sp, w1)"
    "sweep_list (sweep_param reg known ours) (spec_Parameters sp) a w1 = (Inr a', w')"
    by (auto simp: sweep_spec_def split: prod.splits sum.splits)
  have "acc_le a a' \<and> during fl reg w0 w' \<and> (\<forall>p\<in>set (spec_Parameters sp). param_protected fl reg known ours w0 (sw_digests a') p)"
    by (rule sweep_list_all [OF s(2) during_spec [OF assms(2) s(1)] sweep_param_ok])
      (auto simp: acc_le_def intro: param_protected_mono)
  with s(1) assms(2) show ?thesis by (auto simp: spec_protected_def intro!: exI [of _ w])
qed

lemma sweep_host_ok:
  assumes "sweep_host fl reg known ours m host a w = (Inr a', w')" and "during fl reg w0 w"
  shows "acc_le a a' \<and> during fl reg w0 w' \<and> host_protected fl reg known ours m w0 (sw_nonDigest a' = []) (sw_digests a') host"
proof -
  from assms(1) obtain obs fresh w1 now w2 a1 w3 keys w4 where
    inv: "fl_Inventory fl host w = (Inr (obs, fresh), w1)" and
    fresh: "fr_Reachable fresh" "fr_HasData fresh" "\<not> IsZero (fr_FetchedAt fresh)" and
    now: "fl_Now fl w1 = (now, w2)" "\<not> m < time_Sub now (fr_FetchedAt fresh)" and
    obs: "sweep_list (sweep_instance reg known ours host) obs a w2 = (Inr a1, w3)" and
    keys: "fl_ListSpecKeys fl host w3 = (Inr keys, w4)" and
    specs: "sweep_list (sweep_spec fl reg known ours host) keys a1 w4 = (Inr a', w')"
    by (auto simp: sweep_host_def split: prod.splits sum.splits if_splits)
  have d1: "during fl reg w0 w1" by (rule during_inventory [OF assms(2) inv])
  have d2: "during fl reg w0 w2" by (rule during_now [OF d1 now(1)])
  have o: "acc_le a a1 \<and> during fl reg w0 w3 \<and>
      (\<forall>o'\<in>set obs. \<forall>c\<in>set (ob_Containers o'). container_protected fl reg known ours w0 (sw_nonDigest a1 = []) (sw_digests a1) c)"
    by (rule sweep_list_all [OF obs d2 sweep_instance_ok]) (auto intro: container_keep)
  have s: "acc_le a1 a' \<and> during fl reg w0 w' \<and> (\<forall>k\<in>set keys. spec_protected fl reg known ours w0 (sw_digests a') host k)"
    by (rule sweep_list_all [OF specs during_keys [OF _ keys] sweep_spec_ok])
      (use o in \<open>auto simp: acc_le_def intro: spec_protected_mono\<close>)
  have c: "\<forall>o'\<in>set obs. \<forall>c\<in>set (ob_Containers o'). container_protected fl reg known ours w0 (sw_nonDigest a' = []) (sw_digests a') c"
    using o s by (auto intro: container_keep)
  have "\<exists>w1 obs fresh w2. during fl reg w0 w1 \<and> fst (fl_Inventory fl host w1) = Inr (obs, fresh) \<and>
        fr_Reachable fresh \<and> fr_HasData fresh \<and> \<not> IsZero (fr_FetchedAt fresh) \<and>
        during fl reg w0 w2 \<and> time_Sub (fst (fl_Now fl w2)) (fr_FetchedAt fresh) \<le> m \<and>
        (\<forall>o'\<in>set obs. \<forall>c\<in>set (ob_Containers o'). container_protected fl reg known ours w0 (sw_nonDigest a' = []) (sw_digests a') c)"
    using assms(2) inv fresh d1 now c by (intro exI [of _ w] exI [of _ obs] exI [of _ fresh] exI [of _ w1]) auto
  moreover have "\<exists>w3 keys. during fl reg w0 w3 \<and> fst (fl_ListSpecKeys fl host w3) = Inr keys \<and>
        (\<forall>k\<in>set keys. spec_protected fl reg known ours w0 (sw_digests a') host k)"
    using o s keys by (intro exI [of _ w3] exI [of _ keys]) auto
  ultimately show ?thesis using o s by (auto simp: host_protected_def intro: acc_le_trans)
qed

lemma host_keep:
  "host_protected fl reg known ours m w0 (sw_nonDigest a = []) (sw_digests a) host \<Longrightarrow> acc_le a a' \<Longrightarrow>
   host_protected fl reg known ours m w0 (sw_nonDigest a' = []) (sw_digests a') host"
  by (rule host_protected_mono) (auto simp: acc_le_def)

lemma BuildInUseSet_protects:
  assumes "BuildInUseSet fl reg cfg w = ((s, None), w')"
  shows "ius_Valid s \<and> ius_Digests s \<noteq> {} \<and>
    (\<exists>ours hosts w1 repos. normalizeHosts (pc_RegistryHosts cfg) = Inr ours \<and> ours \<noteq> [] \<and> fl_Hosts fl w = (hosts, w1) \<and>
       fst (mr_Catalog reg w1) = Inr repos \<and>
       (\<forall>host\<in>set hosts. host_protected fl reg (set repos) ours (pc_MaxSnapshotAge cfg) w True (ius_Digests s) host))"
proof -
  from assms obtain ours hosts w1 repos w2 a where
    cfg: "pc_RegistryHosts cfg \<noteq> []" "normalizeHosts (pc_RegistryHosts cfg) = Inr ours" and
    h: "fl_Hosts fl w = (hosts, w1)" and c: "mr_Catalog reg w1 = (Inr repos, w2)" and
    sweep: "sweep_list (sweep_host fl reg (set repos) ours (pc_MaxSnapshotAge cfg)) hosts no_sweep w2 = (Inr a, w')" and
    fin: "conclude a = (s, None)"
    by (auto simp: BuildInUseSet_def split: if_splits sum.splits prod.splits)
  have d2: "during fl reg w w2" by (rule during_catalog [OF during_hosts [OF during_refl h] c])
  have "acc_le no_sweep a \<and> during fl reg w w' \<and>
      (\<forall>host\<in>set hosts. host_protected fl reg (set repos) ours (pc_MaxSnapshotAge cfg) w (sw_nonDigest a = []) (sw_digests a) host)"
    by (rule sweep_list_all [OF sweep d2 sweep_host_ok host_keep])
  moreover have "sw_nonDigest a = []" "ius_Digests s = sw_digests a" "ius_Valid s" "ius_Digests s \<noteq> {}"
    using fin by (auto simp: conclude_def split: if_splits)
  moreover have "ours \<noteq> []" using cfg by (cases "pc_RegistryHosts cfg") (auto split: sum.splits)
  ultimately show ?thesis using cfg h c by auto
qed

lemma sweep_list_error:
  assumes "sweep_list f xs a w = (Inl e, w')" and "\<And>x a w e w'. f x a w = (Inl e, w') \<Longrightarrow> P e"
  shows "P e"
  using assms by (induction xs arbitrary: a w) (auto split: prod.splits sum.splits)

lemma sweep_container_error: "sweep_container reg known ours host slug c a w = (Inl e, w') \<Longrightarrow> errors_Is e UnsafeToPrune"
  by (auto simp: sweep_container_def unsafe_def Let_def split: if_splits prod.splits sum.splits)

lemma sweep_param_error: "sweep_param reg known ours p a w = (Inl e, w') \<Longrightarrow> errors_Is e UnsafeToPrune"
  by (auto simp: sweep_param_def unsafe_def split: if_splits prod.splits sum.splits json.splits)

lemma sweep_host_error: "sweep_host fl reg known ours m host a w = (Inl e, w') \<Longrightarrow> errors_Is e UnsafeToPrune"
proof -
  have o: "sweep_list (sweep_instance reg known ours host) obs a w = (Inl e, w') \<Longrightarrow> errors_Is e UnsafeToPrune" for obs a w w'
    by (erule sweep_list_error) (auto simp: sweep_instance_def elim: sweep_list_error intro: sweep_container_error)
  have s: "sweep_list (sweep_spec fl reg known ours host) keys a w = (Inl e, w') \<Longrightarrow> errors_Is e UnsafeToPrune" for keys a w w'
    by (erule sweep_list_error)
      (auto simp: sweep_spec_def unsafe_def split: prod.splits sum.splits elim: sweep_list_error intro: sweep_param_error)
  show "sweep_host fl reg known ours m host a w = (Inl e, w') \<Longrightarrow> errors_Is e UnsafeToPrune"
    by (auto simp: sweep_host_def unsafe_def split: prod.splits sum.splits if_splits dest: o s)
qed

text \<open>C15. The protection pass fails closed: whenever it returns an error, the error is \<^verbatim>\<open>ErrUnsafeToPrune\<close>,
  the set that comes with it is not valid, and it answers no for every digest.\<close>

theorem inuse_fails_closed:
  assumes "BuildInUseSet fl reg cfg w = ((s, Some e), w')"
  shows "errors_Is e UnsafeToPrune \<and> \<not> ius_Valid s \<and> (\<forall>d. \<not> Has s d)"
proof -
  have "errors_Is e UnsafeToPrune" "\<not> ius_Valid s" "ius_Digests s = {}"
    using assms
    by (auto simp: BuildInUseSet_def conclude_def no_set_def unsafe_def split: if_splits sum.splits prod.splits
        dest: sweep_list_error [OF _ sweep_host_error])
  then show ?thesis by (simp add: Has_def)
qed

text \<open>C14. A protection pass that returns without error has covered the whole fleet: every configured host was
  reachable with a snapshot within the age limit; the image of every running container other than an
  infra container resolved to a digest of the set or is provably foreign, none of them a bare image ID,
  and its tag likewise unless the registry answered that it is gone; and every image parameter of every stored spec is a
  string that is blank, foreign, or resolved to a digest of the set. The set is not empty.\<close>

theorem inuse_covers_fleet:
  assumes "BuildInUseSet fl reg cfg w = ((s, None), w')"
  shows "ius_Valid s \<and> ius_Digests s \<noteq> {} \<and>
    (\<exists>ours hosts w1 repos. normalizeHosts (pc_RegistryHosts cfg) = Inr ours \<and> ours \<noteq> [] \<and> fl_Hosts fl w = (hosts, w1) \<and>
       fst (mr_Catalog reg w1) = Inr repos \<and>
       (\<forall>host\<in>set hosts. host_protected fl reg (set repos) ours (pc_MaxSnapshotAge cfg) w True (ius_Digests s) host))"
  using assms by (rule BuildInUseSet_protects)

text \<open>A fleet of one host: an instance that runs the release by digest, and a spec that names a feature branch.\<close>

definition sample_spec :: Spec where
  "sample_spec = \<lparr>spec_Host = ''h1'', spec_Template = ''web'', spec_Slug = ''one'',
     spec_Parameters = [(''image'', JString ''reg:5000/app:feat-x''), (''replicas'', JNumber ''2'')],
     spec_Secrets = [], spec_InjectorSecrets = [], spec_Domains = [], spec_AppliedVolumes = None,
     spec_AppliedVolumeMeta = None, spec_AppliedNetworks = None, spec_Created = 1, spec_Updated = 1\<rparr>"

definition sample_fleet :: "string list Fleet" where
  "sample_fleet =
     \<lparr>fl_Hosts = (\<lambda>w. ([''h1''], w)),
      fl_Inventory = (\<lambda>_ w. (Inr ([\<lparr>ob_Slug = ''one'', ob_Containers =
         [\<lparr>oc_Name = ''infra'', oc_Image = '''', oc_ImageTag = '''', oc_IsInfra = True\<rparr>,
          \<lparr>oc_Name = ''web'', oc_Image = sample_digest CHR ''a'', oc_ImageTag = ''reg:5000/app:latest'', oc_IsInfra = False\<rparr>]\<rparr>],
         \<lparr>fr_FetchedAt = 10, fr_Reachable = True, fr_HasData = True\<rparr>), w)),
      fl_ListSpecKeys = (\<lambda>_ w. (Inr [\<lparr>key_Template = ''web'', key_Slug = ''one''\<rparr>], w)),
      fl_GetSpec = (\<lambda>_ _ _ w. (Inr sample_spec, w)),
      fl_Now = (\<lambda>w. (20, w))\<rparr>"

definition sample_config :: PruneConfig where
  "sample_config = \<lparr>pc_RegistryHosts = [''http://reg:5000''], pc_MaxSnapshotAge = 10 * minute\<rparr>"

theorem inuse_fails_closed_witness:
  "\<exists>s e w'. BuildInUseSet sample_fleet sample_resolver (sample_config\<lparr>pc_RegistryHosts := [''registry'']\<rparr>) [] = ((s, Some e), w') \<and>
     errors_Is e UnsafeToPrune \<and> \<not> ius_Valid s \<and> (\<forall>d. \<not> Has s d)"
proof -
  let ?run = "BuildInUseSet sample_fleet sample_resolver (sample_config\<lparr>pc_RegistryHosts := [''registry'']\<rparr>) []"
  have "snd (fst ?run) \<noteq> None" by code_simp
  then obtain s e w' where run: "?run = ((s, Some e), w')" by (cases ?run; cases "fst ?run") auto
  show ?thesis by (rule exI, rule exI, rule exI, rule conjI, rule run, rule inuse_fails_closed [OF run])
qed

theorem inuse_covers_fleet_witness:
  "\<exists>s w'. BuildInUseSet sample_fleet sample_resolver sample_config [] = ((s, None), w') \<and>
     ius_Digests s = {sample_digest CHR ''a'', sample_digest CHR ''c''} \<and> ius_Valid s \<and>
     host_protected sample_fleet sample_resolver {''app'', ''base''} [''reg:5000''] (10 * minute) [] True (ius_Digests s) ''h1''"
proof -
  let ?run = "BuildInUseSet sample_fleet sample_resolver sample_config []"
  have "snd (fst ?run) = None" "ius_Digests (fst (fst ?run)) = {sample_digest CHR ''a'', sample_digest CHR ''c''}" by code_simp+
  then obtain s w' where run: "?run = ((s, None), w')" "ius_Digests s = {sample_digest CHR ''a'', sample_digest CHR ''c''}"
    by (cases ?run; cases "fst ?run") auto
  have n: "normalizeHosts (pc_RegistryHosts sample_config) = Inr [''reg:5000'']" by code_simp
  have c: "fst (mr_Catalog sample_resolver []) = Inr [''app'', ''base'']" by code_simp
  have h: "fl_Hosts sample_fleet [] = ([''h1''], [])" "pc_MaxSnapshotAge sample_config = 10 * minute"
    by (simp_all add: sample_fleet_def sample_config_def)
  from inuse_covers_fleet [OF run(1)] n c h
  have "ius_Valid s" "host_protected sample_fleet sample_resolver {''app'', ''base''} [''reg:5000''] (10 * minute) [] True (ius_Digests s) ''h1''"
    by auto
  then show ?thesis using run by (intro exI conjI)
qed

subsection \<open>A sweep only reads\<close>

lemma sweep_list_during:
  assumes "sweep_list f xs a w = (r, w')" and "during fl reg w0 w"
    and step: "\<And>x a w r w'. during fl reg w0 w \<Longrightarrow> f x a w = (r, w') \<Longrightarrow> during fl reg w0 w'"
  shows "during fl reg w0 w'"
  using assms(1,2)
proof (induction xs arbitrary: a w)
  case (Cons x xs)
  obtain r1 w1 where s: "f x a w = (r1, w1)" by fastforce
  have d: "during fl reg w0 w1" by (rule step [OF Cons.prems(2) s])
  with Cons s show ?case by (cases r1) auto
qed simp

lemma sweep_container_during:
  "during fl reg w0 w \<Longrightarrow> sweep_container reg known ours host slug c a w = (r, w') \<Longrightarrow> during fl reg w0 w'"
  by (auto simp: sweep_container_def Let_def split: if_splits prod.splits sum.splits dest: during_resolve)

lemma sweep_param_during:
  "during fl reg w0 w \<Longrightarrow> sweep_param reg known ours p a w = (r, w') \<Longrightarrow> during fl reg w0 w'"
  by (auto simp: sweep_param_def split: if_splits prod.splits sum.splits json.splits dest: during_resolve)

lemma sweep_spec_during:
  "during fl reg w0 w \<Longrightarrow> sweep_spec fl reg known ours host k a w = (r, w') \<Longrightarrow> during fl reg w0 w'"
  by (auto simp: sweep_spec_def split: prod.splits sum.splits intro: during_spec
      elim: sweep_list_during [OF _ during_spec sweep_param_during])

lemma sweep_host_during:
  assumes "during fl reg w0 w" and "sweep_host fl reg known ours m host a w = (r, w')"
  shows "during fl reg w0 w'"
proof -
  obtain r1 w1 where inv: "fl_Inventory fl host w = (r1, w1)" by fastforce
  have d1: "during fl reg w0 w1" by (rule during_inventory [OF assms(1) inv])
  obtain now w2 where now: "fl_Now fl w1 = (now, w2)" by fastforce
  have d2: "during fl reg w0 w2" by (rule during_now [OF d1 now])
  have o: "during fl reg w0 w3" if "sweep_list (sweep_instance reg known ours host) obs a w2 = (x, w3)" for obs x w3
    using that d2 by (rule sweep_list_during)
      (auto simp: sweep_instance_def elim: sweep_list_during [OF _ _ sweep_container_during])
  have k: "during fl reg w0 w5" if "during fl reg w0 w3" "fl_ListSpecKeys fl host w3 = (Inr keys, w4)"
    "sweep_list (sweep_spec fl reg known ours host) keys a1 w4 = (x, w5)" for keys a1 w3 w4 w5 x
    by (rule sweep_list_during [OF that(3) during_keys [OF that(1,2)] sweep_spec_during])
  show ?thesis
    using assms(2) inv now d1 d2
    by (auto simp: sweep_host_def split: prod.splits sum.splits if_splits dest: o intro: during_keys)
      (metis o k)
qed

lemma BuildInUseSet_during:
  assumes "BuildInUseSet fl reg cfg w = (r, w')"
  shows "during fl reg w w'"
proof -
  obtain hosts w1 where h: "fl_Hosts fl w = (hosts, w1)" by fastforce
  have d1: "during fl reg w w1" by (rule during_hosts [OF during_refl h])
  obtain c w2 where c: "mr_Catalog reg w1 = (c, w2)" by fastforce
  have d2: "during fl reg w w2" by (rule during_catalog [OF d1 c])
  have s: "during fl reg w w3" if "sweep_list (sweep_host fl reg known ours m) hosts a w2 = (x, w3)" for known ours m a x w3
    by (rule sweep_list_during [OF that d2 sweep_host_during])
  show ?thesis
    using assms h c d2 s by (auto simp: BuildInUseSet_def split: if_splits sum.splits prod.splits)
qed

end
