(* ===== verification/Registry_Policy.thy ===== *)
theory Registry_Policy
  imports Registry_InUse
begin

text \<open>
  \<^verbatim>\<open>internal/registryprune/policy.go\<close>: the class of one digest of a repository, and which classes
  may be deleted. \<open>Deletable_Classify\<close> characterises the deletable digests without the order of the rules.
\<close>

datatype Class =
    ClassProtected | ClassCalVer | ClassRepoProtected | ClassSharesProtected | ClassInUse
  | ClassFeatRecent | ClassShaIsLatest | ClassUnclassified | ClassShaOrphan | ClassFeatStale

fun class_name :: "Class \<Rightarrow> string" where
  "class_name ClassProtected = ''protected''"
| "class_name ClassCalVer = ''calver''"
| "class_name ClassRepoProtected = ''repo-protected''"
| "class_name ClassSharesProtected = ''shares-protected''"
| "class_name ClassInUse = ''in-use''"
| "class_name ClassFeatRecent = ''feat-recent''"
| "class_name ClassShaIsLatest = ''sha-is-latest''"
| "class_name ClassUnclassified = ''unclassified''"
| "class_name ClassShaOrphan = ''sha-orphan''"
| "class_name ClassFeatStale = ''feat-stale''"

record Policy =
  po_ProtectedExact :: "string list"
  po_CalVer :: "rexp option"
  po_ExtraPerRepo :: "(string \<times> rexp option) list"
  po_RetentionDays :: int
  po_MaxDeletesPerRepo :: int
  po_DeleteUnrecognised :: bool

definition digits_class :: rexp where
  "digits_class = Cls [(CHR ''0'', CHR ''9'')]"

definition calverRe :: rexp where
  "calverRe = Seq (Rep 4 digits_class) (Seq (Lit ''.'') (Seq (Rep 2 digits_class) (Seq (Lit ''.'') (Rep 2 digits_class))))"

definition DefaultPolicy :: Policy where
  "DefaultPolicy =
     \<lparr>po_ProtectedExact = [''latest'', ''e2e'', ''dev'', ''main'', ''deps-cache'', ''scanners-cache''],
      po_CalVer = Some calverRe,
      po_ExtraPerRepo = [(''otp'', Some (Seq (Alt (Lit ''runtime-base'') (Lit ''valvo-fork-v1'')) anything))],
      po_RetentionDays = 30, po_MaxDeletesPerRepo = 100, po_DeleteUnrecognised = False\<rparr>"

definition bareHexTagRe :: rexp where
  "bareHexTagRe = Between 7 12 (Cls [(CHR ''0'', CHR ''9''), (CHR ''a'', CHR ''f'')])"

definition isBareHexTag :: "string \<Rightarrow> bool" where
  "isBareHexTag tag = MatchString bareHexTagRe tag"

definition hasBareHexTag :: "string list \<Rightarrow> bool" where
  "hasBareHexTag tags = list_ex isBareHexTag tags"

definition allBareHexTags :: "string list \<Rightarrow> bool" where
  "allBareHexTags tags = (if tags = [] then False else list_all isBareHexTag tags)"

definition hasTag :: "string list \<Rightarrow> string \<Rightarrow> bool" where
  "hasTag tags name = list_ex (\<lambda>t. t = name) tags"

definition matchesAnyExact :: "string list \<Rightarrow> string list \<Rightarrow> bool" where
  "matchesAnyExact tags names = list_ex (\<lambda>t. list_ex (\<lambda>n. t = n) names) tags"

definition matchesAnyRegex :: "string list \<Rightarrow> rexp option \<Rightarrow> bool" where
  "matchesAnyRegex tags re = (case re of None \<Rightarrow> False | Some r \<Rightarrow> list_ex (MatchString r) tags)"

definition hasFeatTag :: "string list \<Rightarrow> bool" where
  "hasFeatTag tags = list_ex (\<lambda>t. HasPrefix t ''feat-'') tags"

definition retention :: "Policy \<Rightarrow> duration" where
  "retention p = wrap64 (wrap64 (po_RetentionDays p * 24) * hour)"

definition matchesExtra :: "string \<Rightarrow> string list \<Rightarrow> Policy \<Rightarrow> bool" where
  "matchesExtra repo tags p =
     (case map_of (po_ExtraPerRepo p) repo of None \<Rightarrow> False | Some extra \<Rightarrow> matchesAnyRegex tags extra)"

definition Classify :: "string \<Rightarrow> TagGroup \<Rightarrow> InUseSet \<Rightarrow> string set \<Rightarrow> Policy \<Rightarrow> time \<Rightarrow> Class" where
  "Classify repo tg inUse protectedDigests p now =
     (if Has inUse (tg_Digest tg) then ClassInUse
      else if hasTag (tg_Tags tg) ''latest'' \<and> hasBareHexTag (tg_Tags tg) then ClassShaIsLatest
      else if matchesAnyExact (tg_Tags tg) (po_ProtectedExact p) then ClassProtected
      else if matchesAnyRegex (tg_Tags tg) (po_CalVer p) then ClassCalVer
      else if matchesExtra repo (tg_Tags tg) p then ClassRepoProtected
      else if tg_Digest tg \<in> protectedDigests then ClassSharesProtected
      else if hasFeatTag (tg_Tags tg) then
        (if IsZero (tg_Created tg) \<or> retention p < time_Sub now (tg_Created tg) then ClassFeatStale else ClassFeatRecent)
      else if allBareHexTags (tg_Tags tg) then ClassShaOrphan
      else ClassUnclassified)"

definition Deletable :: "Class \<Rightarrow> Policy \<Rightarrow> bool" where
  "Deletable c p =
     (case c of
        ClassShaOrphan \<Rightarrow> True
      | ClassFeatStale \<Rightarrow> True
      | ClassUnclassified \<Rightarrow> po_DeleteUnrecognised p
      | _ \<Rightarrow> False)"

text \<open>A digest protected by the name of one of its tags.\<close>

definition nameProtected :: "string \<Rightarrow> TagGroup \<Rightarrow> Policy \<Rightarrow> bool" where
  "nameProtected repo tg p =
     (if matchesAnyExact (tg_Tags tg) (po_ProtectedExact p) then True
      else if matchesAnyRegex (tg_Tags tg) (po_CalVer p) then True
      else if matchesExtra repo (tg_Tags tg) p then True
      else False)"

subsection \<open>What may be deleted\<close>

lemma isBareHexTag_iff:
  "isBareHexTag t \<longleftrightarrow> 7 \<le> length t \<and> length t \<le> 12 \<and>
     list_all (\<lambda>c. CHR ''0'' \<le> c \<and> c \<le> CHR ''9'' \<or> CHR ''a'' \<le> c \<and> c \<le> CHR ''f'') t"
  by (simp add: isBareHexTag_def MatchString_lang bareHexTagRe_def lang_Between_Cls list_all_iff)

lemma Deletable_Classify:
  "Deletable (Classify repo tg inUse prot p now) p \<longleftrightarrow>
     \<not> Has inUse (tg_Digest tg) \<and> \<not> nameProtected repo tg p \<and> tg_Digest tg \<notin> prot \<and>
     \<not> (hasTag (tg_Tags tg) ''latest'' \<and> hasBareHexTag (tg_Tags tg)) \<and>
     (if hasFeatTag (tg_Tags tg) then IsZero (tg_Created tg) \<or> retention p < time_Sub now (tg_Created tg)
      else allBareHexTags (tg_Tags tg) \<or> po_DeleteUnrecognised p)"
  by (simp add: Classify_def Deletable_def nameProtected_def)

lemma not_nameProtected:
  "\<not> nameProtected repo tg p \<longleftrightarrow>
     (\<forall>t\<in>set (tg_Tags tg). t \<notin> set (po_ProtectedExact p) \<and>
        (\<forall>r. po_CalVer p = Some r \<longrightarrow> \<not> MatchString r t) \<and>
        (\<forall>r. map_of (po_ExtraPerRepo p) repo = Some (Some r) \<longrightarrow> \<not> MatchString r t))"
  by (auto simp: nameProtected_def matchesAnyExact_def matchesAnyRegex_def matchesExtra_def list_ex_iff
      split: option.splits)

lemma retention_default: "retention DefaultPolicy = 30 * 24 * hour"
  by (simp add: retention_def DefaultPolicy_def wrap64_def hour_def minute_def second_def)

lemma MatchString_alternatives:
  "MatchString (Seq (Alt (Lit p) (Lit q)) anything) t \<longleftrightarrow> HasPrefix t p \<or> HasPrefix t q"
  unfolding MatchString_lang lang.simps(4,5) lang_Lit lang_anything conc_def HasPrefix_iff by blast



end
