(* ===== verification/Registry_Prune.thy ===== *)
theory Registry_Prune
  imports Registry_Policy
begin

text \<open>
  \<^verbatim>\<open>internal/registryprune/handler.go\<close>: the registry-prune job. A run is a function of the state of the
  outside world, the job steps written so far and the metrics recorded so far. Theorems about
  it observe the registry through \<open>logged\<close>, a client that writes down each \<^verbatim>\<open>Delete\<close> it is asked for.
\<close>

subsection \<open>Payload, steps, metrics\<close>

record Payload =
  pl_Policy :: Policy
  pl_DryRun :: bool
  pl_SkipBlobGC :: bool

definition maxListedInStep :: nat where
  "maxListedInStep = 20"

text \<open>The items a step spells out and how many more there are.\<close>

type_synonym 'a listed = "'a list \<times> nat"

definition listSample :: "'a list \<Rightarrow> 'a listed" where
  "listSample items =
     (if length items \<le> maxListedInStep then (items, 0)
      else (take maxListedInStep items, length items - maxListedInStep))"

text \<open>What a job step says; its text is not modelled beyond the values in it.\<close>

datatype detail =
    Aborted rerr
  | Says string
  | Counts string nat
  | Names string "string listed"
  | Tags string "(string \<times> string \<times> string list) listed"
  | Classes "(string \<times> nat) list"
  | Tripwire nat int
  | Refused string string Class
  | DeleteFailed string rerr
  | Bytes int
  | Reclaimed int int
  | Exited int
  | Attempt nat
  | WouldDelete nat "(string \<times> Class \<times> string list) listed"

datatype prune_metric =
    RunDone string
  | ManifestsDeleted string nat
  | RepoSkipped string nat
  | BytesReclaimed int

record 'w prun =
  pr_world :: 'w
  pr_steps :: "(string \<times> detail) list"
  pr_metrics :: "prune_metric list"

definition Step :: "string \<Rightarrow> detail \<Rightarrow> 'w prun \<Rightarrow> 'w prun" where
  "Step phase d s = s\<lparr>pr_steps := pr_steps s @ [(phase, d)]\<rparr>"

definition observe :: "prune_metric \<Rightarrow> 'w prun \<Rightarrow> 'w prun" where
  "observe m s = s\<lparr>pr_metrics := pr_metrics s @ [m]\<rparr>"

text \<open>A call on the outside world.\<close>

definition out :: "('w \<Rightarrow> 'a \<times> 'w) \<Rightarrow> 'w prun \<Rightarrow> 'a \<times> 'w prun" where
  "out f s = (case f (pr_world s) of (r, w) \<Rightarrow> (r, s\<lparr>pr_world := w\<rparr>))"

subsection \<open>The handler\<close>

record candidate =
  ca_digest :: string
  ca_tags :: "string list"
  ca_class :: Class

record repoPlan =
  rp_repo :: string
  rp_candidates :: "candidate list"

record gc_result =
  gc_Before :: int
  gc_After :: int
  gc_Reclaimed :: int
  gc_Measured :: bool

text \<open>
  The handler's fields, the job context's error, and stage B, when there is one. \<^verbatim>\<open>buildSet\<close>, a test seam,
  is nil.
\<close>

record 'w Handler =
  h_Registry :: "'w Client"
  h_Fleet :: "'w Fleet"
  h_Config :: PruneConfig
  h_CtxErr :: "'w \<Rightarrow> rerr option \<times> 'w"
  h_BlobGC :: "(Payload \<Rightarrow> 'w prun \<Rightarrow> (gc_result \<times> rerr option) \<times> 'w prun) option"

definition fixedCatalog :: "'w Client \<Rightarrow> string list \<Rightarrow> 'w ManifestResolver" where
  "fixedCatalog inner repos = \<lparr>mr_Catalog = (\<lambda>w. (Inr repos, w)), mr_Manifest = cl_Manifest inner\<rparr>"

definition validatePolicy :: "Policy \<Rightarrow> rerr option" where
  "validatePolicy p =
     (if po_ProtectedExact p = [] \<and> po_CalVer p = None then Some (RErr [] ''policy protects no tag names'')
      else if po_MaxDeletesPerRepo p \<le> 0 then Some (RErr [] ''policy has no per-repo tripwire'')
      else None)"

definition describeMode :: "'w Handler \<Rightarrow> Payload \<Rightarrow> string" where
  "describeMode h p =
     (if pl_DryRun p then ''DRY RUN''
      else if pl_SkipBlobGC p \<or> h_BlobGC h = None then ''DELETING (stage A only)''
      else ''DELETING (stage A + B)'')"

definition inUseSet :: "'w Handler \<Rightarrow> string list \<Rightarrow> 'w prun \<Rightarrow> (InUseSet \<times> rerr option) \<times> 'w prun" where
  "inUseSet h repos = out (BuildInUseSet (h_Fleet h) (fixedCatalog (h_Registry h) repos) (h_Config h))"

definition recordSetDiagnostics :: "InUseSet \<Rightarrow> 'w prun \<Rightarrow> 'w prun" where
  "recordSetDiagnostics iu s =
     (let s1 = (if ius_NonDigestObserved iu \<noteq> []
                then Step ''in-use:non-digest'' (Names ''image ID'' (ius_NonDigestObserved iu, 0)) s else s)
      in if ius_ForeignSkipped iu \<noteq> []
         then Step ''in-use:foreign-skipped'' (Names ''skipped'' (ius_ForeignSkipped iu, 0)) s1 else s1)"

subsection \<open>Classifying every repository\<close>

text \<open>First pass: the listings, a map with its newest entry in front, and the digests protected by name in any of them.\<close>

fun list_repos ::
  "'w Handler \<Rightarrow> Policy \<Rightarrow> string list \<Rightarrow> (string \<times> TagGroup list) list \<Rightarrow> string set \<Rightarrow> 'w prun \<Rightarrow>
     (rerr + ((string \<times> TagGroup list) list \<times> string set)) \<times> 'w prun" where
  "list_repos h pol [] listings protected s = (Inr (listings, protected), s)"
| "list_repos h pol (repo # repos) listings protected s =
     (case out (h_CtxErr h) s of
        (Some e, s1) \<Rightarrow> (Inl e, s1)
      | (None, s1) \<Rightarrow>
          (case out (cl_ResolveTags (h_Registry h) repo) s1 of
             (Inl e, s2) \<Rightarrow> (Inl (RErr (wraps e) ''list tags''), Step (''classify:'' @ repo) (Aborted e) s2)
           | (Inr listing, s2) \<Rightarrow>
               let vanished = map dt_Tag (filter dt_Vanished (tl_Dropped listing));
                   hard = filter (\<lambda>d. \<not> dt_Vanished d) (tl_Dropped listing);
                   s3 = (if vanished \<noteq> [] then Step (''vanished:'' @ repo) (Names ''vanished'' (listSample vanished)) s2 else s2)
               in if hard \<noteq> []
                  then let e = RErr [UnsafeToPrune] ''registry listing is incomplete''
                       in (Inl e, Step (''classify:'' @ repo) (Aborted e) s3)
                  else list_repos h pol repos ((repo, tl_Groups listing) # listings)
                         (protected \<union> tg_Digest ` set (filter (\<lambda>tg. nameProtected repo tg pol) (tl_Groups listing))) s3))"

text \<open>Second pass: the class of every group; a stale feature branch of unknown age is kept.\<close>

type_synonym kept_unknown = "(string \<times> string \<times> string list) list"

fun classify_groups ::
  "'w Handler \<Rightarrow> InUseSet \<Rightarrow> string set \<Rightarrow> Policy \<Rightarrow> string \<Rightarrow> TagGroup list \<Rightarrow> Class list \<Rightarrow> kept_unknown \<Rightarrow> 'w prun \<Rightarrow>
     (candidate list \<times> Class list \<times> kept_unknown) \<times> 'w prun" where
  "classify_groups h inUse protected pol repo [] classes unknown s = (([], classes, unknown), s)"
| "classify_groups h inUse protected pol repo (tg # tgs) classes unknown s =
     (case out (fl_Now (h_Fleet h)) s of
        (now, s1) \<Rightarrow>
          let c = Classify repo tg inUse protected pol now; classes1 = classes @ [c]
          in if c = ClassFeatStale \<and> IsZero (tg_Created tg)
             then classify_groups h inUse protected pol repo tgs classes1 (unknown @ [(repo, tg_Digest tg, tg_Tags tg)]) s1
             else case classify_groups h inUse protected pol repo tgs classes1 unknown s1 of
               ((cas, classes2, unknown2), s2) \<Rightarrow>
                 ((if Deletable c pol then \<lparr>ca_digest = tg_Digest tg, ca_tags = tg_Tags tg, ca_class = c\<rparr> # cas else cas,
                   classes2, unknown2), s2))"

fun classify_repos ::
  "'w Handler \<Rightarrow> InUseSet \<Rightarrow> string set \<Rightarrow> Policy \<Rightarrow> (string \<times> TagGroup list) list \<Rightarrow> string list \<Rightarrow> Class list \<Rightarrow> kept_unknown \<Rightarrow>
     'w prun \<Rightarrow> (repoPlan list \<times> Class list \<times> kept_unknown) \<times> 'w prun" where
  "classify_repos h inUse protected pol listings [] classes unknown s = (([], classes, unknown), s)"
| "classify_repos h inUse protected pol listings (repo # repos) classes unknown s =
     (case classify_groups h inUse protected pol repo
             (case map_of listings repo of None \<Rightarrow> [] | Some tgs \<Rightarrow> tgs) classes unknown s of
        ((cas, classes1, unknown1), s1) \<Rightarrow>
          (case classify_repos h inUse protected pol listings repos classes1 unknown1 s1 of
             ((plan, classes2, unknown2), s2) \<Rightarrow>
               ((\<lparr>rp_repo = repo, rp_candidates = cas\<rparr> # plan, classes2, unknown2), s2)))"

definition summariseClasses :: "Class list \<Rightarrow> (string \<times> nat) list" where
  "summariseClasses classes =
     (let names = map class_name classes
      in map (\<lambda>k. (k, count_list names k)) (sort (remdups names)))"

definition classifyAll ::
  "'w Handler \<Rightarrow> string list \<Rightarrow> InUseSet \<Rightarrow> Policy \<Rightarrow> 'w prun \<Rightarrow> (rerr + (repoPlan list \<times> string set)) \<times> 'w prun" where
  "classifyAll h repos inUse pol s =
     (case list_repos h pol repos [] {} s of
        (Inl e, s1) \<Rightarrow> (Inl e, s1)
      | (Inr (listings, protected), s1) \<Rightarrow>
          (case classify_repos h inUse protected pol listings repos [] [] s1 of
             ((plan, classes, unknown), s2) \<Rightarrow>
               let s3 = Step ''classify'' (Classes (summariseClasses classes)) s2;
                   s4 = (if unknown \<noteq> [] then Step ''classify:age-unknown'' (Tags ''age unknown'' (listSample unknown)) s3 else s3)
               in (Inr (plan, protected), s4)))"

subsection \<open>The tripwire\<close>

fun tripwire :: "int \<Rightarrow> repoPlan list \<Rightarrow> 'w prun \<Rightarrow> repoPlan list \<times> 'w prun" where
  "tripwire limit [] s = ([], s)"
| "tripwire limit (rp # plan) s =
     (if limit < int (length (rp_candidates rp))
      then tripwire limit plan
             (observe (RepoSkipped (rp_repo rp) (length (rp_candidates rp)))
               (Step (''tripwire:'' @ rp_repo rp) (Tripwire (length (rp_candidates rp)) limit) s))
      else case tripwire limit plan s of (kept, s') \<Rightarrow> (rp # kept, s'))"

subsection \<open>Deleting\<close>

text \<open>The variables of the inner loop of \<^verbatim>\<open>deletePass\<close>.\<close>

record del_acc =
  da_n :: nat
  da_would :: "(string \<times> Class \<times> string list) list"
  da_seen :: "string set"
  da_firstErr :: "rerr option"
  da_down :: bool

text \<open>The guards in front of each delete: what is refused, and why.\<close>

definition backstop :: "InUseSet \<Rightarrow> InUseSet \<Rightarrow> string set \<Rightarrow> string set \<Rightarrow> string \<Rightarrow> candidate \<Rightarrow> detail option" where
  "backstop inUse fresh protected inCatalog repo c =
     (if repo \<notin> inCatalog then Some (Says ''REFUSED: repository is not in this run catalog listing'')
      else if Has inUse (ca_digest c) \<or> Has fresh (ca_digest c) then Some (Refused (ca_digest c) ''in use'' (ca_class c))
      else if ca_digest c \<in> protected then Some (Refused (ca_digest c) ''protected digest'' (ca_class c))
      else None)"

text \<open>One candidate; \<open>Inl\<close> is the early return on a cancelled context.\<close>

definition delete_candidate ::
  "'w Handler \<Rightarrow> InUseSet \<Rightarrow> InUseSet \<Rightarrow> string set \<Rightarrow> string set \<Rightarrow> bool \<Rightarrow> string \<Rightarrow> candidate \<Rightarrow> del_acc \<Rightarrow> 'w prun \<Rightarrow>
     (rerr + del_acc) \<times> 'w prun" where
  "delete_candidate h inUse fresh protected inCatalog dryRun repo c a s =
     (case out (h_CtxErr h) s of
        (Some e, s1) \<Rightarrow> (Inl e, s1)
      | (None, s1) \<Rightarrow>
          let key = repo @ ''@'' @ ca_digest c
          in if key \<in> da_seen a then (Inr a, s1)
             else
               let a1 = a\<lparr>da_seen := insert key (da_seen a)\<rparr>
               in case backstop inUse fresh protected inCatalog repo c of
                    Some d \<Rightarrow> (Inr a1, Step (''backstop:'' @ repo) d s1)
                  | None \<Rightarrow>
                      if dryRun
                      then (Inr (a1\<lparr>da_would := da_would a1 @ [(ca_digest c, ca_class c, ca_tags c)], da_n := da_n a1 + 1\<rparr>), s1)
                      else case out (cl_Delete (h_Registry h) repo (ca_digest c)) s1 of
                        (Inr _, s2) \<Rightarrow> (Inr (a1\<lparr>da_n := da_n a1 + 1\<rparr>), s2)
                      | (Inl e, s2) \<Rightarrow>
                          if errors_Is e RegNotFound then (Inr a1, Step (''delete:'' @ repo) (Says ''already absent'') s2)
                          else
                            let s3 = Step (''delete:'' @ repo) (DeleteFailed (ca_digest c) e) s2;
                                a2 = (if da_firstErr a1 = None then a1\<lparr>da_firstErr := Some (RErr (wraps e) ''delete'')\<rparr> else a1)
                            in if errors_Is e RegUnreachable then (Inr (a2\<lparr>da_down := True\<rparr>), s3) else (Inr a2, s3))"

fun delete_candidates ::
  "'w Handler \<Rightarrow> InUseSet \<Rightarrow> InUseSet \<Rightarrow> string set \<Rightarrow> string set \<Rightarrow> bool \<Rightarrow> string \<Rightarrow> candidate list \<Rightarrow> del_acc \<Rightarrow> 'w prun \<Rightarrow>
     (rerr + del_acc) \<times> 'w prun" where
  "delete_candidates h inUse fresh protected inCatalog dryRun repo [] a s = (Inr a, s)"
| "delete_candidates h inUse fresh protected inCatalog dryRun repo (c # cs) a s =
     (case delete_candidate h inUse fresh protected inCatalog dryRun repo c a s of
        (Inl e, s1) \<Rightarrow> (Inl e, s1)
      | (Inr a1, s1) \<Rightarrow>
          if da_down a1 then (Inr a1, s1)
          else delete_candidates h inUse fresh protected inCatalog dryRun repo cs a1 s1)"

fun delete_repos ::
  "'w Handler \<Rightarrow> InUseSet \<Rightarrow> InUseSet \<Rightarrow> string set \<Rightarrow> string set \<Rightarrow> bool \<Rightarrow> repoPlan list \<Rightarrow> nat \<Rightarrow> string set \<Rightarrow> rerr option \<Rightarrow>
     bool \<Rightarrow> 'w prun \<Rightarrow> (nat \<times> rerr option) \<times> 'w prun" where
  "delete_repos h inUse fresh protected inCatalog dryRun [] deleted seen firstErr down s = ((deleted, firstErr), s)"
| "delete_repos h inUse fresh protected inCatalog dryRun (rp # plan) deleted seen firstErr down s =
     (if down then ((deleted, firstErr), s)
      else case delete_candidates h inUse fresh protected inCatalog dryRun (rp_repo rp) (rp_candidates rp)
                  \<lparr>da_n = 0, da_would = [], da_seen = seen, da_firstErr = firstErr, da_down = down\<rparr> s of
        (Inl e, s1) \<Rightarrow> ((deleted, Some e), s1)
      | (Inr a, s1) \<Rightarrow>
          let s2 = (if dryRun \<and> 0 < da_n a
                    then Step (''dry-run:'' @ rp_repo rp) (WouldDelete (da_n a) (listSample (da_would a))) s1
                    else if \<not> dryRun \<and> 0 < da_n a
                    then observe (ManifestsDeleted (rp_repo rp) (da_n a))
                           (Step (''delete:'' @ rp_repo rp) (Counts ''deleted'' (da_n a)) s1)
                    else s1)
          in delete_repos h inUse fresh protected inCatalog dryRun plan (deleted + da_n a) (da_seen a) (da_firstErr a) (da_down a) s2)"

definition deletePass ::
  "'w Handler \<Rightarrow> repoPlan list \<Rightarrow> InUseSet \<Rightarrow> InUseSet \<Rightarrow> string set \<Rightarrow> string set \<Rightarrow> Payload \<Rightarrow> 'w prun \<Rightarrow> (nat \<times> rerr option) \<times> 'w prun" where
  "deletePass h plan inUse fresh protected inCatalog p =
     delete_repos h inUse fresh protected inCatalog (pl_DryRun p) plan 0 {} None False"

subsection \<open>The run\<close>

definition finish ::
  "'w Handler \<Rightarrow> repoPlan list \<Rightarrow> InUseSet \<Rightarrow> InUseSet \<Rightarrow> string set \<Rightarrow> string set \<Rightarrow> Payload \<Rightarrow> 'w prun \<Rightarrow> rerr option \<times> 'w prun" where
  "finish h kept inUse fresh protected inCatalog p s =
     (case deletePass h kept inUse fresh protected inCatalog p s of
        ((deleted, Some e), s1) \<Rightarrow> (Some e, observe (RunDone ''failed'') s1)
      | ((deleted, None), s1) \<Rightarrow>
          if pl_DryRun p
          then (None, observe (RunDone ''dry-run'') (Step ''dry-run'' (Counts ''would be deleted'' deleted) s1))
          else
            let s2 = Step ''summary'' (Counts ''deleted'' deleted) s1
            in case h_BlobGC h of
                 None \<Rightarrow> (None, observe (RunDone ''succeeded'') s2)
               | Some reclaim \<Rightarrow>
                   (case reclaim p s2 of
                      ((res, err), s3) \<Rightarrow>
                        let s4 = (if gc_Measured res then observe (BytesReclaimed (gc_Reclaimed res)) s3 else s3)
                        in case err of
                             Some e \<Rightarrow> (Some e, observe (RunDone ''failed'') s4)
                           | None \<Rightarrow> (None, observe (RunDone ''succeeded'') s4)))"

definition abortRun :: "string \<Rightarrow> rerr \<Rightarrow> 'w prun \<Rightarrow> 'w prun" where
  "abortRun phase e s = Step phase (Aborted e) (observe (RunDone ''aborted'') s)"

text \<open>Steps 3 to 7, once the first in-use set is there.\<close>

definition prune_from_set :: "'w Handler \<Rightarrow> Payload \<Rightarrow> string list \<Rightarrow> InUseSet \<Rightarrow> 'w prun \<Rightarrow> rerr option \<times> 'w prun" where
  "prune_from_set h p repos inUse s =
     (case classifyAll h repos inUse (pl_Policy p) s of
        (Inl e, s1) \<Rightarrow> (Some e, observe (RunDone ''aborted'') s1)
      | (Inr (plan, protected), s1) \<Rightarrow>
          (case tripwire (po_MaxDeletesPerRepo (pl_Policy p)) plan s1 of
             (kept, s2) \<Rightarrow>
               if pl_DryRun p
               then finish h kept inUse inUse protected (set repos) p (Step ''in-use:recheck'' (Says ''skipped'') s2)
               else case inUseSet h repos s2 of
                 ((fresh, err), s3) \<Rightarrow>
                   let s4 = recordSetDiagnostics fresh s3
                   in case err of
                        Some e \<Rightarrow> (Some e, abortRun ''in-use:recheck'' e s4)
                      | None \<Rightarrow>
                          if \<not> ius_Valid fresh
                          then let e = RErr [UnsafeToPrune] ''re-derived in-use set is not valid''
                               in (Some e, abortRun ''in-use:recheck'' e s4)
                          else finish h kept inUse fresh protected (set repos) p
                                 (Step ''in-use:recheck'' (Counts ''protected'' (Len fresh)) s4)))"

text \<open>\<open>decode\<close> is \<^verbatim>\<open>json.Unmarshal\<close> of the job's arguments into a \<^verbatim>\<open>Payload\<close>.\<close>

definition Run :: "'w Handler \<Rightarrow> (string \<Rightarrow> Payload option) \<Rightarrow> string \<Rightarrow> 'w prun \<Rightarrow> rerr option \<times> 'w prun" where
  "Run h decode args s =
     (case decode args of
        None \<Rightarrow> let e = RErr [] ''decode registry-prune args'' in (Some e, abortRun ''payload'' e s)
      | Some p \<Rightarrow>
          (case validatePolicy (pl_Policy p) of
             Some e \<Rightarrow> (Some e, abortRun ''policy'' e s)
           | None \<Rightarrow>
               (case out (cl_Catalog (h_Registry h)) (Step ''mode'' (Says (describeMode h p)) s) of
                  (Inl e, s1) \<Rightarrow> (Some (RErr (wraps e) ''registry catalog''), abortRun ''catalog'' e s1)
                | (Inr listed, s1) \<Rightarrow>
                    let repos = sort listed; s2 = Step ''catalog'' (Counts ''repositories'' (length repos)) s1
                    in case inUseSet h repos s2 of
                         ((inUse, err), s3) \<Rightarrow>
                           let s4 = recordSetDiagnostics inUse s3
                           in case err of
                                Some e \<Rightarrow> (Some e, abortRun ''in-use'' e s4)
                              | None \<Rightarrow>
                                  if \<not> ius_Valid inUse
                                  then let e = RErr [UnsafeToPrune] ''in-use set is not valid'' in (Some e, abortRun ''in-use'' e s4)
                                  else prune_from_set h p repos inUse (Step ''in-use'' (Counts ''protected'' (Len inUse)) s4))))"

end
