(* ===== verification/Registry_Safety.thy ===== *)
theory Registry_Safety
  imports Registry_Prune
begin

text \<open>
  Which manifests a registry-prune run deletes. The handler is run with a registry client that writes down
  every \<^verbatim>\<open>Delete\<close>; the lemmas follow that log through the run.
\<close>

subsection \<open>Writing down the deletes\<close>

type_synonym deletes = "(string \<times> string) list"

definition log_delete :: "'w Client \<Rightarrow> string \<Rightarrow> string \<Rightarrow> ('w \<times> deletes, unit) call" where
  "log_delete cl repo d v = (case cl_Delete cl repo d (fst v) of (r, w') \<Rightarrow> (r, (w', snd v @ [(repo, d)])))"

definition logged :: "'w Client \<Rightarrow> ('w \<times> deletes) Client" where
  "logged cl =
     \<lparr>cl_Catalog = lift_call (cl_Catalog cl), cl_Tags = (\<lambda>repo. lift_call (cl_Tags cl repo)),
      cl_ResolveTags = (\<lambda>repo. lift_call (cl_ResolveTags cl repo)),
      cl_TagCount = (\<lambda>repo. lift_call (cl_TagCount cl repo)),
      cl_Manifest = (\<lambda>repo ref. lift_call (cl_Manifest cl repo ref)),
      cl_Delete = log_delete cl\<rparr>"

definition lift_fleet :: "'w Fleet \<Rightarrow> ('w \<times> deletes) Fleet" where
  "lift_fleet fl =
     \<lparr>fl_Hosts = lift_call (fl_Hosts fl), fl_Inventory = (\<lambda>h. lift_call (fl_Inventory fl h)),
      fl_ListSpecKeys = (\<lambda>h. lift_call (fl_ListSpecKeys fl h)),
      fl_GetSpec = (\<lambda>h t s. lift_call (fl_GetSpec fl h t s)), fl_Now = lift_call (fl_Now fl)\<rparr>"

definition lift_gc ::
  "(Payload \<Rightarrow> 'w prun \<Rightarrow> (gc_result \<times> rerr option) \<times> 'w prun) \<Rightarrow>
     Payload \<Rightarrow> ('w \<times> deletes) prun \<Rightarrow> (gc_result \<times> rerr option) \<times> ('w \<times> deletes) prun" where
  "lift_gc reclaim p s =
     (case reclaim p \<lparr>pr_world = fst (pr_world s), pr_steps = pr_steps s, pr_metrics = pr_metrics s\<rparr> of
        (r, s') \<Rightarrow> (r, \<lparr>pr_world = (pr_world s', snd (pr_world s)), pr_steps = pr_steps s', pr_metrics = pr_metrics s'\<rparr>))"

definition logged_handler :: "'w Handler \<Rightarrow> ('w \<times> deletes) Handler" where
  "logged_handler h =
     \<lparr>h_Registry = logged (h_Registry h), h_Fleet = lift_fleet (h_Fleet h), h_Config = h_Config h,
      h_CtxErr = lift_call (h_CtxErr h), h_BlobGC = map_option lift_gc (h_BlobGC h)\<rparr>"

definition log_of :: "('w \<times> deletes) prun \<Rightarrow> deletes" where
  "log_of s = snd (pr_world s)"

lemma log_simps [simp]:
  "log_of (Step phase d s) = log_of s" "log_of (observe m s) = log_of s" "log_of (abortRun phase e s) = log_of s"
  "log_of (recordSetDiagnostics iu s) = log_of s"
  by (simp_all add: log_of_def Step_def observe_def abortRun_def recordSetDiagnostics_def Let_def)

lemma log_out_lift: "out (lift_call f) s = (r, s') \<Longrightarrow> log_of s' = log_of s"
  by (auto simp: out_def lift_call_def log_of_def split: prod.splits)

lemma logged_reads [simp]:
  "h_CtxErr (logged_handler h) = lift_call (h_CtxErr h)"
  "cl_Catalog (h_Registry (logged_handler h)) = lift_call (cl_Catalog (h_Registry h))"
  "cl_ResolveTags (h_Registry (logged_handler h)) repo = lift_call (cl_ResolveTags (h_Registry h) repo)"
  "fl_Now (h_Fleet (logged_handler h)) = lift_call (fl_Now (h_Fleet h))"
  "h_BlobGC (logged_handler h) = map_option lift_gc (h_BlobGC h)"
  by (simp_all add: logged_handler_def logged_def lift_fleet_def)

lemma during_log: "during (lift_fleet fl) (fixedCatalog (logged cl) repos) w w' \<Longrightarrow> snd w' = snd w"
  by (induction rule: during.induct)
    (auto simp: lift_fleet_def logged_def fixedCatalog_def lift_call_def split: prod.splits)

lemma inUseSet_log: "inUseSet (logged_handler h) repos s = (r, s') \<Longrightarrow> log_of s' = log_of s"
  by (auto simp: inUseSet_def out_def logged_handler_def log_of_def split: prod.splits
      dest!: BuildInUseSet_during during_log)

lemma list_repos_log: "list_repos (logged_handler h) pol repos listings protected s = (r, s') \<Longrightarrow> log_of s' = log_of s"
proof (induction repos arbitrary: listings protected s)
  case (Cons repo repos)
  obtain ce s1 where c: "out (lift_call (h_CtxErr h)) s = (ce, s1)" by fastforce
  obtain l s2 where l: "out (lift_call (cl_ResolveTags (h_Registry h) repo)) s1 = (l, s2)" by fastforce
  have "log_of s1 = log_of s" "log_of s2 = log_of s" using log_out_lift [OF c] log_out_lift [OF l] by auto
  with Cons.prems c l show ?case
    by (cases ce; cases l) (auto simp: Let_def split: if_splits dest: Cons.IH)
qed simp

lemma classify_groups_log:
  "classify_groups (logged_handler h) iu prot pol repo tgs cls unk s = (r, s') \<Longrightarrow> log_of s' = log_of s"
proof (induction tgs arbitrary: cls unk s r)
  case (Cons tg tgs)
  obtain now s1 where n: "out (lift_call (fl_Now (h_Fleet h))) s = (now, s1)" by fastforce
  from log_out_lift [OF n] Cons.prems n show ?case
    by (auto simp: Let_def split: if_splits prod.splits dest: Cons.IH)
qed simp

lemma classify_repos_log:
  "classify_repos (logged_handler h) iu prot pol listings repos cls unk s = (r, s') \<Longrightarrow> log_of s' = log_of s"
proof (induction repos arbitrary: cls unk s r)
  case (Cons repo repos)
  then show ?case by (auto split: prod.splits dest: Cons.IH classify_groups_log)
qed simp

lemma classifyAll_log: "classifyAll (logged_handler h) repos iu pol s = (r, s') \<Longrightarrow> log_of s' = log_of s"
  by (auto simp: classifyAll_def Let_def split: prod.splits sum.splits if_splits dest!: list_repos_log classify_repos_log)

lemma tripwire_log: "tripwire limit plan s = (kept, s') \<Longrightarrow> log_of s' = log_of s"
  by (induction plan arbitrary: s kept) (auto split: if_splits prod.splits)

lemma gc_log: "lift_gc reclaim p s = (r, s') \<Longrightarrow> log_of s' = log_of s"
  by (auto simp: lift_gc_def log_of_def split: prod.splits)

subsection \<open>The delete pass\<close>

text \<open>A delete the pass may issue.\<close>

definition allowed :: "InUseSet \<Rightarrow> InUseSet \<Rightarrow> string set \<Rightarrow> string set \<Rightarrow> bool \<Rightarrow> string \<Rightarrow> candidate list \<Rightarrow> string \<times> string \<Rightarrow> bool" where
  "allowed inUse fresh protected inCatalog dryRun repo cs x \<longleftrightarrow>
     \<not> dryRun \<and> fst x = repo \<and> repo \<in> inCatalog \<and> \<not> Has inUse (snd x) \<and> \<not> Has fresh (snd x) \<and> snd x \<notin> protected \<and>
     (\<exists>c\<in>set cs. ca_digest c = snd x)"

definition key :: "string \<times> string \<Rightarrow> string" where
  "key x = fst x @ ''@'' @ snd x"

lemma delete_candidate_log:
  assumes "delete_candidate (logged_handler h) inUse fresh prot cat dry repo c a s = (r, s')"
  shows "\<exists>new. log_of s' = log_of s @ new \<and> length new \<le> 1 \<and>
    (\<forall>x\<in>set new. allowed inUse fresh prot cat dry repo [c] x \<and> key x \<notin> da_seen a) \<and>
    (\<forall>a'. r = Inr a' \<longrightarrow> da_seen a \<subseteq> da_seen a' \<and> key ` set new \<subseteq> da_seen a')"
proof -
  obtain ce s1 where c: "out (lift_call (h_CtxErr h)) s = (ce, s1)" by fastforce
  have l1: "log_of s1 = log_of s" by (rule log_out_lift [OF c])
  show ?thesis
  proof (cases "ce = None \<and> repo @ ''@'' @ ca_digest c \<notin> da_seen a \<and> backstop inUse fresh prot cat repo c = None \<and> \<not> dry")
    case False
    then have "log_of s' = log_of s \<and> (\<forall>a'. r = Inr a' \<longrightarrow> da_seen a \<subseteq> da_seen a')"
      using assms c l1 by (auto simp: delete_candidate_def Let_def split: option.splits if_splits)
    then show ?thesis by (intro exI [of _ "[]"]) auto
  next
    case True
    obtain d s2 where d: "out (cl_Delete (h_Registry (logged_handler h)) repo (ca_digest c)) s1 = (d, s2)" by fastforce
    have l2: "log_of s2 = log_of s @ [(repo, ca_digest c)]"
      using d l1 by (auto simp: out_def log_of_def logged_handler_def logged_def log_delete_def split: prod.splits)
    have "log_of s' = log_of s2" "\<And>a'. r = Inr a' \<Longrightarrow> da_seen a' = insert (repo @ ''@'' @ ca_digest c) (da_seen a)"
      using assms c d True by (auto simp: delete_candidate_def Let_def split: sum.splits if_splits)
    moreover have "allowed inUse fresh prot cat dry repo [c] (repo, ca_digest c)"
      using True by (auto simp: allowed_def backstop_def split: if_splits)
    ultimately show ?thesis
      using l2 True by (intro exI [of _ "[(repo, ca_digest c)]"]) (auto simp: key_def)
  qed
qed

text \<open>The log of a stretch of the pass: only allowed deletes, each once.\<close>

definition log_step :: "(string \<times> string \<Rightarrow> bool) \<Rightarrow> string set \<Rightarrow> deletes \<Rightarrow> bool" where
  "log_step ok seen new \<longleftrightarrow> (\<forall>x\<in>set new. ok x \<and> key x \<notin> seen) \<and> distinct new"

lemma log_step_append:
  "log_step ok seen xs \<Longrightarrow> log_step ok' seen' ys \<Longrightarrow> seen \<subseteq> seen' \<Longrightarrow> key ` set xs \<subseteq> seen' \<Longrightarrow>
   log_step (\<lambda>x. ok x \<or> ok' x) seen (xs @ ys)"
  by (auto simp: log_step_def)

lemma delete_candidates_log:
  assumes "delete_candidates (logged_handler h) inUse fresh prot cat dry repo cs a s = (r, s')"
  shows "\<exists>new. log_of s' = log_of s @ new \<and> length new \<le> length cs \<and>
    log_step (allowed inUse fresh prot cat dry repo cs) (da_seen a) new \<and>
    (\<forall>a'. r = Inr a' \<longrightarrow> da_seen a \<subseteq> da_seen a' \<and> key ` set new \<subseteq> da_seen a')"
  using assms
proof (induction cs arbitrary: a s)
  case Nil
  then show ?case by (intro exI [of _ "[]"]) (auto simp: log_step_def)
next
  case (Cons c cs)
  have weak: "allowed inUse fresh prot cat dry repo ds x \<Longrightarrow> set ds \<subseteq> set (c # cs) \<Longrightarrow>
      allowed inUse fresh prot cat dry repo (c # cs) x" for ds x
    by (auto simp: allowed_def)
  obtain r1 s1 where one: "delete_candidate (logged_handler h) inUse fresh prot cat dry repo c a s = (r1, s1)" by fastforce
  from delete_candidate_log [OF one] obtain n1 where n1: "log_of s1 = log_of s @ n1" "length n1 \<le> 1"
    "\<forall>x\<in>set n1. allowed inUse fresh prot cat dry repo [c] x \<and> key x \<notin> da_seen a"
    "\<And>a'. r1 = Inr a' \<Longrightarrow> da_seen a \<subseteq> da_seen a' \<and> key ` set n1 \<subseteq> da_seen a'" by blast
  have s1: "log_step (allowed inUse fresh prot cat dry repo (c # cs)) (da_seen a) n1"
    using n1(2,3) weak [of "[c]"] by (cases n1) (auto simp: log_step_def)
  show ?case
  proof (cases "\<exists>a1. r1 = Inr a1 \<and> \<not> da_down a1")
    case False
    with Cons.prems one have "r = r1" "s' = s1" by (auto split: sum.splits if_splits)
    with n1 s1 show ?thesis by (intro exI [of _ n1]) auto
  next
    case True
    then obtain a1 where a1: "r1 = Inr a1" "\<not> da_down a1" by blast
    with Cons.prems one have "delete_candidates (logged_handler h) inUse fresh prot cat dry repo cs a1 s1 = (r, s')" by simp
    from Cons.IH [OF this] obtain n2 where n2: "log_of s' = log_of s1 @ n2" "length n2 \<le> length cs"
      "log_step (allowed inUse fresh prot cat dry repo cs) (da_seen a1) n2"
      "\<And>a'. r = Inr a' \<Longrightarrow> da_seen a1 \<subseteq> da_seen a' \<and> key ` set n2 \<subseteq> da_seen a'" by blast
    have s2: "log_step (allowed inUse fresh prot cat dry repo (c # cs)) (da_seen a1) n2"
      using n2(3) weak [of cs] by (auto simp: log_step_def)
    have "log_step (allowed inUse fresh prot cat dry repo (c # cs)) (da_seen a) (n1 @ n2)"
      using log_step_append [OF s1 s2] n1(4) [OF a1(1)] by simp
    moreover have "length (n1 @ n2) \<le> length (c # cs)" using n1(2) n2(2) by simp
    moreover have "da_seen a \<subseteq> da_seen a' \<and> key ` set (n1 @ n2) \<subseteq> da_seen a'" if "r = Inr a'" for a'
      using n1(4) [OF a1(1)] n2(4) [OF that] by auto
    ultimately show ?thesis using n1(1) n2(1) by (intro exI [of _ "n1 @ n2"]) auto
  qed
qed

definition plan_allows :: "InUseSet \<Rightarrow> InUseSet \<Rightarrow> string set \<Rightarrow> string set \<Rightarrow> bool \<Rightarrow> repoPlan list \<Rightarrow> string \<times> string \<Rightarrow> bool" where
  "plan_allows inUse fresh prot cat dry plan x \<longleftrightarrow>
     (\<exists>rp\<in>set plan. allowed inUse fresh prot cat dry (rp_repo rp) (rp_candidates rp) x)"

text \<open>How many deletes a plan has for a repository.\<close>

definition planned :: "repoPlan list \<Rightarrow> string \<Rightarrow> nat" where
  "planned plan repo = sum_list (map (\<lambda>rp. length (rp_candidates rp)) (filter (\<lambda>rp. rp_repo rp = repo) plan))"

lemma delete_repos_log:
  assumes "delete_repos (logged_handler h) inUse fresh prot cat dry plan n seen e down s = (r, s')"
  shows "\<exists>new. log_of s' = log_of s @ new \<and> log_step (plan_allows inUse fresh prot cat dry plan) seen new \<and>
    (\<forall>repo. length (filter (\<lambda>x. fst x = repo) new) \<le> planned plan repo)"
  using assms
proof (induction plan arbitrary: n seen e down s)
  case Nil
  then show ?case by (intro exI [of _ "[]"]) (auto simp: log_step_def planned_def)
next
  case (Cons rp plan)
  show ?case
  proof (cases down)
    case True
    with Cons.prems show ?thesis by (intro exI [of _ "[]"]) (auto simp: log_step_def)
  next
    case False
    let ?a = "\<lparr>da_n = 0, da_would = [], da_seen = seen, da_firstErr = e, da_down = down\<rparr>"
    obtain r1 s1 where one: "delete_candidates (logged_handler h) inUse fresh prot cat dry (rp_repo rp) (rp_candidates rp) ?a s = (r1, s1)"
      by fastforce
    from delete_candidates_log [OF one] obtain n1 where n1: "log_of s1 = log_of s @ n1" "length n1 \<le> length (rp_candidates rp)"
      "log_step (allowed inUse fresh prot cat dry (rp_repo rp) (rp_candidates rp)) seen n1"
      "\<And>a'. r1 = Inr a' \<Longrightarrow> seen \<subseteq> da_seen a' \<and> key ` set n1 \<subseteq> da_seen a'" by auto
    have s1: "log_step (plan_allows inUse fresh prot cat dry (rp # plan)) seen n1"
      using n1(3) by (auto simp: log_step_def plan_allows_def)
    have b1: "length (filter (\<lambda>x. fst x = repo) n1) \<le> (if rp_repo rp = repo then length (rp_candidates rp) else 0)" for repo
    proof (cases "rp_repo rp = repo")
      case True
      then show ?thesis using order_trans [OF length_filter_le n1(2)] by simp
    next
      case False
      have "\<forall>x\<in>set n1. fst x = rp_repo rp" using n1(3) by (auto simp: log_step_def allowed_def)
      with False have "filter (\<lambda>x. fst x = repo) n1 = []" by (auto simp: filter_empty_conv)
      then show ?thesis by simp
    qed
    have c1: "length (filter (\<lambda>x. fst x = repo) n1) + m \<le> planned (rp # plan) repo"
      if "m \<le> planned plan repo" for repo m
      using that b1 [of repo] by (auto simp: planned_def split: if_splits)
    show ?thesis
    proof (cases r1)
      case (Inl e1)
      with Cons.prems one False have "s' = s1" by simp
      with n1(1) s1 c1 [of 0] show ?thesis by (intro exI [of _ n1]) auto
    next
      case (Inr a1)
      define s2 where "s2 = (if dry \<and> 0 < da_n a1
          then Step (''dry-run:'' @ rp_repo rp) (WouldDelete (da_n a1) (listSample (da_would a1))) s1
          else if \<not> dry \<and> 0 < da_n a1
          then observe (ManifestsDeleted (rp_repo rp) (da_n a1)) (Step (''delete:'' @ rp_repo rp) (Counts ''deleted'' (da_n a1)) s1)
          else s1)"
      have l2: "log_of s2 = log_of s1" by (simp add: s2_def)
      have "delete_repos (logged_handler h) inUse fresh prot cat dry plan (n + da_n a1) (da_seen a1) (da_firstErr a1) (da_down a1) s2 = (r, s')"
        using Cons.prems one False Inr unfolding s2_def by (simp add: Let_def)
      from Cons.IH [OF this] obtain n2 where n2: "log_of s' = log_of s2 @ n2"
        "log_step (plan_allows inUse fresh prot cat dry plan) (da_seen a1) n2"
        "\<And>repo. length (filter (\<lambda>x. fst x = repo) n2) \<le> planned plan repo" by blast
      have "log_step (plan_allows inUse fresh prot cat dry (rp # plan)) (da_seen a1) n2"
        using n2(2) by (auto simp: log_step_def plan_allows_def)
      from log_step_append [OF s1 this] n1(4) [OF Inr]
      have "log_step (plan_allows inUse fresh prot cat dry (rp # plan)) seen (n1 @ n2)" by simp
      moreover have "length (filter (\<lambda>x. fst x = repo) (n1 @ n2)) \<le> planned (rp # plan) repo" for repo
        using c1 [OF n2(3)] by simp
      ultimately show ?thesis using n1(1) l2 n2(1) by (intro exI [of _ "n1 @ n2"]) auto
    qed
  qed
qed

subsection \<open>The plan\<close>

lemma tripwire_kept:
  "tripwire limit plan s = (kept, s') \<Longrightarrow>
     kept = filter (\<lambda>rp. int (length (rp_candidates rp)) \<le> limit) plan"
  by (induction plan arbitrary: s kept) (auto split: if_splits prod.splits)

text \<open>The listings of the first pass: one for every repository, complete, their protected digests collected.\<close>

definition listed_ok :: "'w Handler \<Rightarrow> Policy \<Rightarrow> string set \<Rightarrow> (string \<times> TagGroup list) list \<Rightarrow> string set \<Rightarrow> bool" where
  "listed_ok h pol repos listings protected \<longleftrightarrow>
     (\<forall>repo\<in>repos. \<exists>l w. fst (cl_ResolveTags (h_Registry h) repo w) = Inr l \<and> map_of listings repo = Some (tl_Groups l) \<and>
        (\<forall>d\<in>set (tl_Dropped l). dt_Vanished d)) \<and>
     (\<forall>repo tgs tg. map_of listings repo = Some tgs \<longrightarrow> tg \<in> set tgs \<longrightarrow> nameProtected repo tg pol \<longrightarrow> tg_Digest tg \<in> protected)"

lemma list_repos_ok:
  assumes "list_repos h pol repos listings protected s = (Inr (listings', protected'), s')"
    and "listed_ok h pol done listings protected"
  shows "listed_ok h pol (done \<union> set repos) listings' protected'"
  using assms
proof (induction repos arbitrary: listings protected s "done")
  case (Cons repo repos)
  obtain ce s1 where c: "out (h_CtxErr h) s = (ce, s1)" by fastforce
  obtain l s2 where l: "out (cl_ResolveTags (h_Registry h) repo) s1 = (l, s2)" by fastforce
  from Cons.prems(1) c l obtain listing where li: "l = Inr listing" "ce = None" by (cases ce; cases l) auto
  have van: "filter (\<lambda>d. \<not> dt_Vanished d) (tl_Dropped listing) = []"
    using Cons.prems(1) c l li by (auto simp: Let_def split: if_splits)
  define s3 where "s3 = (if map dt_Tag (filter dt_Vanished (tl_Dropped listing)) \<noteq> []
     then Step (''vanished:'' @ repo) (Names ''vanished'' (listSample (map dt_Tag (filter dt_Vanished (tl_Dropped listing))))) s2 else s2)"
  have rec: "list_repos h pol repos ((repo, tl_Groups listing) # listings)
      (protected \<union> tg_Digest ` set (filter (\<lambda>tg. nameProtected repo tg pol) (tl_Groups listing))) s3 = (Inr (listings', protected'), s')"
    using Cons.prems(1) c l li van unfolding s3_def by (simp add: Let_def)
  have "fst (cl_ResolveTags (h_Registry h) repo (pr_world s1)) = Inr listing"
    using l li(1) by (auto simp: out_def split: prod.splits)
  moreover have "\<forall>d\<in>set (tl_Dropped listing). dt_Vanished d" using van by (auto simp: filter_empty_conv)
  ultimately have "listed_ok h pol (insert repo done) ((repo, tl_Groups listing) # listings)
      (protected \<union> tg_Digest ` set (filter (\<lambda>tg. nameProtected repo tg pol) (tl_Groups listing)))"
    using Cons.prems(2) by (auto simp: listed_ok_def)
  from Cons.IH [OF rec this] show ?case by simp
qed simp

text \<open>A candidate is a group of the listing, deletable under its class, and of known age when a feature branch.\<close>

definition candidate_ok :: "InUseSet \<Rightarrow> string set \<Rightarrow> Policy \<Rightarrow> string \<Rightarrow> TagGroup list \<Rightarrow> candidate \<Rightarrow> bool" where
  "candidate_ok inUse protected pol repo tgs c \<longleftrightarrow>
     (\<exists>tg\<in>set tgs. \<exists>now. ca_digest c = tg_Digest tg \<and> ca_tags c = tg_Tags tg \<and>
        ca_class c = Classify repo tg inUse protected pol now \<and> Deletable (ca_class c) pol \<and>
        (ca_class c = ClassFeatStale \<longrightarrow> \<not> IsZero (tg_Created tg)))"

lemma classify_groups_ok:
  "classify_groups h inUse prot pol repo tgs cls unk s = ((cas, cls', unk'), s') \<Longrightarrow>
     (\<forall>c\<in>set cas. candidate_ok inUse prot pol repo tgs c) \<and> length cas \<le> length tgs"
proof (induction tgs arbitrary: cls unk s cas cls' unk' s')
  case (Cons tg tgs)
  obtain now s1 where n: "out (fl_Now (h_Fleet h)) s = (now, s1)" by fastforce
  let ?c = "Classify repo tg inUse prot pol now"
  have mono: "candidate_ok inUse prot pol repo tgs c \<Longrightarrow> candidate_ok inUse prot pol repo (tg # tgs) c" for c
    by (auto simp: candidate_ok_def)
  show ?case
  proof (cases "?c = ClassFeatStale \<and> IsZero (tg_Created tg)")
    case True
    with Cons.prems n show ?thesis by (auto simp: Let_def dest!: Cons.IH intro: mono)
  next
    case False
    obtain cas1 cls1 unk1 s2 where rec: "classify_groups h inUse prot pol repo tgs (cls @ [?c]) unk s1 = ((cas1, cls1, unk1), s2)"
      by (metis surj_pair)
    have cas: "cas = (if Deletable ?c pol then \<lparr>ca_digest = tg_Digest tg, ca_tags = tg_Tags tg, ca_class = ?c\<rparr> # cas1 else cas1)"
      using Cons.prems n False rec by (auto simp: Let_def)
    have "candidate_ok inUse prot pol repo (tg # tgs) \<lparr>ca_digest = tg_Digest tg, ca_tags = tg_Tags tg, ca_class = ?c\<rparr>"
      if "Deletable ?c pol"
      unfolding candidate_ok_def using that False by (intro bexI [of _ tg] exI [of _ now]) auto
    with Cons.IH [OF rec] cas show ?thesis by (auto intro: mono)
  qed
qed simp

lemma classify_repos_ok:
  "classify_repos h inUse prot pol listings repos cls unk s = ((plan, cls', unk'), s') \<Longrightarrow>
     map rp_repo plan = repos \<and>
     (\<forall>rp\<in>set plan. \<forall>c\<in>set (rp_candidates rp).
        \<exists>tgs. map_of listings (rp_repo rp) = Some tgs \<and> candidate_ok inUse prot pol (rp_repo rp) tgs c)"
proof (induction repos arbitrary: cls unk s plan cls' unk' s')
  case (Cons repo repos)
  let ?tgs = "case map_of listings repo of None \<Rightarrow> [] | Some tgs \<Rightarrow> tgs"
  obtain cas cls1 unk1 s1 where g: "classify_groups h inUse prot pol repo ?tgs cls unk s = ((cas, cls1, unk1), s1)"
    by (metis surj_pair)
  obtain plan1 cls2 unk2 s2 where r: "classify_repos h inUse prot pol listings repos cls1 unk1 s1 = ((plan1, cls2, unk2), s2)"
    by (metis surj_pair)
  have plan: "plan = \<lparr>rp_repo = repo, rp_candidates = cas\<rparr> # plan1" using Cons.prems g r by auto
  have "\<exists>tgs. map_of listings repo = Some tgs \<and> candidate_ok inUse prot pol repo tgs c" if "c \<in> set cas" for c
    using that classify_groups_ok [OF g] by (cases "map_of listings repo") (auto simp: candidate_ok_def)
  with Cons.IH [OF r] plan show ?case by auto
qed simp

subsection \<open>The stages of a run that deletes\<close>

text \<open>What the stages in front of the delete pass produced.\<close>

record stages =
  st_repos :: "string list"
  st_inUse :: InUseSet
  st_listings :: "(string \<times> TagGroup list) list"
  st_protected :: "string set"
  st_plan :: "repoPlan list"
  st_kept :: "repoPlan list"
  st_fresh :: InUseSet

text \<open>
  The run of \<open>h\<close> on \<open>p\<close> from \<open>s\<close> passed through these stages, in this order, each started in the state in
  which the one before ended, and reached the delete pass in the state \<open>s'\<close>.
\<close>

definition reaches_delete :: "'w Handler \<Rightarrow> Payload \<Rightarrow> 'w prun \<Rightarrow> stages \<Rightarrow> 'w prun \<Rightarrow> bool" where
  "reaches_delete h p s st s' \<longleftrightarrow>
     (\<exists>listed s1 s2 s3 s4 s5 cls unk.
        out (cl_Catalog (h_Registry h)) (Step ''mode'' (Says (describeMode h p)) s) = (Inr listed, s1) \<and>
        st_repos st = sort listed \<and>
        inUseSet h (st_repos st) (Step ''catalog'' (Counts ''repositories'' (length (st_repos st))) s1) = ((st_inUse st, None), s2) \<and>
        ius_Valid (st_inUse st) \<and>
        list_repos h (pl_Policy p) (st_repos st) [] {}
          (Step ''in-use'' (Counts ''protected'' (Len (st_inUse st))) (recordSetDiagnostics (st_inUse st) s2)) =
            (Inr (st_listings st, st_protected st), s3) \<and>
        classify_repos h (st_inUse st) (st_protected st) (pl_Policy p) (st_listings st) (st_repos st) [] [] s3 = ((st_plan st, cls, unk), s4) \<and>
        tripwire (po_MaxDeletesPerRepo (pl_Policy p)) (st_plan st)
          (let s' = Step ''classify'' (Classes (summariseClasses cls)) s4
           in if unk \<noteq> [] then Step ''classify:age-unknown'' (Tags ''age unknown'' (listSample unk)) s' else s') = (st_kept st, s5) \<and>
        (\<exists>s6. inUseSet h (st_repos st) s5 = ((st_fresh st, None), s6) \<and> ius_Valid (st_fresh st) \<and>
           s' = Step ''in-use:recheck'' (Counts ''protected'' (Len (st_fresh st))) (recordSetDiagnostics (st_fresh st) s6)))"

lemma finish_log:
  assumes "finish (logged_handler h) kept inUse fresh prot cat p s = (r, s')"
  shows "\<exists>new. log_of s' = log_of s @ new \<and> log_step (plan_allows inUse fresh prot cat (pl_DryRun p) kept) {} new \<and>
    (\<forall>repo. length (filter (\<lambda>x. fst x = repo) new) \<le> planned kept repo)"
proof -
  obtain n e s1 where d: "deletePass (logged_handler h) kept inUse fresh prot cat p s = ((n, e), s1)" by (metis surj_pair)
  have "log_of s' = log_of s1"
    using assms d by (auto simp: finish_def Let_def split: option.splits prod.splits if_splits dest!: gc_log)
  with delete_repos_log [OF d [unfolded deletePass_def]] show ?thesis by simp
qed

lemma dry_run_log:
  "finish (logged_handler h) kept inUse fresh prot cat p s = (r, s') \<Longrightarrow> pl_DryRun p \<Longrightarrow> log_of s' = log_of s"
proof (drule finish_log, elim exE conjE)
  fix new
  assume "pl_DryRun p" "log_of s' = log_of s @ new" "log_step (plan_allows inUse fresh prot cat (pl_DryRun p) kept) {} new"
  then show "log_of s' = log_of s" by (cases new) (auto simp: log_step_def plan_allows_def allowed_def)
qed

lemma prune_from_set_log:
  assumes "prune_from_set (logged_handler h) p repos inUse s = (r, s')"
  shows "log_of s' = log_of s \<or>
    (\<exists>listings protected s3 plan cls unk s4 kept s5 fresh s6. \<not> pl_DryRun p \<and>
       list_repos (logged_handler h) (pl_Policy p) repos [] {} s = (Inr (listings, protected), s3) \<and>
       classify_repos (logged_handler h) inUse protected (pl_Policy p) listings repos [] [] s3 = ((plan, cls, unk), s4) \<and>
       tripwire (po_MaxDeletesPerRepo (pl_Policy p)) plan
         (let s' = Step ''classify'' (Classes (summariseClasses cls)) s4
          in if unk \<noteq> [] then Step ''classify:age-unknown'' (Tags ''age unknown'' (listSample unk)) s' else s') = (kept, s5) \<and>
       inUseSet (logged_handler h) repos s5 = ((fresh, None), s6) \<and> ius_Valid fresh \<and>
       finish (logged_handler h) kept inUse fresh protected (set repos) p
         (Step ''in-use:recheck'' (Counts ''protected'' (Len fresh)) (recordSetDiagnostics fresh s6)) = (r, s'))"
proof (cases "fst (classifyAll (logged_handler h) repos inUse (pl_Policy p) s)")
  case (Inl e)
  then show ?thesis using assms classifyAll_log [of h repos inUse "pl_Policy p" s]
    by (cases "classifyAll (logged_handler h) repos inUse (pl_Policy p) s") (auto simp: prune_from_set_def)
next
  case (Inr x)
  obtain plan protected s1 where ca: "classifyAll (logged_handler h) repos inUse (pl_Policy p) s = (Inr (plan, protected), s1)"
    using Inr by (cases "classifyAll (logged_handler h) repos inUse (pl_Policy p) s"; cases x) auto
  from ca obtain listings s3 cls unk s4 where st:
    "list_repos (logged_handler h) (pl_Policy p) repos [] {} s = (Inr (listings, protected), s3)"
    "classify_repos (logged_handler h) inUse protected (pl_Policy p) listings repos [] [] s3 = ((plan, cls, unk), s4)"
    "s1 = (let s' = Step ''classify'' (Classes (summariseClasses cls)) s4
          in if unk \<noteq> [] then Step ''classify:age-unknown'' (Tags ''age unknown'' (listSample unk)) s' else s')"
    by (auto simp: classifyAll_def Let_def split: prod.splits sum.splits if_splits)
  obtain kept s5 where tw: "tripwire (po_MaxDeletesPerRepo (pl_Policy p)) plan s1 = (kept, s5)" by fastforce
  obtain fresh err s6 where re: "inUseSet (logged_handler h) repos s5 = ((fresh, err), s6)" by (metis surj_pair)
  have l: "log_of s5 = log_of s" "log_of s6 = log_of s"
    using classifyAll_log [OF ca] tripwire_log [OF tw] inUseSet_log [OF re] by auto
  show ?thesis
  proof (cases "\<not> pl_DryRun p \<and> err = None \<and> ius_Valid fresh")
    case True
    then have "finish (logged_handler h) kept inUse fresh protected (set repos) p
         (Step ''in-use:recheck'' (Counts ''protected'' (Len fresh)) (recordSetDiagnostics fresh s6)) = (r, s')"
      using assms ca tw re by (simp add: prune_from_set_def Let_def)
    with True st tw re show ?thesis unfolding st(3) by (intro disjI2 exI conjI) auto
  next
    case False
    then show ?thesis
      using assms ca tw re l
      by (cases "pl_DryRun p"; cases err) (auto simp: prune_from_set_def Let_def dest: dry_run_log)
  qed
qed

lemma Run_log:
  assumes "Run (logged_handler h) decode args s = (r, s')"
  shows "log_of s' = log_of s \<or>
    (\<exists>p st s1. decode args = Some p \<and> \<not> pl_DryRun p \<and> validatePolicy (pl_Policy p) = None \<and>
       reaches_delete (logged_handler h) p s st s1 \<and>
       finish (logged_handler h) (st_kept st) (st_inUse st) (st_fresh st) (st_protected st) (set (st_repos st)) p s1 = (r, s'))"
proof (cases "decode args")
  case None
  with assms show ?thesis by (auto simp: Run_def Let_def)
next
  case (Some p)
  show ?thesis
  proof (cases "validatePolicy (pl_Policy p)")
    case (Some e)
    with assms \<open>decode args = Some p\<close> show ?thesis by (auto simp: Run_def)
  next
    case None
    obtain c s1 where cat: "out (cl_Catalog (h_Registry (logged_handler h))) (Step ''mode'' (Says (describeMode (logged_handler h) p)) s) = (c, s1)"
      by fastforce
    have l1: "log_of s1 = log_of s" using log_out_lift [OF cat [unfolded logged_reads]] by simp
    show ?thesis
    proof (cases c)
      case (Inl e)
      with assms \<open>decode args = Some p\<close> None cat l1 show ?thesis by (auto simp: Run_def)
    next
      case (Inr listed)
      obtain inUse err s2 where iu: "inUseSet (logged_handler h) (sort listed)
          (Step ''catalog'' (Counts ''repositories'' (length (sort listed))) s1) = ((inUse, err), s2)" by (metis surj_pair)
      have l2: "log_of s2 = log_of s" using inUseSet_log [OF iu] l1 by simp
      show ?thesis
      proof (cases "err = None \<and> ius_Valid inUse")
        case False
        with assms \<open>decode args = Some p\<close> None cat Inr iu l2 show ?thesis by (auto simp: Run_def Let_def split: option.splits)
      next
        case True
        then have pf: "prune_from_set (logged_handler h) p (sort listed) inUse
            (Step ''in-use'' (Counts ''protected'' (Len inUse)) (recordSetDiagnostics inUse s2)) = (r, s')"
          using assms \<open>decode args = Some p\<close> None cat Inr iu by (simp add: Run_def Let_def)
        show ?thesis
          using prune_from_set_log [OF pf]
        proof (elim disjE exE conjE, goal_cases)
          case 1
          then show ?thesis using l2 by simp
        next
          case (2 listings protected s3 plan cls unk s4 kept s5 fresh s6)
          define st where "st = \<lparr>st_repos = sort listed, st_inUse = inUse, st_listings = listings, st_protected = protected,
            st_plan = plan, st_kept = kept, st_fresh = fresh\<rparr>"
          have "reaches_delete (logged_handler h) p s st
              (Step ''in-use:recheck'' (Counts ''protected'' (Len fresh)) (recordSetDiagnostics fresh s6))"
            unfolding reaches_delete_def st_def stages.simps using 2 cat Inr iu True by (intro exI conjI) auto
          moreover have "finish (logged_handler h) (st_kept st) (st_inUse st) (st_fresh st) (st_protected st) (set (st_repos st)) p
              (Step ''in-use:recheck'' (Counts ''protected'' (Len fresh)) (recordSetDiagnostics fresh s6)) = (r, s')"
            using 2 by (simp add: st_def)
          ultimately show ?thesis using \<open>decode args = Some p\<close> None 2(1) by blast
        qed
      qed
    qed
  qed
qed

lemma reaches_delete_plan:
  fixes h :: "'w Handler"
  assumes "reaches_delete h p s st s1"
  shows "listed_ok h (pl_Policy p) (set (st_repos st)) (st_listings st) (st_protected st)"
    and "map rp_repo (st_plan st) = st_repos st"
    and "\<And>rp c. rp \<in> set (st_plan st) \<Longrightarrow> c \<in> set (rp_candidates rp) \<Longrightarrow>
      \<exists>tgs. map_of (st_listings st) (rp_repo rp) = Some tgs \<and> candidate_ok (st_inUse st) (st_protected st) (pl_Policy p) (rp_repo rp) tgs c"
    and "st_kept st = filter (\<lambda>rp. int (length (rp_candidates rp)) \<le> po_MaxDeletesPerRepo (pl_Policy p)) (st_plan st)"
proof -
  from assms obtain s2 s3 cls unk s4 and sx s5 :: "'w prun" where
    l: "list_repos h (pl_Policy p) (st_repos st) [] {} s2 = (Inr (st_listings st, st_protected st), s3)" and
    c: "classify_repos h (st_inUse st) (st_protected st) (pl_Policy p) (st_listings st) (st_repos st) [] [] s3 = ((st_plan st, cls, unk), s4)" and
    t: "tripwire (po_MaxDeletesPerRepo (pl_Policy p)) (st_plan st) sx = (st_kept st, s5)"
    unfolding reaches_delete_def by (elim exE conjE) (rule that, assumption+)
  have "listed_ok h (pl_Policy p) {} [] {}" by (simp add: listed_ok_def)
  from list_repos_ok [OF l this] show "listed_ok h (pl_Policy p) (set (st_repos st)) (st_listings st) (st_protected st)" by simp
  show "map rp_repo (st_plan st) = st_repos st"
    and "\<And>rp c. rp \<in> set (st_plan st) \<Longrightarrow> c \<in> set (rp_candidates rp) \<Longrightarrow>
      \<exists>tgs. map_of (st_listings st) (rp_repo rp) = Some tgs \<and> candidate_ok (st_inUse st) (st_protected st) (pl_Policy p) (rp_repo rp) tgs c"
    using classify_repos_ok [OF c] by auto
  show "st_kept st = filter (\<lambda>rp. int (length (rp_candidates rp)) \<le> po_MaxDeletesPerRepo (pl_Policy p)) (st_plan st)"
    by (rule tripwire_kept [OF t])
qed

text \<open>Why a delete was issued.\<close>

definition justified :: "'w Handler \<Rightarrow> Payload \<Rightarrow> stages \<Rightarrow> string \<Rightarrow> string \<Rightarrow> bool" where
  "justified h p st repo d \<longleftrightarrow>
     repo \<in> set (st_repos st) \<and> \<not> Has (st_inUse st) d \<and> \<not> Has (st_fresh st) d \<and>
     (\<forall>repo'\<in>set (st_repos st). \<exists>l w. fst (cl_ResolveTags (h_Registry h) repo' w) = Inr l \<and>
        map_of (st_listings st) repo' = Some (tl_Groups l) \<and> (\<forall>x\<in>set (tl_Dropped l). dt_Vanished x) \<and>
        (\<forall>tg\<in>set (tl_Groups l). tg_Digest tg = d \<longrightarrow> \<not> nameProtected repo' tg (pl_Policy p))) \<and>
     (\<exists>tgs tg now. map_of (st_listings st) repo = Some tgs \<and> tg \<in> set tgs \<and> tg_Digest tg = d \<and>
        Deletable (Classify repo tg (st_inUse st) (st_protected st) (pl_Policy p) now) (pl_Policy p) \<and>
        (hasFeatTag (tg_Tags tg) \<longrightarrow> tg_Created tg \<noteq> 0))"

lemma stale_or_not: "Deletable (Classify repo tg iu prot pol now) pol \<Longrightarrow> hasFeatTag (tg_Tags tg) \<Longrightarrow> Classify repo tg iu prot pol now = ClassFeatStale"
  by (auto simp: Classify_def Deletable_def split: if_splits)

lemma plan_allows_justified:
  assumes "reaches_delete h p s st s1"
    and "plan_allows (st_inUse st) (st_fresh st) (st_protected st) (set (st_repos st)) dry (st_kept st) (repo, d)"
  shows "justified h p st repo d"
proof -
  note r = reaches_delete_plan [OF assms(1)]
  from assms(2) obtain rp c where rp: "rp \<in> set (st_kept st)" "rp_repo rp = repo" and a: "repo \<in> set (st_repos st)"
    "\<not> Has (st_inUse st) d" "\<not> Has (st_fresh st) d" "d \<notin> st_protected st" and c: "c \<in> set (rp_candidates rp)" "ca_digest c = d"
    by (auto simp: plan_allows_def allowed_def)
  from rp(1) r(4) have "rp \<in> set (st_plan st)" by simp
  from r(3) [OF this c(1)] rp(2) obtain tgs where tgs: "map_of (st_listings st) repo = Some tgs"
    "candidate_ok (st_inUse st) (st_protected st) (pl_Policy p) repo tgs c" by auto
  then obtain tg now where tg: "tg \<in> set tgs" "tg_Digest tg = d"
    "Deletable (Classify repo tg (st_inUse st) (st_protected st) (pl_Policy p) now) (pl_Policy p)"
    "Classify repo tg (st_inUse st) (st_protected st) (pl_Policy p) now = ClassFeatStale \<longrightarrow> tg_Created tg \<noteq> 0"
    using c(2) unfolding candidate_ok_def IsZero_def by auto
  have "\<exists>l w. fst (cl_ResolveTags (h_Registry h) repo' w) = Inr l \<and> map_of (st_listings st) repo' = Some (tl_Groups l) \<and>
      (\<forall>x\<in>set (tl_Dropped l). dt_Vanished x) \<and>
      (\<forall>tg\<in>set (tl_Groups l). tg_Digest tg = d \<longrightarrow> \<not> nameProtected repo' tg (pl_Policy p))" if "repo' \<in> set (st_repos st)" for repo'
    using that r(1) a(4) by (auto simp: listed_ok_def) metis
  moreover have "hasFeatTag (tg_Tags tg) \<longrightarrow> tg_Created tg \<noteq> 0" using stale_or_not [OF tg(3)] tg(4) by blast
  ultimately show ?thesis using a tgs(1) tg(1-3) unfolding justified_def by blast
qed

lemma reaches_delete_log: "reaches_delete (logged_handler h) p s st s1 \<Longrightarrow> log_of s1 = log_of s"
  unfolding reaches_delete_def
  by (auto simp: Let_def dest!: log_out_lift inUseSet_log list_repos_log classify_repos_log tripwire_log split: if_splits)

lemma Run_justified:
  assumes "Run (logged_handler h) decode args s = (r, s')" and "log_of s = []" and "(repo, d) \<in> set (log_of s')"
  shows "\<exists>p st s1. decode args = Some p \<and> \<not> pl_DryRun p \<and> validatePolicy (pl_Policy p) = None \<and>
    reaches_delete (logged_handler h) p s st s1 \<and> justified (logged_handler h) p st repo d"
proof -
  from Run_log [OF assms(1)] assms(2,3) obtain p st s1 where p: "decode args = Some p" "\<not> pl_DryRun p"
    "validatePolicy (pl_Policy p) = None" and st: "reaches_delete (logged_handler h) p s st s1" and
    fin: "finish (logged_handler h) (st_kept st) (st_inUse st) (st_fresh st) (st_protected st) (set (st_repos st)) p s1 = (r, s')"
    by auto
  have "log_of s1 = []" using reaches_delete_log [OF st] assms(2) by simp
  with finish_log [OF fin] assms(3)
  have "plan_allows (st_inUse st) (st_fresh st) (st_protected st) (set (st_repos st)) (pl_DryRun p) (st_kept st) (repo, d)"
    by (auto simp: log_step_def)
  from plan_allows_justified [OF st this] p st show ?thesis by blast
qed

text \<open>C10. Every manifest a registry-prune run deletes was safe to delete by the code's own rules: the run is no dry
  run and went through all stages in order, the repository is in the frozen catalog, the digest is in neither of the two
  in-use sets, every repository of the catalog was listed completely and in none of them does the digest carry a protected
  name, and in its own repository the digest is a group the policy deletes, of known age if it is a feature branch.\<close>

theorem prune_deletes_justified:
  assumes "Run (logged_handler h) decode args s = (r, s')" and "log_of s = []" and "(repo, d) \<in> set (log_of s')"
  shows "\<exists>p st s1. decode args = Some p \<and> \<not> pl_DryRun p \<and> validatePolicy (pl_Policy p) = None \<and>
    reaches_delete (logged_handler h) p s st s1 \<and> justified (logged_handler h) p st repo d"
  using assms by (rule Run_justified)

text \<open>The run of the sample registry under the shipped policy.\<close>

definition sample_group :: "char \<Rightarrow> string \<Rightarrow> TagGroup" where
  "sample_group c tag = \<lparr>tg_Digest = sample_digest c, tg_Tags = [tag], tg_Created = 0, tg_Size = 1\<rparr>"

definition sample_listing :: TagListing where
  "sample_listing = \<lparr>tl_Groups = [sample_group CHR ''a'' ''latest'', sample_group CHR ''b'' ''dead123''], tl_Dropped = []\<rparr>"

definition sample_registry :: "unit Client" where
  "sample_registry =
     \<lparr>cl_Catalog = Pair (Inr [''app'']), cl_Tags = (\<lambda>_. Pair (Inr (tl_Groups sample_listing))),
      cl_ResolveTags = (\<lambda>_. Pair (Inr sample_listing)), cl_TagCount = (\<lambda>_. Pair (Inr 2)),
      cl_Manifest = (\<lambda>_ _. Pair (Inr \<lparr>m_Digest = sample_digest CHR ''a'', m_ConfigDigest = '''', m_Layers = [], m_Size = 1\<rparr>)),
      cl_Delete = (\<lambda>_ _. Pair (Inr ()))\<rparr>"

definition sample_hosts :: "unit Fleet" where
  "sample_hosts =
     \<lparr>fl_Hosts = Pair [''h1''],
      fl_Inventory = (\<lambda>_. Pair (Inr ([\<lparr>ob_Slug = ''one'', ob_Containers =
         [\<lparr>oc_Name = ''web'', oc_Image = sample_digest CHR ''a'', oc_ImageTag = ''reg:5000/app:latest'', oc_IsInfra = False\<rparr>]\<rparr>],
         \<lparr>fr_FetchedAt = 10, fr_Reachable = True, fr_HasData = True\<rparr>))),
      fl_ListSpecKeys = (\<lambda>_. Pair (Inr [])), fl_GetSpec = (\<lambda>_ _ _. Pair (Inr sample_spec)), fl_Now = Pair 20\<rparr>"

definition sample_handler :: "unit Handler" where
  "sample_handler =
     \<lparr>h_Registry = sample_registry, h_Fleet = sample_hosts, h_Config = sample_config,
      h_CtxErr = Pair None, h_BlobGC = None\<rparr>"

definition sample_payload :: Payload where
  "sample_payload = \<lparr>pl_Policy = DefaultPolicy, pl_DryRun = False, pl_SkipBlobGC = True\<rparr>"

definition sample_start :: "(unit \<times> deletes) prun" where
  "sample_start = \<lparr>pr_world = ((), []), pr_steps = [], pr_metrics = []\<rparr>"

definition sample_set :: InUseSet where
  "sample_set = \<lparr>ius_Valid = True, ius_Digests = {sample_digest CHR ''a''}, ius_NonDigestObserved = [], ius_ForeignSkipped = []\<rparr>"

lemma sample_sweep:
  "BuildInUseSet (lift_fleet sample_hosts) (fixedCatalog (logged sample_registry) [''app'']) sample_config ((), l) = ((sample_set, None), ((), l))"
  by code_simp

lemma sample_quiet [simp]: "out (lift_call (Pair r)) s = (r, s)"
  by (simp add: out_def lift_call_def)

lemma sample_inUse: "inUseSet (logged_handler sample_handler) [''app''] s = ((sample_set, None), s)"
  using sample_sweep [of "snd (pr_world s)"]
  by (cases s; cases "pr_world s") (simp add: inUseSet_def out_def logged_handler_def sample_handler_def)

lemma sample_classes:
  "nameProtected ''app'' (sample_group CHR ''a'' ''latest'') DefaultPolicy"
  "\<not> nameProtected ''app'' (sample_group CHR ''b'' ''dead123'') DefaultPolicy"
  "Classify ''app'' (sample_group CHR ''a'' ''latest'') sample_set {sample_digest CHR ''a''} DefaultPolicy 20 = ClassInUse"
  "Classify ''app'' (sample_group CHR ''b'' ''dead123'') sample_set {sample_digest CHR ''a''} DefaultPolicy 20 = ClassShaOrphan"
  "\<not> Has sample_set (sample_digest CHR ''b'')" "Deletable ClassShaOrphan DefaultPolicy" "\<not> Deletable ClassInUse DefaultPolicy"
  "validatePolicy DefaultPolicy = None" "po_MaxDeletesPerRepo DefaultPolicy = 100"
  by code_simp+

lemma sample_run:
  "tg_Digest (sample_group c tag) = sample_digest c" "sample_digest c = sample_digest d \<longleftrightarrow> c = d"
  "h_CtxErr sample_handler = Pair None" "h_BlobGC sample_handler = None"
  "cl_Catalog (h_Registry sample_handler) = Pair (Inr [''app''])"
  "cl_ResolveTags (h_Registry sample_handler) repo = Pair (Inr sample_listing)"
  "fl_Now (h_Fleet sample_handler) = Pair 20"
  "tl_Groups sample_listing = [sample_group CHR ''a'' ''latest'', sample_group CHR ''b'' ''dead123'']"
  "tl_Dropped sample_listing = []"
  "pl_Policy sample_payload = DefaultPolicy" "\<not> pl_DryRun sample_payload"
  "ius_Valid sample_set"
  by (simp_all add: sample_group_def sample_digest_def sample_handler_def sample_registry_def sample_hosts_def sample_listing_def
      sample_payload_def sample_set_def)

lemma sample_delete:
  "out (cl_Delete (h_Registry (logged_handler sample_handler)) repo d) s = (Inr (), s\<lparr>pr_world := ((), log_of s @ [(repo, d)])\<rparr>)"
  by (simp add: logged_handler_def logged_def sample_handler_def sample_registry_def log_delete_def out_def log_of_def)

lemma log_of_world [simp]: "log_of (s\<lparr>pr_world := w\<rparr>) = snd w"
  by (simp add: log_of_def)

lemma sample_start_log: "log_of sample_start = []"
  by (simp add: sample_start_def log_of_def)

lemma sample_prune_log:
  "log_of (snd (Run (logged_handler sample_handler) (\<lambda>_. Some sample_payload) '''' sample_start)) =
     [(''app'', sample_digest CHR ''b'')]"
  by (simp add: Run_def prune_from_set_def classifyAll_def finish_def deletePass_def delete_candidate_def backstop_def Let_def
      sample_run sample_classes sample_inUse sample_delete sample_start_log)

theorem prune_deletes_justified_witness:
  "\<exists>p st s1. Some sample_payload = Some p \<and> \<not> pl_DryRun p \<and> validatePolicy (pl_Policy p) = None \<and>
     reaches_delete (logged_handler sample_handler) p sample_start st s1 \<and>
     justified (logged_handler sample_handler) p st ''app'' (sample_digest CHR ''b'')"
proof -
  obtain r s' where run: "Run (logged_handler sample_handler) (\<lambda>_. Some sample_payload) '''' sample_start = (r, s')" by fastforce
  have "(''app'', sample_digest CHR ''b'') \<in> set (log_of s')" using sample_prune_log by (simp add: run)
  from prune_deletes_justified [OF run sample_start_log this] show ?thesis .
qed

lemma planned_bounded:
  assumes "distinct (map rp_repo kept)" and "\<forall>rp\<in>set kept. int (length (rp_candidates rp)) \<le> limit" and "0 < limit"
  shows "int (planned kept repo) \<le> limit"
  using assms
proof (induction kept)
  case (Cons rp kept)
  show ?case
  proof (cases "rp_repo rp = repo")
    case True
    with Cons.prems(1) have "filter (\<lambda>rp. rp_repo rp = repo) kept = []" by (simp add: filter_empty_conv) (metis imageI)
    with True Cons.prems(2) show ?thesis by (simp add: planned_def)
  next
    case False
    with Cons show ?thesis by (simp add: planned_def)
  qed
qed (simp add: planned_def)



subsection \<open>A dry run\<close>

lemma other_gc:
  "h_Registry (h\<lparr>h_BlobGC := gc\<rparr>) = h_Registry h" "h_Fleet (h\<lparr>h_BlobGC := gc\<rparr>) = h_Fleet h"
  "h_Config (h\<lparr>h_BlobGC := gc\<rparr>) = h_Config h" "h_CtxErr (h\<lparr>h_BlobGC := gc\<rparr>) = h_CtxErr h"
  by simp_all

text \<open>Everything up to stage B is the same with another stage B.\<close>

lemma list_repos_gc: "list_repos (h\<lparr>h_BlobGC := gc\<rparr>) = list_repos h"
proof (intro ext)
  show "list_repos (h\<lparr>h_BlobGC := gc\<rparr>) pol repos ls prot t = list_repos h pol repos ls prot t" for pol repos ls prot t
    by (induction repos arbitrary: ls prot t) (simp_all only: list_repos.simps other_gc)
qed

lemma classify_groups_gc: "classify_groups (h\<lparr>h_BlobGC := gc\<rparr>) = classify_groups h"
proof (intro ext)
  show "classify_groups (h\<lparr>h_BlobGC := gc\<rparr>) iu prot pol repo tgs cls unk t = classify_groups h iu prot pol repo tgs cls unk t"
    for iu prot pol repo tgs cls unk t
    by (induction tgs arbitrary: cls unk t) (simp_all only: classify_groups.simps other_gc)
qed

lemma classify_repos_gc: "classify_repos (h\<lparr>h_BlobGC := gc\<rparr>) = classify_repos h"
proof (intro ext)
  show "classify_repos (h\<lparr>h_BlobGC := gc\<rparr>) iu prot pol ls repos cls unk t = classify_repos h iu prot pol ls repos cls unk t"
    for iu prot pol ls repos cls unk t
    by (induction repos arbitrary: cls unk t) (simp_all only: classify_repos.simps classify_groups_gc)
qed

lemma delete_candidates_gc: "delete_candidates (h\<lparr>h_BlobGC := gc\<rparr>) = delete_candidates h"
proof (intro ext)
  have "delete_candidate (h\<lparr>h_BlobGC := gc\<rparr>) = delete_candidate h"
    unfolding fun_eq_iff delete_candidate_def other_gc by simp
  then show "delete_candidates (h\<lparr>h_BlobGC := gc\<rparr>) iu fresh prot cat dry repo cs a t = delete_candidates h iu fresh prot cat dry repo cs a t"
    for iu fresh prot cat dry repo cs a t
    by (induction cs arbitrary: a t) (simp_all only: delete_candidates.simps)
qed

lemma delete_repos_gc: "delete_repos (h\<lparr>h_BlobGC := gc\<rparr>) = delete_repos h"
proof (intro ext)
  show "delete_repos (h\<lparr>h_BlobGC := gc\<rparr>) iu fresh prot cat dry plan n seen e down t = delete_repos h iu fresh prot cat dry plan n seen e down t"
    for iu fresh prot cat dry plan n seen e down t
    by (induction plan arbitrary: n seen e down t) (simp_all only: delete_repos.simps delete_candidates_gc Let_def)
qed

lemma dry_run_gc:
  assumes "pl_DryRun p"
  shows "finish (h\<lparr>h_BlobGC := gc\<rparr>) kept iu fresh prot cat p = finish h kept iu fresh prot cat p"
    and "describeMode (h\<lparr>h_BlobGC := gc\<rparr>) p = describeMode h p"
    and "prune_from_set (h\<lparr>h_BlobGC := gc\<rparr>) p = prune_from_set h p"
  using assms
  by (simp_all add: fun_eq_iff finish_def describeMode_def prune_from_set_def deletePass_def delete_repos_gc classifyAll_def
      list_repos_gc classify_repos_gc split: prod.splits option.splits sum.splits)

lemma Run_dry_gc:
  assumes "decode args = Some p" and "pl_DryRun p"
  shows "Run (h\<lparr>h_BlobGC := gc\<rparr>) decode args t = Run h decode args t"
  unfolding Run_def inUseSet_def other_gc assms(1) option.case dry_run_gc [OF assms(2)] ..

text \<open>C17. A dry run deletes nothing and never reaches stage B: its registry log stays as it was, and
  its outcome, its steps and its effect on the world do not depend on whether there is a stage B.\<close>

theorem prune_dry_run_harmless:
  assumes "decode args = Some p" and "pl_DryRun p"
  shows "log_of (snd (Run (logged_handler h) decode args s)) = log_of s \<and>
    Run (h\<lparr>h_BlobGC := gc\<rparr>) decode args t = Run (h\<lparr>h_BlobGC := gc'\<rparr>) decode args t"
proof
  obtain r s' where run: "Run (logged_handler h) decode args s = (r, s')" by fastforce
  with Run_log [OF run] assms show "log_of (snd (Run (logged_handler h) decode args s)) = log_of s" by auto
  show "Run (h\<lparr>h_BlobGC := gc\<rparr>) decode args t = Run (h\<lparr>h_BlobGC := gc'\<rparr>) decode args t"
    using assms by (simp add: Run_dry_gc)
qed

theorem prune_dry_run_harmless_witness:
  "log_of (snd (Run (logged_handler sample_handler) (\<lambda>_. Some (sample_payload\<lparr>pl_DryRun := True, pl_SkipBlobGC := False\<rparr>)) '''' sample_start)) = [] \<and>
   Run sample_handler (\<lambda>_. Some (sample_payload\<lparr>pl_DryRun := True, pl_SkipBlobGC := False\<rparr>)) ''''
       \<lparr>pr_world = (), pr_steps = [], pr_metrics = []\<rparr> =
   Run (sample_handler\<lparr>h_BlobGC := Some (\<lambda>p s. ((\<lparr>gc_Before = 9, gc_After = 0, gc_Reclaimed = 9, gc_Measured = True\<rparr>, None), s))\<rparr>)
       (\<lambda>_. Some (sample_payload\<lparr>pl_DryRun := True, pl_SkipBlobGC := False\<rparr>)) '''' \<lparr>pr_world = (), pr_steps = [], pr_metrics = []\<rparr>"
proof -
  have same: "sample_handler\<lparr>h_BlobGC := None\<rparr> = sample_handler" by (simp add: sample_handler_def)
  show ?thesis
    using prune_dry_run_harmless [of "\<lambda>_. Some (sample_payload\<lparr>pl_DryRun := True, pl_SkipBlobGC := False\<rparr>)" "''''"
        "sample_payload\<lparr>pl_DryRun := True, pl_SkipBlobGC := False\<rparr>" sample_handler sample_start None
        "\<lparr>pr_world = (), pr_steps = [], pr_metrics = []\<rparr>"
        "Some (\<lambda>p s. ((\<lparr>gc_Before = 9, gc_After = 0, gc_Reclaimed = 9, gc_Measured = True\<rparr>, None), s))"]
    by (simp add: same sample_start_log)
qed

end
