(* ===== verification/Blob_GC.thy ===== *)
theory Blob_GC
  imports Registry_Prune
begin

text \<open>
  \<^verbatim>\<open>internal/registryprune/blobgc.go\<close>: stage B stops the registry, runs its garbage collector in a
  one-shot pod and starts the registry again. The deferred restart is a function applied to whatever the
  body returned; a panic in the body is not modelled.
\<close>

subsection \<open>Podman\<close>

record ExecResult =
  ex_Output :: string
  ex_ExitCode :: int

record 'w PodRunner =
  pd_PlayKube :: "ctx \<Rightarrow> string \<Rightarrow> string \<Rightarrow> bool \<Rightarrow> ('w, unit) call"
  pd_WaitForPodCompletion :: "ctx \<Rightarrow> string \<Rightarrow> string \<Rightarrow> duration \<Rightarrow> ('w, int) call"
  pd_PodStop :: "ctx \<Rightarrow> string \<Rightarrow> string \<Rightarrow> ('w, unit) call"
  pd_PodStart :: "ctx \<Rightarrow> string \<Rightarrow> string \<Rightarrow> ('w, unit) call"
  pd_PodRemove :: "ctx \<Rightarrow> string \<Rightarrow> string \<Rightarrow> bool \<Rightarrow> ('w, unit) call"
  pd_ContainerExec :: "ctx \<Rightarrow> string \<Rightarrow> string \<Rightarrow> string list \<Rightarrow> ('w, ExecResult) call"

subsection \<open>Configuration\<close>

definition defaultGCImage :: string where
  "defaultGCImage = ''registry:2''"

definition defaultGCPodName :: string where
  "defaultGCPodName = ''registry-blob-gc''"

definition defaultConfigPath :: string where
  "defaultConfigPath = ''/etc/docker/registry/config.yml''"

definition defaultMountPath :: string where
  "defaultMountPath = ''/var/lib/registry''"

definition defaultGCTimeout :: duration where
  "defaultGCTimeout = 30 * minute"

definition restartAttempts :: nat where
  "restartAttempts = 3"

record gcMount =
  gm_Name :: string
  gm_MountPath :: string

record gcContainer =
  gk_Name :: string
  gk_Image :: string
  gk_Args :: "string list"
  gk_VolumeMounts :: "gcMount list"

record gcHostVolume =
  gv_Name :: string
  gv_Path :: string
  gv_Type :: string

record gcPodSpec =
  gs_RestartPolicy :: string
  gs_Containers :: "gcContainer list"
  gs_Volumes :: "gcHostVolume list"

record gcPod =
  gp_APIVersion :: string
  gp_Kind :: string
  gp_Name :: string
  gp_Spec :: gcPodSpec

text \<open>The fields of \<^verbatim>\<open>BlobGC\<close>, and \<^verbatim>\<open>yaml.Marshal\<close> of the pod.\<close>

record 'w BlobGC =
  bg_Podman :: "'w PodRunner option"
  bg_HostID :: string
  bg_RegistryPod :: string
  bg_RegistryContainer :: string
  bg_StoragePath :: string
  bg_MountPath :: string
  bg_SizePath :: string
  bg_ConfigPath :: string
  bg_Image :: string
  bg_PodName :: string
  bg_Timeout :: duration
  bg_Marshal :: "gcPod \<Rightarrow> string option"

definition mountPath :: "'w BlobGC \<Rightarrow> string" where
  "mountPath g = (if bg_MountPath g \<noteq> '''' then bg_MountPath g else defaultMountPath)"

definition sizePath :: "'w BlobGC \<Rightarrow> string" where
  "sizePath g = (if bg_SizePath g \<noteq> '''' then bg_SizePath g else defaultMountPath)"

definition configPath :: "'w BlobGC \<Rightarrow> string" where
  "configPath g = (if bg_ConfigPath g \<noteq> '''' then bg_ConfigPath g else defaultConfigPath)"

definition gc_image :: "'w BlobGC \<Rightarrow> string" where
  "gc_image g = (if bg_Image g \<noteq> '''' then bg_Image g else defaultGCImage)"

definition podName :: "'w BlobGC \<Rightarrow> string" where
  "podName g = (if bg_PodName g \<noteq> '''' then bg_PodName g else defaultGCPodName)"

definition gc_timeout :: "'w BlobGC \<Rightarrow> duration" where
  "gc_timeout g = (if 0 < bg_Timeout g then bg_Timeout g else defaultGCTimeout)"

definition validate :: "'w BlobGC \<Rightarrow> rerr option" where
  "validate g =
     (if bg_Podman g = None then Some (RErr [] ''blob GC has no podman client'')
      else if bg_HostID g = '''' then Some (RErr [] ''blob GC has no host'')
      else if bg_RegistryPod g = '''' then Some (RErr [] ''blob GC has no registry pod name'')
      else if bg_StoragePath g = '''' \<or> \<not> HasPrefix (bg_StoragePath g) ''/''
      then Some (RErr [] ''blob GC storage path must be an absolute host path'')
      else if EqualFold (TrimSpace (podName g)) (TrimSpace (bg_RegistryPod g))
      then Some (RErr [] ''blob GC pod name is the pod name of the registry'')
      else None)"

definition gc_manifest :: "'w BlobGC \<Rightarrow> rerr + string" where
  "gc_manifest g =
     (let volName = ''registry-storage'';
          pod = \<lparr>gp_APIVersion = ''v1'', gp_Kind = ''Pod'', gp_Name = podName g,
            gp_Spec = \<lparr>gs_RestartPolicy = ''Never'',
              gs_Containers = [\<lparr>gk_Name = ''gc'', gk_Image = gc_image g,
                gk_Args = [''garbage-collect'', ''--delete-untagged'', configPath g],
                gk_VolumeMounts = [\<lparr>gm_Name = volName, gm_MountPath = mountPath g\<rparr>]\<rparr>],
              gs_Volumes = [\<lparr>gv_Name = volName, gv_Path = bg_StoragePath g, gv_Type = ''Directory''\<rparr>]\<rparr>\<rparr>
      in case bg_Marshal g pod of None \<Rightarrow> Inl (RErr [] ''marshal blob-GC pod manifest'') | Some y \<Rightarrow> Inr y)"

subsection \<open>Sizing\<close>

definition pods :: "'w BlobGC \<Rightarrow> 'w PodRunner" where
  "pods g = the (bg_Podman g)"

definition storageBytes :: "'w BlobGC \<Rightarrow> ctx \<Rightarrow> 'w prun \<Rightarrow> int option \<times> 'w prun" where
  "storageBytes g c s =
     (if bg_RegistryContainer g = '''' then (None, s)
      else case out (pd_ContainerExec (pods g) c (bg_HostID g) (bg_RegistryContainer g) [''du'', ''-sk'', sizePath g]) s of
        (Inl _, s1) \<Rightarrow> (None, s1)
      | (Inr res, s1) \<Rightarrow>
          (if ex_ExitCode res \<noteq> 0 then None
           else case Fields (ex_Output res) of
             [] \<Rightarrow> None
           | f # _ \<Rightarrow>
               (case Atoi f of
                  None \<Rightarrow> None
                | Some kib \<Rightarrow> if kib < 0 then None else Some (wrap64 (kib * 1024))), s1))"

subsection \<open>Starting the registry again\<close>

fun start_attempts :: "'w BlobGC \<Rightarrow> nat \<Rightarrow> nat \<Rightarrow> rerr option \<Rightarrow> 'w prun \<Rightarrow> rerr option \<times> 'w prun" where
  "start_attempts g attempt 0 last_err s = (last_err, s)"
| "start_attempts g attempt (Suc left) last_err s =
     (case out (pd_PodStart (pods g) Detached (bg_HostID g) (bg_RegistryPod g)) s of
        (Inr _, s1) \<Rightarrow> (None, if 1 < attempt then Step ''blob-gc:registry-start'' (Attempt attempt) s1 else s1)
      | (Inl e, s1) \<Rightarrow> start_attempts g (attempt + 1) left (Some e) s1)"

definition startRegistry :: "'w BlobGC \<Rightarrow> 'w prun \<Rightarrow> rerr option \<times> 'w prun" where
  "startRegistry g = start_attempts g 1 restartAttempts None"

subsection \<open>Reclaim\<close>

text \<open>The deferred function, on the result of the body.\<close>

definition reclaim_deferred ::
  "'w BlobGC \<Rightarrow> int option \<Rightarrow> bool \<Rightarrow> gc_result \<Rightarrow> rerr option \<Rightarrow> 'w prun \<Rightarrow> (gc_result \<times> rerr option) \<times> 'w prun" where
  "reclaim_deferred g before played res err s =
     (case startRegistry g s of
        (serr, s1) \<Rightarrow>
          let s2 = (if played then snd (out (pd_PodRemove (pods g) Detached (bg_HostID g) (podName g) True) s1) else s1)
          in case serr of
               Some e \<Rightarrow>
                 ((res, if err = None then Some (RErr (wraps e) ''restart registry after blob GC'') else err),
                  Step ''blob-gc:registry-start'' (Says ''REGISTRY DID NOT RESTART'') s2)
             | None \<Rightarrow>
                 (case storageBytes g Detached (Step ''blob-gc:registry-start'' (Says ''registry restarted'') s2) of
                    (None, s3) \<Rightarrow> ((res, err), Step ''blob-gc:size-after'' (Says ''size unavailable'') s3)
                  | (Some after, s3) \<Rightarrow>
                      (case before of
                         None \<Rightarrow> ((res\<lparr>gc_After := after\<rparr>, err), Step ''blob-gc:size-after'' (Bytes after) s3)
                       | Some b \<Rightarrow>
                           let reclaimed = (if wrap64 (b - after) < 0 then 0 else wrap64 (b - after))
                           in ((res\<lparr>gc_After := after, gc_Reclaimed := reclaimed, gc_Measured := True\<rparr>, err),
                               Step ''blob-gc:size-after'' (Reclaimed after reclaimed) s3))))"

text \<open>From the stop of the registry to the return; the flag is \<^verbatim>\<open>played\<close>.\<close>

definition reclaim_body :: "'w BlobGC \<Rightarrow> 'w prun \<Rightarrow> (rerr option \<times> bool) \<times> 'w prun" where
  "reclaim_body g s =
     (case out (pd_PodStop (pods g) JobCtx (bg_HostID g) (bg_RegistryPod g)) s of
        (Inl e, s1) \<Rightarrow>
          ((Some (RErr (wraps e) ''stop registry before blob GC''), False), Step ''blob-gc:registry-stop'' (Aborted e) s1)
      | (Inr _, s1) \<Rightarrow>
          let s2 = Step ''blob-gc:registry-stop'' (Says ''registry stopped'') s1
          in case gc_manifest g of
               Inl e \<Rightarrow> ((Some e, False), s2)
             | Inr yaml \<Rightarrow>
                 (case out (pd_PlayKube (pods g) JobCtx (bg_HostID g) yaml True) s2 of
                    (Inl e, s3) \<Rightarrow> ((Some (RErr (wraps e) ''play blob-GC pod''), True), Step ''blob-gc:play'' (Aborted e) s3)
                  | (Inr _, s3) \<Rightarrow>
                      (case out (pd_WaitForPodCompletion (pods g) JobCtx (bg_HostID g) (podName g) (gc_timeout g))
                              (Step ''blob-gc:play'' (Says ''one-shot pod started'') s3) of
                         (Inl e, s4) \<Rightarrow>
                           ((Some (RErr (wraps e) ''await blob-GC pod''), True),
                            Step ''blob-gc:wait''
                              (if errors_Is e WaitTimeout then Says ''garbage collection did not finish'' else Aborted e) s4)
                       | (Inr code, s4) \<Rightarrow>
                           if code \<noteq> 0
                           then ((Some (RErr [] ''blob GC pod exited''), True), Step ''blob-gc:wait'' (Exited code) s4)
                           else ((None, True), Step ''blob-gc:wait'' (Says ''garbage-collect exited 0'') s4))))"

definition no_result :: gc_result where
  "no_result = \<lparr>gc_Before = 0, gc_After = 0, gc_Reclaimed = 0, gc_Measured = False\<rparr>"

definition Reclaim :: "'w BlobGC \<Rightarrow> Payload \<Rightarrow> 'w prun \<Rightarrow> (gc_result \<times> rerr option) \<times> 'w prun" where
  "Reclaim g p s =
     (if pl_DryRun p then ((no_result, None), Step ''blob-gc'' (Says ''skipped: dry run'') s)
      else if pl_SkipBlobGC p then ((no_result, None), Step ''blob-gc'' (Says ''skipped: skip_blob_gc set'') s)
      else case validate g of
        Some e \<Rightarrow> ((no_result, Some e), Step ''blob-gc'' (Aborted e) s)
      | None \<Rightarrow>
          (case storageBytes g JobCtx s of
             (before, s1) \<Rightarrow>
               let res = (case before of None \<Rightarrow> no_result | Some b \<Rightarrow> no_result\<lparr>gc_Before := b\<rparr>);
                   s2 = Step ''blob-gc:size-before'' (case before of None \<Rightarrow> Says ''size unavailable'' | Some b \<Rightarrow> Bytes b) s1
               in case reclaim_body g s2 of
                    ((err, played), s3) \<Rightarrow> reclaim_deferred g before played res err s3))"

subsection \<open>The calls of a run\<close>

text \<open>The podman calls that were made, with their answers.\<close>

datatype pod_event =
    Stop string string bool
  | Play string string bool
  | Wait string string "int option"
  | Start ctx string string bool
  | Remove string string
  | Exec string string

definition noting :: "((rerr + 'a) \<Rightarrow> pod_event) \<Rightarrow> ('w, 'a) call \<Rightarrow> ('w \<times> pod_event list, 'a) call" where
  "noting ev f v = (case f (fst v) of (r, w) \<Rightarrow> (r, (w, snd v @ [ev r])))"

definition traced_pods :: "'w PodRunner \<Rightarrow> ('w \<times> pod_event list) PodRunner" where
  "traced_pods p =
     \<lparr>pd_PlayKube = (\<lambda>c h y b. noting (\<lambda>r. Play h y (\<not> isl r)) (pd_PlayKube p c h y b)),
      pd_WaitForPodCompletion = (\<lambda>c h n t. noting (\<lambda>r. Wait h n (case r of Inl _ \<Rightarrow> None | Inr code \<Rightarrow> Some code)) (pd_WaitForPodCompletion p c h n t)),
      pd_PodStop = (\<lambda>c h n. noting (\<lambda>r. Stop h n (\<not> isl r)) (pd_PodStop p c h n)),
      pd_PodStart = (\<lambda>c h n. noting (\<lambda>r. Start c h n (\<not> isl r)) (pd_PodStart p c h n)),
      pd_PodRemove = (\<lambda>c h n f. noting (\<lambda>r. Remove h n) (pd_PodRemove p c h n f)),
      pd_ContainerExec = (\<lambda>c h k cmd. noting (\<lambda>r. Exec h k) (pd_ContainerExec p c h k cmd))\<rparr>"

definition traced_gc :: "'w BlobGC \<Rightarrow> ('w \<times> pod_event list) BlobGC" where
  "traced_gc g =
     \<lparr>bg_Podman = map_option traced_pods (bg_Podman g), bg_HostID = bg_HostID g, bg_RegistryPod = bg_RegistryPod g,
      bg_RegistryContainer = bg_RegistryContainer g, bg_StoragePath = bg_StoragePath g, bg_MountPath = bg_MountPath g,
      bg_SizePath = bg_SizePath g, bg_ConfigPath = bg_ConfigPath g, bg_Image = bg_Image g, bg_PodName = bg_PodName g,
      bg_Timeout = bg_Timeout g, bg_Marshal = bg_Marshal g\<rparr>"

definition calls :: "('w \<times> pod_event list) prun \<Rightarrow> pod_event list" where
  "calls s = snd (pr_world s)"

lemma calls_simps [simp]: "calls (Step phase d s) = calls s"
  by (simp add: calls_def Step_def)

lemma calls_out_noting: "out (noting ev f) s = (r, s') \<Longrightarrow> calls s' = calls s @ [ev r]"
  by (auto simp: out_def noting_def calls_def split: prod.splits)

lemma calls_snd_out: "calls (snd (out (noting ev f) s)) = calls s @ [ev (fst (out (noting ev f) s))]"
  using calls_out_noting [of ev f s "fst (out (noting ev f) s)" "snd (out (noting ev f) s)"] by simp

lemma traced_gc_simps [simp]:
  "bg_HostID (traced_gc g) = bg_HostID g" "bg_RegistryPod (traced_gc g) = bg_RegistryPod g" "podName (traced_gc g) = podName g"
  "validate (traced_gc g) = validate g" "gc_manifest (traced_gc g) = gc_manifest g"
  by (simp_all add: traced_gc_def podName_def validate_def gc_manifest_def configPath_def mountPath_def gc_image_def)

lemma traced_pods_of: "validate g = None \<Longrightarrow> pods (traced_gc g) = traced_pods (pods g)"
  by (auto simp: pods_def traced_gc_def validate_def split: if_splits)

lemma storageBytes_calls:
  assumes "validate g = None" and "storageBytes (traced_gc g) c s = (r, s')"
  shows "\<exists>n. calls s' = calls s @ replicate n (Exec (bg_HostID g) (bg_RegistryContainer g))"
proof -
  from assms(2) consider "s' = s"
    | r' where "out (noting (\<lambda>r. Exec (bg_HostID g) (bg_RegistryContainer g))
        (pd_ContainerExec (pods g) c (bg_HostID g) (bg_RegistryContainer g) [''du'', ''-sk'', sizePath (traced_gc g)])) s = (r', s')"
    by (auto simp: storageBytes_def traced_pods_of [OF assms(1)] traced_pods_def split: if_splits prod.splits sum.splits)
      (simp_all add: traced_gc_def)
  then show ?thesis
  proof cases
    case 1
    then show ?thesis by (intro exI [of _ 0]) simp
  next
    case 2
    from calls_out_noting [OF this] show ?thesis by (intro exI [of _ 1]) simp
  qed
qed

text \<open>The attempts to start the registry: \<open>n\<close> failures, and then a success or no attempt left.\<close>

definition attempts :: "'w BlobGC \<Rightarrow> nat \<Rightarrow> bool \<Rightarrow> pod_event list" where
  "attempts g n ok =
     replicate n (Start Detached (bg_HostID g) (bg_RegistryPod g) False) @
     (if ok then [Start Detached (bg_HostID g) (bg_RegistryPod g) True] else [])"

lemma start_attempts_calls:
  assumes "validate g = None" and "start_attempts (traced_gc g) k m e0 s = (r, s')" and "m = 0 \<longrightarrow> e0 \<noteq> None"
  shows "\<exists>n ok. calls s' = calls s @ attempts g n ok \<and> (ok \<longleftrightarrow> r = None) \<and> (if ok then n < m else n = m)"
  using assms(2,3)
proof (induction m arbitrary: k e0 s)
  case 0
  then show ?case by (intro exI [of _ 0] exI [of _ False]) (simp add: attempts_def)
next
  case (Suc m)
  let ?f = "noting (\<lambda>r. Start Detached (bg_HostID g) (bg_RegistryPod g) (\<not> isl r)) (pd_PodStart (pods g) Detached (bg_HostID g) (bg_RegistryPod g))"
  have f: "pd_PodStart (pods (traced_gc g)) Detached (bg_HostID g) (bg_RegistryPod g) = ?f"
    by (simp add: traced_pods_of [OF assms(1)] traced_pods_def)
  obtain r1 s1 where o1: "out ?f s = (r1, s1)" by fastforce
  note c = calls_out_noting [OF o1]
  show ?case
  proof (cases r1)
    case (Inl e)
    with Suc.prems o1 f have "start_attempts (traced_gc g) (k + 1) m (Some e) s1 = (r, s')" by simp
    from Suc.IH [OF this] obtain n ok where n: "calls s' = calls s1 @ attempts g n ok" "ok \<longleftrightarrow> r = None" "if ok then n < m else n = m"
      by auto
    with c Inl show ?thesis by (intro exI [of _ "Suc n"] exI [of _ ok]) (simp add: attempts_def)
  next
    case (Inr u)
    with Suc.prems o1 f c show ?thesis by (intro exI [of _ 0] exI [of _ True]) (auto simp: attempts_def)
  qed
qed

text \<open>What happens between the stop of the registry and its start.\<close>

definition collects :: "'w BlobGC \<Rightarrow> bool \<Rightarrow> bool \<Rightarrow> bool \<Rightarrow> pod_event list \<Rightarrow> bool" where
  "collects g stopped played ok work \<longleftrightarrow>
     (if played
      then stopped \<and> (\<exists>yaml. gc_manifest g = Inr yaml \<and>
        (work = [Play (bg_HostID g) yaml False] \<and> \<not> ok \<or>
         (\<exists>code. work = [Play (bg_HostID g) yaml True, Wait (bg_HostID g) (podName g) code] \<and> (ok \<longleftrightarrow> code = Some 0))))
      else work = [] \<and> \<not> ok)"

lemma reclaim_body_calls:
  assumes "validate g = None" and "reclaim_body (traced_gc g) s = ((err, played), s')"
  shows "\<exists>stopped work. calls s' = calls s @ Stop (bg_HostID g) (bg_RegistryPod g) stopped # work \<and>
    collects g stopped played (err = None) work"
proof -
  let ?stop = "noting (\<lambda>r. Stop (bg_HostID g) (bg_RegistryPod g) (\<not> isl r)) (pd_PodStop (pods g) JobCtx (bg_HostID g) (bg_RegistryPod g))"
  let ?play = "\<lambda>yaml. noting (\<lambda>r. Play (bg_HostID g) yaml (\<not> isl r)) (pd_PlayKube (pods g) JobCtx (bg_HostID g) yaml True)"
  let ?wait = "noting (\<lambda>r. Wait (bg_HostID g) (podName g) (case r of Inl _ \<Rightarrow> None | Inr code \<Rightarrow> Some code))
     (pd_WaitForPodCompletion (pods g) JobCtx (bg_HostID g) (podName g) (gc_timeout (traced_gc g)))"
  obtain r1 s1 where stop: "out ?stop s = (r1, s1)" by fastforce
  note body = assms(2) [unfolded reclaim_body_def traced_gc_simps traced_pods_of [OF assms(1)] traced_pods_def PodRunner.select_convs stop]
  note c1 = calls_out_noting [OF stop]
  show ?thesis
  proof (cases r1)
    case (Inl e)
    with body c1 show ?thesis by (intro exI [of _ False] exI [of _ "[]"]) (auto simp: collects_def)
  next
    case (Inr u)
    show ?thesis
    proof (cases "gc_manifest g")
      case (Inl e)
      with body Inr c1 show ?thesis by (intro exI [of _ True] exI [of _ "[]"]) (auto simp: collects_def Let_def)
    next
      case yaml: (Inr yaml)
      obtain r3 s3 where play: "out (?play yaml) (Step ''blob-gc:registry-stop'' (Says ''registry stopped'') s1) = (r3, s3)" by fastforce
      note c3 = calls_out_noting [OF play]
      show ?thesis
      proof (cases r3)
        case (Inl e)
        with body Inr yaml play c1 c3 show ?thesis
          by (intro exI [of _ True] exI [of _ "[Play (bg_HostID g) yaml False]"]) (auto simp: collects_def Let_def)
      next
        case played: (Inr u)
        obtain r4 s4 where wait: "out ?wait (Step ''blob-gc:play'' (Says ''one-shot pod started'') s3) = (r4, s4)" by fastforce
        note c4 = calls_out_noting [OF wait]
        from body Inr yaml play played wait c1 c3 c4 show ?thesis
          by (intro exI [of _ True] exI [of _ "[Play (bg_HostID g) yaml True, Wait (bg_HostID g) (podName g) (case r4 of Inl _ \<Rightarrow> None | Inr code \<Rightarrow> Some code)]"])
            (auto simp: collects_def Let_def split: sum.splits if_splits)
      qed
    qed
  qed
qed

lemma reclaim_deferred_calls:
  assumes "validate g = None" and "reclaim_deferred (traced_gc g) before played res err s = ((res', err'), s')"
  shows "\<exists>n ok m. calls s' = calls s @ attempts g n ok @ (if played then [Remove (bg_HostID g) (podName g)] else []) @
      replicate m (Exec (bg_HostID g) (bg_RegistryContainer g)) \<and>
    (if ok then n < restartAttempts else n = restartAttempts) \<and> (err' = None \<longleftrightarrow> err = None \<and> ok)"
proof -
  let ?rm = "noting (\<lambda>r. Remove (bg_HostID g) (podName g)) (pd_PodRemove (pods g) Detached (bg_HostID g) (podName g) True)"
  obtain serr s1 where start: "startRegistry (traced_gc g) s = (serr, s1)" by fastforce
  from start_attempts_calls [OF assms(1) start [unfolded startRegistry_def]] obtain n ok where
    n: "calls s1 = calls s @ attempts g n ok" "ok \<longleftrightarrow> serr = None" "if ok then n < restartAttempts else n = restartAttempts"
    by (auto simp: restartAttempts_def)
  define s2 where "s2 = (if played then snd (out ?rm s1) else s1)"
  have s2: "calls s2 = calls s1 @ (if played then [Remove (bg_HostID g) (podName g)] else [])"
    by (simp add: s2_def calls_snd_out)
  note d = assms(2) [unfolded reclaim_deferred_def start prod.case Let_def traced_gc_simps traced_pods_of [OF assms(1)]
      traced_pods_def PodRunner.select_convs, folded s2_def]
  show ?thesis
  proof (cases serr)
    case (Some e)
    with d n s2 show ?thesis by (intro exI [of _ n] exI [of _ False] exI [of _ 0]) (auto split: if_splits)
  next
    case None
    obtain r3 s3 where size: "storageBytes (traced_gc g) Detached (Step ''blob-gc:registry-start'' (Says ''registry restarted'') s2) = (r3, s3)"
      by fastforce
    from storageBytes_calls [OF assms(1) size] obtain m where m: "calls s3 = calls s2 @ replicate m (Exec (bg_HostID g) (bg_RegistryContainer g))"
      by auto
    from d None size have "calls s' = calls s3" "err' = err" by (auto split: option.splits)
    with None m n s2 show ?thesis by (intro exI [of _ n] exI [of _ True] exI [of _ m]) simp
  qed
qed

subsection \<open>Stage B gives the registry back\<close>


text \<open>A podman whose first two attempts to start a pod fail.\<close>

definition sample_pods :: "nat PodRunner" where
  "sample_pods =
     \<lparr>pd_PlayKube = (\<lambda>_ _ _ _. Pair (Inr ())), pd_WaitForPodCompletion = (\<lambda>_ _ _ _. Pair (Inr 0)),
      pd_PodStop = (\<lambda>_ _ _. Pair (Inr ())),
      pd_PodStart = (\<lambda>_ _ _ n. (if n < 2 then Inl (RErr [] ''busy'') else Inr (), Suc n)),
      pd_PodRemove = (\<lambda>_ _ _ _. Pair (Inr ())),
      pd_ContainerExec = (\<lambda>_ _ _ _. Pair (Inr \<lparr>ex_Output = '' 12 /var/lib/registry'', ex_ExitCode = 0\<rparr>))\<rparr>"

definition sample_gc :: "nat BlobGC" where
  "sample_gc =
     \<lparr>bg_Podman = Some sample_pods, bg_HostID = ''infra'', bg_RegistryPod = ''registry'', bg_RegistryContainer = ''registry-reg'',
      bg_StoragePath = ''/srv/registry'', bg_MountPath = '''', bg_SizePath = '''', bg_ConfigPath = '''', bg_Image = '''',
      bg_PodName = '''', bg_Timeout = 0, bg_Marshal = (\<lambda>pod. Some (gp_Name pod))\<rparr>"

definition sample_gc_payload :: Payload where
  "sample_gc_payload = \<lparr>pl_Policy = DefaultPolicy, pl_DryRun = False, pl_SkipBlobGC = False\<rparr>"

definition sample_gc_start :: "(nat \<times> pod_event list) prun" where
  "sample_gc_start = \<lparr>pr_world = (0, []), pr_steps = [], pr_metrics = []\<rparr>"


end
