(* ===== verification/Registry_Fleet.thy ===== *)
theory Registry_Fleet
  imports Registry_Safety Blob_GC
begin

text \<open>
  The prune run and the in-use sweep together: what a fleet pins by digest is never deleted, and every run
  records exactly one outcome.
\<close>

subsection \<open>References that carry their digest\<close>

definition canonical :: "string \<Rightarrow> bool" where
  "canonical d \<longleftrightarrow> (\<exists>hex. d = ''sha256:'' @ hex \<and> length hex = 64 \<and> set hex \<subseteq> set ''0123456789abcdef'')"

text \<open>A digest alone, or one behind any name, host and tag included.\<close>

definition carries :: "string \<Rightarrow> string \<Rightarrow> bool" where
  "carries ref d \<longleftrightarrow> ref = d \<or> (\<exists>name. ref = name @ ''@'' @ d)"

lemma hex_class: "c \<in> set ''0123456789abcdef'' \<Longrightarrow> in_class [(CHR ''a'', CHR ''f''), (CHR ''0'', CHR ''9'')] c"
proof -
  have "list_all (in_class [(CHR ''a'', CHR ''f''), (CHR ''0'', CHR ''9'')]) ''0123456789abcdef''" by code_simp
  then show "c \<in> set ''0123456789abcdef'' \<Longrightarrow> ?thesis" by (simp only: list_all_iff)
qed

lemma canonical_chars:
  assumes "canonical d" and "c \<in> set d"
  shows "c \<in> set ''sha256:0123456789abcdef''"
  using assms by (auto simp: canonical_def)

lemma canonical_plain:
  assumes "canonical d"
  shows "ToLower d = d" "TrimSpace d = d" "CHR ''@'' \<notin> set d"
proof -
  have l: "list_all (\<lambda>c. char_lower c = c \<and> \<not> IsSpace c \<and> c \<noteq> CHR ''@'') ''sha256:0123456789abcdef''" by code_simp
  have p: "char_lower c = c \<and> \<not> IsSpace c \<and> c \<noteq> CHR ''@''" if "c \<in> set d" for c
    using l canonical_chars [OF assms that] unfolding list_all_iff by blast
  then show "ToLower d = d" unfolding ToLower_def by (intro map_idI) simp
  show "TrimSpace d = d" using p by (intro TrimSpace_no_space) (simp add: list_all_iff)
  show "CHR ''@'' \<notin> set d" using p by blast
qed

lemma canonical_trusted:
  assumes "canonical d"
  shows "IsDigestRef d" and "\<not> MatchString bareImageIDRe d" and "classifyBareDigest d = trustedBareDigest"
proof -
  let ?hex = "Cls [(CHR ''a'', CHR ''f''), (CHR ''0'', CHR ''9'')]"
  from assms obtain hex where d: "d = ''sha256:'' @ hex" and hex: "length hex = 64" "set hex \<subseteq> set ''0123456789abcdef''"
    unfolding canonical_def by (elim exE conjE) (rule that)
  have cls: "list_all (in_class [(CHR ''a'', CHR ''f''), (CHR ''0'', CHR ''9'')]) hex"
    unfolding list_all_iff using hex(2) hex_class by blast
  have id: "MatchString bareImageIDRe hex"
    unfolding MatchString_lang bareImageIDRe_def lang_Rep_Cls using hex(1) cls by simp
  from bareImageID_digest [OF this] show ref: "IsDigestRef d" by (simp only: d)
  have "length d = 71" using hex(1) by (simp add: d)
  then show "\<not> MatchString bareImageIDRe d"
    unfolding MatchString_lang bareImageIDRe_def lang_Rep_Cls by simp
  have "''sha256'' \<in> lang digest_algorithm" by (simp only: MatchString_lang [symmetric]) code_simp
  moreover have "'':'' \<in> lang (Lit '':'')" by (simp add: lang_Lit del: Lit.simps)
  moreover have "hex \<in> lang (AtLeast 32 ?hex)" unfolding lang_AtLeast_Cls using cls hex(1) by simp
  ultimately have "''sha256'' @ ('':'' @ hex) \<in> lang digestShapedRe"
    unfolding digestShapedRe_def lang.simps(4) conc_def by blast
  then have "MatchString digestShapedRe d" by (simp add: d MatchString_lang)
  moreover have "takeWhile (\<lambda>c. c \<noteq> CHR '':'') d = ''sha256''" by (simp add: d)
  moreover have "map_of digestAlgoHexLen ''sha256'' = Some 64" by code_simp
  ultimately show "classifyBareDigest d = trustedBareDigest"
    using ref hex(1) by (simp add: classifyBareDigest_def Let_def d)
qed

lemma at_not_bare:
  assumes "CHR ''@'' \<in> set s"
  shows "\<not> MatchString bareImageIDRe (ToLower s)" "classifyBareDigest (ToLower s) = notBareDigest"
proof -
  have "\<not> CHR ''a'' \<le> CHR ''@''" "\<not> CHR ''A'' \<le> CHR ''@''" by code_simp+
  with assms have at: "CHR ''@'' \<in> set (ToLower s)" by (subst ToLower_nonletter) auto
  show "\<not> MatchString bareImageIDRe (ToLower s)"
  proof
    assume "MatchString bareImageIDRe (ToLower s)"
    then have "in_class (alphabet bareImageIDRe) CHR ''@''" using at by (rule MatchString_alphabet)
    then have "in_class (alphabet (Cls [(CHR ''a'', CHR ''f''), (CHR ''0'', CHR ''9'')])) CHR ''@''"
      unfolding bareImageIDRe_def by (rule alphabet_Rep)
    moreover have "\<not> in_class (alphabet (Cls [(CHR ''a'', CHR ''f''), (CHR ''0'', CHR ''9'')])) CHR ''@''" by code_simp
    ultimately show False by contradiction
  qed
  have "\<not> IsDigestRef (ToLower s)"
  proof
    assume "IsDigestRef (ToLower s)"
    then have "in_class (alphabet digest_algorithm @ digest_chars) CHR ''@''"
      using at digest_alphabet by (simp only: IsDigestRef_def)
    moreover have "\<not> in_class (alphabet digest_algorithm @ digest_chars) CHR ''@''" by code_simp
    ultimately show False by contradiction
  qed
  then show "classifyBareDigest (ToLower s) = notBareDigest" by (simp add: classifyBareDigest_def)
qed

text \<open>Only leading space is cut from a reference that ends in a digest.\<close>

lemma TrimSpace_at:
  assumes "canonical d"
  shows "TrimSpace (name @ ''@'' @ d) = TrimLeftSpace name @ ''@'' @ d"
proof -
  have l: "list_all (\<lambda>c. \<not> IsSpace c) (''@'' @ ''sha256:0123456789abcdef'')" by code_simp
  have d: "list_all (\<lambda>c. \<not> IsSpace c) (''@'' @ d)"
    unfolding list_all_iff using l canonical_chars [OF assms] by (auto simp: list_all_iff)
  have left: "dropWhile IsSpace (n @ e) = dropWhile IsSpace n @ e" if "list_all (\<lambda>c. \<not> IsSpace c) e" for n e
    using that by (induction n) (auto simp: dropWhile_none)
  have "dropWhile IsSpace (rev (n @ e)) = rev (n @ e)" if "list_all (\<lambda>c. \<not> IsSpace c) e" "e \<noteq> []" for n e
    using that by (cases e rule: rev_cases) auto
  from this [OF d, of "dropWhile IsSpace name"] left [OF d, of name] show ?thesis
    by (simp add: TrimSpace_def TrimLeftSpace_def TrimRightFunc_def)
qed

lemma carries_resolves:
  assumes "canonical d" and "carries ref d" and "fst (resolveRef reg known ours ref w) = Inr got"
  shows "ro_Digest got = d"
proof -
  note plain = canonical_plain [OF assms(1)] and trusted = canonical_trusted [OF assms(1)]
  have ne: "d \<noteq> ''''" using assms(1) by (auto simp: canonical_def)
  consider "ref = d" | name where "ref = name @ ''@'' @ d" using assms(2) by (auto simp: carries_def)
  then show ?thesis
  proof cases
    case 1
    with assms(3) ne plain trusted show ?thesis by (auto simp: resolveRef_def Let_def)
  next
    case 2
    let ?r = "TrimLeftSpace name @ ''@'' @ d"
    have r: "TrimSpace ref = ?r" using TrimSpace_at [OF assms(1)] 2 by simp
    have at: "CHR ''@'' \<in> set ?r" by simp
    have "splitRef ?r = (TrimLeftSpace name, '''', d)" using splitRef_digest [OF plain(3)] plain(1) by simp
    with assms(3) r at_not_bare [OF at] trusted(1) ne show ?thesis
      by (auto simp: resolveRef_def Let_def split: if_splits)
  qed
qed

lemma carries_not_blank: "canonical d \<Longrightarrow> carries ref d \<Longrightarrow> TrimSpace ref \<noteq> ''''"
  using canonical_plain(2) [of d] TrimSpace_at [of d] by (auto simp: carries_def canonical_def)

subsection \<open>What the fleet pins is never deleted\<close>

text \<open>
  Whenever it is asked, the fleet has this host, and the host has a running container, or a stored spec,
  whose image carries the digest.
\<close>

definition runs_digest :: "'w Fleet \<Rightarrow> string \<Rightarrow> string \<Rightarrow> bool" where
  "runs_digest fl host d \<longleftrightarrow>
     (\<forall>w obs fresh. fst (fl_Inventory fl host w) = Inr (obs, fresh) \<longrightarrow>
        (\<exists>ob\<in>set obs. \<exists>c\<in>set (ob_Containers ob). \<not> oc_IsInfra c \<and> carries (oc_Image c) d))"

definition wants_digest :: "'w Fleet \<Rightarrow> string \<Rightarrow> SpecKey \<Rightarrow> string \<Rightarrow> bool" where
  "wants_digest fl host k d \<longleftrightarrow>
     (\<forall>w keys. fst (fl_ListSpecKeys fl host w) = Inr keys \<longrightarrow> k \<in> set keys) \<and>
     (\<forall>w sp. fst (fl_GetSpec fl host (key_Template k) (key_Slug k) w) = Inr sp \<longrightarrow>
        (\<exists>p\<in>set (spec_Parameters sp). isImageParam (fst p) \<and> (\<exists>ref. snd p = JString ref \<and> carries ref d)))"

definition pins :: "'w Fleet \<Rightarrow> string \<Rightarrow> string \<Rightarrow> bool" where
  "pins fl host d \<longleftrightarrow> (\<forall>w. host \<in> set (fst (fl_Hosts fl w))) \<and> (runs_digest fl host d \<or> (\<exists>k. wants_digest fl host k d))"

lemma pins_lift: "pins fl host d \<Longrightarrow> pins (lift_fleet fl) host d"
  by (simp add: pins_def runs_digest_def wants_digest_def lift_fleet_def fst_lift_call)

lemma ref_protected_carries:
  assumes "canonical d" and "carries ref d" and "ref_protected fl reg known ours w0 covered D ref"
  shows "d \<in> D"
proof -
  from assms(3) obtain w got where got: "fst (resolveRef reg known ours ref w) = Inr got" and
    D: "ro_Digest got \<noteq> '''' \<longrightarrow> ro_Digest got \<in> D"
    unfolding ref_protected_def by blast
  have "d \<noteq> ''''" using assms(1) by (auto simp: canonical_def)
  with D show ?thesis by (simp add: carries_resolves [OF assms(1,2) got])
qed

lemma host_protected_pinned:
  assumes "canonical d" and "runs_digest fl host d \<or> (\<exists>k. wants_digest fl host k d)"
    and "host_protected fl reg known ours maxAge w0 covered D host"
  shows "d \<in> D"
  using assms(2)
proof
  assume runs: "runs_digest fl host d"
  from assms(3) obtain w obs fresh where "fst (fl_Inventory fl host w) = Inr (obs, fresh)" and
    all: "\<forall>o'\<in>set obs. \<forall>c\<in>set (ob_Containers o'). container_protected fl reg known ours w0 covered D c"
    unfolding host_protected_def by (elim conjE exE) (rule that)
  with runs obtain ob c where "ob \<in> set obs" "c \<in> set (ob_Containers ob)" "\<not> oc_IsInfra c" "carries (oc_Image c) d"
    unfolding runs_digest_def by blast
  with all have "ref_protected fl reg known ours w0 covered D (oc_Image c)" by (auto simp: container_protected_def)
  with assms(1) \<open>carries (oc_Image c) d\<close> show ?thesis by (rule ref_protected_carries)
next
  assume "\<exists>k. wants_digest fl host k d"
  then obtain k where wants: "wants_digest fl host k d" ..
  from assms(3) obtain w keys where "fst (fl_ListSpecKeys fl host w) = Inr keys" and
    all: "\<forall>k\<in>set keys. spec_protected fl reg known ours w0 D host k"
    unfolding host_protected_def by (elim conjE exE) (rule that)
  with wants have "k \<in> set keys" unfolding wants_digest_def by blast
  with all obtain w' sp where "fst (fl_GetSpec fl host (key_Template k) (key_Slug k) w') = Inr sp" and
    ps: "\<forall>p\<in>set (spec_Parameters sp). param_protected fl reg known ours w0 D p"
    unfolding spec_protected_def by blast
  with wants obtain p ref where "p \<in> set (spec_Parameters sp)" "isImageParam (fst p)" "snd p = JString ref" "carries ref d"
    unfolding wants_digest_def by blast
  with ps carries_not_blank [OF assms(1), of ref] have "ref_protected fl reg known ours w0 False D ref"
    by (auto simp: param_protected_def)
  with assms(1) \<open>carries ref d\<close> show ?thesis by (rule ref_protected_carries)
qed

lemma sweep_has_pinned:
  assumes "BuildInUseSet fl reg cfg w = ((s, None), w')" and "canonical d" and "pins fl host d"
  shows "Has s d"
proof -
  from BuildInUseSet_protects [OF assms(1)] obtain ours hosts w1 repos where h: "fl_Hosts fl w = (hosts, w1)" and
    all: "\<forall>host\<in>set hosts. host_protected fl reg (set repos) ours (pc_MaxSnapshotAge cfg) w True (ius_Digests s) host"
    by blast
  from assms(3) h have "host \<in> set hosts" by (simp add: pins_def) (metis fst_conv)
  with all assms(2,3) have "d \<in> ius_Digests s" by (auto simp: pins_def intro: host_protected_pinned)
  with canonical_plain [OF assms(2)] show ?thesis by (simp add: Has_def)
qed

text \<open>C9. What the fleet pins is never deleted: a digest that a running container of a configured host carries in
  its image, or that an image parameter of a stored spec carries, is in no delete request of any run,
  whatever the registry answers and whatever the policy says.\<close>

theorem prune_spares_fleet:
  assumes "Run (logged_handler h) decode args s = (r, s')" and "log_of s = []"
    and "canonical d" and "pins (h_Fleet h) host d"
  shows "(repo, d) \<notin> set (log_of s')"
proof
  assume "(repo, d) \<in> set (log_of s')"
  from Run_justified [OF assms(1,2) this] obtain p st s1 where
    st: "reaches_delete (logged_handler h) p s st s1" and no: "\<not> Has (st_fresh st) d"
    by (auto simp: justified_def)
  from st obtain s5 s6 where "inUseSet (logged_handler h) (st_repos st) s5 = ((st_fresh st, None), s6)"
    unfolding reaches_delete_def by blast
  then obtain w w' where "BuildInUseSet (lift_fleet (h_Fleet h)) (fixedCatalog (logged (h_Registry h)) (st_repos st)) (h_Config h) w =
      ((st_fresh st, None), w')"
    by (auto simp: inUseSet_def out_def logged_handler_def split: prod.splits)
  from sweep_has_pinned [OF this assms(3) pins_lift [OF assms(4)]] no show False by simp
qed

theorem prune_spares_fleet_witness:
  "log_of (snd (Run (logged_handler sample_handler) (\<lambda>_. Some sample_payload) '''' sample_start)) =
     [(''app'', sample_digest CHR ''b'')] \<and>
   (''app'', sample_digest CHR ''a'') \<notin>
     set (log_of (snd (Run (logged_handler sample_handler) (\<lambda>_. Some sample_payload) '''' sample_start)))"
proof -
  obtain r s' where run: "Run (logged_handler sample_handler) (\<lambda>_. Some sample_payload) '''' sample_start = (r, s')" by fastforce
  have "set (replicate 64 CHR ''a'') \<subseteq> set ''0123456789abcdef''" by code_simp
  then have "canonical (sample_digest CHR ''a'')"
    unfolding canonical_def sample_digest_def by (intro exI [of _ "replicate 64 CHR ''a''"] conjI) simp_all
  moreover have "pins (h_Fleet sample_handler) ''h1'' (sample_digest CHR ''a'')"
    by (simp add: pins_def runs_digest_def carries_def sample_handler_def sample_hosts_def)
  ultimately show ?thesis
    using prune_spares_fleet [OF run sample_start_log] sample_prune_log by (simp add: run)
qed

subsection \<open>One outcome per run\<close>

fun run_done :: "prune_metric \<Rightarrow> string option" where
  "run_done (RunDone outcome) = Some outcome"
| "run_done _ = None"

definition outcomes :: "'w prun \<Rightarrow> string list" where
  "outcomes s = List.map_filter run_done (pr_metrics s)"

lemma outcomes_simps [simp]:
  "outcomes (Step phase d s) = outcomes s"
  "outcomes (observe (RunDone outcome) s) = outcomes s @ [outcome]"
  "outcomes (observe (RepoSkipped repo n) s) = outcomes s"
  "outcomes (observe (ManifestsDeleted repo n) s) = outcomes s"
  "outcomes (observe (BytesReclaimed b) s) = outcomes s"
  "outcomes (recordSetDiagnostics iu s) = outcomes s"
  "outcomes (abortRun phase e s) = outcomes s @ [''aborted'']"
  by (simp_all add: outcomes_def Step_def observe_def recordSetDiagnostics_def abortRun_def Let_def map_filter_def)

lemma outcomes_out: "out f s = (r, s') \<Longrightarrow> outcomes s' = outcomes s"
  by (auto simp: out_def outcomes_def split: prod.splits)

lemma outcomes_inUseSet: "inUseSet h repos s = (r, s') \<Longrightarrow> outcomes s' = outcomes s"
  by (simp add: inUseSet_def outcomes_out)

lemma outcomes_list_repos: "list_repos h pol repos ls prot s = (r, s') \<Longrightarrow> outcomes s' = outcomes s"
proof (induction repos arbitrary: ls prot s)
  case (Cons repo repos)
  obtain ce s1 where c: "out (h_CtxErr h) s = (ce, s1)" by fastforce
  obtain l s2 where l: "out (cl_ResolveTags (h_Registry h) repo) s1 = (l, s2)" by fastforce
  from outcomes_out [OF c] outcomes_out [OF l] Cons.prems c l show ?case
    by (auto simp: Let_def split: option.splits sum.splits if_splits dest!: Cons.IH)
qed simp

lemma outcomes_classify_groups: "classify_groups h iu prot pol repo tgs cls unk s = (r, s') \<Longrightarrow> outcomes s' = outcomes s"
proof (induction tgs arbitrary: cls unk s r)
  case (Cons tg tgs)
  obtain now s1 where n: "out (fl_Now (h_Fleet h)) s = (now, s1)" by fastforce
  from outcomes_out [OF n] Cons.prems n show ?case
    by (auto simp: Let_def split: if_splits prod.splits dest: Cons.IH)
qed simp

lemma outcomes_classify_repos: "classify_repos h iu prot pol ls repos cls unk s = (r, s') \<Longrightarrow> outcomes s' = outcomes s"
proof (induction repos arbitrary: cls unk s r)
  case (Cons repo repos)
  then show ?case by (auto split: prod.splits dest: Cons.IH outcomes_classify_groups)
qed simp

lemma outcomes_classifyAll: "classifyAll h repos iu pol s = (r, s') \<Longrightarrow> outcomes s' = outcomes s"
  by (auto simp: classifyAll_def Let_def split: prod.splits sum.splits if_splits dest!: outcomes_list_repos outcomes_classify_repos)

lemma outcomes_tripwire: "tripwire limit plan s = (kept, s') \<Longrightarrow> outcomes s' = outcomes s"
  by (induction plan arbitrary: s kept) (auto split: if_splits prod.splits)

lemma outcomes_delete_candidate: "delete_candidate h iu fresh prot cat dry repo c a s = (r, s') \<Longrightarrow> outcomes s' = outcomes s"
proof -
  assume del: "delete_candidate h iu fresh prot cat dry repo c a s = (r, s')"
  obtain ce s1 where ctx: "out (h_CtxErr h) s = (ce, s1)" by fastforce
  obtain x s2 where x: "out (cl_Delete (h_Registry h) repo (ca_digest c)) s1 = (x, s2)" by fastforce
  from outcomes_out [OF ctx] outcomes_out [OF x] del ctx x show ?thesis
    by (auto simp: delete_candidate_def Let_def split: option.splits sum.splits if_splits)
qed

lemma outcomes_delete_candidates: "delete_candidates h iu fresh prot cat dry repo cs a s = (r, s') \<Longrightarrow> outcomes s' = outcomes s"
proof (induction cs arbitrary: a s)
  case (Cons c cs)
  obtain x s1 where d: "delete_candidate h iu fresh prot cat dry repo c a s = (x, s1)" by fastforce
  from outcomes_delete_candidate [OF d] Cons.prems d show ?case
    by (auto split: sum.splits if_splits dest!: Cons.IH)
qed simp

lemma outcomes_delete_repos: "delete_repos h iu fresh prot cat dry plan n seen e down s = (r, s') \<Longrightarrow> outcomes s' = outcomes s"
proof (induction plan arbitrary: n seen e down s dry)
  case (Cons rp plan)
  obtain x s1 where d: "delete_candidates h iu fresh prot cat dry (rp_repo rp) (rp_candidates rp)
      \<lparr>da_n = 0, da_would = [], da_seen = seen, da_firstErr = e, da_down = down\<rparr> s = (x, s1)" by fastforce
  from outcomes_delete_candidates [OF d] Cons.prems d show ?case
    by (auto simp: Let_def split: sum.splits if_splits dest!: Cons.IH)
qed simp

lemma outcomes_storageBytes: "storageBytes g c s = (r, s') \<Longrightarrow> outcomes s' = outcomes s"
  by (auto simp: storageBytes_def split: if_splits prod.splits sum.splits dest: outcomes_out)

lemma outcomes_start_attempts: "start_attempts g k m e s = (r, s') \<Longrightarrow> outcomes s' = outcomes s"
proof (induction m arbitrary: k e s)
  case (Suc m)
  obtain x s1 where p: "out (pd_PodStart (pods g) Detached (bg_HostID g) (bg_RegistryPod g)) s = (x, s1)" by fastforce
  from outcomes_out [OF p] Suc.prems p show ?case by (auto split: sum.splits dest!: Suc.IH)
qed simp

lemma outcomes_reclaim_body: "reclaim_body g s = (r, s') \<Longrightarrow> outcomes s' = outcomes s"
  by (auto simp: reclaim_body_def Let_def split: prod.splits sum.splits if_splits dest!: outcomes_out)

lemma outcomes_reclaim_deferred: "reclaim_deferred g before played res err s = (r, s') \<Longrightarrow> outcomes s' = outcomes s"
proof -
  assume d: "reclaim_deferred g before played res err s = (r, s')"
  obtain serr s1 where start: "startRegistry g s = (serr, s1)" by fastforce
  let ?rm = "out (pd_PodRemove (pods g) Detached (bg_HostID g) (podName g) True) s1"
  have "outcomes (snd ?rm) = outcomes s1" using outcomes_out [of _ s1 "fst ?rm" "snd ?rm"] by simp
  moreover have "outcomes s1 = outcomes s" using outcomes_start_attempts start by (simp add: startRegistry_def)
  ultimately show ?thesis using d start
    by (auto simp: reclaim_deferred_def Let_def split: option.splits prod.splits if_splits dest!: outcomes_storageBytes)
qed

lemma outcomes_Reclaim: "Reclaim g p s = (r, s') \<Longrightarrow> outcomes s' = outcomes s"
  by (auto simp: Reclaim_def Let_def split: if_splits option.splits prod.splits
      dest!: outcomes_storageBytes outcomes_reclaim_body outcomes_reclaim_deferred)

lemma outcomes_lift_gc: "lift_gc (Reclaim g) p s = (r, s') \<Longrightarrow> outcomes s' = outcomes s"
  by (auto simp: lift_gc_def outcomes_def split: prod.splits dest!: outcomes_Reclaim)

text \<open>How a run that reached the delete pass ends.\<close>

lemma outcomes_finish:
  assumes "h_BlobGC h = map_option Reclaim gc" and "finish (logged_handler h) kept iu fresh prot cat p s = (r, s')"
  shows "outcomes s' = outcomes s @ [if r \<noteq> None then ''failed'' else if pl_DryRun p then ''dry-run'' else ''succeeded'']"
proof -
  obtain n e s1 where d: "deletePass (logged_handler h) kept iu fresh prot cat p s = ((n, e), s1)" by (metis surj_pair)
  have "outcomes s1 = outcomes s" using d outcomes_delete_repos by (fastforce simp: deletePass_def)
  with assms d show ?thesis
    by (cases gc) (auto simp: finish_def Let_def split: option.splits if_splits prod.splits dest!: outcomes_lift_gc)
qed

lemma outcomes_reaches_delete: "reaches_delete h p s st s1 \<Longrightarrow> outcomes s1 = outcomes s"
  unfolding reaches_delete_def
  by (auto simp: Let_def dest!: outcomes_out outcomes_inUseSet outcomes_list_repos outcomes_classify_repos outcomes_tripwire split: if_splits)

text \<open>C18. Every run, however it ends, records exactly one outcome, which agrees with what it returns: \<^verbatim>\<open>succeeded\<close> or
  \<^verbatim>\<open>dry-run\<close> without an error, \<^verbatim>\<open>failed\<close> or \<^verbatim>\<open>aborted\<close> with one. An aborted run has deleted nothing.\<close>

theorem prune_one_outcome:
  assumes "h_BlobGC h = map_option Reclaim gc" and "Run (logged_handler h) decode args s = (r, s')"
  shows "\<exists>outcome. outcomes s' = outcomes s @ [outcome] \<and>
    (if r = None then outcome = (if map_option pl_DryRun (decode args) = Some True then ''dry-run'' else ''succeeded'')
     else outcome \<in> {''aborted'', ''failed''}) \<and>
    (outcome = ''aborted'' \<longrightarrow> log_of s' = log_of s)"
proof -
  have "\<exists>outcome. outcomes s' = outcomes s @ [outcome] \<and>
    (if r = None then outcome = (if map_option pl_DryRun (decode args) = Some True then ''dry-run'' else ''succeeded'')
     else outcome \<in> {''aborted'', ''failed''})"
    using assms
    by (auto simp: Run_def prune_from_set_def Let_def
        split: option.splits sum.splits prod.splits if_splits
        dest!: outcomes_out outcomes_inUseSet outcomes_classifyAll outcomes_tripwire outcomes_finish [OF assms(1)])
  then obtain outcome where o: "outcomes s' = outcomes s @ [outcome]"
    "if r = None then outcome = (if map_option pl_DryRun (decode args) = Some True then ''dry-run'' else ''succeeded'')
     else outcome \<in> {''aborted'', ''failed''}" by blast
  have "log_of s' = log_of s" if "outcome = ''aborted''"
    using Run_log [OF assms(2)]
  proof
    assume "\<exists>p st s1. decode args = Some p \<and> \<not> pl_DryRun p \<and> validatePolicy (pl_Policy p) = None \<and>
       reaches_delete (logged_handler h) p s st s1 \<and>
       finish (logged_handler h) (st_kept st) (st_inUse st) (st_fresh st) (st_protected st) (set (st_repos st)) p s1 = (r, s')"
    then obtain p st s1 where "reaches_delete (logged_handler h) p s st s1" and
      f: "finish (logged_handler h) (st_kept st) (st_inUse st) (st_fresh st) (st_protected st) (set (st_repos st)) p s1 = (r, s')"
      by blast
    then have "outcomes s1 = outcomes s" by (intro outcomes_reaches_delete)
    with outcomes_finish [OF assms(1) f] o(1) that show ?thesis by (auto split: if_splits)
  qed
  with o show ?thesis by blast
qed

theorem prune_one_outcome_witness:
  "fst (Run (logged_handler sample_handler) (\<lambda>_. Some sample_payload) '''' sample_start) = None \<and>
   outcomes (snd (Run (logged_handler sample_handler) (\<lambda>_. Some sample_payload) '''' sample_start)) = [''succeeded'']"
proof -
  let ?run = "Run (logged_handler sample_handler) (\<lambda>_. Some sample_payload) '''' sample_start"
  have r: "fst ?run = None"
    by (simp add: Run_def prune_from_set_def classifyAll_def finish_def deletePass_def delete_candidate_def backstop_def Let_def
        sample_run sample_classes sample_inUse sample_delete)
  have "h_BlobGC sample_handler = map_option Reclaim None" by (simp add: sample_handler_def)
  moreover obtain s' where run: "?run = (None, s')" using r by (metis prod.collapse)
  ultimately have "outcomes s' = outcomes sample_start @ [''succeeded'']"
    using prune_one_outcome [of sample_handler None "\<lambda>_. Some sample_payload" "''''" sample_start None s'] sample_run(11) by simp
  moreover have "outcomes sample_start = []" by (simp add: outcomes_def sample_start_def map_filter_def)
  ultimately show ?thesis using run by simp
qed

end
