(* ===== verification/Registry_Scheduler.thy ===== *)
theory Registry_Scheduler
  imports Job_Safety
begin

text \<open>
  \<^verbatim>\<open>internal/registryprune/scheduler.go\<close>: the ticker and the on-demand trigger that enqueue registry-prune
  jobs, in one transition system with the job machinery of \<^verbatim>\<open>Job_System\<close>. A caller is a tick or a
  \<^verbatim>\<open>POST /registry/prune\<close>; it takes the semaphore, scans, and enqueues in three steps between which
  anything else may run.
\<close>

subsection \<open>Scanning the job history\<close>

definition JobKind :: string where
  "JobKind = ''registry-prune''"

definition activeScanLimit :: int where
  "activeScanLimit = 500"

definition failureBackoff :: duration where
  "failureBackoff = hour"

text \<open>
  \<open>sc_Payload\<close> is the \<^verbatim>\<open>Payload\<close> function followed by \<^verbatim>\<open>json.Marshal\<close>: \<open>None\<close> when the function is nil, \<open>Some None\<close>
  when marshalling fails.
\<close>

record Scheduler =
  sc_Interval :: duration
  sc_Payload :: "string option option"

fun scan_loop :: "Job list \<Rightarrow> bool \<Rightarrow> time \<Rightarrow> time \<Rightarrow> bool \<times> time \<times> time" where
  "scan_loop [] inflight lastSuccess lastFailure = (inflight, lastSuccess, lastFailure)"
| "scan_loop (j # jobs) inflight lastSuccess lastFailure =
     (if Active (job_State j) then scan_loop jobs True lastSuccess lastFailure
      else if job_State j = JobSucceeded
      then scan_loop jobs inflight (if lastSuccess < job_Finished j then job_Finished j else lastSuccess) lastFailure
      else if job_State j = JobFailed \<or> job_State j = JobCanceled
      then scan_loop jobs inflight lastSuccess (if lastFailure < job_Finished j then job_Finished j else lastFailure)
      else scan_loop jobs inflight lastSuccess lastFailure)"

definition scanJobs :: "'s JobStore \<Rightarrow> 's \<Rightarrow> (bool \<times> time \<times> time) \<times> 's" where
  "scanJobs js s =
     (case js_ListJobs js (kind_filter JobKind activeScanLimit) s of
        (Inl _, s') \<Rightarrow> ((True, 0, 0), s')
      | (Inr jobs, s') \<Rightarrow> (scan_loop jobs False 0 0, s'))"

subsection \<open>Enqueueing\<close>

datatype sched_error = NotConfigured | CtxDone | RunInFlight | NotDue | MarshalFailed | EnqueueFailed store_error

text \<open>The backoff after a failure, unless a later run succeeded, and the interval after a success.\<close>

definition tick_due :: "Scheduler \<Rightarrow> time \<Rightarrow> time \<Rightarrow> time \<Rightarrow> bool" where
  "tick_due sc now lastSuccess lastFailure \<longleftrightarrow>
     \<not> (\<not> IsZero lastFailure \<and> time_Sub now lastFailure < failureBackoff \<and> (IsZero lastSuccess \<or> lastSuccess < lastFailure)) \<and>
     \<not> (\<not> IsZero lastSuccess \<and> time_Sub now lastSuccess < sc_Interval sc)"

text \<open>What a caller does with the semaphore held, up to the enqueue; only a tick looks at the clock.\<close>

definition scan_decide :: "Scheduler \<Rightarrow> 's JobStore \<Rightarrow> bool \<Rightarrow> time \<Rightarrow> 's \<Rightarrow> (sched_error + string) \<times> 's" where
  "scan_decide sc js on_demand now s =
     (case scanJobs js s of
        ((inflight, lastSuccess, lastFailure), s') \<Rightarrow>
          (if inflight then Inl RunInFlight
           else if \<not> on_demand \<and> \<not> tick_due sc now lastSuccess lastFailure then Inl NotDue
           else case sc_Payload sc of
             None \<Rightarrow> Inl NotConfigured
           | Some None \<Rightarrow> Inl MarshalFailed
           | Some (Some args) \<Rightarrow> Inr args, s'))"

definition enqueue_run :: "'s JobStore \<Rightarrow> string \<Rightarrow> time \<Rightarrow> (sched_error + string) \<times> 's \<Rightarrow> (sched_error + Job) \<times> 's" where
  "enqueue_run js i now d =
     (case d of
        (Inl e, s) \<Rightarrow> (Inl e, s)
      | (Inr args, s) \<Rightarrow>
          (case js_Enqueue js i now JobKind args '''' s of
             (Inl e, s') \<Rightarrow> (Inl (EnqueueFailed e), s')
           | (Inr job, s') \<Rightarrow> (Inr job, s')))"

text \<open>The two entry points when nothing else holds the semaphore; \<open>i\<close> is the id the store makes up.\<close>

definition EnqueueNow :: "Scheduler \<Rightarrow> 's JobStore \<Rightarrow> string \<Rightarrow> time \<Rightarrow> 's \<Rightarrow> (sched_error + Job) \<times> 's" where
  "EnqueueNow sc js i now s =
     (if sc_Payload sc = None then (Inl NotConfigured, s) else enqueue_run js i now (scan_decide sc js True now s))"

definition sched_tick :: "Scheduler \<Rightarrow> 's JobStore \<Rightarrow> string \<Rightarrow> time \<Rightarrow> 's \<Rightarrow> 's" where
  "sched_tick sc js i now s =
     (if sc_Interval sc \<le> 0 \<or> sc_Payload sc = None then s
      else snd (enqueue_run js i now (scan_decide sc js False now s)))"

subsection \<open>The scheduler among the other goroutines\<close>

text \<open>A caller by its program counter: before the semaphore, holding it, with the arguments of its job, or gone.\<close>

datatype caller = Waiting bool | Holding bool | Committed string | Gone

text \<open>
  \<open>ss_issued\<close> holds the ids of the registry-prune jobs so far. \<^verbatim>\<open>newJobID\<close> starts with the time in
  nanoseconds and the semaphore orders these calls, so each is above the ones before.
\<close>

record 's Sched =
  ss_daemon :: "'s Daemon"
  ss_callers :: "caller list"
  ss_sem :: "nat option"
  ss_issued :: "string list"

datatype slabel = SCall bool | SAcquire nat | SGiveUp nat | SScan nat time | SEnqueue nat string time | SDaemon label

fun other_kind :: "label \<Rightarrow> bool" where
  "other_kind (LEnqueue _ _ kind _ _) \<longleftrightarrow> kind \<noteq> JobKind"
| "other_kind (LStartChild _ _ _ kind _) \<longleftrightarrow> kind \<noteq> JobKind"
| "other_kind _ \<longleftrightarrow> True"

fun restarts :: "label \<Rightarrow> bool" where
  "restarts (LStart _) \<longleftrightarrow> True"
| "restarts _ \<longleftrightarrow> False"

definition caller_at :: "nat \<Rightarrow> 's Sched \<Rightarrow> caller option" where
  "caller_at k ss = (if k < length (ss_callers ss) then Some (ss_callers ss ! k) else None)"

definition set_caller :: "nat \<Rightarrow> caller \<Rightarrow> 's Sched \<Rightarrow> 's Sched" where
  "set_caller k c ss = ss\<lparr>ss_callers := (ss_callers ss)[k := c]\<rparr>"

definition release :: "nat \<Rightarrow> 's Sched \<Rightarrow> 's Sched" where
  "release k ss = set_caller k Gone (ss\<lparr>ss_sem := None\<rparr>)"

definition acquire :: "nat \<Rightarrow> 's Sched \<Rightarrow> 's Sched option" where
  "acquire k ss =
     (case caller_at k ss of
        Some (Waiting od) \<Rightarrow> if ss_sem ss = None then Some (set_caller k (Holding od) (ss\<lparr>ss_sem := Some k\<rparr>)) else None
      | _ \<Rightarrow> None)"

definition give_up :: "nat \<Rightarrow> 's Sched \<Rightarrow> 's Sched option" where
  "give_up k ss = (case caller_at k ss of Some (Waiting od) \<Rightarrow> Some (set_caller k Gone ss) | _ \<Rightarrow> None)"

definition with_store :: "'s \<Rightarrow> 's Sched \<Rightarrow> 's Sched" where
  "with_store s ss = ss\<lparr>ss_daemon := (ss_daemon ss)\<lparr>d_runner := (d_runner (ss_daemon ss))\<lparr>r_store := s\<rparr>\<rparr>\<rparr>"

definition call_scan :: "Scheduler \<Rightarrow> 's JobStore \<Rightarrow> nat \<Rightarrow> time \<Rightarrow> 's Sched \<Rightarrow> 's Sched option" where
  "call_scan sc js k now ss =
     (case caller_at k ss of
        Some (Holding od) \<Rightarrow>
          (case scan_decide sc js od now (r_store (d_runner (ss_daemon ss))) of
             (Inl _, s') \<Rightarrow> Some (release k (with_store s' ss))
           | (Inr args, s') \<Rightarrow> Some (set_caller k (Committed args) (with_store s' ss)))
      | _ \<Rightarrow> None)"

definition call_enqueue ::
  "(time \<Rightarrow> string) \<Rightarrow> 's JobStore \<Rightarrow> bool \<Rightarrow> nat \<Rightarrow> string \<Rightarrow> time \<Rightarrow> 's Sched \<Rightarrow> 's Sched option" where
  "call_enqueue fmt js canceller k i t ss =
     (case caller_at k ss of
        Some (Committed args) \<Rightarrow>
          if \<forall>u\<in>set (ss_issued ss). u < i
          then (case exec fmt js canceller (LEnqueue i t JobKind args '''') (ss_daemon ss) of
                  None \<Rightarrow> None
                | Some d \<Rightarrow> Some (release k (ss\<lparr>ss_daemon := d, ss_issued := i # ss_issued ss\<rparr>)))
          else None
      | _ \<Rightarrow> None)"

definition sched_exec ::
  "(time \<Rightarrow> string) \<Rightarrow> 's JobStore \<Rightarrow> bool \<Rightarrow> Scheduler \<Rightarrow> slabel \<Rightarrow> 's Sched \<Rightarrow> 's Sched option" where
  "sched_exec fmt js canceller sc a ss =
     (case a of
        SCall od \<Rightarrow>
          if sc_Payload sc = None \<or> \<not> od \<and> sc_Interval sc \<le> 0 then Some ss
          else Some (ss\<lparr>ss_callers := ss_callers ss @ [Waiting od]\<rparr>)
      | SAcquire k \<Rightarrow> acquire k ss
      | SGiveUp k \<Rightarrow> give_up k ss
      | SScan k t \<Rightarrow> call_scan sc js k t ss
      | SEnqueue k i t \<Rightarrow> call_enqueue fmt js canceller k i t ss
      | SDaemon b \<Rightarrow>
          if other_kind b
          then (case exec fmt js canceller b (ss_daemon ss) of
                  None \<Rightarrow> None
                | Some d \<Rightarrow>
                    Some (if restarts b then ss\<lparr>ss_daemon := d, ss_callers := [], ss_sem := None\<rparr> else ss\<lparr>ss_daemon := d\<rparr>))
          else None)"

inductive sched_reachable ::
  "(time \<Rightarrow> string) \<Rightarrow> 's JobStore \<Rightarrow> bool \<Rightarrow> Scheduler \<Rightarrow> 's Sched \<Rightarrow> 's Sched \<Rightarrow> bool"
  for fmt js canceller sc ss0 where
  sched_init: "sched_reachable fmt js canceller sc ss0 ss0"
| sched_step: "sched_reachable fmt js canceller sc ss0 ss \<Longrightarrow> sched_exec fmt js canceller sc a ss = Some ss' \<Longrightarrow>
    sched_reachable fmt js canceller sc ss0 ss'"

subsection \<open>At most one run\<close>

definition prune_job :: "jobmap \<Rightarrow> string \<Rightarrow> bool" where
  "prune_job m i \<longleftrightarrow> (\<exists>j. m i = Some j \<and> job_Kind j = JobKind)"

definition active_run :: "jobmap \<Rightarrow> string \<Rightarrow> bool" where
  "active_run m i \<longleftrightarrow> (\<exists>j. m i = Some j \<and> job_Kind j = JobKind \<and> Active (job_State j))"

lemma active_run_prune_job: "active_run m i \<Longrightarrow> prune_job m i"
  by (auto simp: active_run_def prune_job_def)

fun holds :: "caller \<Rightarrow> bool" where
  "holds (Holding _) \<longleftrightarrow> True"
| "holds (Committed _) \<longleftrightarrow> True"
| "holds _ \<longleftrightarrow> False"

text \<open>
  The callers agree with the semaphore; the ids of the runs are known; an active run has the newest of them;
  and while a caller is about to enqueue there is no active run.
\<close>

definition sched_inv :: "('s \<Rightarrow> bool) \<Rightarrow> ('s \<Rightarrow> jobmap) \<Rightarrow> 's Sched \<Rightarrow> bool" where
  "sched_inv invar jobs_of ss \<longleftrightarrow>
     daemon_inv invar jobs_of (ss_daemon ss) \<and>
     (\<forall>k<length (ss_callers ss). holds (ss_callers ss ! k) \<longrightarrow> ss_sem ss = Some k) \<and>
     (\<forall>i. prune_job (d_jobs jobs_of (ss_daemon ss)) i \<longrightarrow> i \<in> set (ss_issued ss)) \<and>
     (\<forall>i. active_run (d_jobs jobs_of (ss_daemon ss)) i \<longrightarrow> (\<forall>u\<in>set (ss_issued ss). u \<le> i)) \<and>
     (\<forall>args i. Committed args \<in> set (ss_callers ss) \<longrightarrow> \<not> active_run (d_jobs jobs_of (ss_daemon ss)) i)"

text \<open>The jobs of this kind only lose activity.\<close>

definition runs_shrink :: "jobmap \<Rightarrow> jobmap \<Rightarrow> bool" where
  "runs_shrink m m' \<longleftrightarrow> (\<forall>i. (prune_job m' i \<longrightarrow> prune_job m i) \<and> (active_run m' i \<longrightarrow> active_run m i))"

lemma Active_next: "st' \<in> next_states st \<Longrightarrow> Active st' \<Longrightarrow> Active st"
  by (cases st) (auto simp: Active_def)

lemma job_evolves_shrink:
  "job_evolves j j' \<Longrightarrow> job_Kind j' = job_Kind j \<and> (Active (job_State j') \<longrightarrow> Active (job_State j))"
  by (auto simp: job_evolves_def intro: Active_next)

lemma evolve_shrink:
  assumes "evolve used F m m'" and new: "\<And>i j. m i = None \<Longrightarrow> m' i = Some j \<Longrightarrow> job_Kind j \<noteq> JobKind"
  shows "runs_shrink m m'"
proof -
  have "\<exists>j. m i = Some j \<and> job_evolves j j'" if "m' i = Some j'" "job_Kind j' = JobKind" for i j'
  proof (cases "m i")
    case (Some j)
    moreover from assms(1) have "slot_evolves (i \<in> used) (i \<in> F) (m i) (m' i)" by (simp add: evolve_def)
    ultimately show ?thesis using that by simp
  qed (use new that in auto)
  then show ?thesis
    unfolding runs_shrink_def prune_job_def active_run_def by (metis job_evolves_shrink)
qed

lemma boot_shrink: "boot_evolves m m' \<Longrightarrow> runs_shrink m m'"
proof -
  assume boot: "boot_evolves m m'"
  have "\<exists>j. m i = Some j \<and> job_Kind j = job_Kind j' \<and> (Active (job_State j') \<longrightarrow> Active (job_State j))" if "m' i = Some j'" for i j'
  proof -
    have "dom m' = dom m" using boot by (simp add: boot_evolves_def)
    with that obtain j where j: "m i = Some j" by blast
    with boot that have "job_Kind j' = job_Kind j" "job_State j \<noteq> JobRunning \<longrightarrow> j' = j" by (auto simp: boot_evolves_def)
    with j show ?thesis by (cases "job_State j = JobRunning") (auto simp: Active_def)
  qed
  then show ?thesis unfolding runs_shrink_def prune_job_def active_run_def by metis
qed

lemma sched_inv_shrink:
  assumes "sched_inv invar jobs_of ss" and "daemon_inv invar jobs_of d"
    and "runs_shrink (d_jobs jobs_of (ss_daemon ss)) (d_jobs jobs_of d)"
  shows "sched_inv invar jobs_of (ss\<lparr>ss_daemon := d\<rparr>)"
  using assms unfolding sched_inv_def runs_shrink_def by (simp, blast)

lemma scan_loop_inflight: "fst (scan_loop jobs b ls lf) \<longleftrightarrow> b \<or> (\<exists>j\<in>set jobs. Active (job_State j))"
  by (induction jobs arbitrary: b ls lf) auto

text \<open>What a scan sees.\<close>

abbreviation recent :: "jobmap \<Rightarrow> Job set" where
  "recent \<equiv> newest activeScanLimit JobKind"

lemma scan_sees_recent: "list_spec (kind_filter JobKind activeScanLimit) m xs \<Longrightarrow> set xs = recent m"
  by (rule list_newest) (simp_all add: JobKind_def activeScanLimit_def MaxJobLimit_def)

lemma daemon_step_used:
  assumes "daemon_step fmt js canceller a d = Some d'"
  shows "d_used d' = d_used d \<or> (\<exists>i t kind args parent. a = LEnqueue i t kind args parent) \<or>
    (\<exists>w i t kind args. a = LStartChild w i t kind args)"
  using assms by (cases a) (auto simp: daemon_step_def Let_def on_runner_def split: option.splits if_splits)

context job_store
begin

lemma scan_decide_ok:
  assumes "invar s" and "scan_decide sc js od now s = (r, s')"
    and newest: "\<forall>i i'. active_run (jobs_of s) i \<longrightarrow> prune_job (jobs_of s) i' \<longrightarrow> i' \<le> i"
  shows "invar s'" "jobs_of s' = jobs_of s" "r = Inr args \<Longrightarrow> \<not> active_run (jobs_of s) i"
proof -
  obtain x s1 where l: "js_ListJobs js (kind_filter JobKind activeScanLimit) s = (x, s1)" by fastforce
  have s1: "s' = s1" using assms(2) l by (auto simp: scan_decide_def scanJobs_def split: sum.splits prod.splits)
  have ok: "op_ok invar jobs_of s is_driver (\<lambda>xs m'. m' = jobs_of s \<and> list_spec (kind_filter JobKind activeScanLimit) (jobs_of s) xs) (x, s1)"
    using list_jobs [OF assms(1), of "kind_filter JobKind activeScanLimit"] l by simp
  then show "invar s'" "jobs_of s' = jobs_of s" using s1 by (auto simp: op_ok_def split: sum.splits)
  show "\<not> active_run (jobs_of s) i" if r: "r = Inr args"
  proof
    assume act: "active_run (jobs_of s) i"
    then obtain j where j: "jobs_of s i = Some j" "job_Kind j = JobKind" "Active (job_State j)" by (auto simp: active_run_def)
    from assms(2) l r obtain xs where xs: "x = Inr xs" "\<not> fst (scan_loop xs False 0 0)"
      by (auto simp: scan_decide_def scanJobs_def split: sum.splits prod.splits if_splits)
    have "job_ID j' \<le> job_ID j" if "j' \<in> ran (jobs_of s)" "job_Kind j' = JobKind" for j'
    proof -
      from that(1) obtain i' where i': "jobs_of s i' = Some j'" by (auto simp: ran_def)
      then have "i' \<le> i" using newest act that(2) by (auto simp: prune_job_def)
      then show ?thesis using ids [OF assms(1) i'] ids [OF assms(1) j(1)] by simp
    qed
    then have "j \<in> recent (jobs_of s)"
      using j(1,2) by (intro newest_top) (auto simp: ran_def activeScanLimit_def)
    moreover have "list_spec (kind_filter JobKind activeScanLimit) (jobs_of s) xs" using ok xs(1) by (simp add: op_ok_def)
    ultimately have "j \<in> set xs" using scan_sees_recent by blast
    with xs(2) j(3) show False by (auto simp: scan_loop_inflight)
  qed
qed

lemma exec_enqueue:
  assumes "daemon_inv invar jobs_of d" "exec fmt js canceller (LEnqueue n now kind args parent) d = Some d'"
  shows "d_jobs jobs_of d' = d_jobs jobs_of d \<or> d_jobs jobs_of d' = (d_jobs jobs_of d)(n \<mapsto> queued_job n now kind args parent)"
proof -
  from assms(2) have now: "0 < now" "d_clock d \<le> now" and fresh: "n \<notin> set (d_used d)"
    and d': "d_runner d' = (d_runner d)\<lparr>r_store := snd (js_Enqueue js n now kind args parent (r_store (d_runner d)))\<rparr>"
    by (auto simp: exec_def tick_def daemon_step_def Let_def split: option.splits if_splits)
  from assms(1) have i: "invar (r_store (d_runner d))" and dom: "dom (d_jobs jobs_of d) \<subseteq> set (d_used d)"
    and clock: "\<forall>j\<in>ran (d_jobs jobs_of d). job_Created j \<le> d_clock d"
    by (simp_all add: daemon_inv_def)
  from fresh dom have "d_jobs jobs_of d n = None" by auto
  from enqueue_step [OF i now(1) this, of kind args parent] clock now(2) show ?thesis by (force simp: d')
qed

text \<open>What is new after a step of the daemon is what its label says.\<close>

lemma exec_shrink:
  assumes "daemon_inv invar jobs_of d" "exec fmt js canceller a d = Some d'" "other_kind a"
  shows "runs_shrink (d_jobs jobs_of d) (d_jobs jobs_of d')"
proof -
  note inv' = exec_inv [OF assms(1,2)]
  from assms(2) obtain d1 where tk: "tick a d = Some d1" and step: "daemon_step fmt js canceller a d1 = Some d'"
    by (auto simp: exec_def split: option.splits)
  from tk have eq: "d_runner d1 = d_runner d" "d_used d1 = d_used d" "d_clock d \<le> d_clock d1"
    and t: "\<And>t. label_time a = Some t \<Longrightarrow> 0 < t \<and> d_clock d1 = t"
    by (auto elim: tick_Some)
  from assms(1) have i: "invar (r_store (d_runner d))" and dom: "dom (d_jobs jobs_of d) \<subseteq> set (d_used d)"
    and own: "own_ok (d_jobs jobs_of d) (d_pcs d)" and clock: "\<forall>j\<in>ran (d_jobs jobs_of d). job_Created j \<le> d_clock d"
    by (simp_all add: daemon_inv_def)
  have new: "job_Kind j \<noteq> JobKind" if none: "d_jobs jobs_of d k = None" and some: "d_jobs jobs_of d' k = Some j"
    and ev: "evolve (set (d_used d)) (d_owned d) (d_jobs jobs_of d) (d_jobs jobs_of d')" for k j
    using daemon_step_used [OF step]
  proof (elim disjE exE)
    assume "d_used d' = d_used d1"
    with inv' eq some have "k \<in> set (d_used d)" by (auto simp: daemon_inv_def)
    moreover have "slot_evolves (k \<in> set (d_used d)) (k \<in> d_owned d) (d_jobs jobs_of d k) (d_jobs jobs_of d' k)"
      using ev by (simp add: evolve_def)
    ultimately show ?thesis using none some by simp
  next
    fix n now kind args parent
    assume LEnqueue: "a = LEnqueue n now kind args parent"
    with exec_enqueue [of d] assms none some show ?thesis by (fastforce split: if_splits)
  next
    fix w n now kind args
    assume LStartChild: "a = LStartChild w n now kind args"
    with step obtain r' where fresh: "n \<notin> set (d_used d)" and d': "d_runner d' = r'"
      and child: "Job_System.start_child js w n now kind args (d_runner d) = Some r'"
      using eq by (auto simp: daemon_step_def Let_def on_runner_def split: if_splits)
    from fresh dom have n: "d_jobs jobs_of d n = None" by auto
    have "jobs_of (r_store r') = d_jobs jobs_of d \<or> (\<exists>j. job_Kind j = kind \<and> jobs_of (r_store r') = (d_jobs jobs_of d)(n \<mapsto> j))"
      using start_child_move [OF i own _ n fresh _ child] t clock eq LStartChild by force
    with none some assms(3) LStartChild d' show ?thesis by (auto split: if_splits)
  qed
  from exec_effect [OF assms(1,2)] show ?thesis
  proof (elim conjE disjE)
    assume ev: "evolve (set (d_used d)) (d_owned d) (d_jobs jobs_of d) (d_jobs jobs_of d')"
    show ?thesis by (rule evolve_shrink [OF ev new [OF _ _ ev]])
  qed (auto intro: boot_shrink)
qed

end

lemma holds_update:
  assumes "\<forall>k<length cs. holds (cs ! k) \<longrightarrow> sem = Some k" and "k < length cs"
    and "holds c \<longrightarrow> sem' = Some k" and "\<And>k'. k' \<noteq> k \<Longrightarrow> sem = Some k' \<Longrightarrow> sem' = Some k'"
  shows "\<forall>k'<length (cs[k := c]). holds (cs[k := c] ! k') \<longrightarrow> sem' = Some k'"
  using assms by (auto simp: nth_list_update)

lemma Committed_update: "Committed args \<in> set (cs[k := c]) \<Longrightarrow> Committed args \<in> set cs \<or> c = Committed args"
  using set_update_subset_insert [of cs k c] by auto

context job_store
begin

lemma sched_exec_inv:
  assumes inv: "sched_inv invar jobs_of ss" and step: "sched_exec fmt js canceller sc a ss = Some ss'"
  shows "sched_inv invar jobs_of ss'"
proof -
  let ?d = "ss_daemon ss" and ?m = "d_jobs jobs_of (ss_daemon ss)" and ?cs = "ss_callers ss"
  from inv have d: "daemon_inv invar jobs_of ?d" and sem: "\<forall>k<length ?cs. holds (?cs ! k) \<longrightarrow> ss_sem ss = Some k"
    and iss: "\<And>i. prune_job ?m i \<Longrightarrow> i \<in> set (ss_issued ss)"
    and newest: "\<And>i u. active_run ?m i \<Longrightarrow> u \<in> set (ss_issued ss) \<Longrightarrow> u \<le> i"
    and com: "\<And>args i. Committed args \<in> set ?cs \<Longrightarrow> \<not> active_run ?m i"
    by (auto simp: sched_inv_def)
  from d have i: "invar (r_store (d_runner ?d))" by (simp add: daemon_inv_def)
  show ?thesis
  proof (cases a)
    case (SCall od)
    with step inv show ?thesis
      by (auto simp: sched_exec_def sched_inv_def nth_append less_Suc_eq split: if_splits)
  next
    case (SAcquire k)
    with step obtain od where k: "k < length ?cs" "ss_sem ss = None"
      and ss': "ss' = ss\<lparr>ss_sem := Some k, ss_callers := ?cs[k := Holding od]\<rparr>"
      by (auto simp: sched_exec_def acquire_def caller_at_def set_caller_def split: caller.splits if_splits)
    from holds_update [OF sem k(1), of "Holding od" "Some k"] k(2)
    have "\<forall>k'<length (?cs[k := Holding od]). holds (?cs[k := Holding od] ! k') \<longrightarrow> Some k = Some k'" by simp
    with inv show ?thesis by (auto simp: ss' sched_inv_def dest: Committed_update)
  next
    case (SGiveUp k)
    with step have k: "k < length ?cs" and ss': "ss' = ss\<lparr>ss_callers := ?cs[k := Gone]\<rparr>"
      by (auto simp: sched_exec_def give_up_def caller_at_def set_caller_def split: caller.splits if_splits)
    from holds_update [OF sem k, of Gone "ss_sem ss"] inv show ?thesis
      by (auto simp: ss' sched_inv_def dest: Committed_update)
  next
    case (SScan k now)
    with step obtain od r s' where k: "k < length ?cs" "?cs ! k = Holding od"
      and dec: "scan_decide sc js od now (r_store (d_runner ?d)) = (r, s')"
      and ss': "ss' = (case r of Inl _ \<Rightarrow> release k (with_store s' ss) | Inr args \<Rightarrow> set_caller k (Committed args) (with_store s' ss))"
      by (auto simp: sched_exec_def call_scan_def caller_at_def split: caller.splits if_splits prod.splits sum.splits)
    have "\<forall>i i'. active_run ?m i \<longrightarrow> prune_job ?m i' \<longrightarrow> i' \<le> i" using newest iss by blast
    note ok = scan_decide_ok [OF i dec this]
    have hold: "ss_sem ss = Some k" using sem k by simp
    have d': "daemon_inv invar jobs_of (ss_daemon (with_store s' ss))" "d_jobs jobs_of (ss_daemon (with_store s' ss)) = ?m"
      using d ok(1,2) by (simp_all add: with_store_def daemon_inv_def)
    show ?thesis
    proof (cases r)
      case (Inl e)
      with ss' have ss': "ss' = release k (with_store s' ss)" by simp
      from holds_update [OF sem k(1), of Gone None] hold
      have "\<forall>k'<length (?cs[k := Gone]). holds (?cs[k := Gone] ! k') \<longrightarrow> None = Some k'" by simp
      with inv d' show ?thesis
        by (auto simp: ss' release_def set_caller_def with_store_def sched_inv_def dest: Committed_update)
    next
      case (Inr args)
      with ss' have ss': "ss' = set_caller k (Committed args) (with_store s' ss)" by simp
      have none: "\<not> active_run ?m i" for i by (rule ok(3) [OF Inr])
      from holds_update [OF sem k(1), of "Committed args" "ss_sem ss"] hold
      have "\<forall>k'<length (?cs[k := Committed args]). holds (?cs[k := Committed args] ! k') \<longrightarrow> ss_sem ss = Some k'" by simp
      with inv d' none show ?thesis
        by (auto simp: ss' set_caller_def with_store_def sched_inv_def)
    qed
  next
    case (SEnqueue k n now)
    with step obtain args d1 where k: "k < length ?cs" "?cs ! k = Committed args" and n: "\<forall>u\<in>set (ss_issued ss). u < n"
      and ex: "exec fmt js canceller (LEnqueue n now JobKind args '''') ?d = Some d1"
      and ss': "ss' = release k (ss\<lparr>ss_daemon := d1, ss_issued := n # ss_issued ss\<rparr>)"
      by (auto simp: sched_exec_def call_enqueue_def caller_at_def split: caller.splits if_splits option.splits)
    have hold: "ss_sem ss = Some k" using sem k by simp
    have none: "\<not> active_run ?m i" for i using com k by (metis nth_mem)
    have d1: "d_jobs jobs_of d1 = ?m \<or> d_jobs jobs_of d1 = ?m(n \<mapsto> queued_job n now JobKind args '''')"
      using exec_enqueue [OF d ex] .
    have "prune_job (d_jobs jobs_of d1) i \<Longrightarrow> i = n \<or> prune_job ?m i" "active_run (d_jobs jobs_of d1) i \<Longrightarrow> i = n" for i
      using d1 none by (auto simp: prune_job_def active_run_def split: if_splits)
    moreover from holds_update [OF sem k(1), of Gone None] hold
    have "\<forall>k'<length (?cs[k := Gone]). \<not> holds (?cs[k := Gone] ! k')" by simp
    then have "Committed args' \<notin> set (?cs[k := Gone])" for args' by (metis holds.simps(2) in_set_conv_nth)
    ultimately show ?thesis
      using exec_inv [OF d ex] iss n
        \<open>\<forall>k'<length (?cs[k := Gone]). \<not> holds (?cs[k := Gone] ! k')\<close>
      by (auto simp: ss' release_def set_caller_def sched_inv_def order.strict_implies_order)
  next
    case (SDaemon b)
    with step obtain d1 where b: "other_kind b" and ex: "exec fmt js canceller b ?d = Some d1"
      and ss': "ss' = (if restarts b then ss\<lparr>ss_daemon := d1, ss_callers := [], ss_sem := None\<rparr> else ss\<lparr>ss_daemon := d1\<rparr>)"
      by (auto simp: sched_exec_def split: if_splits option.splits)
    from sched_inv_shrink [OF inv exec_inv [OF d ex] exec_shrink [OF d ex b]] show ?thesis
      by (auto simp: ss' sched_inv_def)
  qed
qed

lemma sched_reachable_inv:
  assumes "sched_reachable fmt js canceller sc ss0 ss" "sched_inv invar jobs_of ss0"
  shows "sched_inv invar jobs_of ss"
  using assms by induction (auto intro: sched_exec_inv)

lemma one_active_run:
  assumes "sched_inv invar jobs_of ss" "active_run (d_jobs jobs_of (ss_daemon ss)) i" "active_run (d_jobs jobs_of (ss_daemon ss)) i'"
  shows "i = i'"
proof -
  from assms have "i \<in> set (ss_issued ss)" "i' \<in> set (ss_issued ss)"
    by (auto simp: sched_inv_def dest: active_run_prune_job)
  with assms have "i \<le> i'" "i' \<le> i" by (auto simp: sched_inv_def)
  then show ?thesis by simp
qed

end

fun sched_execs ::
  "(time \<Rightarrow> string) \<Rightarrow> 's JobStore \<Rightarrow> bool \<Rightarrow> Scheduler \<Rightarrow> slabel list \<Rightarrow> 's Sched \<Rightarrow> 's Sched option" where
  "sched_execs fmt js canceller sc [] ss = Some ss"
| "sched_execs fmt js canceller sc (a # as) ss =
     (case sched_exec fmt js canceller sc a ss of None \<Rightarrow> None | Some ss' \<Rightarrow> sched_execs fmt js canceller sc as ss')"

lemma sched_execs_reachable:
  "sched_execs fmt js canceller sc as ss = Some ss' \<Longrightarrow> sched_reachable fmt js canceller sc ss0 ss \<Longrightarrow>
   sched_reachable fmt js canceller sc ss0 ss'"
  by (induction as arbitrary: ss) (auto split: option.splits intro: sched_reachable.sched_step)

definition sched_initial :: "('s \<Rightarrow> bool) \<Rightarrow> ('s \<Rightarrow> jobmap) \<Rightarrow> 's Sched \<Rightarrow> bool" where
  "sched_initial invar jobs_of ss \<longleftrightarrow>
     initial invar jobs_of (ss_daemon ss) \<and> ss_callers ss = [] \<and>
     (\<forall>i. prune_job (d_jobs jobs_of (ss_daemon ss)) i \<longrightarrow> i \<in> set (ss_issued ss)) \<and>
     (\<forall>i. \<not> active_run (d_jobs jobs_of (ss_daemon ss)) i)"

lemma sched_initial_inv: "sched_initial invar jobs_of ss \<Longrightarrow> sched_inv invar jobs_of ss"
  by (auto simp: sched_initial_def sched_inv_def dest: initial_inv)

text \<open>C12. However ticks, on-demand requests, workers, cancel requests and restarts interleave, at most one
  registry-prune job is ever queued, running or reconciling. The scan need not see the whole history for it: an active run
  is the newest job of its kind.\<close>

theorem sqlite_one_prune_run:
  assumes "sched_initial sql_invar sql_jobs_of ss0" and "sched_reachable fmt SQLiteJobs canceller sc ss0 ss"
    and "active_run (sql_jobs_of (r_store (d_runner (ss_daemon ss)))) i"
    and "active_run (sql_jobs_of (r_store (d_runner (ss_daemon ss)))) i'"
  shows "i = i'"
  using sql.one_active_run [OF sql.sched_reachable_inv [OF assms(2) sched_initial_inv [OF assms(1)]] assms(3,4)] .

definition sample_sched :: "SQLite Sched" where
  "sample_sched = \<lparr>ss_daemon = sample_daemon, ss_callers = [], ss_sem = None, ss_issued = []\<rparr>"

definition sample_scheduler :: Scheduler where
  "sample_scheduler = \<lparr>sc_Interval = 24 * hour, sc_Payload = Some (Some ''{}'')\<rparr>"

text \<open>A request and a tick at the same time.\<close>

definition sample_race :: "slabel list" where
  "sample_race =
     [SDaemon (LStart 10), SCall True, SCall False, SAcquire 0, SScan 0 11, SEnqueue 0 ''0a'' 12, SAcquire 1, SScan 1 13]"

theorem sqlite_one_prune_run_witness:
  "\<exists>ss. sched_reachable (\<lambda>_. []) SQLiteJobs True sample_scheduler sample_sched ss \<and> ss_callers ss = [Gone, Gone] \<and>
     active_run (sql_jobs_of (r_store (d_runner (ss_daemon ss)))) ''0a'' \<and>
     (\<forall>i. active_run (sql_jobs_of (r_store (d_runner (ss_daemon ss)))) i \<longrightarrow> i = ''0a'')"
proof -
  let ?f = "\<lambda>ss. (ss_callers ss, map_option (\<lambda>j. (job_Kind j, job_State j)) (sql_jobs_of (r_store (d_runner (ss_daemon ss))) ''0a''))"
  have "map_option ?f (sched_execs (\<lambda>_. []) SQLiteJobs True sample_scheduler sample_race sample_sched) =
      Some ([Gone, Gone], Some (JobKind, JobQueued))"
    by code_simp
  then obtain ss where ex: "sched_execs (\<lambda>_. []) SQLiteJobs True sample_scheduler sample_race sample_sched = Some ss"
    and f: "?f ss = ([Gone, Gone], Some (JobKind, JobQueued))" by auto
  from f have a: "active_run (sql_jobs_of (r_store (d_runner (ss_daemon ss)))) ''0a''"
    by (auto simp: active_run_def Active_def)
  have init: "sched_initial sql_invar sql_jobs_of sample_sched"
    using sample_initial
    by (auto simp: sched_initial_def sample_sched_def prune_job_def active_run_def sample_daemon_def NewRunner_def SetReconcilers_def
        SetVolumeTransferPool_def VolumeTransferKinds_def empty_db_def sql_jobs_of_def)
  have r: "sched_reachable (\<lambda>_. []) SQLiteJobs True sample_scheduler sample_sched ss"
    by (rule sched_execs_reachable [OF ex sched_init])
  have "\<forall>i. active_run (sql_jobs_of (r_store (d_runner (ss_daemon ss)))) i \<longrightarrow> i = ''0a''"
    using sqlite_one_prune_run [OF init r _ a] by (intro allI impI)
  moreover have "ss_callers ss = [Gone, Gone]" using f by simp
  ultimately show ?thesis using r a by (intro exI [of _ ss] conjI)
qed

subsection \<open>When a tick enqueues\<close>

lemma scan_loop_latest:
  assumes "scan_loop xs b ls lf = (b', ls', lf')"
  shows "ls \<le> ls' \<and> lf \<le> lf' \<and> (\<forall>j\<in>set xs. job_State j = JobSucceeded \<longrightarrow> job_Finished j \<le> ls') \<and>
    (\<forall>j\<in>set xs. job_State j \<in> {JobFailed, JobCanceled} \<longrightarrow> job_Finished j \<le> lf') \<and>
    (ls' = ls \<or> (\<exists>j\<in>set xs. job_State j = JobSucceeded \<and> job_Finished j = ls')) \<and>
    (lf' = lf \<or> (\<exists>j\<in>set xs. job_State j \<in> {JobFailed, JobCanceled} \<and> job_Finished j = lf'))"
  using assms
proof (induction xs arbitrary: b ls lf)
  case (Cons j xs)
  consider "Active (job_State j)" | "job_State j = JobSucceeded" | "job_State j \<in> {JobFailed, JobCanceled}"
    by (cases "job_State j") (auto simp: Active_def)
  then show ?case
  proof cases
    case 1
    with Cons.prems Cons.IH [of True ls lf] show ?thesis by (auto simp: Active_def)
  next
    case 2
    with Cons.prems Cons.IH [of b "max ls (job_Finished j)" lf] show ?thesis by (auto simp: Active_def max_def split: if_splits)
  next
    case 3
    with Cons.prems Cons.IH [of b ls "max lf (job_Finished j)"] show ?thesis by (auto simp: Active_def max_def split: if_splits)
  qed
qed auto

lemma time_Sub_anti: "u \<le> v \<Longrightarrow> time_Sub now v \<le> time_Sub now u"
  by (auto simp: time_Sub_def)

definition tick_allowed :: "Scheduler \<Rightarrow> time \<Rightarrow> Job set \<Rightarrow> bool" where
  "tick_allowed sc now history \<longleftrightarrow>
     (\<forall>j\<in>history. \<not> Active (job_State j) \<and>
        (job_State j = JobSucceeded \<and> 0 < job_Finished j \<longrightarrow> sc_Interval sc \<le> time_Sub now (job_Finished j)) \<and>
        (job_State j \<in> {JobFailed, JobCanceled} \<and> 0 < job_Finished j \<and>
           (\<forall>j'\<in>history. job_State j' = JobSucceeded \<longrightarrow> job_Finished j' < job_Finished j) \<longrightarrow>
           failureBackoff \<le> time_Sub now (job_Finished j)))"

lemma tick_due_allowed:
  assumes "scan_loop xs False 0 0 = (False, ls, lf)" and "tick_due sc now ls lf"
  shows "tick_allowed sc now (set xs)"
  unfolding tick_allowed_def
proof (intro ballI conjI impI)
  fix j
  assume j: "j \<in> set xs"
  note latest = scan_loop_latest [OF assms(1)]
  show "\<not> Active (job_State j)" using scan_loop_inflight [of xs False 0 0] assms(1) j by auto
  show "sc_Interval sc \<le> time_Sub now (job_Finished j)" if "job_State j = JobSucceeded \<and> 0 < job_Finished j"
  proof -
    have "job_Finished j \<le> ls" using latest j that by simp
    with that assms(2) time_Sub_anti [of "job_Finished j" ls now] show ?thesis by (auto simp: tick_due_def IsZero_def)
  qed
  show "failureBackoff \<le> time_Sub now (job_Finished j)"
    if f: "job_State j \<in> {JobFailed, JobCanceled} \<and> 0 < job_Finished j \<and>
      (\<forall>j'\<in>set xs. job_State j' = JobSucceeded \<longrightarrow> job_Finished j' < job_Finished j)"
  proof -
    have lf: "job_Finished j \<le> lf" using latest j f by blast
    moreover have "ls = 0 \<or> ls < job_Finished j" using latest f by blast
    ultimately show ?thesis
      using f assms(2) time_Sub_anti [OF lf, of now] by (auto simp: tick_due_def IsZero_def)
  qed
qed

context job_store
begin

lemma tick_gates:
  assumes "invar s" "jobs_of s i = None" "0 < now" "\<And>j. j \<in> ran (jobs_of s) \<Longrightarrow> job_Created j \<le> now"
    and "jobs_of (sched_tick sc js i now s) \<noteq> jobs_of s"
  shows "(\<exists>args. sc_Payload sc = Some (Some args) \<and>
      jobs_of (sched_tick sc js i now s) = (jobs_of s)(i \<mapsto> queued_job i now JobKind args '''')) \<and>
    0 < sc_Interval sc \<and> tick_allowed sc now (recent (jobs_of s))"
proof -
  obtain x s1 where l: "js_ListJobs js (kind_filter JobKind activeScanLimit) s = (x, s1)" by fastforce
  have ok: "op_ok invar jobs_of s is_driver (\<lambda>xs m'. m' = jobs_of s \<and> list_spec (kind_filter JobKind activeScanLimit) (jobs_of s) xs) (x, s1)"
    using list_jobs [OF assms(1), of "kind_filter JobKind activeScanLimit"] l by simp
  then have s1: "invar s1" "jobs_of s1 = jobs_of s" by (auto simp: op_ok_def split: sum.splits)
  obtain r s2 where d: "scan_decide sc js False now s = (r, s2)" by fastforce
  have "s2 = s1" using d l by (auto simp: scan_decide_def scanJobs_def split: sum.splits prod.splits)
  from assms(5) d s1 \<open>s2 = s1\<close> obtain args where r: "r = Inr args" and int: "0 < sc_Interval sc"
    by (cases r) (auto simp: sched_tick_def enqueue_run_def split: if_splits)
  from d r l obtain xs ls lf where xs: "x = Inr xs" "scan_loop xs False 0 0 = (False, ls, lf)" "tick_due sc now ls lf"
    and args: "sc_Payload sc = Some (Some args)"
    by (auto simp: scan_decide_def scanJobs_def split: sum.splits prod.splits if_splits option.splits)
  have "set xs = recent (jobs_of s)" using scan_sees_recent ok xs(1) by (auto simp: op_ok_def)
  with tick_due_allowed [OF xs(2,3)] have "tick_allowed sc now (recent (jobs_of s))" by simp
  moreover have "sched_tick sc js i now s = snd (js_Enqueue js i now JobKind args '''' s1)"
    using d r int args \<open>s2 = s1\<close> by (auto simp: sched_tick_def enqueue_run_def split: prod.splits sum.splits)
  then have "jobs_of (sched_tick sc js i now s) = (jobs_of s)(i \<mapsto> queued_job i now JobKind args '''')"
    using enqueue_step [OF s1(1) assms(3), of i JobKind args "''''"] s1(2) assms(2,4,5) by auto
  ultimately show ?thesis using args int by blast
qed

end

text \<open>C20. A tick that enqueues adds one queued job, with an interval configured, and only when among the runs it
  looks at none is active, every success is at least the interval ago, and every failed or cancelled run that no
  success followed is at least the backoff ago.\<close>

theorem sqlite_tick_gates:
  assumes "sql_invar s" and "sql_jobs_of s i = None" and "0 < now" and "\<forall>j\<in>ran (sql_jobs_of s). job_Created j \<le> now"
    and "sql_jobs_of (sched_tick sc SQLiteJobs i now s) \<noteq> sql_jobs_of s"
  shows "(\<exists>args. sc_Payload sc = Some (Some args) \<and>
      sql_jobs_of (sched_tick sc SQLiteJobs i now s) = (sql_jobs_of s)(i \<mapsto> queued_job i now JobKind args '''')) \<and>
    0 < sc_Interval sc \<and> tick_allowed sc now (recent (sql_jobs_of s))"
  by (rule sql.tick_gates) (use assms in auto)

theorem sqlite_tick_gates_witness:
  "sql_jobs_of (sched_tick sample_scheduler SQLiteJobs ''0a'' 12 empty_db) ''0a'' = Some (queued_job ''0a'' 12 JobKind ''{}'' '''') \<and>
   tick_allowed sample_scheduler 12 (recent (sql_jobs_of empty_db))"
proof -
  have inv: "sql_invar empty_db" and none: "sql_jobs_of empty_db = Map.empty"
    by (simp_all add: empty_db_def sql_invar_def sql_jobs_of_def)
  have q: "map_option job_Kind (sql_jobs_of (sched_tick sample_scheduler SQLiteJobs ''0a'' 12 empty_db) ''0a'') = Some JobKind"
    by code_simp
  then have "sql_jobs_of (sched_tick sample_scheduler SQLiteJobs ''0a'' 12 empty_db) \<noteq> sql_jobs_of empty_db"
    using none by auto
  from sqlite_tick_gates [OF inv _ _ _ this] none obtain args where
    "sc_Payload sample_scheduler = Some (Some args)"
    "sql_jobs_of (sched_tick sample_scheduler SQLiteJobs ''0a'' 12 empty_db) = [''0a'' \<mapsto> queued_job ''0a'' 12 JobKind args '''']"
    "tick_allowed sample_scheduler 12 (recent (sql_jobs_of empty_db))"
    by auto
  then show ?thesis by (simp add: sample_scheduler_def)
qed

end
