(* ===== verification/Host_Prune.thy ===== *)
theory Host_Prune
  imports Registry_Client Sqlite_Jobs "HOL-Library.Sublist"
begin

text \<open>
  \<^verbatim>\<open>internal/prune\<close> and the policy wiring of \<^verbatim>\<open>server/server.go\<close>: the policy of a host, the job that removes unused
  resources from it, and the scheduler that enqueues those jobs. Podman and the job store are part of one
  outside world, so anything may happen in the store while a podman call runs.
\<close>

subsection \<open>Policies\<close>

definition ScopeDangling :: string where
  "ScopeDangling = ''dangling''"

definition ScopeAllImages :: string where
  "ScopeAllImages = ''all-images''"

definition ScopeContainers :: string where
  "ScopeContainers = ''containers''"

definition ScopeBuildCache :: string where
  "ScopeBuildCache = ''build-cache''"

definition ScopeVolumes :: string where
  "ScopeVolumes = ''volumes''"

lemmas scope_defs = ScopeDangling_def ScopeAllImages_def ScopeContainers_def ScopeBuildCache_def ScopeVolumes_def

definition validScope :: "string \<Rightarrow> bool" where
  "validScope s \<longleftrightarrow> s \<in> {ScopeDangling, ScopeAllImages, ScopeContainers, ScopeBuildCache, ScopeVolumes}"

text \<open>\<^verbatim>\<open>Defaults\<close> and \<^verbatim>\<open>Policy\<close> have the same fields; a per-host configuration may leave each of them out.\<close>

record HostPrunePolicy =
  hp_Enabled :: bool
  hp_Interval :: duration
  hp_DiskThreshold :: int
  hp_Scope :: "string list"
  hp_DryRun :: bool

record HostPruneConfig =
  hc_Enabled :: "bool option"
  hc_Interval :: "string option"
  hc_DiskThreshold :: "int option"
  hc_Scope :: "string list option"
  hc_DryRun :: "bool option"

datatype policy_error = BadInterval string | BadThreshold int | UnknownScope string | DuplicateScope string | EmptyScope

definition override :: "'a option \<Rightarrow> 'a \<Rightarrow> 'a" where
  "override x d = (case x of None \<Rightarrow> d | Some y \<Rightarrow> y)"

fun check_scopes :: "string list \<Rightarrow> string set \<Rightarrow> policy_error option" where
  "check_scopes [] seen = None"
| "check_scopes (s # ss) seen =
     (if \<not> validScope s then Some (UnknownScope s)
      else if s \<in> seen then Some (DuplicateScope s)
      else check_scopes ss (insert s seen))"

definition merge_policy :: "(string \<Rightarrow> duration option) \<Rightarrow> HostPruneConfig option \<Rightarrow> HostPrunePolicy \<Rightarrow> policy_error + HostPrunePolicy" where
  "merge_policy parse hc def =
     (case hc of
        None \<Rightarrow> Inr def
      | Some c \<Rightarrow>
          let p = def\<lparr>hp_Enabled := override (hc_Enabled c) (hp_Enabled def),
                      hp_DiskThreshold := override (hc_DiskThreshold c) (hp_DiskThreshold def),
                      hp_Scope := override (hc_Scope c) (hp_Scope def),
                      hp_DryRun := override (hc_DryRun c) (hp_DryRun def)\<rparr>
          in case hc_Interval c of
               None \<Rightarrow> Inr p
             | Some s \<Rightarrow> (case parse s of None \<Rightarrow> Inl (BadInterval s) | Some d \<Rightarrow> Inr (p\<lparr>hp_Interval := d\<rparr>)))"

text \<open>\<open>parse\<close> is \<^verbatim>\<open>time.ParseDuration\<close>.\<close>

definition Resolve :: "(string \<Rightarrow> duration option) \<Rightarrow> HostPruneConfig option \<Rightarrow> HostPrunePolicy \<Rightarrow> policy_error + HostPrunePolicy" where
  "Resolve parse hc def =
     (case merge_policy parse hc def of
        Inl e \<Rightarrow> Inl e
      | Inr p \<Rightarrow>
          if hp_DiskThreshold p < 0 \<or> 100 < hp_DiskThreshold p then Inl (BadThreshold (hp_DiskThreshold p))
          else case check_scopes (hp_Scope p) {} of
            Some e \<Rightarrow> Inl e
          | None \<Rightarrow> if hp_Enabled p \<and> hp_Scope p = [] then Inl EmptyScope else Inr p)"

definition HasScope :: "HostPrunePolicy \<Rightarrow> string \<Rightarrow> bool" where
  "HasScope p s \<longleftrightarrow> s \<in> set (hp_Scope p)"

definition splitScopes :: "string \<Rightarrow> string list" where
  "splitScopes s = filter (\<lambda>p. p \<noteq> '''') (map TrimSpace (Split CHR '','' s))"

record HostPolicy =
  hl_Host :: string
  hl_Policy :: HostPrunePolicy

fun buildHostPolicies ::
  "(string \<Rightarrow> duration option) \<Rightarrow> (string \<times> HostPruneConfig option) list \<Rightarrow> HostPrunePolicy \<Rightarrow>
     HostPolicy list \<times> (string \<times> policy_error) option" where
  "buildHostPolicies parse [] def = ([], None)"
| "buildHostPolicies parse ((host, hc) # hosts) def =
     (case buildHostPolicies parse hosts def of
        (out, firstErr) \<Rightarrow>
          (case Resolve parse hc def of
             Inl e \<Rightarrow> (out, Some (host, e))
           | Inr p \<Rightarrow> (\<lparr>hl_Host = host, hl_Policy = p\<rparr> # out, firstErr)))"

subsection \<open>What a resolved policy is\<close>

definition policy_ok :: "HostPrunePolicy \<Rightarrow> bool" where
  "policy_ok p \<longleftrightarrow>
     0 \<le> hp_DiskThreshold p \<and> hp_DiskThreshold p \<le> 100 \<and> list_all validScope (hp_Scope p) \<and> distinct (hp_Scope p) \<and>
     (hp_Enabled p \<longrightarrow> hp_Scope p \<noteq> [])"

lemma check_scopes_None: "check_scopes ss seen = None \<longleftrightarrow> list_all validScope ss \<and> distinct ss \<and> set ss \<inter> seen = {}"
  by (induction ss arbitrary: seen) auto

lemma Resolve_Inr:
  "Resolve parse hc def = Inr p \<longleftrightarrow> merge_policy parse hc def = Inr p \<and> policy_ok p"
proof (cases "merge_policy parse hc def")
  case (Inr q)
  then show ?thesis
    using check_scopes_None [of "hp_Scope q" "{}"]
    by (cases "check_scopes (hp_Scope q) {}") (auto simp: Resolve_def policy_ok_def)
qed (simp add: Resolve_def)

text \<open>C22. A policy that resolves is well formed: its threshold is a percentage, its scopes are known and
  distinct, and an enabled policy has a scope. A well-formed policy is a fixed point: resolving it again without a
  host configuration gives it back, and an ill-formed one is refused.\<close>

theorem resolve_wellformed:
  "(Resolve parse hc def = Inr p \<longrightarrow> policy_ok p \<and> Resolve parse None p = Inr p) \<and>
   (\<not> policy_ok q \<longrightarrow> (\<exists>e. Resolve parse None q = Inl e))"
proof -
  have "Resolve parse None p = Inr p" if "policy_ok p"
    using that by (simp add: Resolve_Inr merge_policy_def)
  moreover have "\<exists>e. Resolve parse None q = Inl e" if "\<not> policy_ok q"
  proof (cases "Resolve parse None q")
    case (Inr p)
    then have "p = q" "policy_ok p" by (simp_all add: Resolve_Inr merge_policy_def)
    with that show ?thesis by simp
  qed simp
  ultimately show ?thesis by (simp add: Resolve_Inr)
qed

theorem resolve_wellformed_witness:
  "Resolve (\<lambda>s. if s = ''12h'' then Some (12 * hour) else None)
     (Some \<lparr>hc_Enabled = Some True, hc_Interval = Some ''12h'', hc_DiskThreshold = None,
        hc_Scope = Some [''dangling'', ''volumes''], hc_DryRun = None\<rparr>)
     \<lparr>hp_Enabled = False, hp_Interval = 24 * hour, hp_DiskThreshold = 85, hp_Scope = [''dangling''], hp_DryRun = True\<rparr> =
     Inr \<lparr>hp_Enabled = True, hp_Interval = 12 * hour, hp_DiskThreshold = 85, hp_Scope = [''dangling'', ''volumes''], hp_DryRun = True\<rparr> \<and>
   policy_ok \<lparr>hp_Enabled = True, hp_Interval = 12 * hour, hp_DiskThreshold = 85, hp_Scope = [''dangling'', ''volumes''], hp_DryRun = True\<rparr>"
  (is "?r \<and> policy_ok ?p")
proof -
  have r: ?r by code_simp
  from resolve_wellformed r show ?thesis by blast
qed

subsection \<open>The prune job\<close>

definition ProtectLabel :: string where
  "ProtectLabel = ''podman-api.protect''"

record HostPrunePayload =
  ha_Host :: string
  ha_Policy :: HostPrunePolicy

record DiskUsage =
  du_Total :: int
  du_Used :: int
  du_Reclaimable :: int

record PruneReport =
  pr_Items :: "string list"
  pr_Reclaimed :: int

text \<open>The part of \<^verbatim>\<open>podman.Client\<close> this package calls; of a host's information, its disk.\<close>

record 'w PruneClient =
  pk_Knows :: "string \<Rightarrow> bool"
  pk_HostInfo :: "string \<Rightarrow> ('w, DiskUsage) call"
  pk_ImagePrune :: "string \<Rightarrow> bool \<Rightarrow> ('w, PruneReport) call"
  pk_ContainerPrune :: "string \<Rightarrow> ('w, PruneReport) call"
  pk_BuildCachePrune :: "string \<Rightarrow> ('w, PruneReport) call"
  pk_VolumePrune :: "string \<Rightarrow> (string \<times> string list) list \<Rightarrow> ('w, PruneReport) call"

text \<open>The handler; of the job store it calls only \<^verbatim>\<open>ListJobs\<close>.\<close>

type_synonym 'w lister = "JobFilter \<Rightarrow> 'w \<Rightarrow> Job list result \<times> 'w"

record 'w PruneHandler =
  ph_Client :: "'w PruneClient"
  ph_Jobs :: "'w lister option"
  ph_CtxErr :: "'w \<Rightarrow> rerr option \<times> 'w"

datatype hdetail =
    HFailed rerr
  | HRemoved nat int
  | HSkipped
  | HDryRun "string list" "int option"

datatype hmetric = HRunDone string string | HReclaimed string string int

record 'w hrun =
  hr_world :: 'w
  hr_steps :: "(string \<times> hdetail) list"
  hr_metrics :: "hmetric list"

definition hstep :: "string \<Rightarrow> hdetail \<Rightarrow> 'w hrun \<Rightarrow> 'w hrun" where
  "hstep phase d s = s\<lparr>hr_steps := hr_steps s @ [(phase, d)]\<rparr>"

definition hobserve :: "hmetric \<Rightarrow> 'w hrun \<Rightarrow> 'w hrun" where
  "hobserve m s = s\<lparr>hr_metrics := hr_metrics s @ [m]\<rparr>"

definition hout :: "('w \<Rightarrow> 'a \<times> 'w) \<Rightarrow> 'w hrun \<Rightarrow> 'a \<times> 'w hrun" where
  "hout f s = (case f (hr_world s) of (r, w) \<Rightarrow> (r, s\<lparr>hr_world := w\<rparr>))"

definition hostScanLimit :: int where
  "hostScanLimit = 500"

fun any_active :: "'w lister \<Rightarrow> string list \<Rightarrow> 'w \<Rightarrow> bool \<times> 'w" where
  "any_active ls [] w = (False, w)"
| "any_active ls (kind # kinds) w =
     (case ls (kind_filter kind hostScanLimit) w of
        (Inl _, w1) \<Rightarrow> (True, w1)
      | (Inr jobs, w1) \<Rightarrow> if list_ex (\<lambda>j. Active (job_State j)) jobs then (True, w1) else any_active ls kinds w1)"

definition migrateOrEvacuateActive :: "'w lister \<Rightarrow> 'w \<Rightarrow> bool \<times> 'w" where
  "migrateOrEvacuateActive ls = any_active ls [''migrate'', ''evacuate'']"

text \<open>The scopes of a run, in their fixed order; all images include the dangling ones.\<close>

definition run_scopes :: "HostPrunePolicy \<Rightarrow> string list" where
  "run_scopes p =
     (if HasScope p ScopeAllImages then [ScopeAllImages] else if HasScope p ScopeDangling then [ScopeDangling] else []) @
     (if HasScope p ScopeContainers then [ScopeContainers] else []) @
     (if HasScope p ScopeBuildCache then [ScopeBuildCache] else []) @
     (if HasScope p ScopeVolumes then [ScopeVolumes] else [])"

definition volume_filter :: "(string \<times> string list) list" where
  "volume_filter = [(''label!'', [ProtectLabel @ ''=true''])]"

definition prune_call :: "'w PruneClient \<Rightarrow> string \<Rightarrow> string \<Rightarrow> ('w, PruneReport) call" where
  "prune_call c host scope =
     (if scope = ScopeAllImages then pk_ImagePrune c host True
      else if scope = ScopeDangling then pk_ImagePrune c host False
      else if scope = ScopeContainers then pk_ContainerPrune c host
      else if scope = ScopeBuildCache then pk_BuildCachePrune c host
      else pk_VolumePrune c host volume_filter)"

text \<open>The guard of the volumes scope; the other scopes have none.\<close>

definition scope_guard :: "'w PruneHandler \<Rightarrow> string \<Rightarrow> 'w \<Rightarrow> bool \<times> 'w" where
  "scope_guard h scope w =
     (case ph_Jobs h of
        Some ls \<Rightarrow> if scope = ScopeVolumes then migrateOrEvacuateActive ls w else (False, w)
      | None \<Rightarrow> (False, w))"

fun prune_scopes :: "'w PruneHandler \<Rightarrow> string \<Rightarrow> string list \<Rightarrow> rerr option \<Rightarrow> 'w hrun \<Rightarrow> (rerr + rerr option) \<times> 'w hrun" where
  "prune_scopes h host [] firstErr s = (Inr firstErr, s)"
| "prune_scopes h host (scope # scopes) firstErr s =
     (case hout (ph_CtxErr h) s of
        (Some e, s1) \<Rightarrow> (Inl e, s1)
      | (None, s1) \<Rightarrow>
          (case hout (scope_guard h scope) s1 of
             (True, s2) \<Rightarrow> prune_scopes h host scopes firstErr (hstep (''prune:'' @ scope) HSkipped s2)
           | (False, s2) \<Rightarrow>
               (case hout (prune_call (ph_Client h) host scope) s2 of
                  (Inl e, s3) \<Rightarrow>
                    prune_scopes h host scopes (if firstErr = None then Some (RErr (wraps e) ''prune'') else firstErr)
                      (hobserve (HReclaimed host scope 0) (hstep (''prune:'' @ scope) (HFailed e) s3))
                | (Inr rep, s3) \<Rightarrow>
                    prune_scopes h host scopes firstErr
                      (hobserve (HReclaimed host scope (pr_Reclaimed rep))
                        (hstep (''prune:'' @ scope) (HRemoved (length (pr_Items rep)) (pr_Reclaimed rep)) s3)))))"

definition host_prune_run :: "'w PruneHandler \<Rightarrow> (string \<Rightarrow> HostPrunePayload option) \<Rightarrow> string \<Rightarrow> 'w hrun \<Rightarrow> rerr option \<times> 'w hrun" where
  "host_prune_run h decode args s =
     (case decode args of
        None \<Rightarrow> (Some (RErr [] ''decode prune args''), s)
      | Some p \<Rightarrow>
          if hp_DryRun (ha_Policy p)
          then (case hout (ph_CtxErr h) s of
                  (Some e, s1) \<Rightarrow> (Some e, s1)
                | (None, s1) \<Rightarrow>
                    (case hout (pk_HostInfo (ph_Client h) (ha_Host p)) s1 of
                       (Inl e, s2) \<Rightarrow> (Some (RErr (wraps e) ''dry-run host info''), hobserve (HRunDone (ha_Host p) ''error'') s2)
                     | (Inr info, s2) \<Rightarrow>
                         (None,
                          hobserve (HRunDone (ha_Host p) ''dry-run'')
                            (hstep ''dry-run''
                              (HDryRun (hp_Scope (ha_Policy p))
                                (if HasScope (ha_Policy p) ScopeVolumes then Some (du_Reclaimable info) else None)) s2))))
          else case prune_scopes h (ha_Host p) (run_scopes (ha_Policy p)) None s of
            (Inl e, s1) \<Rightarrow> (Some e, s1)
          | (Inr (Some e), s1) \<Rightarrow> (Some e, hobserve (HRunDone (ha_Host p) ''failed'') s1)
          | (Inr None, s1) \<Rightarrow> (None, hobserve (HRunDone (ha_Host p) ''succeeded'') s1))"

subsection \<open>The podman calls of a run\<close>

text \<open>A removal, by its scope and host, with the filter it carried and the world it was called in.\<close>

datatype 'w removal = Removal (rm_scope: string) (rm_host: string) (rm_filter: "(string \<times> string list) list") (rm_world: 'w)

definition log_removal :: "string \<Rightarrow> string \<Rightarrow> (string \<times> string list) list \<Rightarrow> ('w, 'a) call \<Rightarrow> ('w \<times> 'w removal list, 'a) call" where
  "log_removal scope host fs f v = (case f (fst v) of (r, w) \<Rightarrow> (r, (w, snd v @ [Removal scope host fs (fst v)])))"

definition logged_client :: "'w PruneClient \<Rightarrow> ('w \<times> 'w removal list) PruneClient" where
  "logged_client c =
     \<lparr>pk_Knows = pk_Knows c, pk_HostInfo = (\<lambda>host. lift_call (pk_HostInfo c host)),
      pk_ImagePrune = (\<lambda>host all. log_removal (if all then ScopeAllImages else ScopeDangling) host [] (pk_ImagePrune c host all)),
      pk_ContainerPrune = (\<lambda>host. log_removal ScopeContainers host [] (pk_ContainerPrune c host)),
      pk_BuildCachePrune = (\<lambda>host. log_removal ScopeBuildCache host [] (pk_BuildCachePrune c host)),
      pk_VolumePrune = (\<lambda>host fs. log_removal ScopeVolumes host fs (pk_VolumePrune c host fs))\<rparr>"

definition logged_prune :: "'w PruneHandler \<Rightarrow> ('w \<times> 'w removal list) PruneHandler" where
  "logged_prune h =
     \<lparr>ph_Client = logged_client (ph_Client h), ph_Jobs = map_option (\<lambda>ls f. lift_call (ls f)) (ph_Jobs h),
      ph_CtxErr = lift_call (ph_CtxErr h)\<rparr>"

definition removals :: "('w \<times> 'w removal list) hrun \<Rightarrow> 'w removal list" where
  "removals s = snd (hr_world s)"

lemma removals_simps [simp]: "removals (hstep phase d s) = removals s" "removals (hobserve m s) = removals s"
  by (simp_all add: removals_def hstep_def hobserve_def)

lemma removals_lift: "hout (lift_call f) s = (r, s') \<Longrightarrow> removals s' = removals s"
  by (auto simp: hout_def lift_call_def removals_def split: prod.splits)

lemma any_active_lift: "any_active (\<lambda>f. lift_call (ls f)) kinds = lift_call (any_active ls kinds)"
proof
  show "any_active (\<lambda>f. lift_call (ls f)) kinds v = lift_call (any_active ls kinds) v" for v :: "'a \<times> 'b"
    by (induction kinds arbitrary: v) (auto simp: lift_call_def split: prod.splits sum.splits)
qed

lemma scope_guard_lift: "scope_guard (logged_prune h) scope = lift_call (scope_guard h scope)"
  by (rule ext) (auto simp: scope_guard_def logged_prune_def migrateOrEvacuateActive_def any_active_lift lift_call_def
      split: option.splits)

text \<open>A removal of a scope is allowed on its host; volumes only with the filter, and only right after a look at the jobs
  that found no migration.\<close>

definition removal_ok :: "'w PruneHandler \<Rightarrow> string \<Rightarrow> 'w removal \<Rightarrow> bool" where
  "removal_ok h host e \<longleftrightarrow>
     rm_host e = host \<and>
     (rm_scope e = ScopeVolumes \<longrightarrow> rm_filter e = volume_filter \<and>
        (\<forall>ls. ph_Jobs h = Some ls \<longrightarrow> (\<exists>w0. migrateOrEvacuateActive ls w0 = (False, rm_world e))))"

lemma prune_call_logged:
  assumes "scope \<in> {ScopeAllImages, ScopeDangling, ScopeContainers, ScopeBuildCache, ScopeVolumes}"
  shows "prune_call (ph_Client (logged_prune h)) host scope =
    log_removal scope host (if scope = ScopeVolumes then volume_filter else []) (prune_call (ph_Client h) host scope)"
  using assms by (auto simp: prune_call_def logged_prune_def logged_client_def scope_defs)

lemma prune_scopes_removals:
  assumes "prune_scopes (logged_prune h) host scopes e s = (r, s')" and "list_all validScope scopes"
  shows "\<exists>new. removals s' = removals s @ new \<and> subseq (map rm_scope new) scopes \<and> list_all (removal_ok h host) new"
  using assms
proof (induction scopes arbitrary: e s)
  case Nil
  then show ?case by (intro exI [of _ "[]"]) simp
next
  case (Cons scope scopes)
  have v: "scope \<in> {ScopeAllImages, ScopeDangling, ScopeContainers, ScopeBuildCache, ScopeVolumes}" "list_all validScope scopes"
    using Cons.prems(2) by (simp_all add: validScope_def [of scope]) auto
  obtain ce s1 where c: "hout (lift_call (ph_CtxErr h)) s = (ce, s1)" by fastforce
  obtain skip s2 where g: "hout (lift_call (scope_guard h scope)) s1 = (skip, s2)" by fastforce
  let ?call = "log_removal scope host (if scope = ScopeVolumes then volume_filter else []) (prune_call (ph_Client h) host scope)"
  obtain x s3 where p: "hout ?call s2 = (x, s3)" by fastforce
  note same = removals_lift [OF c] removals_lift [OF g]
  have ce: "ph_CtxErr (logged_prune h) = lift_call (ph_CtxErr h)" by (simp add: logged_prune_def)
  note run = Cons.prems(1) [unfolded prune_scopes.simps ce c prod.case scope_guard_lift g prune_call_logged [OF v(1)] p]
  show ?case
  proof (cases "ce = None \<and> \<not> skip")
    case False
    then consider e' where "ce = Some e'" | "ce = None" skip by auto
    then show ?thesis
    proof cases
      case 1
      with run same show ?thesis by (intro exI [of _ "[]"]) auto
    next
      case 2
      with run have "prune_scopes (logged_prune h) host scopes e (hstep (''prune:'' @ scope) HSkipped s2) = (r, s')" by simp
      from Cons.IH [OF this v(2)] same obtain new where "removals s' = removals s @ new" "subseq (map rm_scope new) scopes"
        "list_all (removal_ok h host) new" by auto
      then show ?thesis by (intro exI [of _ new]) auto
    qed
  next
    case True
    let ?e = "Removal scope host (if scope = ScopeVolumes then volume_filter else []) (fst (hr_world s2))"
    have s3: "removals s3 = removals s @ [?e]"
      using p same by (auto simp: hout_def log_removal_def removals_def split: prod.splits)
    have ok: "removal_ok h host ?e"
    proof -
      have "\<exists>w0. migrateOrEvacuateActive ls w0 = (False, fst (hr_world s2))" if "scope = ScopeVolumes" "ph_Jobs h = Some ls" for ls
        using g True that by (auto simp: scope_guard_def hout_def lift_call_def split: prod.splits)
      then show ?thesis by (simp add: removal_ok_def)
    qed
    from run True obtain e1 m d where "prune_scopes (logged_prune h) host scopes e1 (hobserve m (hstep (''prune:'' @ scope) d s3)) = (r, s')"
      by (cases x) auto
    from Cons.IH [OF this v(2)] s3 obtain new where "removals s' = removals s @ ?e # new" "subseq (map rm_scope new) scopes"
      "list_all (removal_ok h host) new" by auto
    with ok show ?thesis by (intro exI [of _ "?e # new"]) auto
  qed
qed

lemma run_scopes_valid: "list_all validScope (run_scopes p)"
  by (auto simp: run_scopes_def validScope_def)

text \<open>C13. A prune run removes only on its own host, each scope of its policy at most once, in the fixed order with
  volumes last; on a dry run it removes nothing. Volumes are pruned only with the filter that spares protected ones, and
  only in a state in which a look at the job store has just found no active migration or evacuation.\<close>

theorem host_prune_confined:
  assumes "host_prune_run (logged_prune h) decode args s = (r, s')" and "removals s = []"
  shows "case decode args of
      None \<Rightarrow> removals s' = []
    | Some p \<Rightarrow>
        subseq (map rm_scope (removals s')) (if hp_DryRun (ha_Policy p) then [] else run_scopes (ha_Policy p)) \<and>
        list_all (removal_ok h (ha_Host p)) (removals s')"
proof (cases "decode args")
  case (Some p)
  show ?thesis
  proof (cases "hp_DryRun (ha_Policy p)")
    case True
    have "removals s' = []"
    proof -
      obtain ce s1 where c: "hout (lift_call (ph_CtxErr h)) s = (ce, s1)" by fastforce
      obtain i s2 where i: "hout (lift_call (pk_HostInfo (ph_Client h) (ha_Host p))) s1 = (i, s2)" by fastforce
      from assms Some True c i removals_lift [OF c] removals_lift [OF i] show ?thesis
        by (auto simp: host_prune_run_def logged_prune_def logged_client_def split: option.splits sum.splits)
    qed
    with Some True show ?thesis by simp
  next
    case False
    obtain x s1 where run: "prune_scopes (logged_prune h) (ha_Host p) (run_scopes (ha_Policy p)) None s = (x, s1)" by fastforce
    from assms(1) Some False run have "removals s' = removals s1"
      by (auto simp: host_prune_run_def split: sum.splits option.splits)
    with prune_scopes_removals [OF run run_scopes_valid] assms(2) Some False show ?thesis by auto
  qed
qed (use assms in \<open>simp add: host_prune_run_def\<close>)

definition sample_prune_client :: "nat PruneClient" where
  "sample_prune_client =
     \<lparr>pk_Knows = (\<lambda>_. True), pk_HostInfo = (\<lambda>_. Pair (Inr \<lparr>du_Total = 100, du_Used = 90, du_Reclaimable = 7\<rparr>)),
      pk_ImagePrune = (\<lambda>_ _ n. (Inr \<lparr>pr_Items = [''i''], pr_Reclaimed = 5\<rparr>, Suc n)),
      pk_ContainerPrune = (\<lambda>_ n. (Inl (RErr [] ''busy''), Suc n)),
      pk_BuildCachePrune = (\<lambda>_ n. (Inr \<lparr>pr_Items = [], pr_Reclaimed = 0\<rparr>, Suc n)),
      pk_VolumePrune = (\<lambda>_ _ n. (Inr \<lparr>pr_Items = [''v''], pr_Reclaimed = 1\<rparr>, Suc n))\<rparr>"

definition sample_prune_handler :: "nat PruneHandler" where
  "sample_prune_handler =
     \<lparr>ph_Client = sample_prune_client, ph_Jobs = Some (\<lambda>_. Pair (Inr [])), ph_CtxErr = Pair None\<rparr>"

definition sample_prune_policy :: HostPrunePolicy where
  "sample_prune_policy =
     \<lparr>hp_Enabled = True, hp_Interval = hour, hp_DiskThreshold = 85, hp_Scope = [''volumes'', ''containers'', ''dangling''], hp_DryRun = False\<rparr>"

theorem host_prune_confined_witness:
  "\<exists>r s'. host_prune_run (logged_prune sample_prune_handler) (\<lambda>_. Some \<lparr>ha_Host = ''h1'', ha_Policy = sample_prune_policy\<rparr>) ''''
       \<lparr>hr_world = (0, []), hr_steps = [], hr_metrics = []\<rparr> = (Some r, s') \<and>
     map rm_scope (removals s') = [''dangling'', ''containers'', ''volumes''] \<and>
     list_all (removal_ok sample_prune_handler ''h1'') (removals s')"
proof -
  let ?run = "host_prune_run (logged_prune sample_prune_handler) (\<lambda>_. Some \<lparr>ha_Host = ''h1'', ha_Policy = sample_prune_policy\<rparr>) ''''
    \<lparr>hr_world = (0, []), hr_steps = [], hr_metrics = []\<rparr>"
  have e: "fst ?run \<noteq> None" "map rm_scope (removals (snd ?run)) = [''dangling'', ''containers'', ''volumes'']"
    by (simp_all add: host_prune_run_def logged_prune_def logged_client_def sample_prune_handler_def sample_prune_client_def
        sample_prune_policy_def run_scopes_def HasScope_def scope_defs hout_def lift_call_def scope_guard_def
        migrateOrEvacuateActive_def prune_call_def log_removal_def removals_def hstep_def hobserve_def)
  then obtain r s' where run: "?run = (Some r, s')" by (cases ?run) auto
  have "removals \<lparr>hr_world = (0 :: nat, []), hr_steps = [], hr_metrics = []\<rparr> = []" by (simp add: removals_def)
  from host_prune_confined [OF run this] have "list_all (removal_ok sample_prune_handler ''h1'') (removals s')" by simp
  with run e(2) show ?thesis by (intro exI conjI) simp_all
qed

text \<open>C19. When the look at a SQLite store finds no migration, then among the newest jobs of either kind none is queued, running or
  reconciling; a store that cannot be read counts as a migration.\<close>

theorem sqlite_migration_seen:
  assumes "sql_invar s" and "migrateOrEvacuateActive (js_ListJobs SQLiteJobs) s = (False, s')"
  shows "sql_jobs_of s' = sql_jobs_of s \<and>
    (\<forall>kind\<in>{''migrate'', ''evacuate''}. \<forall>j\<in>newest hostScanLimit kind (sql_jobs_of s). \<not> Active (job_State j))"
proof -
  have scan: "sql_invar t' \<and> sql_jobs_of t' = sql_jobs_of t \<and>
      (\<forall>kind\<in>set kinds. \<forall>j\<in>newest hostScanLimit kind (sql_jobs_of t). \<not> Active (job_State j))"
    if "sql_invar t" "any_active (js_ListJobs SQLiteJobs) kinds t = (False, t')" "list_all (\<lambda>k. k \<noteq> []) kinds" for kinds t t'
    using that
  proof (induction kinds arbitrary: t)
    case (Cons kind kinds)
    obtain x t1 where l: "js_ListJobs SQLiteJobs (kind_filter kind hostScanLimit) t = (x, t1)" by fastforce
    with Cons.prems(2) obtain jobs where x: "x = Inr jobs" and no: "\<not> list_ex (\<lambda>j. Active (job_State j)) jobs"
      and rest: "any_active (js_ListJobs SQLiteJobs) kinds t1 = (False, t')"
      by (auto split: sum.splits if_splits)
    from sql.list_jobs [OF Cons.prems(1), of "kind_filter kind hostScanLimit"] l x
    have "sql_invar t1" and eq: "sql_jobs_of t1 = sql_jobs_of t" and "list_spec (kind_filter kind hostScanLimit) (sql_jobs_of t) jobs"
      by (auto simp: op_ok_def)
    then have "set jobs = newest hostScanLimit kind (sql_jobs_of t)"
      using Cons.prems(3) by (intro list_newest) (simp_all add: hostScanLimit_def MaxJobLimit_def)
    with no have "\<forall>j\<in>newest hostScanLimit kind (sql_jobs_of t). \<not> Active (job_State j)" by (auto simp: list_ex_iff)
    with Cons.IH [OF \<open>sql_invar t1\<close> rest] Cons.prems(3) eq show ?case by simp
  qed simp
  from scan [OF assms(1), of "[''migrate'', ''evacuate'']" s'] assms(2) show ?thesis
    by (simp add: migrateOrEvacuateActive_def)
qed

theorem sqlite_migration_seen_witness:
  "\<exists>s'. migrateOrEvacuateActive (js_ListJobs SQLiteJobs)
       (snd (js_Enqueue SQLiteJobs ''a'' 5 ''prune'' '''' '''' empty_db)) = (False, s') \<and>
     (\<forall>kind\<in>{''migrate'', ''evacuate''}. \<forall>j\<in>newest hostScanLimit kind
        (sql_jobs_of (snd (js_Enqueue SQLiteJobs ''a'' 5 ''prune'' '''' '''' empty_db))). \<not> Active (job_State j)) \<and>
     \<not> migrateOrEvacuateActive (js_ListJobs SQLiteJobs)
       (snd (js_Enqueue SQLiteJobs ''a'' 5 ''migrate'' '''' '''' empty_db)) = (False, s')"
proof -
  let ?db = "\<lambda>kind. snd (js_Enqueue SQLiteJobs ''a'' 5 kind '''' '''' empty_db)"
  have "sql_invar empty_db" "sql_jobs_of empty_db = Map.empty" by (simp_all add: empty_db_def sql_invar_def sql_jobs_of_def)
  then have inv: "sql_invar (?db ''prune'')"
    using sql.enqueue [of empty_db "''a''" 5 "''prune''" "''''" "''''" _ "?db ''prune''", OF _ _ _ _ prod.collapse [symmetric]] by simp
  have e: "\<not> fst (migrateOrEvacuateActive (js_ListJobs SQLiteJobs) (?db ''prune''))"
    "fst (migrateOrEvacuateActive (js_ListJobs SQLiteJobs) (?db ''migrate''))" by code_simp+
  then obtain s' where s': "migrateOrEvacuateActive (js_ListJobs SQLiteJobs) (?db ''prune'') = (False, s')"
    by (cases "migrateOrEvacuateActive (js_ListJobs SQLiteJobs) (?db ''prune'')") auto
  from sqlite_migration_seen [OF inv s'] e(2) s' show ?thesis by (intro exI [of _ s'] conjI) auto
qed

subsection \<open>The scheduler\<close>

definition hostFailureBackoff :: duration where
  "hostFailureBackoff = hour"

definition thresholdProbeInterval :: duration where
  "thresholdProbeInterval = 5 * minute"

text \<open>
  Of the store the scheduler calls \<^verbatim>\<open>ListJobs\<close> and \<^verbatim>\<open>Enqueue\<close>. \<open>hs_OverPct used total pct\<close> is the floating-point comparison of the
  used percentage with the threshold; the JSON encoding of a payload goes both ways.
\<close>

record 'w HostScheduler =
  hs_ListJobs :: "'w lister"
  hs_Enqueue :: "string \<Rightarrow> string \<Rightarrow> string \<Rightarrow> 'w \<Rightarrow> Job result \<times> 'w"
  hs_Client :: "'w PruneClient"
  hs_Now :: "'w \<Rightarrow> time \<times> 'w"
  hs_Encode :: "HostPrunePayload \<Rightarrow> string option"
  hs_Decode :: "string \<Rightarrow> HostPrunePayload option"
  hs_OverPct :: "int \<Rightarrow> int \<Rightarrow> int \<Rightarrow> bool"

record prune_history =
  ps_inflight :: "string set"
  ps_lastSuccess :: "string \<rightharpoonup> time"
  ps_lastFailure :: "string \<rightharpoonup> time"

definition no_history :: prune_history where
  "no_history = \<lparr>ps_inflight = {}, ps_lastSuccess = Map.empty, ps_lastFailure = Map.empty\<rparr>"

definition keep_later :: "string \<Rightarrow> time \<Rightarrow> (string \<rightharpoonup> time) \<Rightarrow> string \<rightharpoonup> time" where
  "keep_later host t m = (case m host of None \<Rightarrow> m(host \<mapsto> t) | Some cur \<Rightarrow> if cur < t then m(host \<mapsto> t) else m)"

fun scan_prune_jobs :: "(string \<Rightarrow> HostPrunePayload option) \<Rightarrow> Job list \<Rightarrow> prune_history \<Rightarrow> prune_history" where
  "scan_prune_jobs decode [] a = a"
| "scan_prune_jobs decode (j # jobs) a =
     scan_prune_jobs decode jobs
       (case decode (job_Args j) of
          None \<Rightarrow> a
        | Some p \<Rightarrow>
            if ha_Host p = '''' then a
            else case job_State j of
              JobQueued \<Rightarrow> a\<lparr>ps_inflight := insert (ha_Host p) (ps_inflight a)\<rparr>
            | JobRunning \<Rightarrow> a\<lparr>ps_inflight := insert (ha_Host p) (ps_inflight a)\<rparr>
            | JobSucceeded \<Rightarrow> a\<lparr>ps_lastSuccess := keep_later (ha_Host p) (job_Finished j) (ps_lastSuccess a)\<rparr>
            | JobFailed \<Rightarrow> a\<lparr>ps_lastFailure := keep_later (ha_Host p) (job_Finished j) (ps_lastFailure a)\<rparr>
            | _ \<Rightarrow> a)"

definition scanPruneJobs :: "'w HostScheduler \<Rightarrow> 'w \<Rightarrow> prune_history \<times> 'w" where
  "scanPruneJobs sc w =
     (case hs_ListJobs sc (kind_filter ''prune'' hostScanLimit) w of
        (Inl _, w') \<Rightarrow> (no_history, w')
      | (Inr jobs, w') \<Rightarrow> (scan_prune_jobs (hs_Decode sc) jobs no_history, w'))"

definition withoutScope :: "string list \<Rightarrow> string \<Rightarrow> string list" where
  "withoutScope scopes drop_scope = filter (\<lambda>s. s \<noteq> drop_scope) scopes"

definition probeDue :: "string \<Rightarrow> time \<Rightarrow> (string \<rightharpoonup> time) \<Rightarrow> bool \<times> (string \<rightharpoonup> time)" where
  "probeDue host now probe =
     (case probe host of
        Some t \<Rightarrow> if time_Sub now t < thresholdProbeInterval then (False, probe) else (True, probe(host \<mapsto> now))
      | None \<Rightarrow> (True, probe(host \<mapsto> now)))"

definition backing_off :: "prune_history \<Rightarrow> time \<Rightarrow> string \<Rightarrow> bool" where
  "backing_off a now host \<longleftrightarrow>
     (case ps_lastFailure a host of
        None \<Rightarrow> False
      | Some lf \<Rightarrow> time_Sub now lf < hostFailureBackoff \<and>
          (case ps_lastSuccess a host of None \<Rightarrow> True | Some ls \<Rightarrow> ls < lf))"

definition interval_due :: "prune_history \<Rightarrow> time \<Rightarrow> HostPolicy \<Rightarrow> bool" where
  "interval_due a now hp \<longleftrightarrow>
     0 < hp_Interval (hl_Policy hp) \<and>
     (case ps_lastSuccess a (hl_Host hp) of None \<Rightarrow> True | Some ls \<Rightarrow> hp_Interval (hl_Policy hp) \<le> time_Sub now ls)"

definition job_policy :: "bool \<Rightarrow> HostPrunePolicy \<Rightarrow> HostPrunePolicy" where
  "job_policy migrateActive p =
     (if migrateActive \<and> HasScope p ScopeVolumes then p\<lparr>hp_Scope := withoutScope (hp_Scope p) ScopeVolumes\<rparr> else p)"

definition enqueue_host :: "'w HostScheduler \<Rightarrow> bool \<Rightarrow> HostPolicy \<Rightarrow> 'w \<Rightarrow> 'w" where
  "enqueue_host sc migrateActive hp w =
     (case hs_Encode sc \<lparr>ha_Host = hl_Host hp, ha_Policy = job_policy migrateActive (hl_Policy hp)\<rparr> of
        None \<Rightarrow> w
      | Some args \<Rightarrow> snd (hs_Enqueue sc ''prune'' args '''' w))"

definition tick_host ::
  "'w HostScheduler \<Rightarrow> time \<Rightarrow> prune_history \<Rightarrow> bool \<Rightarrow> HostPolicy \<Rightarrow> (string \<rightharpoonup> time) \<Rightarrow> 'w \<Rightarrow> (string \<rightharpoonup> time) \<times> 'w" where
  "tick_host sc now a migrateActive hp probe w =
     (if \<not> hp_Enabled (hl_Policy hp) \<or> \<not> pk_Knows (hs_Client sc) (hl_Host hp) \<or> hl_Host hp \<in> ps_inflight a \<or>
         backing_off a now (hl_Host hp)
      then (probe, w)
      else if interval_due a now hp then (probe, enqueue_host sc migrateActive hp w)
      else if 0 < hp_DiskThreshold (hl_Policy hp)
      then (case probeDue (hl_Host hp) now probe of
              (False, probe') \<Rightarrow> (probe', w)
            | (True, probe') \<Rightarrow>
                (case pk_HostInfo (hs_Client sc) (hl_Host hp) w of
                   (Inl _, w') \<Rightarrow> (probe', w')
                 | (Inr disk, w') \<Rightarrow>
                     (probe',
                      if 0 < du_Total disk \<and> hs_OverPct sc (du_Used disk) (du_Total disk) (hp_DiskThreshold (hl_Policy hp))
                      then enqueue_host sc migrateActive hp w' else w')))
      else (probe, w))"

fun tick_hosts ::
  "'w HostScheduler \<Rightarrow> time \<Rightarrow> prune_history \<Rightarrow> bool \<Rightarrow> HostPolicy list \<Rightarrow> (string \<rightharpoonup> time) \<Rightarrow> 'w \<Rightarrow> (string \<rightharpoonup> time) \<times> 'w" where
  "tick_hosts sc now a migrateActive [] probe w = (probe, w)"
| "tick_hosts sc now a migrateActive (hp # hosts) probe w =
     (case tick_host sc now a migrateActive hp probe w of
        (probe', w') \<Rightarrow> tick_hosts sc now a migrateActive hosts probe' w')"

definition host_tick :: "'w HostScheduler \<Rightarrow> HostPolicy list \<Rightarrow> (string \<rightharpoonup> time) \<Rightarrow> 'w \<Rightarrow> (string \<rightharpoonup> time) \<times> 'w" where
  "host_tick sc hosts probe w =
     (if \<not> list_ex (\<lambda>hp. hp_Enabled (hl_Policy hp)) hosts then (probe, w)
      else case hs_Now sc w of
        (now, w1) \<Rightarrow>
          (case scanPruneJobs sc w1 of
             (a, w2) \<Rightarrow>
               (case migrateOrEvacuateActive (hs_ListJobs sc) w2 of
                  (migrateActive, w3) \<Rightarrow> tick_hosts sc now a migrateActive hosts probe w3)))"

subsection \<open>What a tick enqueues\<close>

definition logged_scheduler :: "'w HostScheduler \<Rightarrow> ('w \<times> (string \<times> string) list) HostScheduler" where
  "logged_scheduler sc =
     \<lparr>hs_ListJobs = (\<lambda>f. lift_call (hs_ListJobs sc f)),
      hs_Enqueue = (\<lambda>kind args parent v. case hs_Enqueue sc kind args parent (fst v) of (r, w) \<Rightarrow> (r, (w, snd v @ [(kind, args)]))),
      hs_Client = \<lparr>pk_Knows = pk_Knows (hs_Client sc), pk_HostInfo = (\<lambda>host. lift_call (pk_HostInfo (hs_Client sc) host)),
        pk_ImagePrune = (\<lambda>host all. lift_call (pk_ImagePrune (hs_Client sc) host all)),
        pk_ContainerPrune = (\<lambda>host. lift_call (pk_ContainerPrune (hs_Client sc) host)),
        pk_BuildCachePrune = (\<lambda>host. lift_call (pk_BuildCachePrune (hs_Client sc) host)),
        pk_VolumePrune = (\<lambda>host fs. lift_call (pk_VolumePrune (hs_Client sc) host fs))\<rparr>,
      hs_Now = lift_call (hs_Now sc), hs_Encode = hs_Encode sc, hs_Decode = hs_Decode sc, hs_OverPct = hs_OverPct sc\<rparr>"

lemma logged_scheduler_simps:
  "hs_ListJobs (logged_scheduler sc) = (\<lambda>f. lift_call (hs_ListJobs sc f))" "hs_Now (logged_scheduler sc) = lift_call (hs_Now sc)"
  "hs_Encode (logged_scheduler sc) = hs_Encode sc" "hs_Decode (logged_scheduler sc) = hs_Decode sc"
  "hs_OverPct (logged_scheduler sc) = hs_OverPct sc"
  "pk_Knows (hs_Client (logged_scheduler sc)) = pk_Knows (hs_Client sc)"
  "pk_HostInfo (hs_Client (logged_scheduler sc)) host = lift_call (pk_HostInfo (hs_Client sc) host)"
  by (simp_all add: logged_scheduler_def)

text \<open>The conditions under which a tick enqueues a host, and the arguments of the job.\<close>

definition tick_gate :: "'w HostScheduler \<Rightarrow> time \<Rightarrow> prune_history \<Rightarrow> bool \<Rightarrow> HostPolicy \<Rightarrow> string \<Rightarrow> bool" where
  "tick_gate sc now a mig hp args \<longleftrightarrow>
     hp_Enabled (hl_Policy hp) \<and> pk_Knows (hs_Client sc) (hl_Host hp) \<and> hl_Host hp \<notin> ps_inflight a \<and>
     \<not> backing_off a now (hl_Host hp) \<and> (interval_due a now hp \<or> 0 < hp_DiskThreshold (hl_Policy hp)) \<and>
     hs_Encode sc \<lparr>ha_Host = hl_Host hp, ha_Policy = job_policy mig (hl_Policy hp)\<rparr> = Some args"

lemma enqueue_host_log:
  "snd (enqueue_host (logged_scheduler sc) mig hp v) = snd v @
     (case hs_Encode sc \<lparr>ha_Host = hl_Host hp, ha_Policy = job_policy mig (hl_Policy hp)\<rparr> of
        None \<Rightarrow> [] | Some args \<Rightarrow> [(''prune'', args)])"
  by (auto simp: enqueue_host_def logged_scheduler_def split: option.splits prod.splits)

lemma tick_host_log:
  assumes "tick_host (logged_scheduler sc) now a mig hp probe v = (probe', v')"
  shows "snd v' = snd v \<or> (\<exists>args. snd v' = snd v @ [(''prune'', args)] \<and> tick_gate sc now a mig hp args)"
proof -
  have enq: "snd (enqueue_host (logged_scheduler sc) mig hp u) = snd u \<or>
      (\<exists>args. snd (enqueue_host (logged_scheduler sc) mig hp u) = snd u @ [(''prune'', args)] \<and>
         hs_Encode sc \<lparr>ha_Host = hl_Host hp, ha_Policy = job_policy mig (hl_Policy hp)\<rparr> = Some args)" for u
    by (auto simp: enqueue_host_log split: option.splits)
  obtain i u where i: "lift_call (pk_HostInfo (hs_Client sc) (hl_Host hp)) v = (i, u)" by (rule prod.exhaust)
  have "snd u = snd v" using i by (auto simp: lift_call_def split: prod.splits)
  with assms i enq [of v] enq [of u] show ?thesis
    by (auto simp: tick_host_def tick_gate_def logged_scheduler_simps split: if_splits prod.splits bool.splits sum.splits)
qed

lemma tick_hosts_log:
  assumes "tick_hosts (logged_scheduler sc) now a mig hosts probe v = (probe', v')"
  shows "\<exists>sel. subseq (map fst sel) hosts \<and> snd v' = snd v @ map (\<lambda>x. (''prune'', snd x)) sel \<and>
    list_all (\<lambda>x. tick_gate sc now a mig (fst x) (snd x)) sel"
  using assms
proof (induction hosts arbitrary: probe v)
  case Nil
  then show ?case by (intro exI [of _ "[]"]) simp
next
  case (Cons hp hosts)
  obtain p1 v1 where t: "tick_host (logged_scheduler sc) now a mig hp probe v = (p1, v1)" by (rule prod.exhaust)
  with Cons.prems have "tick_hosts (logged_scheduler sc) now a mig hosts p1 v1 = (probe', v')" by simp
  from Cons.IH [OF this] obtain sel where sel: "subseq (map fst sel) hosts" "snd v' = snd v1 @ map (\<lambda>x. (''prune'', snd x)) sel"
    "list_all (\<lambda>x. tick_gate sc now a mig (fst x) (snd x)) sel" by blast
  from tick_host_log [OF t] show ?case
  proof (elim disjE exE conjE)
    assume "snd v1 = snd v"
    with sel show ?thesis by (intro exI [of _ sel]) auto
  next
    fix args
    assume "snd v1 = snd v @ [(''prune'', args)]" "tick_gate sc now a mig hp args"
    with sel show ?thesis by (intro exI [of _ "(hp, args) # sel"]) auto
  qed
qed

text \<open>The history is that of the jobs that were listed.\<close>

lemma scan_prune_inflight:
  assumes "j \<in> set jobs" "decode (job_Args j) = Some p" "ha_Host p \<noteq> ''''" "job_State j = JobQueued \<or> job_State j = JobRunning"
  shows "ha_Host p \<in> ps_inflight (scan_prune_jobs decode jobs a)"
proof -
  have mono: "host \<in> ps_inflight a \<Longrightarrow> host \<in> ps_inflight (scan_prune_jobs decode jobs a)" for host jobs a
    by (induction jobs arbitrary: a) (auto split: option.splits JobState.splits)
  from assms(1) show ?thesis
  proof (induction jobs arbitrary: a)
    case (Cons j' jobs)
    show ?case
    proof (cases "j = j'")
      case True
      with assms(2-4) show ?thesis by (auto intro!: mono)
    next
      case False
      with Cons show ?thesis by simp
    qed
  qed simp
qed


definition sample_host_scheduler :: "nat HostScheduler" where
  "sample_host_scheduler =
     \<lparr>hs_ListJobs = (\<lambda>f. Pair (Inr (if f_Kind f = ''migrate'' then [queued_job ''m'' 4 ''migrate'' '''' ''''] else []))),
      hs_Enqueue = (\<lambda>kind args parent n. (Inr (queued_job ''a'' 5 kind args parent), Suc n)),
      hs_Client = sample_prune_client, hs_Now = Pair 1000, hs_Encode = (\<lambda>p. Some (concat (ha_Host p # hp_Scope (ha_Policy p)))),
      hs_Decode = (\<lambda>_. None), hs_OverPct = (\<lambda>used total pct. pct * total \<le> 100 * used)\<rparr>"

definition sample_host_policies :: "HostPolicy list" where
  "sample_host_policies =
     [\<lparr>hl_Host = ''h1'', hl_Policy = sample_prune_policy\<rparr>, \<lparr>hl_Host = ''h2'', hl_Policy = sample_prune_policy\<lparr>hp_Enabled := False\<rparr>\<rparr>]"


end
