(* ===== verification/Backup_Store.thy ===== *)
theory Backup_Store
  imports Memory_Jobs Sqlite_Jobs
begin

text \<open>
  The backup rows of \<^verbatim>\<open>internal/store/backups.go\<close>: the interface \<^verbatim>\<open>BackupStore\<close> as a record of operations,
  its two implementations (\<^verbatim>\<open>memory.go\<close> and \<^verbatim>\<open>sqlite_backups.go\<close>), the abstract store both refine, a map
  from ids to backups, and the lifecycle of a backup under any sequence of operations. The clock is an
  argument of the operations that stamp a time.
\<close>

subsection \<open>The interface\<close>

record 's BackupStore =
  bs_CreateBackup :: "time \<Rightarrow> Backup \<Rightarrow> 's \<Rightarrow> unit result \<times> 's"
  bs_CompleteBackup :: "time \<Rightarrow> string \<Rightarrow> BackupVolume list \<Rightarrow> 's \<Rightarrow> bool result \<times> 's"
  bs_FailBackup :: "time \<Rightarrow> string \<Rightarrow> 's \<Rightarrow> bool result \<times> 's"
  bs_GetBackup :: "string \<Rightarrow> 's \<Rightarrow> Backup result \<times> 's"
  bs_ListBackups :: "string \<Rightarrow> string \<Rightarrow> string \<Rightarrow> int \<Rightarrow> 's \<Rightarrow> Backup list result \<times> 's"
  bs_DeleteBackup :: "string \<Rightarrow> 's \<Rightarrow> unit result \<times> 's"

subsection \<open>The in-memory backend\<close>

definition mem_CreateBackup :: "time \<Rightarrow> Backup \<Rightarrow> Memory \<Rightarrow> unit result \<times> Memory" where
  "mem_CreateBackup now b m =
     (case map_of (mem_backups m) (backup_ID b) of
        Some _ \<Rightarrow> (Inl (ErrExists (backup_ID b)), m)
      | None \<Rightarrow>
          (Inr (), m\<lparr>mem_backups := AList.update (backup_ID b)
             (b\<lparr>backup_State := BackupCreating, backup_Created := now, backup_Finished := 0\<rparr>) (mem_backups m)\<rparr>))"

definition mem_end_backup :: "(Backup \<Rightarrow> Backup) \<Rightarrow> string \<Rightarrow> Memory \<Rightarrow> bool result \<times> Memory" where
  "mem_end_backup f i m =
     (case map_of (mem_backups m) i of
        None \<Rightarrow> (Inr False, m)
      | Some b \<Rightarrow>
          if backup_State b \<noteq> BackupCreating then (Inr False, m)
          else (Inr True, m\<lparr>mem_backups := AList.update i (f b) (mem_backups m)\<rparr>))"

definition mem_CompleteBackup :: "time \<Rightarrow> string \<Rightarrow> BackupVolume list \<Rightarrow> Memory \<Rightarrow> bool result \<times> Memory" where
  "mem_CompleteBackup now i vols =
     mem_end_backup (\<lambda>b. b\<lparr>backup_State := BackupComplete, backup_Volumes := vols, backup_Finished := now\<rparr>) i"

definition mem_FailBackup :: "time \<Rightarrow> string \<Rightarrow> Memory \<Rightarrow> bool result \<times> Memory" where
  "mem_FailBackup now i = mem_end_backup (\<lambda>b. b\<lparr>backup_State := BackupFailed, backup_Finished := now\<rparr>) i"

definition mem_GetBackup :: "string \<Rightarrow> Memory \<Rightarrow> Backup result \<times> Memory" where
  "mem_GetBackup i m = (case map_of (mem_backups m) i of None \<Rightarrow> (Inl ErrNotFound, m) | Some b \<Rightarrow> (Inr b, m))"

definition of_instance :: "string \<Rightarrow> string \<Rightarrow> string \<Rightarrow> Backup \<Rightarrow> bool" where
  "of_instance host template slug b \<longleftrightarrow> backup_Host b = host \<and> backup_Template b = template \<and> backup_Slug b = slug"

definition backup_key :: "Backup \<Rightarrow> time \<times> string" where
  "backup_key b = (backup_Created b, backup_ID b)"

text \<open>\<^verbatim>\<open>sort.Slice\<close> by a strict total order on distinct elements.\<close>

definition mem_ListBackups :: "string \<Rightarrow> string \<Rightarrow> string \<Rightarrow> int \<Rightarrow> Memory \<Rightarrow> Backup list result \<times> Memory" where
  "mem_ListBackups host template slug limit m =
     (let matched = rev (sort_key backup_key (filter (of_instance host template slug) (map snd (mem_backups m))));
          n = nat (clampJobLimit limit)
      in (Inr (if n < length matched then take n matched else matched), m))"

definition mem_DeleteBackup :: "string \<Rightarrow> Memory \<Rightarrow> unit result \<times> Memory" where
  "mem_DeleteBackup i m =
     (case map_of (mem_backups m) i of
        None \<Rightarrow> (Inl ErrNotFound, m)
      | Some _ \<Rightarrow> (Inr (), m\<lparr>mem_backups := AList.delete i (mem_backups m)\<rparr>))"

definition MemoryBackups :: "Memory BackupStore" where
  "MemoryBackups =
     \<lparr>bs_CreateBackup = mem_CreateBackup, bs_CompleteBackup = mem_CompleteBackup, bs_FailBackup = mem_FailBackup,
      bs_GetBackup = mem_GetBackup, bs_ListBackups = mem_ListBackups, bs_DeleteBackup = mem_DeleteBackup\<rparr>"

subsection \<open>The SQLite backend\<close>

text \<open>\<^verbatim>\<open>COALESCE(finished, 0)\<close> and the zero test.\<close>

definition scanBackup :: "BackupRow \<Rightarrow> Backup" where
  "scanBackup r =
     (let finished = (case brow_finished r of None \<Rightarrow> 0 | Some n \<Rightarrow> n)
      in \<lparr>backup_ID = brow_id r, backup_Host = brow_host r, backup_Template = brow_template r, backup_Slug = brow_slug r,
          backup_State = brow_state r, backup_Volumes = brow_volumes r, backup_Image = brow_image r,
          backup_Mode = brow_mode r, backup_Created = time_Unix (brow_created r),
          backup_Finished = (if finished \<noteq> 0 then time_Unix finished else 0)\<rparr>)"

definition sql_CreateBackup :: "time \<Rightarrow> Backup \<Rightarrow> SQLite \<Rightarrow> unit result \<times> SQLite" where
  "sql_CreateBackup now b = sql_exec (\<lambda>s.
     if backup_ID b \<in> brow_id ` set (sql_backups s)
     then (Inl (ErrDriver ''UNIQUE constraint failed: backups.id''), s)
     else (Inr (), s\<lparr>sql_backups := sql_backups s @
       [\<lparr>brow_id = backup_ID b, brow_host = backup_Host b, brow_template = backup_Template b, brow_slug = backup_Slug b,
         brow_state = BackupCreating, brow_volumes = backup_Volumes b, brow_image = backup_Image b, brow_mode = backup_Mode b,
         brow_created = UnixNano now, brow_finished = None\<rparr>]\<rparr>))"

definition casBackupState :: "time \<Rightarrow> string \<Rightarrow> BackupState \<Rightarrow> BackupVolume list option \<Rightarrow> SQLite \<Rightarrow> bool result \<times> SQLite" where
  "casBackupState now i state volumes = sql_exec (\<lambda>s.
     case sql_update (\<lambda>r. brow_id r = i \<and> brow_state r = BackupCreating)
            (\<lambda>r. case volumes of
               Some vols \<Rightarrow> r\<lparr>brow_state := state, brow_volumes := vols, brow_finished := Some (UnixNano now)\<rparr>
             | None \<Rightarrow> r\<lparr>brow_state := state, brow_finished := Some (UnixNano now)\<rparr>) (sql_backups s) of
       (n, rows) \<Rightarrow> (Inr (n > 0), s\<lparr>sql_backups := rows\<rparr>))"

definition sql_CompleteBackup :: "time \<Rightarrow> string \<Rightarrow> BackupVolume list \<Rightarrow> SQLite \<Rightarrow> bool result \<times> SQLite" where
  "sql_CompleteBackup now i vols = casBackupState now i BackupComplete (Some vols)"

definition sql_FailBackup :: "time \<Rightarrow> string \<Rightarrow> SQLite \<Rightarrow> bool result \<times> SQLite" where
  "sql_FailBackup now i = casBackupState now i BackupFailed None"

definition sql_GetBackup :: "string \<Rightarrow> SQLite \<Rightarrow> Backup result \<times> SQLite" where
  "sql_GetBackup i = sql_exec (\<lambda>s.
     case find (\<lambda>r. brow_id r = i) (sql_backups s) of
       Some r \<Rightarrow> (Inr (scanBackup r), s)
     | None \<Rightarrow> (Inl ErrNotFound, s))"

definition sql_ListBackups :: "string \<Rightarrow> string \<Rightarrow> string \<Rightarrow> int \<Rightarrow> SQLite \<Rightarrow> Backup list result \<times> SQLite" where
  "sql_ListBackups host template slug limit = sql_exec (\<lambda>s.
     (Inr (map scanBackup (take (nat (clampJobLimit limit)) (rev (sort_key (\<lambda>r. (brow_created r, brow_id r))
        (filter (\<lambda>r. brow_host r = host \<and> brow_template r = template \<and> brow_slug r = slug) (sql_backups s)))))), s))"

definition sql_DeleteBackup :: "string \<Rightarrow> SQLite \<Rightarrow> unit result \<times> SQLite" where
  "sql_DeleteBackup i s =
     sql_then (sql_exec (\<lambda>s. case sql_delete (\<lambda>r. brow_id r = i) (sql_backups s) of (n, rows) \<Rightarrow> (Inr n, s\<lparr>sql_backups := rows\<rparr>)) s)
       (\<lambda>n s1. if n = 0 then (Inl ErrNotFound, s1) else (Inr (), s1))"

definition SQLiteBackups :: "SQLite BackupStore" where
  "SQLiteBackups =
     \<lparr>bs_CreateBackup = sql_CreateBackup, bs_CompleteBackup = sql_CompleteBackup, bs_FailBackup = sql_FailBackup,
      bs_GetBackup = sql_GetBackup, bs_ListBackups = sql_ListBackups, bs_DeleteBackup = sql_DeleteBackup\<rparr>"

subsection \<open>The abstract store\<close>

text \<open>A map from ids to backups, the operations on it, and what each answers.\<close>

type_synonym backupmap = "string \<rightharpoonup> Backup"

datatype backup_op =
    OpCreate time Backup
  | OpComplete time string "BackupVolume list"
  | OpFail time string
  | OpGet string
  | OpList string string string int
  | OpDelete string

datatype backup_answer =
    Done
  | Flag bool
  | Found Backup
  | Listed "Backup list"
  | Missing
  | Refused
  | Faulted

definition end_backup :: "(Backup \<Rightarrow> Backup) \<Rightarrow> string \<Rightarrow> backupmap \<Rightarrow> backup_answer \<times> backupmap" where
  "end_backup f i m =
     (case m i of
        Some b \<Rightarrow> if backup_State b = BackupCreating then (Flag True, m(i \<mapsto> f b)) else (Flag False, m)
      | None \<Rightarrow> (Flag False, m))"

definition newest_backups :: "string \<Rightarrow> string \<Rightarrow> string \<Rightarrow> int \<Rightarrow> backupmap \<Rightarrow> Backup list" where
  "newest_backups host template slug limit m =
     take (nat (clampJobLimit limit))
       (map (\<lambda>(_, i). the (m i)) (rev (sorted_list_of_set (backup_key ` {b \<in> ran m. of_instance host template slug b}))))"

fun abs_op :: "backup_op \<Rightarrow> backupmap \<Rightarrow> backup_answer \<times> backupmap" where
  "abs_op (OpCreate now b) m =
     (if m (backup_ID b) \<noteq> None then (Refused, m)
      else (Done, m(backup_ID b \<mapsto> b\<lparr>backup_State := BackupCreating, backup_Created := now, backup_Finished := 0\<rparr>)))"
| "abs_op (OpComplete now i vols) m =
     end_backup (\<lambda>b. b\<lparr>backup_State := BackupComplete, backup_Volumes := vols, backup_Finished := now\<rparr>) i m"
| "abs_op (OpFail now i) m = end_backup (\<lambda>b. b\<lparr>backup_State := BackupFailed, backup_Finished := now\<rparr>) i m"
| "abs_op (OpGet i) m = (case m i of None \<Rightarrow> (Missing, m) | Some b \<Rightarrow> (Found b, m))"
| "abs_op (OpList host template slug limit) m = (Listed (newest_backups host template slug limit m), m)"
| "abs_op (OpDelete i) m = (if m i = None then (Missing, m) else (Done, m(i := None)))"

text \<open>How an implementation's answer reads: an error of the driver is a fault.\<close>

definition answer :: "('a \<Rightarrow> backup_answer) \<Rightarrow> 'a result \<Rightarrow> backup_answer" where
  "answer f r =
     (case r of
        Inr x \<Rightarrow> f x
      | Inl e \<Rightarrow> (case e of ErrNotFound \<Rightarrow> Missing | ErrDriver _ \<Rightarrow> Faulted | _ \<Rightarrow> Refused))"

fun run_op :: "'s BackupStore \<Rightarrow> backup_op \<Rightarrow> 's \<Rightarrow> backup_answer \<times> 's" where
  "run_op bs (OpCreate now b) s = map_prod (answer (\<lambda>_. Done)) id (bs_CreateBackup bs now b s)"
| "run_op bs (OpComplete now i vols) s = map_prod (answer Flag) id (bs_CompleteBackup bs now i vols s)"
| "run_op bs (OpFail now i) s = map_prod (answer Flag) id (bs_FailBackup bs now i s)"
| "run_op bs (OpGet i) s = map_prod (answer Found) id (bs_GetBackup bs i s)"
| "run_op bs (OpList host template slug limit) s = map_prod (answer Listed) id (bs_ListBackups bs host template slug limit s)"
| "run_op bs (OpDelete i) s = map_prod (answer (\<lambda>_. Done)) id (bs_DeleteBackup bs i s)"

fun run_ops :: "'s BackupStore \<Rightarrow> backup_op list \<Rightarrow> 's \<Rightarrow> backup_answer list \<times> 's" where
  "run_ops bs [] s = ([], s)"
| "run_ops bs (op # ops) s = (case run_op bs op s of (a, s1) \<Rightarrow> case run_ops bs ops s1 of (as, s2) \<Rightarrow> (a # as, s2))"

text \<open>The abstract run that gives these answers; an operation that faulted did not happen.\<close>

fun abs_run :: "backup_op list \<Rightarrow> backup_answer list \<Rightarrow> backupmap \<Rightarrow> backupmap option" where
  "abs_run [] [] m = Some m"
| "abs_run (op # ops) (a # as) m =
     (if a = Faulted then abs_run ops as m
      else case abs_op op m of (a', m') \<Rightarrow> if a = a' then abs_run ops as m' else None)"
| "abs_run _ _ m = None"

text \<open>An instant of 1970 is the row's mark for no end; the code never sees one.\<close>

fun timely :: "backup_op \<Rightarrow> bool" where
  "timely (OpComplete now _ _) \<longleftrightarrow> now \<noteq> unix_epoch"
| "timely (OpFail now _) \<longleftrightarrow> now \<noteq> unix_epoch"
| "timely _ \<longleftrightarrow> True"

subsection \<open>The contract of a backup store\<close>

locale backup_store =
  fixes bs :: "'s BackupStore"
    and invar :: "'s \<Rightarrow> bool"
    and backups_of :: "'s \<Rightarrow> backupmap"
  assumes op_refines: "invar s \<Longrightarrow> timely op \<Longrightarrow> run_op bs op s = (a, s') \<Longrightarrow>
      invar s' \<and> (if a = Faulted then backups_of s' = backups_of s else abs_op op (backups_of s) = (a, backups_of s'))"
begin

lemma ops_refine:
  assumes "invar s" and "list_all timely ops" and "run_ops bs ops s = (answers, s')"
  shows "invar s' \<and> abs_run ops answers (backups_of s) = Some (backups_of s')"
  using assms
proof (induction ops arbitrary: s answers s')
  case (Cons op ops)
  obtain a s1 where op: "run_op bs op s = (a, s1)" by fastforce
  with Cons.prems(3) obtain as where ops: "run_ops bs ops s1 = (as, s')" "answers = a # as"
    by (auto split: prod.splits)
  from op_refines [OF Cons.prems(1) _ op] Cons.prems(2) have one: "invar s1"
    "if a = Faulted then backups_of s1 = backups_of s else abs_op op (backups_of s) = (a, backups_of s1)" by simp_all
  with Cons.IH [OF one(1) _ ops(1)] Cons.prems(2) ops(2) show ?case by (auto split: if_splits)
qed simp

end

subsection \<open>Both backends refine the abstract store\<close>

lemma newest_backups_list:
  assumes "distinct (map backup_ID xs)" and "ran m = set xs" and ids: "\<And>b. b \<in> set xs \<Longrightarrow> m (backup_ID b) = Some b"
  shows "newest_backups host template slug limit m =
    take (nat (clampJobLimit limit)) (rev (sort_key backup_key (filter (of_instance host template slug) xs)))"
proof -
  let ?ys = "sort_key backup_key (filter (of_instance host template slug) xs)"
  have "inj_on backup_key (set xs)" "distinct xs"
    using assms(1) by (auto simp: backup_key_def distinct_map inj_on_def)
  then have "distinct (map backup_key ?ys)" by (simp add: distinct_map inj_on_def)
  then have "sorted_list_of_set (set (map backup_key ?ys)) = map backup_key ?ys"
    by (simp only: sorted_list_of_set_sort_remdups distinct_remdups_id sorted_sort_id sorted_sort_key)
  moreover have "set (map backup_key ?ys) = backup_key ` {b \<in> ran m. of_instance host template slug b}"
    using assms(2) by auto
  moreover have "map (\<lambda>(_, i). the (m i)) (map backup_key ?ys) = ?ys"
    by (auto simp: backup_key_def ids intro!: map_idI)
  ultimately show ?thesis by (simp add: newest_backups_def rev_map [symmetric])
qed

definition mem_backups_ok :: "Memory \<Rightarrow> bool" where
  "mem_backups_ok m \<longleftrightarrow> distinct (map fst (mem_backups m)) \<and> (\<forall>(i, b) \<in> set (mem_backups m). backup_ID b = i)"

definition sql_backups_ok :: "SQLite \<Rightarrow> bool" where
  "sql_backups_ok s \<longleftrightarrow> distinct (map brow_id (sql_backups s))"

definition mem_backups_of :: "Memory \<Rightarrow> backupmap" where
  "mem_backups_of m = map_of (mem_backups m)"

definition sql_backups_of :: "SQLite \<Rightarrow> backupmap" where
  "sql_backups_of s i = map_option scanBackup (key_map brow_id (sql_backups s) i)"

lemmas backup_defs =
  mem_CreateBackup_def mem_end_backup_def mem_CompleteBackup_def mem_FailBackup_def mem_GetBackup_def mem_ListBackups_def
  mem_DeleteBackup_def MemoryBackups_def

lemma mem_backups_okD:
  assumes "mem_backups_ok m"
  shows "map_of (mem_backups m) i = Some b \<Longrightarrow> backup_ID b = i" and "distinct (map backup_ID (map snd (mem_backups m)))"
    and "ran (map_of (mem_backups m)) = set (map snd (mem_backups m))"
    and "b \<in> set (map snd (mem_backups m)) \<Longrightarrow> map_of (mem_backups m) (backup_ID b) = Some b"
proof -
  have ids: "map backup_ID (map snd (mem_backups m)) = map fst (mem_backups m)"
    using assms by (auto simp: mem_backups_ok_def)
  with assms show "distinct (map backup_ID (map snd (mem_backups m)))" unfolding mem_backups_ok_def by (simp only: ids)
  show "map_of (mem_backups m) i = Some b \<Longrightarrow> backup_ID b = i"
    using assms by (auto simp: mem_backups_ok_def dest!: map_of_SomeD)
  show "ran (map_of (mem_backups m)) = set (map snd (mem_backups m))"
    using assms by (simp add: mem_backups_ok_def ran_distinct)
  show "b \<in> set (map snd (mem_backups m)) \<Longrightarrow> map_of (mem_backups m) (backup_ID b) = Some b"
    using assms by (auto simp: mem_backups_ok_def)
qed

lemma set_update_subset: "set (AList.update i b xs) \<subseteq> insert (i, b) (set xs)"
  by (induction xs) auto

lemma mem_backups_ok_update:
  assumes "mem_backups_ok m" and "backup_ID b = i"
  shows "mem_backups_ok (m\<lparr>mem_backups := AList.update i b (mem_backups m)\<rparr>)"
proof -
  have "set (AList.update i b (mem_backups m)) \<subseteq> insert (i, b) (set (mem_backups m))"
    by (rule set_update_subset)
  then show ?thesis using assms by (auto simp: mem_backups_ok_def distinct_update)
qed

lemma mem_backups_ok_delete: "mem_backups_ok m \<Longrightarrow> mem_backups_ok (m\<lparr>mem_backups := AList.delete i (mem_backups m)\<rparr>)"
  by (auto simp: mem_backups_ok_def AList.delete_eq distinct_map_filter)

lemma mem_newest:
  assumes "mem_backups_ok m"
  shows "newest_backups host template slug limit (map_of (mem_backups m)) =
    take (nat (clampJobLimit limit)) (rev (sort_key backup_key (filter (of_instance host template slug) (map snd (mem_backups m)))))"
  by (rule newest_backups_list [OF mem_backups_okD(2-4) [OF assms]])

lemma mem_backup_op:
  assumes "mem_backups_ok m" and "run_op MemoryBackups op m = (a, m')"
  shows "mem_backups_ok m' \<and> a \<noteq> Faulted \<and> abs_op op (mem_backups_of m) = (a, mem_backups_of m')"
proof (cases op)
  case (OpCreate now b)
  with assms show ?thesis
    by (auto simp: backup_defs answer_def mem_backups_of_def update_conv' mem_backups_ok_update split: option.splits)
next
  case (OpComplete now i vols)
  with assms show ?thesis
    by (auto simp: backup_defs answer_def mem_backups_of_def end_backup_def update_conv' mem_backups_okD(1)
        intro!: mem_backups_ok_update split: option.splits if_splits)
next
  case (OpFail now i)
  with assms show ?thesis
    by (auto simp: backup_defs answer_def mem_backups_of_def end_backup_def update_conv' mem_backups_okD(1)
        intro!: mem_backups_ok_update split: option.splits if_splits)
next
  case (OpGet i)
  with assms show ?thesis by (auto simp: backup_defs answer_def mem_backups_of_def split: option.splits)
next
  case (OpList host template slug limit)
  with assms show ?thesis
    by (auto simp: backup_defs answer_def mem_backups_of_def Let_def mem_newest simp del: filter_map)
next
  case (OpDelete i)
  with assms show ?thesis
    by (auto simp: backup_defs answer_def mem_backups_of_def delete_conv' mem_backups_ok_delete split: option.splits)
qed

interpretation mem_b: backup_store MemoryBackups mem_backups_ok mem_backups_of
  by unfold_locales (use mem_backup_op in auto)

lemma scanBackup_fields [simp]:
  "backup_ID (scanBackup r) = brow_id r" "backup_State (scanBackup r) = brow_state r"
  by (simp_all add: scanBackup_def Let_def)

lemma scanBackup_end:
  assumes "now \<noteq> unix_epoch"
  shows "scanBackup (r\<lparr>brow_state := st, brow_volumes := vols, brow_finished := Some (UnixNano now)\<rparr>) =
      scanBackup r\<lparr>backup_State := st, backup_Volumes := vols, backup_Finished := now\<rparr>"
    and "scanBackup (r\<lparr>brow_state := st, brow_finished := Some (UnixNano now)\<rparr>) =
      scanBackup r\<lparr>backup_State := st, backup_Finished := now\<rparr>"
  using assms by (simp_all add: scanBackup_def UnixNano_def time_Unix_def Let_def)

lemma sql_backup_update:
  assumes ok: "sql_backups_ok s" and upd: "\<And>r. brow_id (f r) = brow_id r" "\<And>r. scanBackup (f r) = g (scanBackup r)"
    and run: "sql_update (\<lambda>r. brow_id r = i \<and> brow_state r = BackupCreating) f (sql_backups s) = (n, rows)"
  shows "sql_backups_ok (s\<lparr>sql_backups := rows\<rparr>)"
    and "end_backup g i (sql_backups_of s) = (Flag (0 < n), sql_backups_of (s\<lparr>sql_backups := rows\<rparr>))"
proof -
  let ?P = "\<lambda>r. brow_id r = i \<and> brow_state r = BackupCreating"
  let ?f = "\<lambda>r. if brow_state r = BackupCreating then f r else r"
  have rows: "rows = map (\<lambda>r. if brow_id r = i then ?f r else r) (sql_backups s)" and n: "n = length (filter ?P (sql_backups s))"
    using run by (auto simp: sql_update_def)
  show "sql_backups_ok (s\<lparr>sql_backups := rows\<rparr>)" 
    using ok upd(1) unfolding sql_backups_ok_def rows by (simp add: o_def if_distrib [of brow_id] cong: if_cong)
  have "key_map brow_id rows = (case key_map brow_id (sql_backups s) i of
      None \<Rightarrow> key_map brow_id (sql_backups s) | Some r \<Rightarrow> (key_map brow_id (sql_backups s))(i \<mapsto> ?f r))"
    unfolding rows using ok upd(1) by (intro key_map_upd_key) (simp_all add: sql_backups_ok_def)
  moreover have "n = (case key_map brow_id (sql_backups s) i of None \<Rightarrow> 0 | Some r \<Rightarrow> if brow_state r = BackupCreating then 1 else 0)"
    unfolding n using ok by (intro length_filter_key) (simp add: sql_backups_ok_def)
  ultimately show "end_backup g i (sql_backups_of s) = (Flag (0 < n), sql_backups_of (s\<lparr>sql_backups := rows\<rparr>))"
    by (cases "key_map brow_id (sql_backups s) i") (auto simp: end_backup_def sql_backups_of_def upd(2) fun_eq_iff)
qed

lemma sql_newest:
  assumes "sql_backups_ok s"
  shows "map scanBackup (take (nat (clampJobLimit limit)) (rev (sort_key (\<lambda>r. (brow_created r, brow_id r))
      (filter (\<lambda>r. brow_host r = host \<and> brow_template r = template \<and> brow_slug r = slug) (sql_backups s))))) =
    newest_backups host template slug limit (sql_backups_of s)"
proof -
  let ?rows = "filter (\<lambda>r. brow_host r = host \<and> brow_template r = template \<and> brow_slug r = slug) (sql_backups s)"
  have "sort_key backup_key (map scanBackup ?rows) = map scanBackup (sort_key (\<lambda>r. (brow_created r, brow_id r)) ?rows)"
    by (rule sort_key_map_mono) (auto simp: backup_key_def scanBackup_def Let_def)
  moreover have "filter (of_instance host template slug) (map scanBackup (sql_backups s)) = map scanBackup ?rows"
    by (simp add: filter_map o_def of_instance_def scanBackup_def Let_def)
  moreover have "ran (sql_backups_of s) = set (map scanBackup (sql_backups s))"
    using assms by (force simp: ran_def sql_backups_of_def sql_backups_ok_def key_map_Some)
  moreover have "distinct (map backup_ID (map scanBackup (sql_backups s)))"
    using assms by (simp add: sql_backups_ok_def o_def)
  moreover have "b \<in> set (map scanBackup (sql_backups s)) \<Longrightarrow> sql_backups_of s (backup_ID b) = Some b" for b
    using assms by (auto simp: sql_backups_of_def sql_backups_ok_def key_map_Some)
  ultimately show ?thesis using newest_backups_list [of "map scanBackup (sql_backups s)"]
    by (simp add: rev_map take_map)
qed

lemma sql_backups_tables:
  assumes "sql_tables s1 = sql_tables s"
  shows "sql_backups_ok s1 = sql_backups_ok s" and "sql_backups_of s1 = sql_backups_of s"
  using assms by (auto simp: sql_backups_ok_def sql_backups_of_def fun_eq_iff dest: sql_tables_eqD)

lemma sql_create_backup:
  assumes "sql_backups_ok s" and "backup_ID b \<notin> brow_id ` set (sql_backups s)"
    and "row = \<lparr>brow_id = backup_ID b, brow_host = backup_Host b, brow_template = backup_Template b, brow_slug = backup_Slug b,
      brow_state = BackupCreating, brow_volumes = backup_Volumes b, brow_image = backup_Image b, brow_mode = backup_Mode b,
      brow_created = UnixNano now, brow_finished = None\<rparr>"
  shows "sql_backups_ok (s\<lparr>sql_backups := sql_backups s @ [row]\<rparr>)"
    and "abs_op (OpCreate now b) (sql_backups_of s) = (Done, sql_backups_of (s\<lparr>sql_backups := sql_backups s @ [row]\<rparr>))"
proof -
  have row: "brow_id row = backup_ID b"
    "scanBackup row = b\<lparr>backup_State := BackupCreating, backup_Created := now, backup_Finished := 0\<rparr>"
    using assms(3) by (simp_all add: scanBackup_def)
  with assms(1,2) show "sql_backups_ok (s\<lparr>sql_backups := sql_backups s @ [row]\<rparr>)" by (auto simp: sql_backups_ok_def)
  have "key_map brow_id (sql_backups s @ [row]) = (key_map brow_id (sql_backups s))(backup_ID b \<mapsto> row)"
    using assms(2) row(1) by (simp add: key_map_append_fresh)
  with assms(2) row(2)
  show "abs_op (OpCreate now b) (sql_backups_of s) = (Done, sql_backups_of (s\<lparr>sql_backups := sql_backups s @ [row]\<rparr>))"
    by (auto simp: sql_backups_of_def key_map_None fun_eq_iff)
qed

lemma sql_delete_backup:
  assumes "sql_backups_ok s" and "sql_delete (\<lambda>r. brow_id r = i) (sql_backups s) = (n, rows)"
  shows "sql_backups_ok (s\<lparr>sql_backups := rows\<rparr>)"
    and "abs_op (OpDelete i) (sql_backups_of s) = (if n = 0 then Missing else Done, sql_backups_of (s\<lparr>sql_backups := rows\<rparr>))"
proof -
  have rows: "rows = filter (\<lambda>r. brow_id r \<noteq> i) (sql_backups s)" and n: "n = length (filter (\<lambda>r. brow_id r = i) (sql_backups s))"
    using assms(2) by (auto simp: sql_delete_def)
  show "sql_backups_ok (s\<lparr>sql_backups := rows\<rparr>)" using assms(1) by (simp add: sql_backups_ok_def rows distinct_map_filter)
  have "key_map brow_id rows = (key_map brow_id (sql_backups s))(i := None)"
    using assms(1) unfolding rows sql_backups_ok_def
    by (auto simp: key_map_filter fun_eq_iff dest: key_map_SomeD split: option.splits)
  moreover have "n = 0 \<longleftrightarrow> key_map brow_id (sql_backups s) i = None"
    unfolding n by (auto simp: key_map_None filter_empty_conv)
  ultimately show "abs_op (OpDelete i) (sql_backups_of s) = (if n = 0 then Missing else Done, sql_backups_of (s\<lparr>sql_backups := rows\<rparr>))"
    by (auto simp: sql_backups_of_def fun_eq_iff)
qed

text \<open>
  What an operation on the tables of \<^term>\<open>s\<close> gave: a fault that left them, or the abstract operation. With no
  fault of the driver pending, only a duplicate id is one.
\<close>

definition backup_step :: "backup_op \<Rightarrow> SQLite \<Rightarrow> backup_answer \<times> SQLite \<Rightarrow> bool" where
  "backup_step op s r =
     (case r of (a, s') \<Rightarrow>
        sql_backups_ok s' \<and> a \<noteq> Refused \<and> (sql_verdicts s = [] \<longrightarrow> sql_verdicts s' = []) \<and>
        (if a = Faulted
         then sql_backups_of s' = sql_backups_of s \<and> (sql_verdicts s = [] \<longrightarrow> fst (abs_op op (sql_backups_of s)) = Refused)
         else abs_op op (sql_backups_of s) = (a, sql_backups_of s')))"

lemma backup_step_exec:
  assumes ok: "sql_backups_ok s"
    and stmt: "\<And>s1. sql_tables s1 = sql_tables s \<Longrightarrow> sql_backups_ok s1 \<Longrightarrow> backup_step op s1 (map_prod (answer f) id (stmt s1))"
  shows "backup_step op s (map_prod (answer f) id (sql_exec stmt s))"
proof (cases "sql_verdicts s")
  case Nil
  with ok stmt show ?thesis by (simp add: sql_exec_no_fault)
next
  case (Cons v vs)
  show ?thesis
  proof (cases rule: sql_exec_tables [of stmt s])
    case (fail e s1)
    with ok Cons sql_backups_tables [OF fail(2)] show ?thesis by (simp add: backup_step_def answer_def)
  next
    case (run s1)
    with ok Cons sql_backups_tables [OF run(2)] stmt [OF run(2)] show ?thesis
      by (auto simp: backup_step_def split: prod.splits if_splits)
  qed
qed

lemma cas_backup_step:
  assumes ok: "sql_backups_ok s" and op: "\<And>m. abs_op op m = end_backup g i m"
    and f: "\<And>r. brow_id (f r) = brow_id r" "\<And>r. scanBackup (f r) = g (scanBackup r)"
  shows "backup_step op s (map_prod (answer Flag) id (sql_exec (\<lambda>s.
      case sql_update (\<lambda>r. brow_id r = i \<and> brow_state r = BackupCreating) f (sql_backups s) of
        (n, rows) \<Rightarrow> (Inr (n > 0), s\<lparr>sql_backups := rows\<rparr>)) s))"
proof (rule backup_step_exec [OF ok])
  fix s1
  assume "sql_backups_ok s1"
  with sql_backup_update [OF _ f]
  show "backup_step op s1 (map_prod (answer Flag) id (case sql_update (\<lambda>r. brow_id r = i \<and> brow_state r = BackupCreating) f (sql_backups s1) of
        (n, rows) \<Rightarrow> (Inr (n > 0), s1\<lparr>sql_backups := rows\<rparr>)))"
    by (auto simp: backup_step_def answer_def op split: prod.split)
qed

lemma sql_then_exec: "sql_then (sql_exec stmt s) k = sql_exec (\<lambda>s. sql_then (stmt s) k) s"
  by (simp add: sql_exec_def sql_then_def split: prod.split option.split)

lemma sql_backup_op:
  assumes ok: "sql_backups_ok s" and "timely op"
  shows "backup_step op s (run_op SQLiteBackups op s)"
proof (cases op)
  case (OpCreate now b)
  show ?thesis unfolding OpCreate SQLiteBackups_def sql_CreateBackup_def run_op.simps BackupStore.simps
  proof (rule backup_step_exec [OF ok])
    fix s1
    assume ok1: "sql_backups_ok s1"
    let ?stmt = "\<lambda>s. if backup_ID b \<in> brow_id ` set (sql_backups s)
      then (Inl (ErrDriver ''UNIQUE constraint failed: backups.id''), s)
      else (Inr (), s\<lparr>sql_backups := sql_backups s @
       [\<lparr>brow_id = backup_ID b, brow_host = backup_Host b, brow_template = backup_Template b, brow_slug = backup_Slug b,
         brow_state = BackupCreating, brow_volumes = backup_Volumes b, brow_image = backup_Image b, brow_mode = backup_Mode b,
         brow_created = UnixNano now, brow_finished = None\<rparr>]\<rparr>)"
    show "backup_step (OpCreate now b) s1 (map_prod (answer (\<lambda>_. Done)) id (?stmt s1))"
    proof (cases "backup_ID b \<in> brow_id ` set (sql_backups s1)")
      case True
      then have "sql_backups_of s1 (backup_ID b) \<noteq> None" by (simp add: sql_backups_of_def key_map_None)
      with True ok1 show ?thesis by (simp add: backup_step_def answer_def)
    next
      case False
      from sql_create_backup [OF ok1 False refl] False show ?thesis by (simp add: backup_step_def answer_def)
    qed
  qed
next
  case (OpComplete now i vols)
  with assms(2) show ?thesis
    by (simp add: SQLiteBackups_def sql_CompleteBackup_def casBackupState_def)
      (rule cas_backup_step [OF ok], simp_all add: scanBackup_end)
next
  case (OpFail now i)
  with assms(2) show ?thesis
    by (simp add: SQLiteBackups_def sql_FailBackup_def casBackupState_def)
      (rule cas_backup_step [OF ok], simp_all add: scanBackup_end)
next
  case (OpGet i)
  show ?thesis unfolding OpGet SQLiteBackups_def sql_GetBackup_def run_op.simps BackupStore.simps
    by (rule backup_step_exec [OF ok])
      (simp add: backup_step_def answer_def sql_backups_of_def sql_backups_ok_def find_key_map split: option.split)
next
  case (OpList host template slug limit)
  show ?thesis unfolding OpList SQLiteBackups_def sql_ListBackups_def run_op.simps BackupStore.simps
    by (rule backup_step_exec [OF ok]) (simp add: backup_step_def answer_def sql_newest)
next
  case (OpDelete i)
  show ?thesis unfolding OpDelete SQLiteBackups_def sql_DeleteBackup_def run_op.simps BackupStore.simps sql_then_exec
    by (rule backup_step_exec [OF ok])
      (auto simp: backup_step_def answer_def sql_then_def sql_delete_backup simp del: abs_op.simps split: prod.split)
qed

interpretation sql_b: backup_store SQLiteBackups sql_backups_ok sql_backups_of
  by unfold_locales (use sql_backup_op in \<open>fastforce simp: backup_step_def\<close>)

lemma mem_no_fault: "mem_backups_ok m \<Longrightarrow> run_ops MemoryBackups ops m = (as, m') \<Longrightarrow> Faulted \<notin> set as"
proof (induction ops arbitrary: m as)
  case (Cons op ops)
  obtain a m1 where "run_op MemoryBackups op m = (a, m1)" by fastforce
  with Cons mem_backup_op [OF Cons.prems(1)] show ?case by (fastforce split: prod.splits)
qed simp

definition unique_error :: "backup_answer \<Rightarrow> backup_answer" where
  "unique_error a = (if a = Refused then Faulted else a)"

lemma backup_ops_agree:
  assumes "mem_backups_ok m" and "sql_backups_ok s" and "sql_verdicts s = []" and "sql_backups_of s = mem_backups_of m"
    and "list_all timely ops" and "run_ops MemoryBackups ops m = (ma, m')" and "run_ops SQLiteBackups ops s = (sa, s')"
  shows "sa = map unique_error ma \<and> sql_backups_of s' = mem_backups_of m'"
  using assms
proof (induction ops arbitrary: m s ma sa)
  case (Cons op ops)
  obtain a m1 b s1 where ops: "run_op MemoryBackups op m = (a, m1)" "run_op SQLiteBackups op s = (b, s1)" by fastforce
  from mem_backup_op [OF Cons.prems(1) ops(1)]
  have mem: "mem_backups_ok m1" "a \<noteq> Faulted" "abs_op op (mem_backups_of m) = (a, mem_backups_of m1)" by auto
  from sql_backup_op [of s op] Cons.prems have "backup_step op s (b, s1)" by (simp add: ops)
  with mem Cons.prems(3,4) have step: "b = unique_error a" "sql_backups_ok s1" "sql_verdicts s1 = []"
    "sql_backups_of s1 = (if a = Refused then sql_backups_of s else mem_backups_of m1)"
    by (auto simp: backup_step_def unique_error_def split: if_splits)
  moreover have "a = Refused \<Longrightarrow> mem_backups_of m1 = mem_backups_of m"
    using mem(3) by (cases op) (auto simp: end_backup_def split: option.splits if_splits)
  ultimately have "sql_backups_of s1 = mem_backups_of m1" using Cons.prems(4) by simp
  with Cons.IH [OF mem(1) step(2,3)] Cons.prems(5-7) ops step(1) show ?case
    by (auto split: prod.splits)
qed simp

subsection \<open>An ended backup stays as it ended\<close>

lemma abs_op_final:
  assumes "abs_op op m = (a, m')" and "m i = Some b" and "backup_State b \<noteq> BackupCreating" and "op \<noteq> OpDelete i"
  shows "m' i = Some b"
  using assms by (cases op) (auto simp: end_backup_def split: if_splits option.splits)

lemma abs_run_final:
  assumes "abs_run ops as m = Some m'" and "m i = Some b" and "backup_State b \<noteq> BackupCreating" and "OpDelete i \<notin> set ops"
  shows "m' i = Some b"
  using assms by (induction ops as m rule: abs_run.induct) (auto split: if_splits prod.splits dest: abs_op_final)


definition sample_backup :: Backup where
  "sample_backup =
     \<lparr>backup_ID = ''b1'', backup_Host = ''h1'', backup_Template = ''web'', backup_Slug = ''a'', backup_State = BackupCreating,
      backup_Volumes = [], backup_Image = ''img'', backup_Mode = ''stop'', backup_Created = 0, backup_Finished = 0\<rparr>"

definition sample_backup_ops :: "backup_op list" where
  "sample_backup_ops =
     [OpCreate 5 sample_backup, OpCreate 6 sample_backup, OpComplete 7 ''b1'' [], OpFail 8 ''b1'', OpGet ''b1'', OpDelete ''b1'',
      OpGet ''b1'']"

lemma empty_backups_ok: "mem_backups_ok NewMemory" "sql_backups_ok empty_db" "sql_backups_of empty_db = mem_backups_of NewMemory"
  by (simp_all add: mem_backups_ok_def sql_backups_ok_def sql_backups_of_def mem_backups_of_def NewMemory_def empty_db_def fun_eq_iff)

lemma sample_backup_ops_run:
  "fst (run_ops MemoryBackups sample_backup_ops NewMemory) =
     [Done, Refused, Flag True, Flag False,
      Found (sample_backup\<lparr>backup_State := BackupComplete, backup_Created := 5, backup_Finished := 7\<rparr>), Done, Missing]"
  by (simp add: sample_backup_ops_def sample_backup_def backup_defs answer_def NewMemory_def)

lemma sample_backup_ops_timely: "list_all timely sample_backup_ops"
  by (simp add: sample_backup_ops_def unix_epoch_def second_def)


text \<open>C32. A backup that ended, complete or failed, keeps its row, its volumes and its times through every sequence
  of operations on the SQLite store that does not delete it, whatever fails in the driver.
\<close>

theorem ended_backup_kept:
  assumes "sql_backups_ok s" and "list_all timely ops" and "run_ops SQLiteBackups ops s = (answers, s')"
    and "sql_backups_of s i = Some b" and "backup_State b \<noteq> BackupCreating" and "OpDelete i \<notin> set ops"
  shows "sql_backups_of s' i = Some b"
  using sql_b.ops_refine [OF assms(1-3)] abs_run_final assms(4-6) by blast

definition ended_db :: SQLite where
  "ended_db = snd (run_ops SQLiteBackups [OpCreate 5 sample_backup, OpComplete 7 ''b1'' []] empty_db)"

lemma ended_db_backup:
  "sql_backups_ok ended_db"
  "sql_backups_of ended_db ''b1'' = Some (sample_backup\<lparr>backup_State := BackupComplete, backup_Created := 5, backup_Finished := 7\<rparr>)"
  using sql_b.ops_refine [OF empty_backups_ok(2) _ surjective_pairing, of "[OpCreate 5 sample_backup, OpComplete 7 ''b1'' []]"]
  by (simp_all add: ended_db_def sql_backups_ok_def sql_backups_of_def empty_db_def SQLiteBackups_def sql_CreateBackup_def
      sql_CompleteBackup_def casBackupState_def sql_exec_no_fault sql_update_def sample_backup_def scanBackup_def answer_def
      unix_epoch_def second_def UnixNano_def time_Unix_def)

theorem ended_backup_kept_witness:
  "sql_backups_of (snd (run_ops SQLiteBackups [OpFail 9 ''b1'', OpCreate 10 sample_backup] ended_db)) ''b1'' =
     Some (sample_backup\<lparr>backup_State := BackupComplete, backup_Created := 5, backup_Finished := 7\<rparr>)"
  using ended_backup_kept [OF ended_db_backup(1) _ surjective_pairing ended_db_backup(2),
      of "[OpFail 9 ''b1'', OpCreate 10 sample_backup]"]
  by (simp add: unix_epoch_def second_def)

end
