(* ===== verification/Spec_Store.thy ===== *)
theory Spec_Store
  imports Memory_Jobs Sqlite_Jobs
begin

text \<open>
  The specs, host secrets and templates of the store (\<^verbatim>\<open>store.go\<close>, \<^verbatim>\<open>template.go\<close>): sealing
  (\<^verbatim>\<open>crypto.go\<close>), the SQLite operations (\<^verbatim>\<open>sqlite.go\<close>) and the in-memory ones (\<^verbatim>\<open>memory.go\<close>), the
  rename of a host included. AES-GCM and the JSON encoding of the columns are parameters, a record
  \<open>Codec\<close>; what the code relies on, that each decodes what it encoded, is a hypothesis of the round trip.
  The clock and the random nonces are arguments.
\<close>

subsection \<open>Sealing\<close>

record Codec =
  gcm_Seal :: "string \<Rightarrow> string \<Rightarrow> string \<Rightarrow> string"
  gcm_Open :: "string \<Rightarrow> string \<Rightarrow> string \<Rightarrow> string + string"
  enc_params :: "(string \<times> json) list \<Rightarrow> string"
  dec_params :: "string \<Rightarrow> string + (string \<times> json) list"
  enc_secrets :: "(string \<times> string) list \<Rightarrow> string"
  dec_secrets :: "string \<Rightarrow> string + (string \<times> string) list"
  enc_injector :: "InjectorSecret list \<Rightarrow> string"
  dec_injector :: "string \<Rightarrow> string + InjectorSecret list"
  enc_strings :: "string list \<Rightarrow> string"
  dec_strings :: "string \<Rightarrow> string + string list"
  enc_markers :: "(string \<times> AppliedVolumeMarker) list \<Rightarrow> string"
  dec_markers :: "string \<Rightarrow> string + (string \<times> AppliedVolumeMarker) list"
  enc_networks :: "Network list \<Rightarrow> string"
  dec_networks :: "string \<Rightarrow> string + Network list"
  enc_meta :: "Meta \<Rightarrow> string"
  dec_meta :: "string \<Rightarrow> string + Meta"

definition NonceSize :: nat where
  "NonceSize = 12"

definition Overhead :: nat where
  "Overhead = 16"

text \<open>\<open>rand\<close> is what reading the nonce from \<^verbatim>\<open>rand.Reader\<close> gives.\<close>

definition seal :: "Codec \<Rightarrow> string \<Rightarrow> string + string \<Rightarrow> string \<Rightarrow> string result" where
  "seal c key rand plaintext =
     (case rand of Inl e \<Rightarrow> Inl (ErrDriver e) | Inr nonce \<Rightarrow> Inr (nonce @ gcm_Seal c key nonce plaintext))"

definition gcm_unseal :: "Codec \<Rightarrow> string \<Rightarrow> string \<Rightarrow> string + string" where
  "gcm_unseal c key blob =
     (if length blob < NonceSize + Overhead then Inl ''store: ciphertext too short''
      else gcm_Open c key (take NonceSize blob) (drop NonceSize blob))"

subsection \<open>Specs in SQLite\<close>

text \<open>\<^verbatim>\<open>time.Now().Unix()\<close> and \<^verbatim>\<open>time.Unix(s, 0)\<close>.\<close>

definition time_Seconds :: "time \<Rightarrow> int" where
  "time_Seconds t = UnixNano t div second"

definition of_Seconds :: "int \<Rightarrow> time" where
  "of_Seconds n = time_Unix (n * second)"

text \<open>\<^verbatim>\<open>INSERT \<dots> ON CONFLICT(key) DO UPDATE\<close>: \<open>merge old new\<close> is the row kept on a conflict.\<close>

definition sql_upsert :: "('r \<Rightarrow> 'k) \<Rightarrow> ('r \<Rightarrow> 'r \<Rightarrow> 'r) \<Rightarrow> 'r \<Rightarrow> 'r list \<Rightarrow> 'r list" where
  "sql_upsert k merge row rows =
     (if k row \<in> k ` set rows then map (\<lambda>r. if k r = k row then merge r row else r) rows else rows @ [row])"

definition srow_key :: "SpecRow \<Rightarrow> string \<times> string \<times> string" where
  "srow_key r = (srow_host r, srow_template r, srow_slug r)"

definition spec_key :: "Spec \<Rightarrow> string \<times> string \<times> string" where
  "spec_key sp = (spec_Host sp, spec_Template sp, spec_Slug sp)"

definition jsonOrNull :: "('a \<Rightarrow> string) \<Rightarrow> 'a option \<Rightarrow> string option" where
  "jsonOrNull enc v = map_option enc v"

definition unmarshalNullable :: "(string \<Rightarrow> string + 'a) \<Rightarrow> string \<Rightarrow> string option \<Rightarrow> 'a option result" where
  "unmarshalNullable dec column raw =
     (case raw of
        None \<Rightarrow> Inr None
      | Some text \<Rightarrow> (case dec text of Inl e \<Rightarrow> Inl (ErrSpecCorrupt (column @ '': '' @ e)) | Inr v \<Rightarrow> Inr (Some v)))"

text \<open>A sealed column: \<^verbatim>\<open>nil\<close> for an empty field, else the key is needed.\<close>

definition seal_field :: "Codec \<Rightarrow> string option \<Rightarrow> string + string \<Rightarrow> ('a list \<Rightarrow> string) \<Rightarrow> 'a list \<Rightarrow> string option result" where
  "seal_field c keys rand enc xs =
     (if 0 < length xs then
        case keys of
          None \<Rightarrow> Inl ErrSecretsNeedKey
        | Some key \<Rightarrow> (case seal c key rand (enc xs) of Inl e \<Rightarrow> Inl e | Inr blob \<Rightarrow> Inr (Some blob))
      else Inr None)"

definition open_field :: "Codec \<Rightarrow> string option \<Rightarrow> (string \<Rightarrow> string + 'a list) \<Rightarrow> string \<Rightarrow> string option \<Rightarrow> 'a list result" where
  "open_field c keys dec column blob =
     (case blob of
        None \<Rightarrow> Inr []
      | Some b \<Rightarrow>
          if 0 < length b then
            case keys of
              None \<Rightarrow> Inl ErrSecretsNeedKey
            | Some key \<Rightarrow>
                (case gcm_unseal c key b of
                   Inl e \<Rightarrow> Inl (ErrSecretsUndecryptable (''decrypt '' @ column @ '': '' @ e))
                 | Inr text \<Rightarrow> (case dec text of Inl e \<Rightarrow> Inl (ErrSpecCorrupt (column @ '': '' @ e)) | Inr xs \<Rightarrow> Inr xs))
          else Inr [])"

definition merge_spec :: "SpecRow \<Rightarrow> SpecRow \<Rightarrow> SpecRow" where
  "merge_spec old new = new\<lparr>srow_created := srow_created old\<rparr>"

definition sql_PutSpec :: "Codec \<Rightarrow> time \<Rightarrow> string + string \<Rightarrow> string + string \<Rightarrow> Spec \<Rightarrow> SQLite \<Rightarrow> unit result \<times> SQLite" where
  "sql_PutSpec c now rand1 rand2 sp s =
     (case seal_field c (sql_keys s) rand1 (enc_secrets c) (spec_Secrets sp) of
        Inl e \<Rightarrow> (Inl e, s)
      | Inr blob \<Rightarrow>
        (case seal_field c (sql_keys s) rand2 (enc_injector c) (spec_InjectorSecrets sp) of
           Inl e \<Rightarrow> (Inl e, s)
         | Inr injBlob \<Rightarrow>
             sql_exec (\<lambda>s. (Inr (), s\<lparr>sql_specs := sql_upsert srow_key merge_spec
               \<lparr>srow_host = spec_Host sp, srow_template = spec_Template sp, srow_slug = spec_Slug sp,
                srow_parameters = enc_params c (spec_Parameters sp), srow_secrets = blob, srow_injector_secrets = injBlob,
                srow_domains = enc_strings c (spec_Domains sp),
                srow_applied_volumes = jsonOrNull (enc_strings c) (spec_AppliedVolumes sp),
                srow_applied_volume_meta = jsonOrNull (enc_markers c) (spec_AppliedVolumeMeta sp),
                srow_applied_networks = jsonOrNull (enc_networks c) (spec_AppliedNetworks sp),
                srow_created = time_Seconds now, srow_updated = time_Seconds now\<rparr> (sql_specs s)\<rparr>)) s))"

definition decode_spec :: "Codec \<Rightarrow> string option \<Rightarrow> SpecRow \<Rightarrow> Spec result" where
  "decode_spec c keys r =
     (case dec_params c (srow_parameters r) of
        Inl e \<Rightarrow> Inl (ErrSpecCorrupt (''parameters: '' @ e))
      | Inr params \<Rightarrow>
     (case open_field c keys (dec_secrets c) ''secrets'' (srow_secrets r) of
        Inl e \<Rightarrow> Inl e
      | Inr secrets \<Rightarrow>
     (case open_field c keys (dec_injector c) ''injector_secrets'' (srow_injector_secrets r) of
        Inl e \<Rightarrow> Inl e
      | Inr injectorSecrets \<Rightarrow>
     (case dec_strings c (srow_domains r) of
        Inl e \<Rightarrow> Inl (ErrSpecCorrupt (''domains: '' @ e))
      | Inr domains \<Rightarrow>
     (case unmarshalNullable (dec_strings c) ''applied_volumes'' (srow_applied_volumes r) of
        Inl e \<Rightarrow> Inl e
      | Inr appliedVolumes \<Rightarrow>
     (case unmarshalNullable (dec_markers c) ''applied_volume_meta'' (srow_applied_volume_meta r) of
        Inl e \<Rightarrow> Inl e
      | Inr appliedVolumeMeta \<Rightarrow>
     (case unmarshalNullable (dec_networks c) ''applied_networks'' (srow_applied_networks r) of
        Inl e \<Rightarrow> Inl e
      | Inr appliedNetworks \<Rightarrow>
          Inr \<lparr>spec_Host = srow_host r, spec_Template = srow_template r, spec_Slug = srow_slug r,
               spec_Parameters = params, spec_Secrets = secrets, spec_InjectorSecrets = injectorSecrets,
               spec_Domains = domains, spec_AppliedVolumes = appliedVolumes, spec_AppliedVolumeMeta = appliedVolumeMeta,
               spec_AppliedNetworks = appliedNetworks, spec_Created = of_Seconds (srow_created r),
               spec_Updated = of_Seconds (srow_updated r)\<rparr>)))))))"

definition sql_GetSpec :: "Codec \<Rightarrow> string \<Rightarrow> string \<Rightarrow> string \<Rightarrow> SQLite \<Rightarrow> Spec result \<times> SQLite" where
  "sql_GetSpec c host template slug = sql_exec (\<lambda>s.
     case find (\<lambda>r. srow_key r = (host, template, slug)) (sql_specs s) of
       None \<Rightarrow> (Inl ErrNotFound, s)
     | Some r \<Rightarrow> (decode_spec c (sql_keys s) r, s))"

definition sql_DeleteSpec :: "string \<Rightarrow> string \<Rightarrow> string \<Rightarrow> SQLite \<Rightarrow> unit result \<times> SQLite" where
  "sql_DeleteSpec host template slug s =
     sql_then (sql_exec (\<lambda>s. case sql_delete (\<lambda>r. srow_key r = (host, template, slug)) (sql_specs s) of
         (n, rows) \<Rightarrow> (Inr n, s\<lparr>sql_specs := rows\<rparr>)) s)
       (\<lambda>n s1. if n = 0 then (Inl ErrNotFound, s1) else (Inr (), s1))"

definition specs_on :: "string \<Rightarrow> SQLite \<Rightarrow> SpecRow list" where
  "specs_on host s =
     sort_key (\<lambda>r. (srow_template r, srow_slug r)) (filter (\<lambda>r. srow_host r = host) (sql_specs s))"

definition sql_ListSpecKeys :: "string \<Rightarrow> SQLite \<Rightarrow> SpecKey list result \<times> SQLite" where
  "sql_ListSpecKeys host = sql_exec (\<lambda>s.
     (Inr (map (\<lambda>r. \<lparr>key_Template = srow_template r, key_Slug = srow_slug r\<rparr>) (specs_on host s)), s))"

fun scan_networks :: "Codec \<Rightarrow> SpecRow list \<Rightarrow> SpecNetworks list result" where
  "scan_networks c [] = Inr []"
| "scan_networks c (r # rows) =
     (case unmarshalNullable (dec_networks c) ''applied_networks'' (srow_applied_networks r) of
        Inl e \<Rightarrow> Inl e
      | Inr nets \<Rightarrow>
          (case scan_networks c rows of
             Inl e \<Rightarrow> Inl e
           | Inr out \<Rightarrow> Inr (\<lparr>sn_Key = \<lparr>key_Template = srow_template r, key_Slug = srow_slug r\<rparr>, sn_Networks = nets\<rparr> # out)))"

definition sql_ListSpecNetworks :: "Codec \<Rightarrow> string \<Rightarrow> SQLite \<Rightarrow> SpecNetworks list result \<times> SQLite" where
  "sql_ListSpecNetworks c host = sql_exec (\<lambda>s. (scan_networks c (specs_on host s), s))"

subsection \<open>Host secrets in SQLite\<close>

definition hrow_key :: "HostSecretRow \<Rightarrow> string \<times> string" where
  "hrow_key r = (hrow_host r, hrow_name r)"

definition sql_PutHostSecret :: "Codec \<Rightarrow> time \<Rightarrow> string + string \<Rightarrow> string \<Rightarrow> string \<Rightarrow> string \<Rightarrow> SQLite \<Rightarrow> unit result \<times> SQLite" where
  "sql_PutHostSecret c now rand host name value s =
     (case sql_keys s of
        None \<Rightarrow> (Inl ErrSecretsNeedKey, s)
      | Some key \<Rightarrow>
          (case seal c key rand value of
             Inl e \<Rightarrow> (Inl e, s)
           | Inr blob \<Rightarrow>
               sql_exec (\<lambda>s. (Inr (), s\<lparr>sql_host_secrets :=
                 sql_upsert hrow_key (\<lambda>old new. old\<lparr>hrow_value := hrow_value new, hrow_updated := hrow_updated new\<rparr>)
                   \<lparr>hrow_host = host, hrow_name = name, hrow_value = blob,
                    hrow_created = time_Seconds now, hrow_updated = time_Seconds now\<rparr> (sql_host_secrets s)\<rparr>)) s))"

definition sql_GetHostSecret :: "Codec \<Rightarrow> string \<Rightarrow> string \<Rightarrow> SQLite \<Rightarrow> string result \<times> SQLite" where
  "sql_GetHostSecret c host name s =
     (case sql_keys s of
        None \<Rightarrow> (Inl ErrSecretsNeedKey, s)
      | Some key \<Rightarrow>
          sql_then (sql_exec (\<lambda>s.
             case find (\<lambda>r. hrow_key r = (host, name)) (sql_host_secrets s) of
               None \<Rightarrow> (Inl ErrNotFound, s)
             | Some r \<Rightarrow> (Inr (hrow_value r), s)) s)
           (\<lambda>blob s1. case gcm_unseal c key blob of
               Inl e \<Rightarrow> (Inl (ErrSecretsUndecryptable (''decrypt host secret: '' @ e)), s1)
             | Inr val \<Rightarrow> (Inr val, s1)))"

definition sql_DeleteHostSecret :: "string \<Rightarrow> string \<Rightarrow> SQLite \<Rightarrow> unit result \<times> SQLite" where
  "sql_DeleteHostSecret host name = sql_exec (\<lambda>s.
     (Inr (), s\<lparr>sql_host_secrets := snd (sql_delete (\<lambda>r. hrow_key r = (host, name)) (sql_host_secrets s))\<rparr>))"

definition sql_SecretsEnabled :: "SQLite \<Rightarrow> bool" where
  "sql_SecretsEnabled s \<longleftrightarrow> sql_keys s \<noteq> None"

subsection \<open>Renaming a host in SQLite\<close>

text \<open>One statement per count; each may fail in the driver.\<close>

definition refuse_if :: "(SQLite \<Rightarrow> bool) \<Rightarrow> store_error \<Rightarrow> SQLite \<Rightarrow> unit result \<times> SQLite" where
  "refuse_if P e = sql_exec (\<lambda>s. if P s then (Inl e, s) else (Inr (), s))"

definition hostRenameChecks :: "string \<Rightarrow> string \<Rightarrow> SQLite \<Rightarrow> unit result \<times> SQLite" where
  "hostRenameChecks oldID newID s =
     sql_then (refuse_if (\<lambda>s. 0 < length (filter (\<lambda>r. srow_host r = newID) (sql_specs s))) ErrHostRenameConflict s) (\<lambda>_ s.
     sql_then (refuse_if (\<lambda>s. 0 < length (filter (\<lambda>r. hrow_host r = newID) (sql_host_secrets s))) ErrHostRenameConflict s) (\<lambda>_ s.
     sql_then (refuse_if (\<lambda>s. 0 < length (filter (\<lambda>r. brow_host r = newID) (sql_backups s))) ErrHostRenameConflict s) (\<lambda>_ s.
       refuse_if (\<lambda>s. 0 < length (filter (\<lambda>r. brow_host r = oldID) (sql_backups s))) ErrHostRenameHasBackups s)))"

definition sql_CheckHostRename :: "string \<Rightarrow> string \<Rightarrow> SQLite \<Rightarrow> unit result \<times> SQLite" where
  "sql_CheckHostRename = hostRenameChecks"

text \<open>\<^verbatim>\<open>UPDATE t SET host = newID WHERE host = oldID\<close>; a row that would take another's primary key fails it.\<close>

definition rehost :: "('r \<Rightarrow> string) \<Rightarrow> ((string \<Rightarrow> string) \<Rightarrow> 'r \<Rightarrow> 'r) \<Rightarrow> string \<Rightarrow> string \<Rightarrow> 'r list \<Rightarrow> 'r list" where
  "rehost host upd oldID newID rows = map (\<lambda>r. if host r = oldID then upd (\<lambda>_. newID) r else r) rows"

definition unique_or_fail :: "('r \<Rightarrow> 'k) \<Rightarrow> 'r list \<Rightarrow> SQLite \<Rightarrow> SQLite \<Rightarrow> unit result \<times> SQLite" where
  "unique_or_fail k rows s s' = (if distinct (map k rows) then (Inr (), s') else (Inl (ErrDriver ''UNIQUE constraint failed''), s))"

definition rename_moves :: "string \<Rightarrow> string \<Rightarrow> SQLite \<Rightarrow> unit result \<times> SQLite" where
  "rename_moves oldID newID s =
     sql_then (sql_exec (\<lambda>s.
        let rows = rehost srow_host srow_host_update oldID newID (sql_specs s)
        in unique_or_fail srow_key rows s (s\<lparr>sql_specs := rows\<rparr>)) s) (\<lambda>_ s.
     sql_then (sql_exec (\<lambda>s.
        let rows = rehost hrow_host hrow_host_update oldID newID (sql_host_secrets s)
        in unique_or_fail hrow_key rows s (s\<lparr>sql_host_secrets := rows\<rparr>)) s) (\<lambda>_ s.
       sql_exec (\<lambda>s. (Inr (), s\<lparr>sql_backups := rehost brow_host brow_host_update oldID newID (sql_backups s)\<rparr>)) s))"

definition sql_RenameHost :: "string \<Rightarrow> string \<Rightarrow> SQLite \<Rightarrow> unit result \<times> SQLite" where
  "sql_RenameHost oldID newID = sql_tx (\<lambda>s. sql_then (hostRenameChecks oldID newID s) (\<lambda>_. rename_moves oldID newID))"

subsection \<open>Templates in SQLite\<close>

definition scanTemplate :: "Codec \<Rightarrow> TemplateRow \<Rightarrow> Template result" where
  "scanTemplate c r =
     (case dec_meta c (trow_meta r) of
        Inl e \<Rightarrow> Inl (ErrDriver (''template '' @ trow_id r @ '': decode meta: '' @ e))
      | Inr meta \<Rightarrow> Inr \<lparr>tmpl_Meta = meta, tmpl_Body = trow_body r, tmpl_Origin = trow_origin r,
          tmpl_Created = of_Seconds (trow_created r), tmpl_Updated = of_Seconds (trow_updated r)\<rparr>)"

fun scan_templates :: "Codec \<Rightarrow> TemplateRow list \<Rightarrow> Template list result" where
  "scan_templates c [] = Inr []"
| "scan_templates c (r # rows) =
     (case scanTemplate c r of
        Inl e \<Rightarrow> Inl e
      | Inr t \<Rightarrow> (case scan_templates c rows of Inl e \<Rightarrow> Inl e | Inr out \<Rightarrow> Inr (t # out)))"

definition sql_ListTemplates :: "Codec \<Rightarrow> SQLite \<Rightarrow> Template list result \<times> SQLite" where
  "sql_ListTemplates c = sql_exec (\<lambda>s. (scan_templates c (sort_key trow_id (sql_templates s)), s))"

definition sql_GetTemplate :: "Codec \<Rightarrow> string \<Rightarrow> SQLite \<Rightarrow> Template result \<times> SQLite" where
  "sql_GetTemplate c i = sql_exec (\<lambda>s.
     case find (\<lambda>r. trow_id r = i) (sql_templates s) of
       None \<Rightarrow> (Inl ErrNotFound, s)
     | Some r \<Rightarrow> (scanTemplate c r, s))"

definition sql_PutTemplate :: "Codec \<Rightarrow> time \<Rightarrow> Template \<Rightarrow> SQLite \<Rightarrow> unit result \<times> SQLite" where
  "sql_PutTemplate c now t = sql_exec (\<lambda>s.
     (Inr (), s\<lparr>sql_templates := sql_upsert trow_id (\<lambda>old new. new\<lparr>trow_created := trow_created old\<rparr>)
        \<lparr>trow_id = meta_ID (tmpl_Meta t), trow_body = tmpl_Body t, trow_meta = enc_meta c (tmpl_Meta t),
         trow_origin = tmpl_Origin t, trow_created = time_Seconds now, trow_updated = time_Seconds now\<rparr> (sql_templates s)\<rparr>))"

definition sql_DeleteTemplate :: "string \<Rightarrow> SQLite \<Rightarrow> unit result \<times> SQLite" where
  "sql_DeleteTemplate i = sql_exec (\<lambda>s.
     (Inr (), s\<lparr>sql_templates := snd (sql_delete (\<lambda>r. trow_id r = i) (sql_templates s))\<rparr>))"

definition sql_CountTemplates :: "SQLite \<Rightarrow> nat result \<times> SQLite" where
  "sql_CountTemplates = sql_exec (\<lambda>s. (Inr (length (sql_templates s)), s))"

subsection \<open>The in-memory backend\<close>

definition memKey :: "string \<Rightarrow> string \<Rightarrow> string \<Rightarrow> string" where
  "memKey host template slug = host @ ''|'' @ template @ ''|'' @ slug"

definition secretKey :: "string \<Rightarrow> string \<Rightarrow> string" where
  "secretKey host name = host @ [CHR 0x00] @ name"

definition mem_PutSpec :: "Spec \<Rightarrow> Memory \<Rightarrow> unit result \<times> Memory" where
  "mem_PutSpec sp m =
     (case mem_PutErr m of
        Some e \<Rightarrow> (Inl e, m)
      | None \<Rightarrow> (Inr (), m\<lparr>mem_specs := AList.update (memKey (spec_Host sp) (spec_Template sp) (spec_Slug sp)) sp (mem_specs m)\<rparr>))"

definition mem_GetSpec :: "string \<Rightarrow> string \<Rightarrow> string \<Rightarrow> Memory \<Rightarrow> Spec result \<times> Memory" where
  "mem_GetSpec host template slug m =
     (case mem_getSpecErr m of
        Some e \<Rightarrow> (Inl e, m)
      | None \<Rightarrow> (case map_of (mem_specs m) (memKey host template slug) of None \<Rightarrow> (Inl ErrNotFound, m) | Some sp \<Rightarrow> (Inr sp, m)))"

definition mem_DeleteSpec :: "string \<Rightarrow> string \<Rightarrow> string \<Rightarrow> Memory \<Rightarrow> unit result \<times> Memory" where
  "mem_DeleteSpec host template slug m =
     (case mem_DeleteErr m of
        Some e \<Rightarrow> (Inl e, m)
      | None \<Rightarrow>
          let k = memKey host template slug
          in (case map_of (mem_specs m) k of
                None \<Rightarrow> (Inl ErrNotFound, m)
              | Some _ \<Rightarrow> (Inr (), m\<lparr>mem_specs := AList.delete k (mem_specs m)\<rparr>)))"

definition mem_ListSpecKeys :: "string \<Rightarrow> Memory \<Rightarrow> SpecKey list result \<times> Memory" where
  "mem_ListSpecKeys host m =
     (case mem_ListSpecKeysErr m of
        Some e \<Rightarrow> (Inl e, m)
      | None \<Rightarrow> (Inr (map (\<lambda>sp. \<lparr>key_Template = spec_Template sp, key_Slug = spec_Slug sp\<rparr>)
          (filter (\<lambda>sp. spec_Host sp = host) (map snd (mem_specs m)))), m))"

definition mem_ListSpecNetworks :: "string \<Rightarrow> Memory \<Rightarrow> SpecNetworks list result \<times> Memory" where
  "mem_ListSpecNetworks host m =
     (case mem_ListSpecKeysErr m of
        Some e \<Rightarrow> (Inl e, m)
      | None \<Rightarrow> (Inr (map (\<lambda>sp. \<lparr>sn_Key = \<lparr>key_Template = spec_Template sp, key_Slug = spec_Slug sp\<rparr>,
            sn_Networks = spec_AppliedNetworks sp\<rparr>) (filter (\<lambda>sp. spec_Host sp = host) (map snd (mem_specs m)))), m))"

definition mem_PutHostSecret :: "string \<Rightarrow> string \<Rightarrow> string \<Rightarrow> Memory \<Rightarrow> unit result \<times> Memory" where
  "mem_PutHostSecret host name value m =
     (case mem_PutErr m of
        Some e \<Rightarrow> (Inl e, m)
      | None \<Rightarrow> (Inr (), m\<lparr>mem_hostSecrets := AList.update (secretKey host name) value (mem_hostSecrets m)\<rparr>))"

definition mem_GetHostSecret :: "string \<Rightarrow> string \<Rightarrow> Memory \<Rightarrow> string result \<times> Memory" where
  "mem_GetHostSecret host name m =
     (case map_of (mem_hostSecrets m) (secretKey host name) of None \<Rightarrow> (Inl ErrNotFound, m) | Some v \<Rightarrow> (Inr v, m))"

definition mem_DeleteHostSecret :: "string \<Rightarrow> string \<Rightarrow> Memory \<Rightarrow> unit result \<times> Memory" where
  "mem_DeleteHostSecret host name m =
     (case mem_DeleteErr m of
        Some e \<Rightarrow> (Inl e, m)
      | None \<Rightarrow> (Inr (), m\<lparr>mem_hostSecrets := AList.delete (secretKey host name) (mem_hostSecrets m)\<rparr>))"

text \<open>\<^verbatim>\<open>strings.Cut(key, "\x00")\<close>: \<open>None\<close> when there is no separator.\<close>

definition CutNul :: "string \<Rightarrow> (string \<times> string) option" where
  "CutNul key =
     (if CHR 0x00 \<in> set key then Some (takeWhile (\<lambda>x. x \<noteq> CHR 0x00) key, drop 1 (dropWhile (\<lambda>x. x \<noteq> CHR 0x00) key)) else None)"

definition hostRenameChecksLocked :: "string \<Rightarrow> string \<Rightarrow> Memory \<Rightarrow> store_error option" where
  "hostRenameChecksLocked oldID newID m =
     (if list_ex (\<lambda>(_, sp). spec_Host sp = newID) (mem_specs m) then Some ErrHostRenameConflict
      else if list_ex (\<lambda>(key, _). case CutNul key of Some (host, _) \<Rightarrow> host = newID | None \<Rightarrow> False) (mem_hostSecrets m)
      then Some ErrHostRenameConflict
      else if list_ex (\<lambda>(_, b). backup_Host b = newID) (mem_backups m) then Some ErrHostRenameConflict
      else if list_ex (\<lambda>(_, b). backup_Host b = oldID) (mem_backups m) then Some ErrHostRenameHasBackups
      else None)"

definition mem_CheckHostRename :: "string \<Rightarrow> string \<Rightarrow> Memory \<Rightarrow> unit result \<times> Memory" where
  "mem_CheckHostRename oldID newID m =
     (case hostRenameChecksLocked oldID newID m of Some e \<Rightarrow> (Inl e, m) | None \<Rightarrow> (Inr (), m))"

text \<open>One pass over each map; an entry a pass inserted does not have the old host and is skipped if visited.\<close>

definition move_spec :: "string \<Rightarrow> string \<Rightarrow> string \<times> Spec \<Rightarrow> (string \<times> Spec) list \<Rightarrow> (string \<times> Spec) list" where
  "move_spec oldID newID entry specs =
     (case entry of (key, sp) \<Rightarrow>
        if spec_Host sp \<noteq> oldID then specs
        else AList.update (memKey newID (spec_Template sp) (spec_Slug sp)) (sp\<lparr>spec_Host := newID\<rparr>) (AList.delete key specs))"

definition move_secret :: "string \<Rightarrow> string \<Rightarrow> string \<times> string \<Rightarrow> (string \<times> string) list \<Rightarrow> (string \<times> string) list" where
  "move_secret oldID newID entry secrets =
     (case entry of (key, v) \<Rightarrow>
        (case CutNul key of
           None \<Rightarrow> secrets
         | Some (host, name) \<Rightarrow>
             if host \<noteq> oldID then secrets else AList.update (secretKey newID name) v (AList.delete key secrets)))"

definition mem_RenameHost :: "string \<Rightarrow> string \<Rightarrow> Memory \<Rightarrow> unit result \<times> Memory" where
  "mem_RenameHost oldID newID m =
     (case hostRenameChecksLocked oldID newID m of
        Some e \<Rightarrow> (Inl e, m)
      | None \<Rightarrow>
          (Inr (), m\<lparr>mem_specs := fold (move_spec oldID newID) (mem_specs m) (mem_specs m),
            mem_hostSecrets := fold (move_secret oldID newID) (mem_hostSecrets m) (mem_hostSecrets m),
            mem_backups := map (\<lambda>(i, b). (i, if backup_Host b = oldID then b\<lparr>backup_Host := newID\<rparr> else b)) (mem_backups m)\<rparr>))"

definition mem_ListTemplates :: "Memory \<Rightarrow> Template list result \<times> Memory" where
  "mem_ListTemplates m = (Inr (sort_key (\<lambda>t. meta_ID (tmpl_Meta t)) (map snd (mem_templates m))), m)"

definition mem_GetTemplate :: "string \<Rightarrow> Memory \<Rightarrow> Template result \<times> Memory" where
  "mem_GetTemplate i m = (case map_of (mem_templates m) i of None \<Rightarrow> (Inl ErrNotFound, m) | Some t \<Rightarrow> (Inr t, m))"

definition mem_PutTemplate :: "time \<Rightarrow> Template \<Rightarrow> Memory \<Rightarrow> unit result \<times> Memory" where
  "mem_PutTemplate now t m =
     (let i = meta_ID (tmpl_Meta t);
          created = (case map_of (mem_templates m) i of Some existing \<Rightarrow> tmpl_Created existing | None \<Rightarrow> now)
      in (Inr (), m\<lparr>mem_templates := AList.update i (t\<lparr>tmpl_Created := created, tmpl_Updated := now\<rparr>) (mem_templates m)\<rparr>))"

definition mem_DeleteTemplate :: "string \<Rightarrow> Memory \<Rightarrow> unit result \<times> Memory" where
  "mem_DeleteTemplate i m = (Inr (), m\<lparr>mem_templates := AList.delete i (mem_templates m)\<rparr>)"

definition mem_CountTemplates :: "Memory \<Rightarrow> nat result \<times> Memory" where
  "mem_CountTemplates m = (Inr (length (mem_templates m)), m)"

subsection \<open>What is stored under a key\<close>

definition spec_at :: "SQLite \<Rightarrow> string \<times> string \<times> string \<Rightarrow> SpecRow option" where
  "spec_at s = key_map srow_key (sql_specs s)"

definition secret_at :: "SQLite \<Rightarrow> string \<times> string \<Rightarrow> HostSecretRow option" where
  "secret_at s = key_map hrow_key (sql_host_secrets s)"

definition sql_store_ok :: "SQLite \<Rightarrow> bool" where
  "sql_store_ok s \<longleftrightarrow> distinct (map srow_key (sql_specs s)) \<and> distinct (map hrow_key (sql_host_secrets s))"

lemma distinct_sql_upsert:
  assumes "distinct (map k rows)" and "\<And>r. k r = k row \<Longrightarrow> k (merge r row) = k row"
  shows "distinct (map k (sql_upsert k merge row rows))"
proof -
  have "map k (map (\<lambda>r. if k r = k row then merge r row else r) rows) = map k rows" using assms(2) by simp
  with assms(1) have "distinct (map k (map (\<lambda>r. if k r = k row then merge r row else r) rows))" by (simp only:)
  with assms(1) show ?thesis by (simp add: sql_upsert_def del: map_map)
qed

lemma key_map_sql_upsert:
  assumes "distinct (map k rows)" and key: "\<And>r. k r = k row \<Longrightarrow> k (merge r row) = k row"
  shows "key_map k (sql_upsert k merge row rows) =
    (key_map k rows)(k row \<mapsto> (case key_map k rows (k row) of None \<Rightarrow> row | Some old \<Rightarrow> merge old row))"
proof (cases "k row \<in> k ` set rows")
  case True
  let ?f = "\<lambda>r. if k r = k row then merge r row else r"
  have "key_map k (map ?f rows) = (case key_map k rows (k row) of None \<Rightarrow> key_map k rows | Some x \<Rightarrow> (key_map k rows)(k row \<mapsto> ?f x))"
    using key_map_upd_key [of k rows ?f "k row"] assms by (simp cong: if_cong)
  with True show ?thesis
    using key_map_None [of k rows "k row"] by (auto simp: sql_upsert_def split: option.splits dest: key_map_SomeD)
next
  case False
  then show ?thesis using key_map_None [of k rows "k row"] by (simp add: sql_upsert_def key_map_append_fresh)
qed

subsection \<open>A spec reads back as it was written\<close>

text \<open>
  What the round trip needs of the libraries, for the values at hand: \<^verbatim>\<open>json.Unmarshal\<close> gives back what
  \<^verbatim>\<open>json.Marshal\<close> was given, and \<^verbatim>\<open>gcm.Open\<close> gives back what \<^verbatim>\<open>gcm.Seal\<close> sealed under the same
  key and nonce, the seal adding the overhead.
\<close>

definition json_roundtrips :: "Codec \<Rightarrow> Spec \<Rightarrow> bool" where
  "json_roundtrips c sp \<longleftrightarrow>
     dec_params c (enc_params c (spec_Parameters sp)) = Inr (spec_Parameters sp) \<and>
     dec_secrets c (enc_secrets c (spec_Secrets sp)) = Inr (spec_Secrets sp) \<and>
     dec_injector c (enc_injector c (spec_InjectorSecrets sp)) = Inr (spec_InjectorSecrets sp) \<and>
     dec_strings c (enc_strings c (spec_Domains sp)) = Inr (spec_Domains sp) \<and>
     pred_option (\<lambda>v. dec_strings c (enc_strings c v) = Inr v) (spec_AppliedVolumes sp) \<and>
     pred_option (\<lambda>v. dec_markers c (enc_markers c v) = Inr v) (spec_AppliedVolumeMeta sp) \<and>
     pred_option (\<lambda>v. dec_networks c (enc_networks c v) = Inr v) (spec_AppliedNetworks sp)"

definition gcm_roundtrips :: "Codec \<Rightarrow> string \<Rightarrow> string \<Rightarrow> string \<Rightarrow> bool" where
  "gcm_roundtrips c key nonce text \<longleftrightarrow>
     length nonce = NonceSize \<and> length (gcm_Seal c key nonce text) = length text + Overhead \<and>
     gcm_Open c key nonce (gcm_Seal c key nonce text) = Inr text"

lemma gcm_unseal_seal:
  assumes "gcm_roundtrips c key nonce text" and "seal c key (Inr nonce) text = Inr blob"
  shows "gcm_unseal c key blob = Inr text" and "0 < length blob"
  using assms by (auto simp: gcm_roundtrips_def seal_def gcm_unseal_def NonceSize_def)

lemma open_seal_field:
  assumes "xs \<noteq> [] \<Longrightarrow> keys \<noteq> None" and "gcm_roundtrips c (the keys) nonce (enc xs)" and "dec (enc xs) = Inr xs"
  obtains blob where "seal_field c keys (Inr nonce) enc xs = Inr blob" and "open_field c keys dec column blob = Inr xs"
    and "xs \<noteq> [] \<Longrightarrow> open_field c None dec column blob = Inl ErrSecretsNeedKey"
    and "\<And>key' e. xs \<noteq> [] \<Longrightarrow> gcm_Open c key' nonce (gcm_Seal c (the keys) nonce (enc xs)) = Inl e \<Longrightarrow>
      open_field c (Some key') dec column blob = Inl (ErrSecretsUndecryptable (''decrypt '' @ column @ '': '' @ e))"
proof (cases "xs = []")
  case True
  then show thesis by (intro that [of None]) (simp_all add: seal_field_def open_field_def)
next
  case False
  with assms(1) obtain key where key: "keys = Some key" by auto
  obtain blob where blob: "seal c key (Inr nonce) (enc xs) = Inr blob" by (simp add: seal_def)
  with False key assms(2,3) gcm_unseal_seal [of c key nonce "enc xs" blob] show thesis
    by (intro that [of "Some blob"]) (auto simp: seal_field_def open_field_def seal_def gcm_unseal_def gcm_roundtrips_def)
qed

lemma unmarshalNullable_jsonOrNull [simp]:
  "pred_option (\<lambda>v. dec (enc v) = Inr v) v \<Longrightarrow> unmarshalNullable dec column (jsonOrNull enc v) = Inr v"
  by (cases v) (simp_all add: unmarshalNullable_def jsonOrNull_def)

definition get_spec :: "Codec \<Rightarrow> SQLite \<Rightarrow> string \<times> string \<times> string \<Rightarrow> Spec result" where
  "get_spec c s k = (case k of (host, template, slug) \<Rightarrow> fst (sql_GetSpec c host template slug s))"

lemma get_spec_at:
  assumes "sql_store_ok s" and "sql_verdicts s = []"
  shows "get_spec c s k = (case spec_at s k of None \<Rightarrow> Inl ErrNotFound | Some r \<Rightarrow> decode_spec c (sql_keys s) r)"
  using assms by (cases k) (simp add: get_spec_def sql_GetSpec_def sql_exec_no_fault find_key_map spec_at_def sql_store_ok_def split: option.split)

text \<open>When a spec was first written: the time its row has, or now.\<close>

definition first_written :: "time \<Rightarrow> SQLite \<Rightarrow> string \<times> string \<times> string \<Rightarrow> int" where
  "first_written now s k = (case spec_at s k of None \<Rightarrow> time_Seconds now | Some r \<Rightarrow> srow_created r)"

lemma put_spec_row:
  assumes ok: "sql_store_ok s" "sql_verdicts s = []"
    and keys: "spec_Secrets sp \<noteq> [] \<or> spec_InjectorSecrets sp \<noteq> [] \<Longrightarrow> sql_keys s \<noteq> None"
    and json: "json_roundtrips c sp"
    and gcm: "gcm_roundtrips c (the (sql_keys s)) n1 (enc_secrets c (spec_Secrets sp))"
      "gcm_roundtrips c (the (sql_keys s)) n2 (enc_injector c (spec_InjectorSecrets sp))"
  obtains row rows where "sql_PutSpec c now (Inr n1) (Inr n2) sp s = (Inr (), s\<lparr>sql_specs := rows\<rparr>)"
    and "distinct (map srow_key rows)" and "key_map srow_key rows = (spec_at s)(spec_key sp \<mapsto> row)"
    and "decode_spec c (sql_keys s) row =
      Inr (sp\<lparr>spec_Created := of_Seconds (first_written now s (spec_key sp)), spec_Updated := of_Seconds (time_Seconds now)\<rparr>)"
    and "spec_Secrets sp \<noteq> [] \<Longrightarrow> decode_spec c None row = Inl ErrSecretsNeedKey"
    and "\<And>key' e. spec_Secrets sp \<noteq> [] \<Longrightarrow>
      gcm_Open c key' n1 (gcm_Seal c (the (sql_keys s)) n1 (enc_secrets c (spec_Secrets sp))) = Inl e \<Longrightarrow>
      decode_spec c (Some key') row = Inl (ErrSecretsUndecryptable (''decrypt secrets: '' @ e))"
proof -
  from open_seal_field [of "spec_Secrets sp" "sql_keys s" c n1 "enc_secrets c" "dec_secrets c" "''secrets''"] keys json gcm(1)
  obtain b1 where b1: "seal_field c (sql_keys s) (Inr n1) (enc_secrets c) (spec_Secrets sp) = Inr b1"
    "open_field c (sql_keys s) (dec_secrets c) ''secrets'' b1 = Inr (spec_Secrets sp)"
    "spec_Secrets sp \<noteq> [] \<Longrightarrow> open_field c None (dec_secrets c) ''secrets'' b1 = Inl ErrSecretsNeedKey"
    "\<And>key' e. spec_Secrets sp \<noteq> [] \<Longrightarrow>
      gcm_Open c key' n1 (gcm_Seal c (the (sql_keys s)) n1 (enc_secrets c (spec_Secrets sp))) = Inl e \<Longrightarrow>
      open_field c (Some key') (dec_secrets c) ''secrets'' b1 = Inl (ErrSecretsUndecryptable (''decrypt secrets: '' @ e))"
    by (auto simp: json_roundtrips_def)
  obtain b2 where b2: "seal_field c (sql_keys s) (Inr n2) (enc_injector c) (spec_InjectorSecrets sp) = Inr b2"
    "open_field c (sql_keys s) (dec_injector c) ''injector_secrets'' b2 = Inr (spec_InjectorSecrets sp)"
    by (rule open_seal_field [of "spec_InjectorSecrets sp" "sql_keys s" c n2 "enc_injector c" "dec_injector c" "''injector_secrets''"])
      (use keys json gcm(2) in \<open>simp_all add: json_roundtrips_def\<close>)
  define row where "row = \<lparr>srow_host = spec_Host sp, srow_template = spec_Template sp, srow_slug = spec_Slug sp,
    srow_parameters = enc_params c (spec_Parameters sp), srow_secrets = b1, srow_injector_secrets = b2,
    srow_domains = enc_strings c (spec_Domains sp),
    srow_applied_volumes = jsonOrNull (enc_strings c) (spec_AppliedVolumes sp),
    srow_applied_volume_meta = jsonOrNull (enc_markers c) (spec_AppliedVolumeMeta sp),
    srow_applied_networks = jsonOrNull (enc_networks c) (spec_AppliedNetworks sp),
    srow_created = time_Seconds now, srow_updated = time_Seconds now\<rparr>"
  have key: "srow_key row = spec_key sp" "\<And>r. srow_key (merge_spec r row) = srow_key row"
    by (simp_all add: row_def srow_key_def spec_key_def merge_spec_def)
  let ?kept = "case spec_at s (spec_key sp) of None \<Rightarrow> row | Some old \<Rightarrow> merge_spec old row"
  show thesis
  proof (rule that [of "sql_upsert srow_key merge_spec row (sql_specs s)" ?kept])
    show "sql_PutSpec c now (Inr n1) (Inr n2) sp s = (Inr (), s\<lparr>sql_specs := sql_upsert srow_key merge_spec row (sql_specs s)\<rparr>)"
      using ok(2) by (simp add: sql_PutSpec_def b1 b2 row_def sql_exec_no_fault)
    show "distinct (map srow_key (sql_upsert srow_key merge_spec row (sql_specs s)))"
      using ok(1) key(2) by (intro distinct_sql_upsert) (simp_all add: sql_store_ok_def)
    show "key_map srow_key (sql_upsert srow_key merge_spec row (sql_specs s)) = (spec_at s)(spec_key sp \<mapsto> ?kept)"
      using ok(1) key by (simp add: key_map_sql_upsert sql_store_ok_def spec_at_def)
    show "decode_spec c (sql_keys s) ?kept =
      Inr (sp\<lparr>spec_Created := of_Seconds (first_written now s (spec_key sp)), spec_Updated := of_Seconds (time_Seconds now)\<rparr>)"
      using json b1(2) b2(2)
      by (cases "spec_at s (spec_key sp)") (simp_all add: decode_spec_def row_def merge_spec_def first_written_def json_roundtrips_def)
    show "decode_spec c None ?kept = Inl ErrSecretsNeedKey" if "spec_Secrets sp \<noteq> []"
      using json b1(3) [OF that]
      by (cases "spec_at s (spec_key sp)") (simp_all add: decode_spec_def row_def merge_spec_def json_roundtrips_def)
    show "decode_spec c (Some key') ?kept = Inl (ErrSecretsUndecryptable (''decrypt secrets: '' @ e))"
      if "spec_Secrets sp \<noteq> []" "gcm_Open c key' n1 (gcm_Seal c (the (sql_keys s)) n1 (enc_secrets c (spec_Secrets sp))) = Inl e" for key' e
      using json b1(4) [OF that]
      by (cases "spec_at s (spec_key sp)") (simp_all add: decode_spec_def row_def merge_spec_def json_roundtrips_def)
  qed
qed

text \<open>C33. With the key loaded when there are secrets, and the libraries decoding what they encoded, writing a spec
  succeeds and reading it gives it back field by field, nil and empty kept apart, created when it was first
  written and updated now; every other spec reads as before. Without the key its secrets are refused with
  \<^verbatim>\<open>ErrSecretsNeedKey\<close>, under a key that does not open them with \<^verbatim>\<open>ErrSecretsUndecryptable\<close>, and once
  deleted it is not found.
\<close>

theorem spec_roundtrip:
  assumes "sql_store_ok s" and "sql_verdicts s = []"
    and "spec_Secrets sp \<noteq> [] \<or> spec_InjectorSecrets sp \<noteq> [] \<Longrightarrow> sql_keys s \<noteq> None"
    and "json_roundtrips c sp"
    and "gcm_roundtrips c (the (sql_keys s)) n1 (enc_secrets c (spec_Secrets sp))"
    and "gcm_roundtrips c (the (sql_keys s)) n2 (enc_injector c (spec_InjectorSecrets sp))"
  shows "\<exists>s'. sql_PutSpec c now (Inr n1) (Inr n2) sp s = (Inr (), s') \<and> sql_store_ok s' \<and>
    get_spec c s' (spec_key sp) =
      Inr (sp\<lparr>spec_Created := of_Seconds (first_written now s (spec_key sp)), spec_Updated := of_Seconds (time_Seconds now)\<rparr>) \<and>
    (\<forall>k. k \<noteq> spec_key sp \<longrightarrow> get_spec c s' k = get_spec c s k) \<and>
    (spec_Secrets sp \<noteq> [] \<longrightarrow>
       get_spec c (s'\<lparr>sql_keys := None\<rparr>) (spec_key sp) = Inl ErrSecretsNeedKey \<and>
       (\<forall>key' e. gcm_Open c key' n1 (gcm_Seal c (the (sql_keys s)) n1 (enc_secrets c (spec_Secrets sp))) = Inl e \<longrightarrow>
          get_spec c (s'\<lparr>sql_keys := Some key'\<rparr>) (spec_key sp) = Inl (ErrSecretsUndecryptable (''decrypt secrets: '' @ e)))) \<and>
    (\<exists>s''. sql_DeleteSpec (spec_Host sp) (spec_Template sp) (spec_Slug sp) s' = (Inr (), s'') \<and>
       get_spec c s'' (spec_key sp) = Inl ErrNotFound)"
  using assms
proof (rule put_spec_row [where now = now])
  fix rows row
  assume put: "sql_PutSpec c now (Inr n1) (Inr n2) sp s = (Inr (), s\<lparr>sql_specs := rows\<rparr>)"
    and rows: "distinct (map srow_key rows)" "key_map srow_key rows = (spec_at s)(spec_key sp \<mapsto> row)"
    and row: "decode_spec c (sql_keys s) row =
        Inr (sp\<lparr>spec_Created := of_Seconds (first_written now s (spec_key sp)), spec_Updated := of_Seconds (time_Seconds now)\<rparr>)"
      "spec_Secrets sp \<noteq> [] \<Longrightarrow> decode_spec c None row = Inl ErrSecretsNeedKey"
      "\<And>key' e. spec_Secrets sp \<noteq> [] \<Longrightarrow>
        gcm_Open c key' n1 (gcm_Seal c (the (sql_keys s)) n1 (enc_secrets c (spec_Secrets sp))) = Inl e \<Longrightarrow>
        decode_spec c (Some key') row = Inl (ErrSecretsUndecryptable (''decrypt secrets: '' @ e))"
  let ?s = "s\<lparr>sql_specs := rows\<rparr>" and ?gone = "filter (\<lambda>r. srow_key r \<noteq> spec_key sp) rows"
  have ok: "sql_store_ok ?s" "sql_store_ok (?s\<lparr>sql_keys := k\<rparr>)" "sql_store_ok (s\<lparr>sql_specs := ?gone\<rparr>)" for k
    using assms(1) rows(1) by (simp_all add: sql_store_ok_def distinct_map_filter)
  have at: "spec_at ?s = (spec_at s)(spec_key sp \<mapsto> row)" "spec_at (?s\<lparr>sql_keys := k\<rparr>) = (spec_at s)(spec_key sp \<mapsto> row)" for k
    using rows(2) by (simp_all add: spec_at_def)
  have "spec_key sp \<in> srow_key ` set rows" using rows(2) key_map_None [of srow_key rows "spec_key sp"] by auto
  then have del: "sql_DeleteSpec (spec_Host sp) (spec_Template sp) (spec_Slug sp) ?s = (Inr (), s\<lparr>sql_specs := ?gone\<rparr>)"
    using assms(2) by (auto simp: sql_DeleteSpec_def sql_then_def sql_exec_no_fault sql_delete_def spec_key_def filter_empty_conv)
  have "spec_at (s\<lparr>sql_specs := ?gone\<rparr>) (spec_key sp) = None" by (auto simp: spec_at_def key_map_None)
  with put ok at row del assms(2) show ?thesis by (auto simp: get_spec_at get_spec_at [OF assms(1,2)] split: option.split)
qed

text \<open>A codec the round trip can be run on: a tag of the key for the seal, comma-ended fields for the columns.\<close>

fun comma_fields :: "string \<Rightarrow> string \<Rightarrow> string list" where
  "comma_fields acc [] = []"
| "comma_fields acc (x # xs) = (if x = CHR '','' then acc # comma_fields [] xs else comma_fields (acc @ [x]) xs)"

definition comma_joined :: "string list \<Rightarrow> string" where
  "comma_joined xs = concat (map (\<lambda>x. x @ '','') xs)"

fun pair_up :: "'a list \<Rightarrow> ('a \<times> 'a) list" where
  "pair_up (x # y # xs) = (x, y) # pair_up xs"
| "pair_up _ = []"

definition key_tag :: "string \<Rightarrow> string" where
  "key_tag key = take Overhead (key @ replicate Overhead CHR ''-'')"

definition plain_codec :: Codec where
  "plain_codec =
     \<lparr>gcm_Seal = (\<lambda>key nonce text. key_tag key @ text),
      gcm_Open = (\<lambda>key nonce ct. if take Overhead ct = key_tag key then Inr (drop Overhead ct) else Inl ''message authentication failed''),
      enc_params = (\<lambda>ps. comma_joined (concat (map (\<lambda>(k, v). case v of JString x \<Rightarrow> [k, x] | _ \<Rightarrow> [k, '''']) ps))),
      dec_params = (\<lambda>t. Inr (map (\<lambda>(k, x). (k, JString x)) (pair_up (comma_fields [] t)))),
      enc_secrets = (\<lambda>ss. comma_joined (concat (map (\<lambda>(k, v). [k, v]) ss))), dec_secrets = (\<lambda>t. Inr (pair_up (comma_fields [] t))),
      enc_injector = (\<lambda>is. comma_joined (concat (map (\<lambda>i. [inj_Name i, inj_Value i]) is))),
      dec_injector = (\<lambda>t. Inr (map (\<lambda>(n, v). \<lparr>inj_Name = n, inj_Key = n, inj_Value = v\<rparr>) (pair_up (comma_fields [] t)))),
      enc_strings = comma_joined, dec_strings = (\<lambda>t. Inr (comma_fields [] t)),
      enc_markers = (\<lambda>ms. comma_joined (concat (map (\<lambda>(k, m). [k, avm_Backup m]) ms))),
      dec_markers = (\<lambda>t. Inr (map (\<lambda>(k, b). (k, \<lparr>avm_Backup = b, avm_Exclude = []\<rparr>)) (pair_up (comma_fields [] t)))),
      enc_networks = (\<lambda>ns. comma_joined (map net_Name ns)), dec_networks = (\<lambda>t. Inr (map (\<lambda>n. \<lparr>net_Name = n, net_Aliases = []\<rparr>) (comma_fields [] t))),
      enc_meta = meta_ID, dec_meta = (\<lambda>t. Inl t)\<rparr>"

definition sample_spec :: Spec where
  "sample_spec =
     \<lparr>spec_Host = ''h1'', spec_Template = ''web'', spec_Slug = ''a'', spec_Parameters = [(''tier'', JString ''gold'')],
      spec_Secrets = [(''db'', ''pw'')], spec_InjectorSecrets = [], spec_Domains = [''a.example''], spec_AppliedVolumes = Some [],
      spec_AppliedVolumeMeta = None, spec_AppliedNetworks = Some [\<lparr>net_Name = ''edge'', net_Aliases = []\<rparr>], spec_Created = 0, spec_Updated = 0\<rparr>"

definition sample_nonce :: string where
  "sample_nonce = ''abcdefghijkl''"

definition keyed_db :: SQLite where
  "keyed_db = empty_db\<lparr>sql_keys := Some ''k1''\<rparr>"

lemma sample_spec_ok:
  "sql_store_ok keyed_db" "sql_verdicts keyed_db = []" "sql_keys keyed_db = Some ''k1''" "json_roundtrips plain_codec sample_spec"
  "gcm_roundtrips plain_codec ''k1'' sample_nonce text"
  by (simp_all add: sql_store_ok_def keyed_db_def empty_db_def json_roundtrips_def plain_codec_def sample_spec_def comma_joined_def
      gcm_roundtrips_def sample_nonce_def NonceSize_def key_tag_def Overhead_def)

theorem spec_roundtrip_witness:
  "\<exists>s'. sql_PutSpec plain_codec unix_epoch (Inr sample_nonce) (Inr sample_nonce) sample_spec keyed_db = (Inr (), s') \<and>
     get_spec plain_codec s' (''h1'', ''web'', ''a'') = Inr (sample_spec\<lparr>spec_Created := unix_epoch, spec_Updated := unix_epoch\<rparr>) \<and>
     get_spec plain_codec (s'\<lparr>sql_keys := Some ''k2''\<rparr>) (''h1'', ''web'', ''a'') =
       Inl (ErrSecretsUndecryptable ''decrypt secrets: message authentication failed'')"
proof -
  have "gcm_Open plain_codec ''k2'' sample_nonce (gcm_Seal plain_codec ''k1'' sample_nonce t) = Inl ''message authentication failed''" for t
    by (simp add: plain_codec_def key_tag_def Overhead_def)
  moreover have "of_Seconds (first_written unix_epoch keyed_db k) = unix_epoch" "of_Seconds (time_Seconds unix_epoch) = unix_epoch" for k
    by (simp_all add: first_written_def spec_at_def keyed_db_def empty_db_def time_Seconds_def of_Seconds_def UnixNano_def time_Unix_def)
  moreover have "spec_key sample_spec = (''h1'', ''web'', ''a'')" "spec_Secrets sample_spec \<noteq> []"
    by (simp_all add: spec_key_def sample_spec_def)
  ultimately show ?thesis
    using spec_roundtrip [of keyed_db sample_spec plain_codec sample_nonce sample_nonce unix_epoch] sample_spec_ok by fastforce
qed

subsection \<open>Renaming a host moves everything or nothing\<close>

definition has_state :: "string \<Rightarrow> SQLite \<Rightarrow> bool" where
  "has_state host s \<longleftrightarrow>
     host \<in> srow_host ` set (sql_specs s) \<or> host \<in> hrow_host ` set (sql_host_secrets s) \<or> host \<in> brow_host ` set (sql_backups s)"

definition has_backups :: "string \<Rightarrow> SQLite \<Rightarrow> bool" where
  "has_backups host s \<longleftrightarrow> host \<in> brow_host ` set (sql_backups s)"

definition rename_refusal :: "string \<Rightarrow> string \<Rightarrow> SQLite \<Rightarrow> store_error option" where
  "rename_refusal oldID newID s =
     (if has_state newID s then Some ErrHostRenameConflict
      else if has_backups oldID s then Some ErrHostRenameHasBackups else None)"

text \<open>A chain of checks ended as the refusal says, or failed in the driver, and changed no table.\<close>

definition checked :: "SQLite \<Rightarrow> store_error option \<Rightarrow> unit result \<times> SQLite \<Rightarrow> bool" where
  "checked s refusal rs =
     (case rs of (r, s1) \<Rightarrow>
        sql_tables s1 = sql_tables s \<and> (sql_verdicts s = [] \<longrightarrow> s1 = s) \<and>
        (case r of Inr _ \<Rightarrow> refusal = None | Inl e \<Rightarrow> refusal = Some e \<or> is_driver e \<and> sql_verdicts s \<noteq> []))"

lemma checked_refuse_if:
  assumes "\<And>s1. sql_tables s1 = sql_tables s \<Longrightarrow> P s1 = P s"
  shows "checked s (if P s then Some e else None) (refuse_if P e s)"
proof (cases "sql_verdicts s = []")
  case True
  then show ?thesis by (simp add: refuse_if_def sql_exec_no_fault checked_def)
next
  case False
  show ?thesis
  proof (cases rule: sql_exec_tables [of "\<lambda>s. if P s then (Inl e, s) else (Inr (), s)" s])
    case (fail e' s1)
    with False show ?thesis by (simp add: refuse_if_def checked_def)
  next
    case (run s1)
    with False assms [OF run(2)] show ?thesis by (simp add: refuse_if_def checked_def)
  qed
qed

lemma checked_then:
  assumes "checked s r1 rs" and "\<And>s1. sql_tables s1 = sql_tables s \<Longrightarrow> (sql_verdicts s = [] \<Longrightarrow> s1 = s) \<Longrightarrow> checked s1 r2 (k () s1)"
  shows "checked s (if r1 = None then r2 else r1) (sql_then rs k)"
proof (cases rs)
  case (Pair r s1)
  show ?thesis
  proof (cases r)
    case (Inl e)
    with assms(1) Pair show ?thesis by (auto simp: checked_def sql_then_def)
  next
    case (Inr x)
    with assms(1) Pair have "sql_tables s1 = sql_tables s" "sql_verdicts s = [] \<Longrightarrow> s1 = s" "r1 = None" by (simp_all add: checked_def)
    with assms(2) [of s1] Pair Inr show ?thesis by (auto simp: checked_def sql_then_def split: prod.splits sum.splits)
  qed
qed

lemma filter_host: "0 < length (filter (\<lambda>r. f r = h) xs) \<longleftrightarrow> h \<in> f ` set xs"
  by (auto simp: filter_empty_conv)

lemma has_state_tables:
  "sql_tables s1 = sql_tables s \<Longrightarrow> has_state host s1 = has_state host s"
  "sql_tables s1 = sql_tables s \<Longrightarrow> has_backups host s1 = has_backups host s"
  "sql_tables s1 = sql_tables s \<Longrightarrow> rename_refusal oldID newID s1 = rename_refusal oldID newID s"
  by (auto simp: has_state_def has_backups_def rename_refusal_def dest: sql_tables_eqD)

lemma checked_refuse_then:
  assumes "\<And>s1. sql_tables s1 = sql_tables s \<Longrightarrow> P s1 = P s" and "sql_tables s0 = sql_tables s"
    and "\<And>s1. sql_tables s1 = sql_tables s \<Longrightarrow> checked s1 r2 (k () s1)"
  shows "checked s0 (if P s then Some e else r2) (sql_then (refuse_if P e s0) k)"
proof -
  have "checked s0 (if P s then Some e else None) (refuse_if P e s0)"
    using checked_refuse_if [of s0 P e] assms(1) assms(1) [OF assms(2)] assms(2) by metis
  then have "checked s0 (if (if P s then Some e else None) = None then r2 else (if P s then Some e else None)) (sql_then (refuse_if P e s0) k)"
    by (rule checked_then) (rule assms(3), simp add: assms(2))
  then show ?thesis by (simp split: if_splits)
qed

lemma hostRenameChecks_checked: "checked s (rename_refusal oldID newID s) (hostRenameChecks oldID newID s)"
proof -
  let ?P1 = "\<lambda>s. newID \<in> srow_host ` set (sql_specs s)" and ?P2 = "\<lambda>s. newID \<in> hrow_host ` set (sql_host_secrets s)"
    and ?P3 = "\<lambda>s. newID \<in> brow_host ` set (sql_backups s)" and ?P4 = "\<lambda>s. oldID \<in> brow_host ` set (sql_backups s)"
  have P: "?P1 s1 = ?P1 s" "?P2 s1 = ?P2 s" "?P3 s1 = ?P3 s" "?P4 s1 = ?P4 s" if "sql_tables s1 = sql_tables s" for s1
    using sql_tables_eqD [OF that] by simp_all
  have r4: "checked s1 (if ?P4 s then Some ErrHostRenameHasBackups else None) (refuse_if ?P4 ErrHostRenameHasBackups s1)"
    if "sql_tables s1 = sql_tables s" for s1
    unfolding P(4) [OF that, symmetric] by (rule checked_refuse_if, drule sql_tables_eqD(2), simp)
  have "checked s (if ?P1 s then Some ErrHostRenameConflict else if ?P2 s then Some ErrHostRenameConflict
      else if ?P3 s then Some ErrHostRenameConflict else if ?P4 s then Some ErrHostRenameHasBackups else None)
    (hostRenameChecks oldID newID s)"
    unfolding hostRenameChecks_def filter_host
    by (rule checked_refuse_then [of s ?P1], erule P(1), rule refl, rule checked_refuse_then [of s ?P2], erule P(2), assumption,
        rule checked_refuse_then [of s ?P3], erule P(3), assumption, erule r4)
  moreover have "(if ?P1 s then Some ErrHostRenameConflict else if ?P2 s then Some ErrHostRenameConflict
      else if ?P3 s then Some ErrHostRenameConflict else if ?P4 s then Some ErrHostRenameHasBackups else None) =
    rename_refusal oldID newID s"
    by (simp add: rename_refusal_def has_state_def has_backups_def)
  ultimately show ?thesis by (simp only:)
qed

lemma rehost_keys:
  assumes upd: "\<And>f r. host (upd f r) = f (host r)" "\<And>f r. rest (upd f r) = rest r"
    and k: "\<And>r. k r = (host r, rest r)" and distinct: "distinct (map k rows)" and fresh: "newID \<notin> host ` set rows"
  shows "distinct (map k (rehost host upd oldID newID rows))"
    and "key_map k (rehost host upd oldID newID rows) (h, x) =
      (if h = newID then map_option (upd (\<lambda>_. newID)) (key_map k rows (oldID, x))
       else if h = oldID then None else key_map k rows (h, x))"
proof -
  let ?f = "\<lambda>r. if host r = oldID then upd (\<lambda>_. newID) r else r"
  have inj: "inj_on k (set rows)" "distinct rows" using distinct by (simp_all add: distinct_map)
  have "inj_on (\<lambda>r. k (?f r)) (set rows)"
  proof (rule inj_onI)
    fix a b
    assume ab: "a \<in> set rows" "b \<in> set rows" "k (?f a) = k (?f b)"
    with fresh upd k have "host a = host b \<and> rest a = rest b" by (auto split: if_splits)
    then have "k a = k b" by (simp add: k)
    with ab inj(1) show "a = b" by (simp add: inj_on_def)
  qed
  with inj(2) show d: "distinct (map k (rehost host upd oldID newID rows))"
    by (simp add: rehost_def o_def distinct_map)
  have new: "key_map k (rehost host upd oldID newID rows) (newID, x) = map_option (upd (\<lambda>_. newID)) (key_map k rows (oldID, x))" for x
  proof (cases "key_map k rows (oldID, x)")
    case None
    have "k (?f r) \<noteq> (newID, x)" if "r \<in> set rows" for r
    proof
      assume "k (?f r) = (newID, x)"
      with that fresh have "host r = oldID" "rest r = x" by (auto simp: k upd split: if_splits)
      with that None show False by (auto simp: key_map_None k image_iff)
    qed
    then have "(newID, x) \<notin> k ` set (rehost host upd oldID newID rows)" unfolding rehost_def by fastforce
    then have "key_map k (rehost host upd oldID newID rows) (newID, x) = None" by (simp only: key_map_None simp_thms)
    with None show ?thesis by simp
  next
    case (Some z)
    then have z: "z \<in> set rows" "host z = oldID" "rest z = x" by (auto simp: key_map_Some [OF distinct] k)
    then have "upd (\<lambda>_. newID) z \<in> set (rehost host upd oldID newID rows)" "k (upd (\<lambda>_. newID) z) = (newID, x)"
      by (force simp: rehost_def, simp add: k upd)
    with d Some show ?thesis by (simp add: key_map_Some)
  qed
  have old: "key_map k (rehost host upd oldID newID rows) (oldID, x) = None" if "oldID \<noteq> newID"
    using that by (auto simp: key_map_None rehost_def k upd split: if_splits)
  have other: "key_map k (rehost host upd oldID newID rows) (h, x) = key_map k rows (h, x)" if "h \<noteq> newID" "h \<noteq> oldID"
  proof (cases "key_map k rows (h, x)")
    case None
    with that have "(h, x) \<notin> k ` set (rehost host upd oldID newID rows)"
      by (auto simp: key_map_None rehost_def k upd image_iff split: if_splits)
    then have "key_map k (rehost host upd oldID newID rows) (h, x) = None" by (simp only: key_map_None simp_thms)
    with None show ?thesis by simp
  next
    case (Some z)
    then have "z \<in> set rows" "host z = h" "k z = (h, x)" by (auto simp: key_map_Some [OF distinct] k)
    with that have "z \<in> set (rehost host upd oldID newID rows)" by (force simp: rehost_def)
    with d Some \<open>k z = (h, x)\<close> show ?thesis by (simp add: key_map_Some)
  qed
  show "key_map k (rehost host upd oldID newID rows) (h, x) =
      (if h = newID then map_option (upd (\<lambda>_. newID)) (key_map k rows (oldID, x))
       else if h = oldID then None else key_map k rows (h, x))"
    using new old other by auto
qed

lemma rehost_id: "oldID \<notin> host ` set rows \<Longrightarrow> rehost host upd oldID newID rows = rows"
  unfolding rehost_def by (rule map_idI) auto

definition renamed :: "string \<Rightarrow> string \<Rightarrow> SQLite \<Rightarrow> SQLite" where
  "renamed oldID newID s =
     s\<lparr>sql_specs := rehost srow_host srow_host_update oldID newID (sql_specs s),
       sql_host_secrets := rehost hrow_host hrow_host_update oldID newID (sql_host_secrets s)\<rparr>"

lemma rehost_specs:
  assumes "sql_store_ok s" and "\<not> has_state newID s"
  shows "distinct (map srow_key (rehost srow_host srow_host_update oldID newID (sql_specs s)))"
    and "spec_at (renamed oldID newID s) (h, x) = (if h = newID then map_option (srow_host_update (\<lambda>_. newID)) (spec_at s (oldID, x))
      else if h = oldID then None else spec_at s (h, x))"
    and "distinct (map hrow_key (rehost hrow_host hrow_host_update oldID newID (sql_host_secrets s)))"
    and "secret_at (renamed oldID newID s) (h, y) = (if h = newID then map_option (hrow_host_update (\<lambda>_. newID)) (secret_at s (oldID, y))
      else if h = oldID then None else secret_at s (h, y))"
  using assms rehost_keys [of srow_host srow_host_update "\<lambda>r. (srow_template r, srow_slug r)" srow_key "sql_specs s" newID oldID]
    rehost_keys [of hrow_host hrow_host_update hrow_name hrow_key "sql_host_secrets s" newID oldID]
  by (simp_all add: sql_store_ok_def has_state_def srow_key_def hrow_key_def spec_at_def secret_at_def renamed_def)

lemma sql_tables_update:
  "sql_tables s1 = sql_tables s \<Longrightarrow> sql_tables (s1\<lparr>sql_specs := x\<rparr>) = sql_tables (s\<lparr>sql_specs := x\<rparr>)"
  "sql_tables s1 = sql_tables s \<Longrightarrow> sql_tables (s1\<lparr>sql_host_secrets := y\<rparr>) = sql_tables (s\<lparr>sql_host_secrets := y\<rparr>)"
  "sql_tables s1 = sql_tables s \<Longrightarrow> sql_tables (s1\<lparr>sql_backups := z\<rparr>) = sql_tables (s\<lparr>sql_backups := z\<rparr>)"
  by (cases s; cases s1; simp add: sql_tables_def)+

text \<open>A statement that succeeded ran on the tables it was given.\<close>

lemma sql_exec_Inr:
  assumes "sql_exec stmt s = (Inr x, s')" and "\<And>s1. sql_tables s1 = sql_tables s \<Longrightarrow> stmt s1 = (Inr x, s') \<Longrightarrow> thesis"
  shows thesis
  using assms by (cases rule: sql_exec_tables [of stmt s]) auto

lemma rename_specs_Inr:
  assumes "sql_exec (\<lambda>s. let rows = rehost srow_host srow_host_update oldID newID (sql_specs s)
      in unique_or_fail srow_key rows s (s\<lparr>sql_specs := rows\<rparr>)) s = (Inr u, s')"
  shows "sql_tables s' = sql_tables (s\<lparr>sql_specs := rehost srow_host srow_host_update oldID newID (sql_specs s)\<rparr>)"
  using assms
proof (rule sql_exec_Inr)
  fix s1
  assume "sql_tables s1 = sql_tables s" and run: "(let rows = rehost srow_host srow_host_update oldID newID (sql_specs s1)
      in unique_or_fail srow_key rows s1 (s1\<lparr>sql_specs := rows\<rparr>)) = (Inr u, s')"
  from run have "s' = s1\<lparr>sql_specs := rehost srow_host srow_host_update oldID newID (sql_specs s1)\<rparr>"
    by (simp add: Let_def unique_or_fail_def split: if_splits)
  then show ?thesis using sql_tables_update(1) [OF \<open>sql_tables s1 = sql_tables s\<close>] sql_tables_eqD(3) [OF \<open>sql_tables s1 = sql_tables s\<close>]
    by simp
qed

lemma rename_secrets_Inr:
  assumes "sql_exec (\<lambda>s. let rows = rehost hrow_host hrow_host_update oldID newID (sql_host_secrets s)
      in unique_or_fail hrow_key rows s (s\<lparr>sql_host_secrets := rows\<rparr>)) s = (Inr u, s')"
  shows "sql_tables s' = sql_tables (s\<lparr>sql_host_secrets := rehost hrow_host hrow_host_update oldID newID (sql_host_secrets s)\<rparr>)"
  using assms
proof (rule sql_exec_Inr)
  fix s1
  assume "sql_tables s1 = sql_tables s" and run: "(let rows = rehost hrow_host hrow_host_update oldID newID (sql_host_secrets s1)
      in unique_or_fail hrow_key rows s1 (s1\<lparr>sql_host_secrets := rows\<rparr>)) = (Inr u, s')"
  from run have "s' = s1\<lparr>sql_host_secrets := rehost hrow_host hrow_host_update oldID newID (sql_host_secrets s1)\<rparr>"
    by (simp add: Let_def unique_or_fail_def split: if_splits)
  then show ?thesis using sql_tables_update(2) [OF \<open>sql_tables s1 = sql_tables s\<close>] sql_tables_eqD(4) [OF \<open>sql_tables s1 = sql_tables s\<close>]
    by simp
qed

lemma rename_backups_Inr:
  assumes "sql_exec (\<lambda>s. (Inr (), s\<lparr>sql_backups := rehost brow_host brow_host_update oldID newID (sql_backups s)\<rparr>)) s = (Inr u, s')"
    and "\<not> has_backups oldID s"
  shows "sql_tables s' = sql_tables s"
  using assms(1)
proof (rule sql_exec_Inr)
  fix s1
  assume s1: "sql_tables s1 = sql_tables s"
    "(Inr (), s1\<lparr>sql_backups := rehost brow_host brow_host_update oldID newID (sql_backups s1)\<rparr>) = (Inr u, s')"
  have "rehost brow_host brow_host_update oldID newID (sql_backups s1) = sql_backups s1"
    using assms(2) sql_tables_eqD(2) [OF s1(1)] by (intro rehost_id) (simp add: has_backups_def)
  with s1 show ?thesis by (cases s1) simp
qed

lemma sql_then_Inr:
  assumes "sql_then rs k = (Inr y, s')"
  obtains x s1 where "rs = (Inr x, s1)" and "k x s1 = (Inr y, s')"
  using assms by (cases rs; cases "fst rs") (auto simp: sql_then_def)

lemma rename_moves_Inr:
  assumes "rename_moves oldID newID s = (Inr u, s')" and "\<not> has_backups oldID s"
  shows "sql_tables s' = sql_tables (renamed oldID newID s)"
proof -
  from assms(1) obtain x y s2 s3 where
    moves: "sql_exec (\<lambda>s. let rows = rehost srow_host srow_host_update oldID newID (sql_specs s)
        in unique_or_fail srow_key rows s (s\<lparr>sql_specs := rows\<rparr>)) s = (Inr x, s2)"
      "sql_exec (\<lambda>s. let rows = rehost hrow_host hrow_host_update oldID newID (sql_host_secrets s)
        in unique_or_fail hrow_key rows s (s\<lparr>sql_host_secrets := rows\<rparr>)) s2 = (Inr y, s3)"
      "sql_exec (\<lambda>s. (Inr (), s\<lparr>sql_backups := rehost brow_host brow_host_update oldID newID (sql_backups s)\<rparr>)) s3 = (Inr u, s')"
    unfolding rename_moves_def by (elim sql_then_Inr) blast
  have t2: "sql_tables s2 = sql_tables (s\<lparr>sql_specs := rehost srow_host srow_host_update oldID newID (sql_specs s)\<rparr>)"
    by (rule rename_specs_Inr [OF moves(1)])
  have "sql_host_secrets s2 = sql_host_secrets s" using sql_tables_eqD(4) [OF t2] by simp
  then have t3: "sql_tables s3 = sql_tables (renamed oldID newID s)"
    using rename_secrets_Inr [OF moves(2)] sql_tables_update(2) [OF t2] by (simp add: renamed_def)
  then have "\<not> has_backups oldID s3" using assms(2) has_state_tables(2) [OF t3] by (simp add: has_backups_def renamed_def)
  with moves(3) t3 show ?thesis using rename_backups_Inr by simp
qed

lemma rename_no_fault:
  assumes "sql_store_ok s" and quiet: "sql_verdicts s = []"
  shows "sql_RenameHost oldID newID s =
    (case rename_refusal oldID newID s of Some e \<Rightarrow> (Inl e, s) | None \<Rightarrow> (Inr (), renamed oldID newID s))"
proof -
  obtain r s1 where checks: "hostRenameChecks oldID newID s = (r, s1)" by (rule prod.exhaust)
  with hostRenameChecks_checked [of s oldID newID] quiet
  have s1: "s1 = s" and r: "r = (case rename_refusal oldID newID s of Some e \<Rightarrow> Inl e | None \<Rightarrow> Inr ())"
    by (auto simp: checked_def split: sum.splits)
  show ?thesis
  proof (cases "rename_refusal oldID newID s")
    case (Some e)
    with checks s1 r quiet show ?thesis by (simp add: sql_RenameHost_def sql_tx_def sql_exec_no_fault sql_then_def)
  next
    case None
    then have fresh: "\<not> has_state newID s" "\<not> has_backups oldID s" by (auto simp: rename_refusal_def split: if_splits)
    let ?specs = "rehost srow_host srow_host_update oldID newID (sql_specs s)"
    have "rehost brow_host brow_host_update oldID newID (sql_backups s) = sql_backups s"
      using fresh(2) by (intro rehost_id) (simp add: has_backups_def)
    then have "rename_moves oldID newID s = (Inr (), renamed oldID newID s)"
      using quiet rehost_specs(1,3) [OF assms(1) fresh(1), of oldID]
      by (simp add: rename_moves_def sql_exec_no_fault sql_then_def unique_or_fail_def Let_def renamed_def)
    with None checks s1 r quiet show ?thesis
      by (simp add: sql_RenameHost_def sql_tx_def sql_exec_no_fault sql_then_def renamed_def)
  qed
qed

lemma rename_Inr:
  assumes "sql_RenameHost oldID newID s = (Inr u, s')"
  shows "rename_refusal oldID newID s = None" and "sql_tables s' = sql_tables (renamed oldID newID s)"
proof -
  obtain s1 s2 where body: "sql_then (hostRenameChecks oldID newID s1) (\<lambda>_. rename_moves oldID newID) = (Inr u, s2)"
    and tables: "sql_tables s1 = sql_tables s" "sql_tables s' = sql_tables s2"
    using assms unfolding sql_RenameHost_def
    by (cases rule: sql_tx_tables [of "\<lambda>s. sql_then (hostRenameChecks oldID newID s) (\<lambda>_. rename_moves oldID newID)" s]) auto
  from body obtain v s3 where checks: "hostRenameChecks oldID newID s1 = (Inr v, s3)" and moves: "rename_moves oldID newID s3 = (Inr u, s2)"
    by (rule sql_then_Inr)
  from hostRenameChecks_checked [of s1 oldID newID] checks
  have "rename_refusal oldID newID s1 = None" and t3: "sql_tables s3 = sql_tables s1" by (simp_all add: checked_def)
  with has_state_tables(3) [OF tables(1)] show none: "rename_refusal oldID newID s = None" by simp
  from t3 tables have t: "sql_tables s3 = sql_tables s" by simp
  from none have "\<not> has_backups oldID s" by (auto simp: rename_refusal_def split: if_splits)
  with rename_moves_Inr [OF moves] has_state_tables(2) [OF t] have "sql_tables s2 = sql_tables (renamed oldID newID s3)" by simp
  moreover have "sql_tables (renamed oldID newID s3) = sql_tables (renamed oldID newID s)"
    using sql_tables_update(2) [OF sql_tables_update(1) [OF t]] sql_tables_eqD(3,4) [OF t] by (simp add: renamed_def)
  ultimately show "sql_tables s' = sql_tables (renamed oldID newID s)" using tables(2) by simp
qed

lemma sql_store_tables:
  assumes "sql_tables s1 = sql_tables s"
  shows "sql_store_ok s1 = sql_store_ok s" and "spec_at s1 = spec_at s" and "secret_at s1 = secret_at s"
  using sql_tables_eqD [OF assms] by (simp_all add: sql_store_ok_def spec_at_def secret_at_def)

text \<open>C34. Renaming a host moves everything or nothing, whatever fails in the driver on the way: an error leaves every
  table as it was, and with no fault of the driver it is \<^verbatim>\<open>ErrHostRenameConflict\<close> exactly when the new id has a
  spec, a host secret or a backup, and else \<^verbatim>\<open>ErrHostRenameHasBackups\<close> exactly when the old one has backups; on
  success no state was merged, each spec and each host secret of the old id is under the new one with its other
  columns kept, the old id has none, and those of every other host, the jobs, the backups and the templates are
  untouched.
\<close>

theorem rename_host_atomic:
  assumes "sql_store_ok s" and "sql_RenameHost oldID newID s = (r, s')"
  shows "case r of
      Inl e \<Rightarrow> sql_tables s' = sql_tables s \<and> (sql_verdicts s = [] \<longrightarrow> rename_refusal oldID newID s = Some e)
    | Inr _ \<Rightarrow> rename_refusal oldID newID s = None \<and> sql_store_ok s' \<and>
        (\<forall>h x. spec_at s' (h, x) = (if h = newID then map_option (srow_host_update (\<lambda>_. newID)) (spec_at s (oldID, x))
           else if h = oldID then None else spec_at s (h, x))) \<and>
        (\<forall>h y. secret_at s' (h, y) = (if h = newID then map_option (hrow_host_update (\<lambda>_. newID)) (secret_at s (oldID, y))
           else if h = oldID then None else secret_at s (h, y))) \<and>
        sql_jobs s' = sql_jobs s \<and> sql_backups s' = sql_backups s \<and> sql_templates s' = sql_templates s"
proof (cases r)
  case (Inl e)
  have "sql_tables s' = sql_tables s"
    using assms(2) Inl unfolding sql_RenameHost_def
    by (cases rule: sql_tx_tables [of "\<lambda>s. sql_then (hostRenameChecks oldID newID s) (\<lambda>_. rename_moves oldID newID)" s]) auto
  with Inl assms(2) rename_no_fault [OF assms(1), of oldID newID] show ?thesis by (auto split: option.splits)
next
  case (Inr u)
  with assms(2) have run: "sql_RenameHost oldID newID s = (Inr u, s')" by simp
  note t = rename_Inr(2) [OF run]
  from rename_Inr(1) [OF run] have fresh: "\<not> has_state newID s" by (auto simp: rename_refusal_def split: if_splits)
  note rows = rehost_specs [OF assms(1) fresh, of oldID]
  have "sql_store_ok (renamed oldID newID s)" using rows(1,3) by (simp add: sql_store_ok_def renamed_def)
  with Inr rename_Inr(1) [OF run] rows(2,4) sql_store_tables [OF t] sql_tables_eqD [OF t] show ?thesis by (simp add: renamed_def)
qed

definition renaming_db :: SQLite where
  "renaming_db = snd (sql_PutSpec plain_codec unix_epoch (Inr sample_nonce) (Inr sample_nonce) sample_spec keyed_db)"

theorem rename_host_atomic_witness:
  "spec_at (snd (sql_RenameHost ''h1'' ''h2'' renaming_db)) (''h1'', ''web'', ''a'') = None \<and>
   spec_at (snd (sql_RenameHost ''h1'' ''h2'' renaming_db)) (''h2'', ''web'', ''a'') \<noteq> None \<and>
   fst (sql_RenameHost ''h3'' ''h1'' renaming_db) = Inl ErrHostRenameConflict"
proof -
  have db: "sql_specs renaming_db \<noteq> []" "\<And>r. r \<in> set (sql_specs renaming_db) \<Longrightarrow> srow_key r = (''h1'', ''web'', ''a'')"
    "sql_store_ok renaming_db" "sql_verdicts renaming_db = []" "sql_host_secrets renaming_db = []" "sql_backups renaming_db = []"
    by (auto simp: renaming_db_def sql_PutSpec_def keyed_db_def empty_db_def seal_field_def sample_spec_def seal_def sql_exec_no_fault
        sql_upsert_def srow_key_def sql_store_ok_def)
  then have "rename_refusal ''h1'' ''h2'' renaming_db = None" "rename_refusal ''h3'' ''h1'' renaming_db = Some ErrHostRenameConflict"
    "spec_at renaming_db (''h1'', ''web'', ''a'') \<noteq> None"
    by (auto simp: rename_refusal_def has_state_def has_backups_def srow_key_def spec_at_def key_map_None image_iff neq_Nil_conv)
  then show ?thesis
    using db rename_host_atomic [OF db(3) surjective_pairing, of "''h1''" "''h2''"] rename_no_fault [OF db(3,4)] by simp
qed

end
