(* ===== verification/Call_Monad.thy ===== *)
theory Call_Monad
  imports Go_Errors
begin

text \<open>
  Sequencing of calls to the outside world, the way Go code checks an error after each call, and
  Hoare triples over it: \<open>triple P m Q E\<close> says what holds after \<open>m\<close> returned and after it failed,
  \<open>keeps I m\<close> that it preserves \<open>I\<close> either way. The rules are collected in \<open>keeps_intros\<close>.
\<close>

named_theorems keeps_intros

subsection \<open>Calls in sequence\<close>

definition ret :: "'a \<Rightarrow> ('w, 'a) call" where
  "ret x w = (Inr x, w)"

definition fail_with :: "rerr \<Rightarrow> ('w, 'a) call" where
  "fail_with e w = (Inl e, w)"

text \<open>\<^verbatim>\<open>x, err := m(); if err != nil { return err }\<close>, then \<open>f x\<close>.\<close>

definition bind :: "('w, 'a) call \<Rightarrow> ('a \<Rightarrow> ('w, 'b) call) \<Rightarrow> ('w, 'b) call" where
  "bind m f w = (case m w of (Inl e, w') \<Rightarrow> (Inl e, w') | (Inr x, w') \<Rightarrow> f x w')"

text \<open>The result of a call, error or value, for the code that looks at the error itself.\<close>

definition attempt :: "('w, 'a) call \<Rightarrow> ('w, rerr + 'a) call" where
  "attempt m w = (case m w of (r, w') \<Rightarrow> (Inr r, w'))"

text \<open>\<^verbatim>\<open>fmt.Errorf("text: %w", err)\<close>.\<close>

definition wrap_err :: "string \<Rightarrow> rerr \<Rightarrow> rerr" where
  "wrap_err t e = RErr (wraps e) t"

definition wrapping :: "string \<Rightarrow> ('w, 'a) call \<Rightarrow> ('w, 'a) call" where
  "wrapping t m w = (case m w of (Inl e, w') \<Rightarrow> (Inl (wrap_err t e), w') | (Inr x, w') \<Rightarrow> (Inr x, w'))"

text \<open>A deferred action.\<close>

definition deferring :: "('w \<Rightarrow> 'w) \<Rightarrow> ('w, 'a) call \<Rightarrow> ('w, 'a) call" where
  "deferring d m w = (case m w of (r, w') \<Rightarrow> (r, d w'))"

definition require :: "bool \<Rightarrow> rerr \<Rightarrow> ('w, unit) call" where
  "require ok e = (if ok then ret () else fail_with e)"

definition from_result :: "rerr + 'a \<Rightarrow> ('w, 'a) call" where
  "from_result r = (case r of Inl e \<Rightarrow> fail_with e | Inr x \<Rightarrow> ret x)"

fun for_each :: "'x list \<Rightarrow> ('x \<Rightarrow> ('w, unit) call) \<Rightarrow> ('w, unit) call" where
  "for_each [] f = ret ()"
| "for_each (x # xs) f = bind (f x) (\<lambda>_. for_each xs f)"

text \<open>A loop that builds a value; \<open>f\<close> sees the value so far.\<close>

fun fold_calls :: "('x \<Rightarrow> 'a \<Rightarrow> ('w, 'a) call) \<Rightarrow> 'x list \<Rightarrow> 'a \<Rightarrow> ('w, 'a) call" where
  "fold_calls f [] a = ret a"
| "fold_calls f (x # xs) a = bind (f x a) (fold_calls f xs)"

subsection \<open>Triples\<close>

definition triple :: "('w \<Rightarrow> bool) \<Rightarrow> ('w, 'a) call \<Rightarrow> ('a \<Rightarrow> 'w \<Rightarrow> bool) \<Rightarrow> (rerr \<Rightarrow> 'w \<Rightarrow> bool) \<Rightarrow> bool" where
  "triple P m Q E \<longleftrightarrow> (\<forall>w. P w \<longrightarrow> (case m w of (Inr x, w') \<Rightarrow> Q x w' | (Inl e, w') \<Rightarrow> E e w'))"

lemma tripleD:
  assumes "triple P m Q E" and "P w"
  shows "m w = (Inr x, w') \<Longrightarrow> Q x w'" and "m w = (Inl e, w') \<Longrightarrow> E e w'"
  using assms by (force simp: triple_def)+

lemma tripleI:
  assumes "\<And>w x w'. P w \<Longrightarrow> m w = (Inr x, w') \<Longrightarrow> Q x w'" and "\<And>w e w'. P w \<Longrightarrow> m w = (Inl e, w') \<Longrightarrow> E e w'"
  shows "triple P m Q E"
  using assms by (auto simp: triple_def split: prod.split sum.split)

lemma triple_ret: "(\<And>w. P w \<Longrightarrow> Q x w) \<Longrightarrow> triple P (ret x) Q E"
  by (simp add: triple_def ret_def)

lemma triple_fail: "(\<And>w. P w \<Longrightarrow> E e w) \<Longrightarrow> triple P (fail_with e) Q E"
  by (simp add: triple_def fail_with_def)

lemma triple_bind:
  assumes "triple P m R E" and "\<And>x. triple (R x) (f x) Q E"
  shows "triple P (bind m f) Q E"
  using assms by (fastforce simp: triple_def bind_def split: prod.splits sum.splits)

lemma triple_attempt:
  assumes "triple P m (\<lambda>x. Q (Inr x)) (\<lambda>e. Q (Inl e))"
  shows "triple P (attempt m) Q E"
proof (rule tripleI)
  fix w r w'
  assume "P w" and "attempt m w = (Inr r, w')"
  then have "m w = (r, w')" by (simp add: attempt_def split: prod.splits)
  with assms \<open>P w\<close> show "Q r w'" by (cases r) (auto dest: tripleD)
qed (simp add: attempt_def split: prod.splits)

lemma triple_wrapping:
  assumes "triple P m Q (\<lambda>e. E (wrap_err t e))"
  shows "triple P (wrapping t m) Q E"
  using assms by (fastforce simp: triple_def wrapping_def split: prod.splits sum.splits)

lemma triple_deferring:
  assumes "triple P m (\<lambda>x w. Q x (d w)) (\<lambda>e w. E e (d w))"
  shows "triple P (deferring d m) Q E"
  using assms by (fastforce simp: triple_def deferring_def split: prod.splits sum.splits)

lemma triple_require:
  assumes "\<And>w. P w \<Longrightarrow> ok \<Longrightarrow> Q () w" and "\<And>w. P w \<Longrightarrow> \<not> ok \<Longrightarrow> E e w"
  shows "triple P (require ok e) Q E"
  using assms by (simp add: triple_def require_def ret_def fail_with_def)

lemma triple_from_result:
  assumes "\<And>w x. P w \<Longrightarrow> r = Inr x \<Longrightarrow> Q x w" and "\<And>w e. P w \<Longrightarrow> r = Inl e \<Longrightarrow> E e w"
  shows "triple P (from_result r) Q E"
  using assms by (simp add: triple_def from_result_def ret_def fail_with_def split: sum.splits)

lemma triple_if: "(b \<Longrightarrow> triple P m Q E) \<Longrightarrow> (\<not> b \<Longrightarrow> triple P m' Q E) \<Longrightarrow> triple P (if b then m else m') Q E"
  by simp

lemma triple_given: "(b \<Longrightarrow> triple P m Q E) \<Longrightarrow> triple (\<lambda>w. P w \<and> b) m Q E"
  by (simp add: triple_def)

lemma triple_conseq:
  assumes "triple P' m Q' E'" and "\<And>w. P w \<Longrightarrow> P' w" and "\<And>x w. Q' x w \<Longrightarrow> Q x w" and "\<And>e w. E' e w \<Longrightarrow> E e w"
  shows "triple P m Q E"
  using assms by (fastforce simp: triple_def split: prod.splits sum.splits)

lemma triple_for_each:
  assumes "\<And>x. x \<in> set xs \<Longrightarrow> triple I (f x) (\<lambda>_. I) E"
  shows "triple I (for_each xs f) (\<lambda>_. I) E"
  using assms by (induction xs) (auto intro!: triple_ret triple_bind)

subsection \<open>Invariants\<close>

definition keeps :: "('w \<Rightarrow> bool) \<Rightarrow> ('w, 'a) call \<Rightarrow> bool" where
  "keeps I m \<longleftrightarrow> (\<forall>w. I w \<longrightarrow> I (snd (m w)))"

lemma keeps_triple: "keeps I m \<longleftrightarrow> triple I m (\<lambda>_. I) (\<lambda>_. I)"
  by (auto simp: keeps_def triple_def split: prod.splits sum.splits) (metis prod.collapse)

lemma keepsD: "keeps I m \<Longrightarrow> I w \<Longrightarrow> m w = (r, w') \<Longrightarrow> I w'"
  by (fastforce simp: keeps_def)

lemma keeps_ret [keeps_intros]: "keeps I (ret x)"
  by (simp add: keeps_def ret_def)

lemma keeps_fail [keeps_intros]: "keeps I (fail_with e)"
  by (simp add: keeps_def fail_with_def)

lemma keeps_bind [keeps_intros]: "keeps I m \<Longrightarrow> (\<And>x. keeps I (f x)) \<Longrightarrow> keeps I (bind m f)"
  by (fastforce simp: keeps_def bind_def split: prod.splits sum.splits)

lemma keeps_attempt [keeps_intros]: "keeps I m \<Longrightarrow> keeps I (attempt m)"
  by (fastforce simp: keeps_def attempt_def split: prod.splits)

lemma keeps_wrapping [keeps_intros]: "keeps I m \<Longrightarrow> keeps I (wrapping t m)"
  by (fastforce simp: keeps_def wrapping_def split: prod.splits sum.splits)

lemma keeps_deferring [keeps_intros]: "keeps I m \<Longrightarrow> (\<And>w. I w \<Longrightarrow> I (d w)) \<Longrightarrow> keeps I (deferring d m)"
  by (fastforce simp: keeps_def deferring_def split: prod.splits)

lemma keeps_require [keeps_intros]: "keeps I (require ok e)"
  by (simp add: keeps_def require_def ret_def fail_with_def)

lemma keeps_from_result [keeps_intros]: "keeps I (from_result r)"
  by (simp add: keeps_def from_result_def ret_def fail_with_def split: sum.splits)

lemma keeps_for_each [keeps_intros]: "(\<And>x. x \<in> set xs \<Longrightarrow> keeps I (f x)) \<Longrightarrow> keeps I (for_each xs f)"
  by (induction xs) (auto intro!: keeps_intros)

lemma keeps_fold_calls [keeps_intros]: "(\<And>x a. x \<in> set xs \<Longrightarrow> keeps I (f x a)) \<Longrightarrow> keeps I (fold_calls f xs a)"
  by (induction xs arbitrary: a) (auto intro!: keeps_intros)

lemma keeps_if [keeps_intros]: "(b \<Longrightarrow> keeps I m) \<Longrightarrow> (\<not> b \<Longrightarrow> keeps I m') \<Longrightarrow> keeps I (if b then m else m')"
  by simp

lemma keeps_case_sum [keeps_intros]:
  "(\<And>e. r = Inl e \<Longrightarrow> keeps I (f e)) \<Longrightarrow> (\<And>x. r = Inr x \<Longrightarrow> keeps I (g x)) \<Longrightarrow> keeps I (case r of Inl e \<Rightarrow> f e | Inr x \<Rightarrow> g x)"
  by (cases r) simp_all

lemma keeps_case_option [keeps_intros]:
  "(r = None \<Longrightarrow> keeps I m) \<Longrightarrow> (\<And>x. r = Some x \<Longrightarrow> keeps I (g x)) \<Longrightarrow> keeps I (case r of None \<Rightarrow> m | Some x \<Rightarrow> g x)"
  by (cases r) simp_all

lemma keeps_case_prod [keeps_intros]: "(\<And>x y. r = (x, y) \<Longrightarrow> keeps I (f x y)) \<Longrightarrow> keeps I (case r of (x, y) \<Rightarrow> f x y)"
  by (cases r) simp

lemma keeps_Let [keeps_intros]: "keeps I (f x) \<Longrightarrow> keeps I (let y = x in f y)"
  by simp

text \<open>An invariant held before a call holds after it, beside what the call gives.\<close>

lemma triple_keeps:
  assumes "keeps I m" and "triple P m Q E"
  shows "triple (\<lambda>w. I w \<and> P w) m (\<lambda>x w. I w \<and> Q x w) (\<lambda>e w. I w \<and> E e w)"
  using assms by (fastforce simp: keeps_def triple_def split: prod.splits sum.splits)

lemma bind_Inr: "bind m f w = (Inr y, w') \<longleftrightarrow> (\<exists>x w1. m w = (Inr x, w1) \<and> f x w1 = (Inr y, w'))"
  by (auto simp: bind_def split: prod.splits sum.splits)

lemma bind_Inl: "bind m f w = (Inl e, w') \<longleftrightarrow> m w = (Inl e, w') \<or> (\<exists>x w1. m w = (Inr x, w1) \<and> f x w1 = (Inl e, w'))"
  by (auto simp: bind_def split: prod.splits sum.splits)

lemma wrapping_Inl: "wrapping t m w = (Inl e, w') \<longleftrightarrow> (\<exists>e1. e = wrap_err t e1 \<and> m w = (Inl e1, w'))"
  by (auto simp: wrapping_def split: prod.splits sum.splits)

lemma wrapping_Inr: "wrapping t m w = (Inr x, w') \<longleftrightarrow> m w = (Inr x, w')"
  by (auto simp: wrapping_def split: prod.splits sum.splits)

lemma attempt_Inr: "attempt m w = (Inr r, w') \<longleftrightarrow> m w = (r, w')"
  by (auto simp: attempt_def split: prod.splits)

lemma triple_after_kept:
  assumes "keeps I m" and "\<And>e w. I w \<Longrightarrow> E e w" and "\<And>x. triple I (f x) Q E"
  shows "triple I (bind m f) Q E"
  by (rule triple_bind [where R = "\<lambda>_. I"])
    (use assms in \<open>fastforce simp: keeps_def triple_def split: prod.splits sum.splits\<close>)+

end
