(* ===== verification/Service_World.thy ===== *)
theory Service_World
  imports Call_Monad Spec_Store Backup_Store
begin

text \<open>
  What \<^verbatim>\<open>instance.Service\<close> stands on: the podman client (\<^verbatim>\<open>podman/client.go\<close>), the store, the configured
  hosts, the ingress controller, the sidecar injector and the libraries, as records of operations, and the state
  they act on: the hosts' own state, of an arbitrary type, the store's state, and the progress steps reported so far.
  The two stores of this repository are instances of the store's interface. The client's calls are arbitrary
  functions on the hosts' state, so each may fail or be cancelled at any time.
\<close>

subsection \<open>The podman client\<close>

record PortMapping =
  pm_HostPort :: int
  pm_Protocol :: string
  pm_Pod :: string

record Container =
  ctr_Name :: string
  ctr_Image :: string
  ctr_Status :: string
  ctr_Health :: string
  ctr_HealthStartPeriod :: int
  ctr_HealthInterval :: int
  ctr_StartedAt :: time
  ctr_Ports :: "PortMapping list"

record Pod =
  pod_Name :: string
  pod_Status :: string
  pod_Containers :: "Container list"

record PodVolume =
  pv_Name :: string
  pv_SizeBytes :: int

text \<open>
  \<open>pc_VolumeImport\<close> is given the stream's bytes and the error it ends with, and says whether it read the stream to
  its end. \<open>pc_Now\<close> is \<^verbatim>\<open>time.Now\<close>, \<open>pc_Tick\<close> waits for a ticker or for the context, \<open>pc_CtxErr\<close> is
  \<^verbatim>\<open>ctx.Err()\<close> and \<open>pc_invalidate\<close> drops a host from the service's read cache.
\<close>

record 'p Client =
  pc_PlayKube :: "ctx \<Rightarrow> string \<Rightarrow> string \<Rightarrow> bool \<Rightarrow> string list \<Rightarrow> ('p, unit) call"
  pc_PodInspect :: "ctx \<Rightarrow> string \<Rightarrow> string \<Rightarrow> ('p, Pod) call"
  pc_PodStart :: "ctx \<Rightarrow> string \<Rightarrow> string \<Rightarrow> ('p, unit) call"
  pc_PodStop :: "ctx \<Rightarrow> string \<Rightarrow> string \<Rightarrow> ('p, unit) call"
  pc_PodRestart :: "ctx \<Rightarrow> string \<Rightarrow> string \<Rightarrow> ('p, unit) call"
  pc_PodRemove :: "ctx \<Rightarrow> string \<Rightarrow> string \<Rightarrow> bool \<Rightarrow> ('p, unit) call"
  pc_SecretCreate :: "ctx \<Rightarrow> string \<Rightarrow> string \<Rightarrow> string \<Rightarrow> ('p, unit) call"
  pc_SecretInspect :: "ctx \<Rightarrow> string \<Rightarrow> string \<Rightarrow> ('p, unit) call"
  pc_SecretRemove :: "ctx \<Rightarrow> string \<Rightarrow> string \<Rightarrow> ('p, unit) call"
  pc_VolumeInspect :: "ctx \<Rightarrow> string \<Rightarrow> string \<Rightarrow> ('p, PodVolume) call"
  pc_VolumeRemove :: "ctx \<Rightarrow> string \<Rightarrow> string \<Rightarrow> bool \<Rightarrow> ('p, unit) call"
  pc_VolumeExport :: "ctx \<Rightarrow> string \<Rightarrow> string \<Rightarrow> ('p, string) call"
  pc_VolumeImport :: "ctx \<Rightarrow> string \<Rightarrow> string \<Rightarrow> string \<Rightarrow> rerr option \<Rightarrow> ('p, bool) call"
  pc_VolumeCreate :: "ctx \<Rightarrow> string \<Rightarrow> string \<Rightarrow> ('p, unit) call"
  pc_NetworkEnsure :: "ctx \<Rightarrow> string \<Rightarrow> string \<Rightarrow> ('p, unit) call"
  pc_ImagePull :: "ctx \<Rightarrow> string \<Rightarrow> string \<Rightarrow> ('p, unit) call"
  pc_UsedHostPorts :: "ctx \<Rightarrow> string \<Rightarrow> ('p, PortMapping list) call"
  pc_HostBoundPorts :: "ctx \<Rightarrow> string \<Rightarrow> string \<Rightarrow> ('p, int list) call"
  pc_SetHosts :: "string list \<Rightarrow> 'p \<Rightarrow> 'p"
  pc_Now :: "'p \<Rightarrow> time \<times> 'p"
  pc_Tick :: "ctx \<Rightarrow> ('p, unit) call"
  pc_CtxErr :: "ctx \<Rightarrow> 'p \<Rightarrow> rerr option"
  pc_invalidate :: "string \<Rightarrow> 'p \<Rightarrow> 'p"

subsection \<open>The store\<close>

record 's Store =
  st_PutSpec :: "Spec \<Rightarrow> ('s, unit) call"
  st_GetSpec :: "string \<Rightarrow> string \<Rightarrow> string \<Rightarrow> ('s, Spec) call"
  st_DeleteSpec :: "string \<Rightarrow> string \<Rightarrow> string \<Rightarrow> ('s, unit) call"
  st_ListSpecNetworks :: "string \<Rightarrow> ('s, SpecNetworks list) call"
  st_ListSpecKeys :: "string \<Rightarrow> ('s, SpecKey list) call"
  st_PutHostSecret :: "string \<Rightarrow> string \<Rightarrow> string \<Rightarrow> ('s, unit) call"
  st_GetHostSecret :: "string \<Rightarrow> string \<Rightarrow> ('s, string) call"
  st_DeleteHostSecret :: "string \<Rightarrow> string \<Rightarrow> ('s, unit) call"
  st_RenameHost :: "string \<Rightarrow> string \<Rightarrow> ('s, unit) call"
  st_CheckHostRename :: "string \<Rightarrow> string \<Rightarrow> ('s, unit) call"
  st_SecretsEnabled :: "'s \<Rightarrow> bool"
  st_ListTemplates :: "('s, Template list) call"
  st_GetTemplate :: "string \<Rightarrow> ('s, Template) call"
  st_PutTemplate :: "Template \<Rightarrow> ('s, unit) call"
  st_DeleteTemplate :: "string \<Rightarrow> ('s, unit) call"

definition store_err :: "store_error \<Rightarrow> rerr" where
  "store_err e =
     (case e of
        ErrNotFound \<Rightarrow> RErr [StoreNotFound] ''store: not found''
      | ErrInvalidTerminalState _ \<Rightarrow> RErr [] ''invalid terminal state''
      | ErrExists _ \<Rightarrow> RErr [] ''already exists''
      | ErrDriver t \<Rightarrow> RErr [] t
      | ErrSecretsNeedKey \<Rightarrow> RErr [SecretsNeedKey] ''secrets require an encryption key (-spec-key-file)''
      | ErrSpecCorrupt t \<Rightarrow> RErr [SpecCorrupt] t
      | ErrSecretsUndecryptable t \<Rightarrow> RErr [SecretsUndecryptable] t
      | ErrHostRenameConflict \<Rightarrow> RErr [HostRenameConflict] ''store: rename target host id already has state''
      | ErrHostRenameHasBackups \<Rightarrow> RErr [HostRenameHasBackups] ''store: host has backups; rename would orphan their blob storage'')"

definition store_call :: "('s \<Rightarrow> 'a result \<times> 's) \<Rightarrow> ('s, 'a) call" where
  "store_call f s = (case f s of (Inl e, s') \<Rightarrow> (Inl (store_err e), s') | (Inr x, s') \<Rightarrow> (Inr x, s'))"

text \<open>The time and the random bytes an operation reads, as a function of the state it runs on.\<close>

record Supply =
  sup_now :: time
  sup_rand1 :: "string + string"
  sup_rand2 :: "string + string"

definition memory_store :: "(Memory \<Rightarrow> Supply) \<Rightarrow> Memory Store" where
  "memory_store nd =
     \<lparr>st_PutSpec = (\<lambda>sp. store_call (mem_PutSpec sp)),
      st_GetSpec = (\<lambda>h t s. store_call (mem_GetSpec h t s)),
      st_DeleteSpec = (\<lambda>h t s. store_call (mem_DeleteSpec h t s)),
      st_ListSpecNetworks = (\<lambda>h. store_call (mem_ListSpecNetworks h)),
      st_ListSpecKeys = (\<lambda>h. store_call (mem_ListSpecKeys h)),
      st_PutHostSecret = (\<lambda>h n v. store_call (mem_PutHostSecret h n v)),
      st_GetHostSecret = (\<lambda>h n. store_call (mem_GetHostSecret h n)),
      st_DeleteHostSecret = (\<lambda>h n. store_call (mem_DeleteHostSecret h n)),
      st_RenameHost = (\<lambda>old new. store_call (mem_RenameHost old new)),
      st_CheckHostRename = (\<lambda>old new. store_call (mem_CheckHostRename old new)),
      st_SecretsEnabled = (\<lambda>_. True),
      st_ListTemplates = store_call mem_ListTemplates,
      st_GetTemplate = (\<lambda>i. store_call (mem_GetTemplate i)),
      st_PutTemplate = (\<lambda>t. store_call (\<lambda>m. mem_PutTemplate (sup_now (nd m)) t m)),
      st_DeleteTemplate = (\<lambda>i. store_call (mem_DeleteTemplate i))\<rparr>"

definition sqlite_store :: "Codec \<Rightarrow> (SQLite \<Rightarrow> Supply) \<Rightarrow> SQLite Store" where
  "sqlite_store c nd =
     \<lparr>st_PutSpec = (\<lambda>sp. store_call (\<lambda>s. sql_PutSpec c (sup_now (nd s)) (sup_rand1 (nd s)) (sup_rand2 (nd s)) sp s)),
      st_GetSpec = (\<lambda>h t s. store_call (sql_GetSpec c h t s)),
      st_DeleteSpec = (\<lambda>h t s. store_call (sql_DeleteSpec h t s)),
      st_ListSpecNetworks = (\<lambda>h. store_call (sql_ListSpecNetworks c h)),
      st_ListSpecKeys = (\<lambda>h. store_call (sql_ListSpecKeys h)),
      st_PutHostSecret = (\<lambda>h n v. store_call (\<lambda>s. sql_PutHostSecret c (sup_now (nd s)) (sup_rand1 (nd s)) h n v s)),
      st_GetHostSecret = (\<lambda>h n. store_call (sql_GetHostSecret c h n)),
      st_DeleteHostSecret = (\<lambda>h n. store_call (sql_DeleteHostSecret h n)),
      st_RenameHost = (\<lambda>old new. store_call (sql_RenameHost old new)),
      st_CheckHostRename = (\<lambda>old new. store_call (sql_CheckHostRename old new)),
      st_SecretsEnabled = sql_SecretsEnabled,
      st_ListTemplates = store_call (sql_ListTemplates c),
      st_GetTemplate = (\<lambda>i. store_call (sql_GetTemplate c i)),
      st_PutTemplate = (\<lambda>t. store_call (\<lambda>s. sql_PutTemplate c (sup_now (nd s)) t s)),
      st_DeleteTemplate = (\<lambda>i. store_call (sql_DeleteTemplate i))\<rparr>"

subsection \<open>The service\<close>

record Host =
  host_ID :: string
  host_Drain :: bool
  host_IngressManaged :: "bool option"

record TarEntry =
  te_Name :: string
  te_Type :: nat
  te_Linkname :: string
  te_Body :: string

text \<open>
  Libraries: the tar reader (the entries before the end or the error), \<^verbatim>\<open>path.Clean\<close>, SHA-256, base64, the
  rendering of a template's body, the container images and the host ports of the rendered YAML and the literal
  container names of a body.
\<close>

record Lib =
  lib_tar :: "string \<Rightarrow> TarEntry list \<times> rerr option"
  lib_Clean :: "string \<Rightarrow> string"
  lib_sha256 :: "string \<Rightarrow> string"
  lib_base64 :: "string \<Rightarrow> string"
  lib_RenderAndValidate :: "string \<Rightarrow> (string \<times> json) list \<Rightarrow> rerr + string"
  lib_yaml_docs :: "string \<Rightarrow> json list"
  lib_pod_ports :: "string \<Rightarrow> (string \<times> int list) list"
  lib_ContainerNames :: "string \<Rightarrow> Meta \<Rightarrow> rerr + string list"

text \<open>A sidecar injector, and the host ports it requires when it is a \<^verbatim>\<open>HostPortRequirer\<close>.\<close>

record 'p Injector =
  inj_InjectSidecars :: "string \<Rightarrow> Meta \<Rightarrow> (string \<times> json) list \<Rightarrow> string \<Rightarrow> string \<Rightarrow> string option \<Rightarrow> ('p, string \<times> InjectorSecret list) call"
  inj_RequiredHostPorts :: "((string \<times> json) list \<Rightarrow> rerr + (string \<times> int) list) option"

record ('p, 's) Service =
  sv_client :: "'p Client"
  sv_store :: "'s Store"
  sv_hosts :: "Host list"
  sv_ingress :: "ctx \<Rightarrow> string \<Rightarrow> 's \<Rightarrow> ('p, unit) call"
  sv_ingressNet :: string
  sv_sidecar :: "'p Injector option"
  sv_verifyVolumes :: bool
  sv_lib :: Lib
  sv_verifyTimeout :: int
  sv_deployVerifyTimeout :: int
  sv_verifyStableCount :: int
  sv_deployVerifyStableCount :: int
  sv_fuel :: nat

record ('p, 's) World =
  w_podman :: 'p
  w_store :: 's
  w_steps :: "(string \<times> string) list"

definition on_podman :: "('p, 'a) call \<Rightarrow> (('p, 's) World, 'a) call" where
  "on_podman f w = (case f (w_podman w) of (r, p) \<Rightarrow> (r, w\<lparr>w_podman := p\<rparr>))"

definition on_store :: "('s, 'a) call \<Rightarrow> (('p, 's) World, 'a) call" where
  "on_store f w = (case f (w_store w) of (r, s) \<Rightarrow> (r, w\<lparr>w_store := s\<rparr>))"

definition asking :: "(('p, 's) World \<Rightarrow> 'a) \<Rightarrow> (('p, 's) World, 'a) call" where
  "asking f w = (Inr (f w), w)"

definition report :: "string \<Rightarrow> string \<Rightarrow> (('p, 's) World, unit) call" where
  "report name detail w = (Inr (), w\<lparr>w_steps := w_steps w @ [(name, detail)]\<rparr>)"

definition time_now :: "('p, 's) Service \<Rightarrow> (('p, 's) World, time) call" where
  "time_now sv w = (case pc_Now (sv_client sv) (w_podman w) of (t, p) \<Rightarrow> (Inr t, w\<lparr>w_podman := p\<rparr>))"

definition invalidateInstances :: "('p, 's) Service \<Rightarrow> string \<Rightarrow> ('p, 's) World \<Rightarrow> ('p, 's) World" where
  "invalidateInstances sv host w = w\<lparr>w_podman := pc_invalidate (sv_client sv) host (w_podman w)\<rparr>"

definition reconcile_ingress :: "('p, 's) Service \<Rightarrow> ctx \<Rightarrow> string \<Rightarrow> (('p, 's) World, unit) call" where
  "reconcile_ingress sv ctx host w = on_podman (sv_ingress sv ctx host (w_store w)) w"

subsection \<open>Invariants of the two states\<close>

text \<open>\<open>X\<close> are steps that have been reported.\<close>

definition both :: "('p \<Rightarrow> bool) \<Rightarrow> ('s \<Rightarrow> bool) \<Rightarrow> (string \<times> string) set \<Rightarrow> ('p, 's) World \<Rightarrow> bool" where
  "both J K X w \<longleftrightarrow> J (w_podman w) \<and> K (w_store w) \<and> X \<subseteq> set (w_steps w)"

lemma keeps_on_podman [keeps_intros]: "keeps J f \<Longrightarrow> keeps (both J K X) (on_podman f)"
  by (fastforce simp: keeps_def on_podman_def both_def split: prod.splits)

lemma keeps_on_store [keeps_intros]: "keeps K f \<Longrightarrow> keeps (both J K X) (on_store f)"
  by (fastforce simp: keeps_def on_store_def both_def split: prod.splits)

lemma keeps_asking [keeps_intros]: "keeps I (asking f)"
  by (simp add: keeps_def asking_def)

lemma triple_asking: "triple P (asking f) (\<lambda>_. P) E"
  by (simp add: triple_def asking_def)

lemma keeps_report [keeps_intros]: "keeps (both J K X) (report name detail)"
  by (auto simp: keeps_def report_def both_def)

lemma keeps_time_now: "(\<And>p. J p \<Longrightarrow> J (snd (pc_Now (sv_client sv) p))) \<Longrightarrow> keeps (both J K X) (time_now sv)"
  by (fastforce simp: keeps_def time_now_def both_def split: prod.splits)

lemma keeps_reconcile_ingress:
  assumes "\<And>s. keeps J (sv_ingress sv ctx host s)"
  shows "keeps (both J K X) (reconcile_ingress sv ctx host)"
  using keeps_on_podman [OF assms, of K X] by (simp add: keeps_def reconcile_ingress_def)

lemma both_invalidate: "(\<And>p. J p \<Longrightarrow> J (pc_invalidate (sv_client sv) host p)) \<Longrightarrow> both J K X w \<Longrightarrow> both J K X (invalidateInstances sv host w)"
  by (simp add: both_def invalidateInstances_def)

lemma keeps_store_call: "(\<And>s. K s \<Longrightarrow> K (snd (f s))) \<Longrightarrow> keeps K (store_call f)"
  by (fastforce simp: keeps_def store_call_def split: prod.splits sum.splits)

end
