(* ===== verification/Instance_Networks.thy ===== *)
theory Instance_Networks
  imports Service_World
begin

text \<open>
  Names and shared networks of \<^verbatim>\<open>internal/instance/service.go\<close>: the names of pods, volumes and secrets, the
  networks an instance joins, and the check that no two instances of a host answer to one DNS name on one network.
\<close>

subsection \<open>Hosts, templates and names\<close>

definition ingressEnabled :: "('p, 's) Service \<Rightarrow> bool" where
  "ingressEnabled sv \<longleftrightarrow> sv_ingressNet sv \<noteq> ''''"

definition sv_host :: "('p, 's) Service \<Rightarrow> string \<Rightarrow> Host option" where
  "sv_host sv i = find (\<lambda>h. host_ID h = i) (sv_hosts sv)"

definition UnknownHostErr :: rerr where
  "UnknownHostErr = RErr [UnknownHost] ''unknown host''"

definition UnknownTemplateErr :: rerr where
  "UnknownTemplateErr = RErr [UnknownTemplate] ''unknown template''"

definition hasTemplate :: "('p, 's) Service \<Rightarrow> string \<Rightarrow> (('p, 's) World, bool) call" where
  "hasTemplate sv i =
     bind (attempt (on_store (st_GetTemplate (sv_store sv) i))) (\<lambda>r.
       case r of
         Inr _ \<Rightarrow> ret True
       | Inl e \<Rightarrow> if errors_Is e StoreNotFound then ret False else fail_with e)"

definition lookup_template :: "('p, 's) Service \<Rightarrow> string \<Rightarrow> string \<Rightarrow> (('p, 's) World, Template) call" where
  "lookup_template sv host tmpl =
     bind (require (sv_host sv host \<noteq> None) UnknownHostErr) (\<lambda>_.
     bind (attempt (on_store (st_GetTemplate (sv_store sv) tmpl))) (\<lambda>r.
       case r of
         Inr t \<Rightarrow> ret t
       | Inl e \<Rightarrow> if errors_Is e StoreNotFound then fail_with UnknownTemplateErr else fail_with (wrap_err ''lookup template'' e)))"

definition podName :: "string \<Rightarrow> string \<Rightarrow> string" where
  "podName tmpl slug = tmpl @ ''-'' @ slug"

definition volumeNamePrefix :: "string \<Rightarrow> string \<Rightarrow> string" where
  "volumeNamePrefix tmpl slug = podName tmpl slug @ ''-''"

definition volumeName :: "string \<Rightarrow> string \<Rightarrow> string \<Rightarrow> string" where
  "volumeName tmpl slug short = volumeNamePrefix tmpl slug @ short"

definition appliedVolumeNames :: "Volume list \<Rightarrow> string list" where
  "appliedVolumeNames vols = map vol_Name vols"

definition appliedVolumeMeta :: "Volume list \<Rightarrow> (string \<times> AppliedVolumeMarker) list" where
  "appliedVolumeMeta vols =
     fold (\<lambda>v m. AList.update (vol_Name v) \<lparr>avm_Backup = vol_Backup v, avm_Exclude = vol_Exclude v\<rparr> m) vols []"

subsection \<open>The networks an instance joins\<close>

definition merge_aliases :: "string list \<Rightarrow> string list \<Rightarrow> string list" where
  "merge_aliases extra aliases = fold (\<lambda>a out. if a \<in> set out then out else out @ [a]) extra aliases"

definition join_one :: "Network \<Rightarrow> Network list \<Rightarrow> Network list" where
  "join_one n out =
     (if net_Name n \<in> net_Name ` set out
      then map (\<lambda>j. if net_Name j = net_Name n then j\<lparr>net_Aliases := merge_aliases (net_Aliases n) (net_Aliases j)\<rparr> else j) out
      else out @ [n])"

definition joinNetworks :: "('p, 's) Service \<Rightarrow> Meta \<Rightarrow> Network list" where
  "joinNetworks sv m =
     fold join_one
       ((if ingressEnabled sv \<and> meta_Ingress m \<noteq> None then [\<lparr>net_Name = sv_ingressNet sv, net_Aliases = []\<rparr>] else []) @ meta_Networks m) []"

definition metaWithNetworks :: "Meta \<Rightarrow> Network list \<Rightarrow> Meta" where
  "metaWithNetworks m extra = (if length extra = 0 then m else m\<lparr>meta_Networks := meta_Networks m @ extra\<rparr>)"

fun strings_Join :: "string list \<Rightarrow> string \<Rightarrow> string" where
  "strings_Join [] sep = ''''"
| "strings_Join [x] sep = x"
| "strings_Join (x # xs) sep = x @ sep @ strings_Join xs sep"

definition networkArg :: "Network \<Rightarrow> string" where
  "networkArg n =
     (if length (net_Aliases n) = 0 then net_Name n else net_Name n @ '':alias='' @ strings_Join (net_Aliases n) '',alias='')"

definition ensureNetworks :: "('p, 's) Service \<Rightarrow> ctx \<Rightarrow> string \<Rightarrow> Meta \<Rightarrow> (('p, 's) World, string list) call" where
  "ensureNetworks sv ctx hostID m =
     fold_calls (\<lambda>j out.
       bind (wrapping ''ensure network'' (on_podman (pc_NetworkEnsure (sv_client sv) ctx hostID (net_Name j)))) (\<lambda>_.
         ret (out @ [networkArg j]))) (joinNetworks sv m) []"

subsection \<open>Claims on DNS names\<close>

record netClaim =
  nc_template :: string
  nc_slug :: string
  nc_joins :: "Network list"
  nc_containers :: "string list"
  nc_ingressNet :: string

datatype claimKind = kindPodName | kindAlias | kindContainer

definition metaWithContainerNames :: "('p, 's) Service \<Rightarrow> Template \<Rightarrow> Meta" where
  "metaWithContainerNames sv t =
     (if meta_ContainerNames (tmpl_Meta t) \<noteq> None \<or> tmpl_Body t = '''' then tmpl_Meta t
      else case lib_ContainerNames (sv_lib sv) (tmpl_Body t) (tmpl_Meta t) of
             Inl _ \<Rightarrow> tmpl_Meta t
           | Inr literal \<Rightarrow> (tmpl_Meta t)\<lparr>meta_ContainerNames := Some literal\<rparr>)"

definition newClaim :: "('p, 's) Service \<Rightarrow> string \<Rightarrow> string \<Rightarrow> Meta \<Rightarrow> netClaim" where
  "newClaim sv tmpl slug m =
     \<lparr>nc_template = tmpl, nc_slug = slug, nc_joins = joinNetworks sv m,
      nc_containers = (case meta_ContainerNames m of None \<Rightarrow> [] | Some names \<Rightarrow> names), nc_ingressNet = sv_ingressNet sv\<rparr>"

definition claimedNames :: "netClaim \<Rightarrow> string \<Rightarrow> (string \<times> claimKind) list option" where
  "claimedNames c net =
     (case find (\<lambda>j. net_Name j = net) (nc_joins c) of
        None \<Rightarrow> None
      | Some j \<Rightarrow>
          Some ([(podName (nc_template c) (nc_slug c), kindPodName)] @ map (\<lambda>a. (a, kindAlias)) (net_Aliases j) @
            (if net \<noteq> nc_ingressNet c then map (\<lambda>n. (n, kindContainer)) (nc_containers c) else [])))"

text \<open>The names the subject claims, each with the first kind seen.\<close>

definition first_kinds :: "(string \<times> claimKind) list \<Rightarrow> (string \<times> claimKind) list" where
  "first_kinds mine = fold (\<lambda>(n, k) claimed. if n \<in> fst ` set claimed then claimed else claimed @ [(n, k)]) mine []"

fun first_clash :: "(string \<times> claimKind) list \<Rightarrow> (string \<times> claimKind) list \<Rightarrow> (string \<times> claimKind \<times> claimKind) option" where
  "first_clash claimed [] = None"
| "first_clash claimed ((n, k) # theirs) =
     (case map_of claimed n of Some mineKind \<Rightarrow> Some (n, mineKind, k) | None \<Rightarrow> first_clash claimed theirs)"

fun clash_with_peers :: "string \<Rightarrow> (string \<times> claimKind) list \<Rightarrow> netClaim list \<Rightarrow> (string \<times> claimKind \<times> claimKind) option" where
  "clash_with_peers net claimed [] = None"
| "clash_with_peers net claimed (p # peers) =
     (case claimedNames p net of
        None \<Rightarrow> clash_with_peers net claimed peers
      | Some theirs \<Rightarrow>
          (case first_clash claimed theirs of Some c \<Rightarrow> Some c | None \<Rightarrow> clash_with_peers net claimed peers))"

definition NameConflictErr :: "claimKind \<Rightarrow> claimKind \<Rightarrow> rerr" where
  "NameConflictErr mine theirs =
     RErr [NetworkNameConflict]
       (if mine = kindContainer \<or> theirs = kindContainer then ''networks: DNS name is claimed by both; podman registers every container name''
        else ''networks: DNS name is claimed by both'')"

fun conflict_on :: "netClaim \<Rightarrow> netClaim list \<Rightarrow> Network list \<Rightarrow> rerr option" where
  "conflict_on subject peers [] = None"
| "conflict_on subject peers (j # joins) =
     (case clash_with_peers (net_Name j)
             (first_kinds (case claimedNames subject (net_Name j) of None \<Rightarrow> [] | Some mine \<Rightarrow> mine)) peers of
        Some (_, mineKind, theirKind) \<Rightarrow> Some (NameConflictErr mineKind theirKind)
      | None \<Rightarrow> conflict_on subject peers joins)"

definition firstNameConflictFor :: "netClaim \<Rightarrow> netClaim list \<Rightarrow> rerr option" where
  "firstNameConflictFor subject peers = conflict_on subject peers (nc_joins subject)"

definition excluding :: "netClaim list \<Rightarrow> string \<Rightarrow> string list \<Rightarrow> netClaim list" where
  "excluding claims tmpl slugs = filter (\<lambda>c. \<not> (nc_template c = tmpl \<and> nc_slug c \<in> set slugs)) claims"

text \<open>\<open>cache\<close> is the template metas read so far; an instance whose template is gone is skipped.\<close>

definition claim_of_row ::
  "('p, 's) Service \<Rightarrow> SpecNetworks \<Rightarrow> netClaim list \<times> (string \<times> Meta) list \<Rightarrow> (('p, 's) World, netClaim list \<times> (string \<times> Meta) list) call" where
  "claim_of_row sv k acc =
     (case acc of (out, cache) \<Rightarrow>
        let tmpl = key_Template (sn_Key k);
            add = (\<lambda>meta cache. (out @ [newClaim sv tmpl (key_Slug (sn_Key k))
               (metaWithNetworks meta (case sn_Networks k of None \<Rightarrow> [] | Some nets \<Rightarrow> nets))], cache))
        in case map_of cache tmpl of
             Some meta \<Rightarrow> ret (add meta cache)
           | None \<Rightarrow>
               bind (attempt (on_store (st_GetTemplate (sv_store sv) tmpl))) (\<lambda>r.
                 case r of
                   Inl e \<Rightarrow> if errors_Is e StoreNotFound then ret (out, cache) else fail_with e
                 | Inr t \<Rightarrow> ret (add (metaWithContainerNames sv t) (AList.update tmpl (metaWithContainerNames sv t) cache))))"

definition hostClaims :: "('p, 's) Service \<Rightarrow> string \<Rightarrow> (string \<times> Meta) list \<Rightarrow> (('p, 's) World, netClaim list) call" where
  "hostClaims sv host metaFor =
     bind (on_store (st_ListSpecNetworks (sv_store sv) host)) (\<lambda>keys.
     bind (fold_calls (claim_of_row sv) keys ([], metaFor)) (\<lambda>(out, _). ret out))"

definition appliedNetworks :: "('p, 's) Service \<Rightarrow> string \<Rightarrow> string \<Rightarrow> string \<Rightarrow> (('p, 's) World, Network list option) call" where
  "appliedNetworks sv host tmpl slug =
     bind (wrapping ''load instance networks'' (on_store (st_ListSpecNetworks (sv_store sv) host))) (\<lambda>rows.
       ret (case find (\<lambda>r. key_Template (sn_Key r) = tmpl \<and> key_Slug (sn_Key r) = slug) rows of
              None \<Rightarrow> None | Some r \<Rightarrow> sn_Networks r))"

definition check_template_on :: "('p, 's) Service \<Rightarrow> Template \<Rightarrow> Host \<Rightarrow> (('p, 's) World, unit) call" where
  "check_template_on sv t h =
     bind (wrapping ''networks: check alias uniqueness'' (hostClaims sv (host_ID h) [(meta_ID (tmpl_Meta t), metaWithContainerNames sv t)])) (\<lambda>claims.
       for_each claims (\<lambda>c.
         if nc_template c \<noteq> meta_ID (tmpl_Meta t) then ret ()
         else case firstNameConflictFor c (excluding claims (nc_template c) [nc_slug c]) of
                Some e \<Rightarrow> fail_with e
              | None \<Rightarrow> ret ()))"

definition checkTemplateNetworkConflicts :: "('p, 's) Service \<Rightarrow> Template \<Rightarrow> (('p, 's) World, unit) call" where
  "checkTemplateNetworkConflicts sv t = for_each (sv_hosts sv) (check_template_on sv t)"

end
