(* ===== verification/Instance_Apply.thy ===== *)
theory Instance_Apply
  imports Instance_Networks
begin

text \<open>
  \<^verbatim>\<open>Service.Apply\<close> and what re-applies through it (\<^verbatim>\<open>internal/instance/service.go\<close>): the checks of a
  request, which touch nothing, the effects on the host in the order the code has them, the persisted spec; and the
  upgrades, rotations and updates that load a spec, change a part of it and apply it again. The per-instance and
  per-host locks serialize these operations; one operation at a time is modelled.
\<close>

subsection \<open>Requests\<close>

text \<open>\<open>None\<close> in \<open>ar_Networks\<close> is Go's nil: not stated.\<close>

record ApplyRequest =
  ar_Template :: string
  ar_Slug :: string
  ar_Parameters :: "(string \<times> json) list"
  ar_Secrets :: "(string \<times> string) list"
  ar_Domains :: "string list"
  ar_Networks :: "Network list option"

record ApplyOptions =
  ao_Replace :: bool
  ao_SkipPull :: bool
  ao_AllowMissingSecrets :: bool
  ao_RestoreIntent :: "string option"
  ao_SupersededSlug :: string

definition instanceSecretName :: "string \<Rightarrow> string \<Rightarrow> string \<Rightarrow> string" where
  "instanceSecretName tmpl slug name = tmpl @ ''-'' @ slug @ ''-'' @ name"

definition wrapAsKubeSecret :: "Lib \<Rightarrow> string \<Rightarrow> string \<Rightarrow> string \<Rightarrow> string" where
  "wrapAsKubeSecret lib name key v =
     ''apiVersion: v1'' @ [CHR 0x0A] @ ''kind: Secret'' @ [CHR 0x0A] @ ''type: Opaque'' @ [CHR 0x0A] @ ''metadata:'' @ [CHR 0x0A] @
     ''  name: '' @ name @ [CHR 0x0A] @ ''data:'' @ [CHR 0x0A] @ ''  '' @ key @ '': '' @ lib_base64 lib v @ [CHR 0x0A]"

text \<open>The images of the \<^verbatim>\<open>Pod\<close> documents, first seen first.\<close>

definition json_field :: "string \<Rightarrow> json \<Rightarrow> json option" where
  "json_field k j = (case j of JObject fs \<Rightarrow> map_of fs k | _ \<Rightarrow> None)"

definition json_items :: "json option \<Rightarrow> json list" where
  "json_items j = (case j of Some (JArray xs) \<Rightarrow> xs | _ \<Rightarrow> [])"

definition container_image :: "json \<Rightarrow> string" where
  "container_image c = (case json_field ''image'' c of Some (JString img) \<Rightarrow> img | _ \<Rightarrow> '''')"

definition pod_containers :: "json \<Rightarrow> json list" where
  "pod_containers doc =
     (if json_field ''kind'' doc = Some (JString ''Pod'') then
        case json_field ''spec'' doc of
          Some (JObject fs) \<Rightarrow> json_items (map_of fs ''containers'') @ json_items (map_of fs ''initContainers'')
        | _ \<Rightarrow> []
      else [])"

definition containerImages :: "Lib \<Rightarrow> string \<Rightarrow> string list" where
  "containerImages lib body =
     fold (\<lambda>img out. if img = '''' \<or> img \<in> set out then out else out @ [img])
       (map container_image (concat (map pod_containers (lib_yaml_docs lib body)))) []"

subsection \<open>The checks of a request\<close>

text \<open>Whether a stored instance claims one of the wanted domains; the applied instance and the one it supersedes do not count.\<close>

definition domain_free ::
  "('p, 's) Service \<Rightarrow> string \<Rightarrow> ApplyRequest \<Rightarrow> ApplyOptions \<Rightarrow> SpecKey \<Rightarrow> (('p, 's) World, unit) call" where
  "domain_free sv host req opts k =
     (if key_Template k = ar_Template req \<and> (key_Slug k = ar_Slug req \<or> key_Slug k = ao_SupersededSlug opts) then ret ()
      else
        bind (wrapping ''ingress: check domain uniqueness'' (on_store (st_GetSpec (sv_store sv) host (key_Template k) (key_Slug k)))) (\<lambda>other.
          require (\<not> list_ex (\<lambda>d. d \<in> set (ar_Domains req)) (spec_Domains other)) (RErr [] ''ingress: domain already claimed'')))"

definition validateIngress ::
  "('p, 's) Service \<Rightarrow> string \<Rightarrow> ApplyRequest \<Rightarrow> Template \<Rightarrow> ApplyOptions \<Rightarrow> (('p, 's) World, unit) call" where
  "validateIngress sv host req tmpl opts =
     (if length (ar_Domains req) = 0 then ret ()
      else if \<not> ingressEnabled sv then fail_with (RErr [] ''instance declares domains but ingress is disabled'')
      else if meta_Ingress (tmpl_Meta tmpl) = None then fail_with (RErr [] ''instance declares domains but template has no ingress'')
      else if (case sv_host sv host of Some h \<Rightarrow> host_IngressManaged h = Some False | None \<Rightarrow> False)
      then fail_with (RErr [] ''instance declares domains but host is not ingress-managed'')
      else
        bind (wrapping ''ingress: check domain uniqueness'' (on_store (st_ListSpecKeys (sv_store sv) host))) (\<lambda>keys.
          for_each keys (domain_free sv host req opts)))"

definition validateNetworkAliases ::
  "('p, 's) Service \<Rightarrow> string \<Rightarrow> ApplyRequest \<Rightarrow> Template \<Rightarrow> ApplyOptions \<Rightarrow> (('p, 's) World, unit) call" where
  "validateNetworkAliases sv host req tmpl opts =
     (let meta = metaWithNetworks (metaWithContainerNames sv tmpl) (case ar_Networks req of None \<Rightarrow> [] | Some nets \<Rightarrow> nets);
          mine = newClaim sv (ar_Template req) (ar_Slug req) meta
      in if length (nc_joins mine) = 0 then ret ()
         else
           bind (wrapping ''networks: check alias uniqueness'' (hostClaims sv host [(ar_Template req, metaWithContainerNames sv tmpl)])) (\<lambda>peers.
             case firstNameConflictFor mine (excluding peers (ar_Template req) [ar_Slug req, ao_SupersededSlug opts]) of
               Some e \<Rightarrow> fail_with e
             | None \<Rightarrow> ret ()))"

definition SecretsNeedKeyErr :: rerr where
  "SecretsNeedKeyErr = RErr [SecretsNeedKey] ''secrets require an encryption key (-spec-key-file)''"

definition lift_check :: "string \<Rightarrow> rerr option \<Rightarrow> ('w, unit) call" where
  "lift_check t e = (case e of None \<Rightarrow> ret () | Some err \<Rightarrow> fail_with (wrap_err t err))"

definition pin_slug :: "string \<Rightarrow> (string \<times> json) list \<Rightarrow> (string \<times> json) list" where
  "pin_slug slug ps = (if has_key ps ''slug'' then AList.update ''slug'' (JString slug) ps else ps)"

text \<open>The applied parameters: defaults filled in, and a \<^verbatim>\<open>slug\<close> entry pinned to the canonical slug.\<close>

definition effective_params :: "Meta \<Rightarrow> string \<Rightarrow> (string \<times> json) list \<Rightarrow> (string \<times> json) list" where
  "effective_params m slug params =
     pin_slug slug (ApplyDefaults m params)"

definition check_host_secret :: "('p, 's) Service \<Rightarrow> ctx \<Rightarrow> string \<Rightarrow> string \<Rightarrow> (('p, 's) World, unit) call" where
  "check_host_secret sv ctx host name =
     bind (attempt (on_podman (pc_SecretInspect (sv_client sv) ctx host name))) (\<lambda>r.
       case r of
         Inr _ \<Rightarrow> ret ()
       | Inl e \<Rightarrow> if errors_Is e PodNotFound then fail_with (RErr [HostSecretMissing] ''required host secret missing'')
                 else fail_with (wrap_err ''inspect host secret'' e))"

definition pod_exists :: "('p, 's) Service \<Rightarrow> ctx \<Rightarrow> string \<Rightarrow> string \<Rightarrow> string \<Rightarrow> (('p, 's) World, bool) call" where
  "pod_exists sv ctx host tmpl slug =
     bind (attempt (on_podman (pc_PodInspect (sv_client sv) ctx host (podName tmpl slug)))) (\<lambda>r.
       case r of
         Inr _ \<Rightarrow> ret True
       | Inl e \<Rightarrow> if errors_Is e PodNotFound then ret False else fail_with (wrap_err ''inspect pod'' e))"

definition inject :: "('p, 's) Service \<Rightarrow> string \<Rightarrow> ApplyRequest \<Rightarrow> Meta \<Rightarrow> (string \<times> json) list \<Rightarrow> string option \<Rightarrow> string
    \<Rightarrow> (('p, 's) World, string \<times> InjectorSecret list) call" where
  "inject sv host req m params intent yaml =
     (case sv_sidecar sv of
        None \<Rightarrow> ret (yaml, [])
      | Some si \<Rightarrow> wrapping ''sidecar inject'' (on_podman (inj_InjectSidecars si yaml m params host (ar_Slug req) intent)))"

text \<open>The bound ports of each protocol, read once per protocol.\<close>

definition bound_ports :: "('p, 's) Service \<Rightarrow> ctx \<Rightarrow> string \<Rightarrow> string \<times> int \<Rightarrow> (string \<times> int list) list \<Rightarrow> (('p, 's) World, (string \<times> int list) list) call" where
  "bound_ports sv ctx host p acc =
     (if has_key acc (fst p) then ret acc
      else bind (wrapping ''host bound ports'' (on_podman (pc_HostBoundPorts (sv_client sv) ctx host (fst p)))) (\<lambda>bound.
             ret (AList.update (fst p) bound acc)))"

definition PortConflictErr :: rerr where
  "PortConflictErr = RErr [PortConflict] ''required host port already in use''"

definition check_ports :: "('p, 's) Service \<Rightarrow> ctx \<Rightarrow> string \<Rightarrow> ApplyRequest \<Rightarrow> (string \<times> json) list \<Rightarrow> (('p, 's) World, unit) call" where
  "check_ports sv ctx host req params =
     (case sv_sidecar sv of
        None \<Rightarrow> ret ()
      | Some si \<Rightarrow>
     (case inj_RequiredHostPorts si of
        None \<Rightarrow> ret ()
      | Some ports \<Rightarrow>
          bind (wrapping ''sidecar required host ports'' (from_result (ports params))) (\<lambda>want.
            if length want = 0 then ret ()
            else
              bind (wrapping ''ports in use'' (on_podman (pc_UsedHostPorts (sv_client sv) ctx host))) (\<lambda>used.
              let selfPod = podName (ar_Template req) (ar_Slug req);
                  busy = map (\<lambda>p. (pm_Protocol p, pm_HostPort p)) (filter (\<lambda>p. pm_Pod p \<noteq> selfPod) used)
              in bind (fold_calls (bound_ports sv ctx host) want []) (\<lambda>hostBound.
                   require (\<not> list_ex (\<lambda>p. p \<in> set busy \<or> snd p \<in> set (case map_of hostBound (fst p) of None \<Rightarrow> [] | Some bs \<Rightarrow> bs)) want)
                     PortConflictErr)))))"

text \<open>What the checks give: the template, the parameters to apply, the YAML and the injector's secrets.\<close>

record ApplyPlan =
  ap_Template :: Template
  ap_Parameters :: "(string \<times> json) list"
  ap_YAML :: string
  ap_InjectorSecrets :: "InjectorSecret list"

definition apply_checks ::
  "('p, 's) Service \<Rightarrow> ctx \<Rightarrow> string \<Rightarrow> ApplyRequest \<Rightarrow> ApplyOptions \<Rightarrow> (('p, 's) World, ApplyPlan) call" where
  "apply_checks sv ctx host req opts =
     bind (lookup_template sv host (ar_Template req)) (\<lambda>tmpl.
     let params = effective_params (tmpl_Meta tmpl) (ar_Slug req) (ar_Parameters req) in
     bind (lift_check ''validate'' (validate_contract (tmpl_Meta tmpl) params (ar_Secrets req) (ao_AllowMissingSecrets opts))) (\<lambda>_.
     bind (asking (\<lambda>w. st_SecretsEnabled (sv_store sv) (w_store w))) (\<lambda>enabled.
     bind (require (length (ar_Secrets req) = 0 \<or> enabled) SecretsNeedKeyErr) (\<lambda>_.
     bind (lift_check ''validate'' (ValidateNetworkList (case ar_Networks req of None \<Rightarrow> [] | Some nets \<Rightarrow> nets))) (\<lambda>_.
     bind (validateIngress sv host req tmpl opts) (\<lambda>_.
     bind (validateNetworkAliases sv host req tmpl opts) (\<lambda>_.
     bind (for_each (sec_PerHostReferenced (meta_Secrets (tmpl_Meta tmpl))) (check_host_secret sv ctx host)) (\<lambda>_.
     bind (pod_exists sv ctx host (ar_Template req) (ar_Slug req)) (\<lambda>podExists.
     bind (require (podExists \<or> \<not> (case sv_host sv host of Some h \<Rightarrow> host_Drain h | None \<Rightarrow> False)) (RErr [HostDraining] ''host is draining'')) (\<lambda>_.
     bind (require (ao_Replace opts \<or> \<not> podExists) (RErr [InstanceExists] ''instance already exists'')) (\<lambda>_.
     bind (wrapping ''render'' (from_result (lib_RenderAndValidate (sv_lib sv) (tmpl_Body tmpl) params))) (\<lambda>yaml.
     bind (inject sv host req (tmpl_Meta tmpl) params (ao_RestoreIntent opts) yaml) (\<lambda>(yaml, injectorSecrets).
     bind (check_ports sv ctx host req params) (\<lambda>_.
     bind (asking (\<lambda>w. st_SecretsEnabled (sv_store sv) (w_store w))) (\<lambda>enabled.
     bind (require (length injectorSecrets = 0 \<or> enabled) SecretsNeedKeyErr) (\<lambda>_.
       ret \<lparr>ap_Template = tmpl, ap_Parameters = params, ap_YAML = yaml, ap_InjectorSecrets = injectorSecrets\<rparr>))))))))))))))))"

subsection \<open>The effects of an apply\<close>

text \<open>A secret is replaced by removing and creating it; a failed inspect counts as absent.\<close>

definition push_secret :: "('p, 's) Service \<Rightarrow> ctx \<Rightarrow> string \<Rightarrow> string \<Rightarrow> string \<Rightarrow> string \<Rightarrow> (('p, 's) World, unit) call" where
  "push_secret sv ctx host name key v =
     bind (attempt (on_podman (pc_SecretInspect (sv_client sv) ctx host name))) (\<lambda>r.
     bind (if isl r then ret () else wrapping ''remove existing secret'' (on_podman (pc_SecretRemove (sv_client sv) ctx host name))) (\<lambda>_.
       wrapping ''create secret'' (on_podman (pc_SecretCreate (sv_client sv) ctx host name (wrapAsKubeSecret (sv_lib sv) name key v)))))"

definition pull_image :: "('p, 's) Service \<Rightarrow> ctx \<Rightarrow> string \<Rightarrow> string \<Rightarrow> (('p, 's) World, unit) call" where
  "pull_image sv ctx host img =
     bind (attempt (on_podman (pc_ImagePull (sv_client sv) ctx host img))) (\<lambda>r.
       if isl r then fail_with (RErr [ImagePullFailed] ''image pull failed'') else ret ())"

definition applied_spec :: "string \<Rightarrow> ApplyRequest \<Rightarrow> ApplyPlan \<Rightarrow> Spec" where
  "applied_spec host req plan =
     \<lparr>spec_Host = host, spec_Template = ar_Template req, spec_Slug = ar_Slug req, spec_Parameters = ap_Parameters plan,
      spec_Secrets = ar_Secrets req, spec_InjectorSecrets = ap_InjectorSecrets plan, spec_Domains = ar_Domains req,
      spec_AppliedVolumes = Some (appliedVolumeNames (meta_Volumes (tmpl_Meta (ap_Template plan)))),
      spec_AppliedVolumeMeta = Some (appliedVolumeMeta (meta_Volumes (tmpl_Meta (ap_Template plan)))),
      spec_AppliedNetworks = ar_Networks req, spec_Created = 0, spec_Updated = 0\<rparr>"

definition ingress_after :: "('p, 's) Service \<Rightarrow> ctx \<Rightarrow> string \<Rightarrow> (('p, 's) World, unit) call" where
  "ingress_after sv ctx host =
     (if ingressEnabled sv then
        bind (attempt (reconcile_ingress sv ctx host)) (\<lambda>r.
          if isl r then fail_with (RErr [IngressReconcileFailed] ''ingress reconcile failed'') else ret ())
      else ret ())"

definition persist_spec :: "('p, 's) Service \<Rightarrow> Spec \<Rightarrow> (('p, 's) World, unit) call" where
  "persist_spec sv sp =
     bind (attempt (on_store (st_GetTemplate (sv_store sv) (spec_Template sp)))) (\<lambda>r.
       case r of
         Inl e \<Rightarrow> if errors_Is e StoreNotFound then fail_with UnknownTemplateErr else fail_with (wrap_err ''recheck template'' e)
       | Inr _ \<Rightarrow> wrapping ''persist spec'' (on_store (st_PutSpec (sv_store sv) sp)))"

definition apply_host ::
  "('p, 's) Service \<Rightarrow> ctx \<Rightarrow> string \<Rightarrow> ApplyRequest \<Rightarrow> ApplyOptions \<Rightarrow> ApplyPlan \<Rightarrow> (('p, 's) World, unit) call" where
  "apply_host sv ctx host req opts plan =
     bind (if ao_SkipPull opts then ret () else for_each (containerImages (sv_lib sv) (ap_YAML plan)) (pull_image sv ctx host)) (\<lambda>_.
     bind (for_each (ar_Secrets req) (\<lambda>(k, v).
        let name = instanceSecretName (ar_Template req) (ar_Slug req) k in push_secret sv ctx host name name v)) (\<lambda>_.
     bind (for_each (ap_InjectorSecrets plan) (\<lambda>sec.
        push_secret sv ctx host (instanceSecretName (ar_Template req) (ar_Slug req) (inj_Name sec)) (inj_Key sec) (inj_Value sec))) (\<lambda>_.
     bind (ensureNetworks sv ctx host (metaWithNetworks (tmpl_Meta (ap_Template plan)) (case ar_Networks req of None \<Rightarrow> [] | Some nets \<Rightarrow> nets))) (\<lambda>networks.
       wrapping ''play kube'' (on_podman (pc_PlayKube (sv_client sv) ctx host (ap_YAML plan) (ao_Replace opts) networks))))))"

definition applyLocked ::
  "('p, 's) Service \<Rightarrow> ctx \<Rightarrow> string \<Rightarrow> ApplyRequest \<Rightarrow> ApplyOptions \<Rightarrow> (('p, 's) World, unit) call" where
  "applyLocked sv ctx host req opts =
     deferring (invalidateInstances sv host)
       (bind (apply_checks sv ctx host req opts) (\<lambda>plan.
        bind (apply_host sv ctx host req opts plan) (\<lambda>_.
        bind (persist_spec sv (applied_spec host req plan)) (\<lambda>_.
          ingress_after sv ctx host))))"

text \<open>\<^verbatim>\<open>Apply\<close> takes the locks around \<^verbatim>\<open>applyLocked\<close>.\<close>

definition svc_Apply :: "('p, 's) Service \<Rightarrow> ctx \<Rightarrow> string \<Rightarrow> ApplyRequest \<Rightarrow> ApplyOptions \<Rightarrow> (('p, 's) World, unit) call" where
  "svc_Apply = applyLocked"

subsection \<open>Re-applying a stored spec\<close>

definition InstanceNotFoundErr :: rerr where
  "InstanceNotFoundErr = RErr [InstanceNotFound] ''instance not found''"

definition load_spec :: "('p, 's) Service \<Rightarrow> string \<Rightarrow> string \<Rightarrow> string \<Rightarrow> (('p, 's) World, Spec) call" where
  "load_spec sv host tmpl slug =
     bind (attempt (on_store (st_GetSpec (sv_store sv) host tmpl slug))) (\<lambda>r.
       case r of
         Inr sp \<Rightarrow> ret sp
       | Inl e \<Rightarrow> if errors_Is e StoreNotFound then fail_with InstanceNotFoundErr else fail_with (wrap_err ''load spec'' e))"

definition overlay :: "('k \<times> 'v) list \<Rightarrow> ('k \<times> 'v) list \<Rightarrow> ('k \<times> 'v) list" where
  "overlay base new = fold (\<lambda>(k, v) m. AList.update k v m) new base"

definition reapply_opts :: ApplyOptions where
  "reapply_opts =
     \<lparr>ao_Replace = True, ao_SkipPull = False, ao_AllowMissingSecrets = True, ao_RestoreIntent = None, ao_SupersededSlug = ''''\<rparr>"

definition Upgrade :: "('p, 's) Service \<Rightarrow> ctx \<Rightarrow> string \<Rightarrow> ApplyRequest \<Rightarrow> string \<Rightarrow> (('p, 's) World, unit) call" where
  "Upgrade sv ctx host req img =
     (if img = '''' then fail_with (RErr [] ''upgrade requires an image'')
      else
        bind (if ar_Networks req = None then appliedNetworks sv host (ar_Template req) (ar_Slug req) else ret (ar_Networks req)) (\<lambda>nets.
          svc_Apply sv ctx host
            (req\<lparr>ar_Networks := nets, ar_Parameters := AList.update ''image'' (JString img) (ar_Parameters req)\<rparr>)
            (reapply_opts\<lparr>ao_AllowMissingSecrets := False\<rparr>)))"

definition UpgradeImage :: "('p, 's) Service \<Rightarrow> ctx \<Rightarrow> string \<Rightarrow> string \<Rightarrow> string \<Rightarrow> string \<Rightarrow> (('p, 's) World, unit) call" where
  "UpgradeImage sv ctx host tmpl slug img =
     (if img = '''' then fail_with (RErr [] ''upgrade requires an image'')
      else
        bind (load_spec sv host tmpl slug) (\<lambda>sp.
          applyLocked sv ctx host
            \<lparr>ar_Template = tmpl, ar_Slug = slug, ar_Parameters = AList.update ''image'' (JString img) (spec_Parameters sp),
             ar_Secrets = spec_Secrets sp, ar_Domains = spec_Domains sp, ar_Networks = spec_AppliedNetworks sp\<rparr> reapply_opts))"

definition RotateInstanceSecrets ::
  "('p, 's) Service \<Rightarrow> ctx \<Rightarrow> string \<Rightarrow> string \<Rightarrow> string \<Rightarrow> (string \<times> string) list \<Rightarrow> (('p, 's) World, unit) call" where
  "RotateInstanceSecrets sv ctx host tmpl slug newSecrets =
     (if length newSecrets = 0 then fail_with (RErr [] ''no secrets to rotate'')
      else
        bind (load_spec sv host tmpl slug) (\<lambda>sp.
          applyLocked sv ctx host
            \<lparr>ar_Template = tmpl, ar_Slug = slug, ar_Parameters = spec_Parameters sp,
             ar_Secrets = overlay (spec_Secrets sp) newSecrets, ar_Domains = spec_Domains sp, ar_Networks = spec_AppliedNetworks sp\<rparr> reapply_opts))"

definition UpdateInstanceParameters ::
  "('p, 's) Service \<Rightarrow> ctx \<Rightarrow> string \<Rightarrow> string \<Rightarrow> string \<Rightarrow> (string \<times> json) list \<Rightarrow> (('p, 's) World, unit) call" where
  "UpdateInstanceParameters sv ctx host tmpl slug newParams =
     (if length newParams = 0 then fail_with (RErr [] ''no parameters to update'')
      else
        bind (load_spec sv host tmpl slug) (\<lambda>sp.
          applyLocked sv ctx host
            \<lparr>ar_Template = tmpl, ar_Slug = slug, ar_Parameters = pin_slug slug (overlay (spec_Parameters sp) newParams),
             ar_Secrets = spec_Secrets sp, ar_Domains = spec_Domains sp, ar_Networks = spec_AppliedNetworks sp\<rparr> reapply_opts))"

definition UpdateInstanceDomains ::
  "('p, 's) Service \<Rightarrow> ctx \<Rightarrow> string \<Rightarrow> string \<Rightarrow> string \<Rightarrow> string list \<Rightarrow> (('p, 's) World, unit) call" where
  "UpdateInstanceDomains sv ctx host tmpl slug domains =
     bind (load_spec sv host tmpl slug) (\<lambda>sp.
       applyLocked sv ctx host
         \<lparr>ar_Template = tmpl, ar_Slug = slug, ar_Parameters = spec_Parameters sp,
          ar_Secrets = spec_Secrets sp, ar_Domains = domains, ar_Networks = spec_AppliedNetworks sp\<rparr> reapply_opts)"

definition InstanceSecretState :: "('p, 's) Service \<Rightarrow> string \<Rightarrow> string \<Rightarrow> string \<Rightarrow> (('p, 's) World, string list) call" where
  "InstanceSecretState sv host tmpl slug = bind (load_spec sv host tmpl slug) (\<lambda>sp. ret (map fst (spec_Secrets sp)))"

end
