(* ===== verification/Instance_Lifecycle.thy ===== *)
theory Instance_Lifecycle
  imports Instance_Apply
begin

text \<open>
  The rest of the operations of \<^verbatim>\<open>internal/instance/service.go\<close> that change a host: start, stop, restart and delete,
  the pruning of an instance's secrets and volumes, the secrets of a host, the copy and the fingerprint of a volume
  (\<^verbatim>\<open>manifest.go\<close>), the renaming of a host; and the readiness wait (\<^verbatim>\<open>ready.go\<close>), a loop that polls the pod
  until it is ready, the deadline passes or the context ends, here with fuel.
\<close>

subsection \<open>Readiness\<close>

definition running :: "string \<Rightarrow> bool" where
  "running s \<longleftrightarrow> EqualFold s ''running''"

definition podReady :: "Pod \<Rightarrow> bool" where
  "podReady p \<longleftrightarrow> running (pod_Status p) \<and>
     list_all (\<lambda>c. running (ctr_Status c) \<and> (ctr_Health c = '''' \<or> EqualFold (ctr_Health c) ''healthy'')) (pod_Containers p)"

definition anyStarting :: "Pod \<Rightarrow> bool" where
  "anyStarting p \<longleftrightarrow> list_ex (\<lambda>c. EqualFold (ctr_Health c) ''starting'') (pod_Containers p)"

definition startup_end :: "('p, 's) Service \<Rightarrow> Container \<Rightarrow> time \<Rightarrow> (('p, 's) World, time) call" where
  "startup_end sv c latest =
     (if ctr_HealthStartPeriod c \<le> 0 then ret latest
      else
        bind (if ctr_StartedAt c = 0 then time_now sv else ret (ctr_StartedAt c)) (\<lambda>from.
          ret (max latest (from + ctr_HealthStartPeriod c + ctr_HealthInterval c))))"

definition startupDeadline :: "('p, 's) Service \<Rightarrow> Pod \<Rightarrow> (('p, 's) World, time) call" where
  "startupDeadline sv p = fold_calls (startup_end sv) (pod_Containers p) 0"

record readyOpts =
  ro_timeout :: int
  ro_stableCount :: int
  ro_grantStartPeriod :: bool

record readyState =
  rs_deadline :: time
  rs_extended :: bool
  rs_starting :: bool
  rs_stable :: int

definition OutOfFuel :: rerr where
  "OutOfFuel = RErr [] ''out of fuel''"

text \<open>What one successful inspect of a pod that is not ready does to the state.\<close>

definition not_ready :: "('p, 's) Service \<Rightarrow> readyOpts \<Rightarrow> Pod \<Rightarrow> readyState \<Rightarrow> (('p, 's) World, readyState) call" where
  "not_ready sv ro p st =
     (let st1 = st\<lparr>rs_stable := 0, rs_starting := anyStarting p\<rparr>
      in if ro_grantStartPeriod ro \<and> \<not> rs_extended st
         then bind (startupDeadline sv p) (\<lambda>g. ret (st1\<lparr>rs_extended := True, rs_deadline := max (rs_deadline st) g\<rparr>))
         else ret st1)"

text \<open>\<open>None\<close> when the pod has been ready often enough.\<close>

definition poll_once :: "('p, 's) Service \<Rightarrow> ctx \<Rightarrow> string \<Rightarrow> string \<Rightarrow> readyOpts \<Rightarrow> readyState \<Rightarrow> (('p, 's) World, readyState option) call" where
  "poll_once sv ctx host name ro st =
     bind (attempt (on_podman (pc_PodInspect (sv_client sv) ctx host name))) (\<lambda>r.
       case r of
         Inl _ \<Rightarrow> ret (Some st)
       | Inr p \<Rightarrow>
           if podReady p then
             (if rs_stable st + 1 \<ge> ro_stableCount ro then ret None else ret (Some (st\<lparr>rs_stable := rs_stable st + 1\<rparr>)))
           else bind (not_ready sv ro p st) (\<lambda>st. ret (Some st)))"

definition timeout_err :: "readyState \<Rightarrow> rerr" where
  "timeout_err st = (if rs_starting st then RErr [ReadyTimeout, StillStarting] ''readiness timeout: healthcheck still in start period''
     else RErr [ReadyTimeout] ''readiness timeout'')"

fun ready_loop :: "nat \<Rightarrow> ('p, 's) Service \<Rightarrow> ctx \<Rightarrow> string \<Rightarrow> string \<Rightarrow> readyOpts \<Rightarrow> readyState \<Rightarrow> (('p, 's) World, unit) call" where
  "ready_loop 0 sv ctx host name ro st = fail_with OutOfFuel"
| "ready_loop (Suc fuel) sv ctx host name ro st =
     bind (poll_once sv ctx host name ro st) (\<lambda>next.
       case next of
         None \<Rightarrow> ret ()
       | Some st1 \<Rightarrow>
           bind (time_now sv) (\<lambda>t.
             if rs_deadline st1 < t then fail_with (timeout_err st1)
             else bind (on_podman (pc_Tick (sv_client sv) ctx)) (\<lambda>_. ready_loop fuel sv ctx host name ro st1)))"

definition waitReady :: "('p, 's) Service \<Rightarrow> ctx \<Rightarrow> string \<Rightarrow> string \<Rightarrow> string \<Rightarrow> readyOpts \<Rightarrow> (('p, 's) World, unit) call" where
  "waitReady sv ctx host tmpl slug ro =
     (if ro_timeout ro = 0 then ret ()
      else
        bind (time_now sv) (\<lambda>t.
          ready_loop (sv_fuel sv) sv ctx host (podName tmpl slug) ro
            \<lparr>rs_deadline = t + ro_timeout ro, rs_extended = False, rs_starting = False, rs_stable = 0\<rparr>))"

definition deploy_opts :: "('p, 's) Service \<Rightarrow> readyOpts" where
  "deploy_opts sv = \<lparr>ro_timeout = sv_deployVerifyTimeout sv, ro_stableCount = sv_deployVerifyStableCount sv, ro_grantStartPeriod = False\<rparr>"

definition waitRunning :: "('p, 's) Service \<Rightarrow> ctx \<Rightarrow> string \<Rightarrow> string \<Rightarrow> string \<Rightarrow> (('p, 's) World, unit) call" where
  "waitRunning sv ctx host tmpl slug =
     bind (attempt (waitReady sv ctx host tmpl slug
        \<lparr>ro_timeout = sv_verifyTimeout sv, ro_stableCount = sv_verifyStableCount sv, ro_grantStartPeriod = True\<rparr>)) (\<lambda>r.
       case r of
         Inr _ \<Rightarrow> ret ()
       | Inl e \<Rightarrow>
           if errors_Is e ReadyTimeout then
             (if errors_Is e StillStarting then fail_with (RErr [] ''pod still inside its healthcheck start period'')
              else fail_with (RErr [] ''pod not running within the verify timeout''))
           else fail_with e)"

subsection \<open>Observing\<close>

text \<open>Of the observed shape: the pod, the volumes that exist, and whether the stored spec was unreadable.\<close>

record Observed =
  obs_Pod :: Pod
  obs_Volumes :: "PodVolume list"
  obs_Withheld :: bool
  obs_Warnings :: "string list"

definition observe_volume :: "('p, 's) Service \<Rightarrow> ctx \<Rightarrow> string \<Rightarrow> string \<Rightarrow> string \<Rightarrow> Volume \<Rightarrow> PodVolume list \<Rightarrow> (('p, 's) World, PodVolume list) call" where
  "observe_volume sv ctx host tmpl slug v out =
     bind (attempt (on_podman (pc_VolumeInspect (sv_client sv) ctx host (volumeName tmpl slug (vol_Name v))))) (\<lambda>r.
       case r of Inr vv \<Rightarrow> ret (out @ [vv]) | Inl _ \<Rightarrow> ret out)"

definition svc_Get :: "('p, 's) Service \<Rightarrow> ctx \<Rightarrow> string \<Rightarrow> string \<Rightarrow> string \<Rightarrow> (('p, 's) World, Observed) call" where
  "svc_Get sv ctx host tmpl slug =
     bind (lookup_template sv host tmpl) (\<lambda>t.
     bind (attempt (on_podman (pc_PodInspect (sv_client sv) ctx host (podName tmpl slug)))) (\<lambda>r.
       case r of
         Inl e \<Rightarrow> if errors_Is e PodNotFound then fail_with InstanceNotFoundErr else fail_with e
       | Inr p \<Rightarrow>
           bind (fold_calls (observe_volume sv ctx host tmpl slug) (meta_Volumes (tmpl_Meta t)) []) (\<lambda>vols.
           bind (attempt (on_store (st_GetSpec (sv_store sv) host tmpl slug))) (\<lambda>sp.
             let withheld = (case sp of Inl e \<Rightarrow> \<not> errors_Is e StoreNotFound | Inr _ \<Rightarrow> False)
             in ret \<lparr>obs_Pod = p, obs_Volumes = vols, obs_Withheld = withheld,
                     obs_Warnings = (if withheld then [''env_summary withheld: instance secrets unreadable''] else [])\<rparr>))))"

definition readinessWarning :: "rerr + unit \<Rightarrow> string list" where
  "readinessWarning r =
     (case r of
        Inr _ \<Rightarrow> []
      | Inl e \<Rightarrow>
          if errors_Is e StillStarting then [''not yet serving: still inside its healthcheck start period'']
          else if errors_Is e ReadyTimeout then [''readiness timeout: healthcheck did not pass''] else [])"

definition observe_ready :: "('p, 's) Service \<Rightarrow> ctx \<Rightarrow> string \<Rightarrow> string \<Rightarrow> string \<Rightarrow> (('p, 's) World, Observed) call" where
  "observe_ready sv ctx host tmpl slug =
     bind (attempt (waitReady sv ctx host tmpl slug (deploy_opts sv))) (\<lambda>ready.
     bind (svc_Get sv ctx host tmpl slug) (\<lambda>obs.
       ret (obs\<lparr>obs_Warnings := obs_Warnings obs @ readinessWarning ready\<rparr>)))"

definition ApplyAndObserve ::
  "('p, 's) Service \<Rightarrow> ctx \<Rightarrow> string \<Rightarrow> ApplyRequest \<Rightarrow> ApplyOptions \<Rightarrow> (('p, 's) World, Observed) call" where
  "ApplyAndObserve sv ctx host req opts =
     bind (svc_Apply sv ctx host req opts) (\<lambda>_. observe_ready sv ctx host (ar_Template req) (ar_Slug req))"

subsection \<open>Start, stop, restart\<close>

definition lifecycle ::
  "('p, 's) Service \<Rightarrow> string \<Rightarrow> string \<Rightarrow> string \<Rightarrow> (string \<Rightarrow> string \<Rightarrow> ('p, unit) call) \<Rightarrow> (('p, 's) World, unit) call" where
  "lifecycle sv host tmpl slug op =
     deferring (invalidateInstances sv host)
       (bind (lookup_template sv host tmpl) (\<lambda>_.
        bind (attempt (on_podman (op host (podName tmpl slug)))) (\<lambda>r.
          case r of
            Inr _ \<Rightarrow> ret ()
          | Inl e \<Rightarrow> if errors_Is e PodNotFound then fail_with InstanceNotFoundErr else fail_with e)))"

definition svc_Start :: "('p, 's) Service \<Rightarrow> ctx \<Rightarrow> string \<Rightarrow> string \<Rightarrow> string \<Rightarrow> (('p, 's) World, Observed) call" where
  "svc_Start sv ctx host tmpl slug =
     bind (lifecycle sv host tmpl slug (pc_PodStart (sv_client sv) ctx)) (\<lambda>_. observe_ready sv ctx host tmpl slug)"

definition svc_Stop :: "('p, 's) Service \<Rightarrow> ctx \<Rightarrow> string \<Rightarrow> string \<Rightarrow> string \<Rightarrow> (('p, 's) World, unit) call" where
  "svc_Stop sv ctx host tmpl slug = lifecycle sv host tmpl slug (pc_PodStop (sv_client sv) ctx)"

definition svc_Restart :: "('p, 's) Service \<Rightarrow> ctx \<Rightarrow> string \<Rightarrow> string \<Rightarrow> string \<Rightarrow> (('p, 's) World, unit) call" where
  "svc_Restart sv ctx host tmpl slug = lifecycle sv host tmpl slug (pc_PodRestart (sv_client sv) ctx)"

subsection \<open>Deleting an instance\<close>

record DeleteOptions =
  do_PruneVolumes :: bool
  do_PruneSecrets :: bool

text \<open>A removal whose failure is only logged.\<close>

definition best_effort :: "('w, 'a) call \<Rightarrow> ('w, unit) call" where
  "best_effort m = bind (attempt m) (\<lambda>_. ret ())"

definition prune_secret :: "('p, 's) Service \<Rightarrow> ctx \<Rightarrow> string \<Rightarrow> string \<Rightarrow> (('p, 's) World, unit) call" where
  "prune_secret sv ctx host full =
     bind (best_effort (on_podman (pc_SecretRemove (sv_client sv) ctx host full))) (\<lambda>_.
       best_effort (on_podman (pc_VolumeRemove (sv_client sv) ctx host full True)))"

definition pruneInstanceResources ::
  "('p, 's) Service \<Rightarrow> ctx \<Rightarrow> string \<Rightarrow> string \<Rightarrow> string \<Rightarrow> bool \<Rightarrow> bool \<Rightarrow> InjectorSecret list \<Rightarrow> (('p, 's) World, unit) call" where
  "pruneInstanceResources sv ctx host tmpl slug secrets volumes injectorSecrets =
     bind (attempt (on_store (st_GetTemplate (sv_store sv) tmpl))) (\<lambda>t.
     bind (if secrets then
             bind (case t of
                     Inr t \<Rightarrow> for_each (sec_PerInstance (meta_Secrets (tmpl_Meta t))) (\<lambda>name. prune_secret sv ctx host (instanceSecretName tmpl slug name))
                   | Inl _ \<Rightarrow> ret ()) (\<lambda>_.
               for_each injectorSecrets (\<lambda>sec. prune_secret sv ctx host (instanceSecretName tmpl slug (inj_Name sec))))
           else ret ()) (\<lambda>_.
       case t of
         Inr t \<Rightarrow>
           if volumes then
             for_each (meta_Volumes (tmpl_Meta t)) (\<lambda>v.
               best_effort (on_podman (pc_VolumeRemove (sv_client sv) ctx host (volumeName tmpl slug (vol_Name v)) True)))
           else ret ()
       | Inl _ \<Rightarrow> ret ()))"

definition stored_injector_secrets :: "('p, 's) Service \<Rightarrow> string \<Rightarrow> string \<Rightarrow> string \<Rightarrow> (('p, 's) World, InjectorSecret list) call" where
  "stored_injector_secrets sv host tmpl slug =
     bind (attempt (on_store (st_GetSpec (sv_store sv) host tmpl slug))) (\<lambda>r.
       ret (case r of Inr sp \<Rightarrow> spec_InjectorSecrets sp | Inl _ \<Rightarrow> []))"

text \<open>An absent row is not an error.\<close>

definition delete_spec_row :: "('p, 's) Service \<Rightarrow> string \<Rightarrow> string \<Rightarrow> string \<Rightarrow> (('p, 's) World, unit) call" where
  "delete_spec_row sv host tmpl slug =
     bind (attempt (on_store (st_DeleteSpec (sv_store sv) host tmpl slug))) (\<lambda>r.
       case r of
         Inr _ \<Rightarrow> ret ()
       | Inl e \<Rightarrow> if errors_Is e StoreNotFound then ret () else fail_with (wrap_err ''delete spec'' e))"

definition svc_Delete :: "('p, 's) Service \<Rightarrow> ctx \<Rightarrow> string \<Rightarrow> string \<Rightarrow> string \<Rightarrow> DeleteOptions \<Rightarrow> (('p, 's) World, unit) call" where
  "svc_Delete sv ctx host tmpl slug opts =
     deferring (invalidateInstances sv host)
       (bind (lookup_template sv host tmpl) (\<lambda>_.
        bind (attempt (on_podman (pc_PodRemove (sv_client sv) ctx host (podName tmpl slug) True))) (\<lambda>r.
        bind (case r of Inr _ \<Rightarrow> ret True | Inl e \<Rightarrow> if errors_Is e PodNotFound then ret False else fail_with e) (\<lambda>podExisted.
        bind (stored_injector_secrets sv host tmpl slug) (\<lambda>injectorSecrets.
        bind (pruneInstanceResources sv ctx host tmpl slug (do_PruneSecrets opts) (do_PruneVolumes opts) injectorSecrets) (\<lambda>_.
        bind (delete_spec_row sv host tmpl slug) (\<lambda>_.
        bind (ingress_after sv ctx host) (\<lambda>_.
          require (podExisted \<or> do_PruneSecrets opts \<or> do_PruneVolumes opts) InstanceNotFoundErr))))))))"

definition prune_all :: DeleteOptions where
  "prune_all = \<lparr>do_PruneVolumes = True, do_PruneSecrets = True\<rparr>"

subsection \<open>Host secrets\<close>

definition svc_PutHostSecret ::
  "('p, 's) Service \<Rightarrow> ctx \<Rightarrow> string \<Rightarrow> string \<Rightarrow> string \<Rightarrow> bool \<Rightarrow> (('p, 's) World, unit) call" where
  "svc_PutHostSecret sv ctx host name v persist =
     bind (require (sv_host sv host \<noteq> None) UnknownHostErr) (\<lambda>_.
     bind (attempt (on_podman (pc_SecretInspect (sv_client sv) ctx host name))) (\<lambda>r.
     bind (if isl r then ret () else on_podman (pc_SecretRemove (sv_client sv) ctx host name)) (\<lambda>_.
     bind (on_podman (pc_SecretCreate (sv_client sv) ctx host name (wrapAsKubeSecret (sv_lib sv) name name v))) (\<lambda>_.
       if persist then wrapping ''persist host secret'' (on_store (st_PutHostSecret (sv_store sv) host name v)) else ret ()))))"

definition svc_DeleteHostSecret :: "('p, 's) Service \<Rightarrow> ctx \<Rightarrow> string \<Rightarrow> string \<Rightarrow> (('p, 's) World, unit) call" where
  "svc_DeleteHostSecret sv ctx host name =
     bind (require (sv_host sv host \<noteq> None) UnknownHostErr) (\<lambda>_.
     bind (attempt (on_podman (pc_SecretRemove (sv_client sv) ctx host name))) (\<lambda>r.
     bind (case r of Inl e \<Rightarrow> if errors_Is e PodNotFound then ret () else fail_with e | Inr _ \<Rightarrow> ret ()) (\<lambda>_.
       wrapping ''delete persisted host secret'' (on_store (st_DeleteHostSecret (sv_store sv) host name)))))"

subsection \<open>Volumes\<close>

definition add_volume :: "('p, 's) Service \<Rightarrow> ctx \<Rightarrow> string \<Rightarrow> string \<Rightarrow> string \<Rightarrow> Volume \<Rightarrow> PodVolume list \<Rightarrow> (('p, 's) World, PodVolume list) call" where
  "add_volume sv ctx host tmpl slug v out =
     bind (attempt (on_podman (pc_VolumeInspect (sv_client sv) ctx host (volumeName tmpl slug (vol_Name v))))) (\<lambda>r.
       case r of
         Inr vv \<Rightarrow> ret (out @ [vv])
       | Inl e \<Rightarrow> if errors_Is e PodNotFound then ret out else fail_with (wrap_err ''inspect volume'' e))"

definition InstanceVolumes :: "('p, 's) Service \<Rightarrow> ctx \<Rightarrow> string \<Rightarrow> string \<Rightarrow> string \<Rightarrow> (('p, 's) World, PodVolume list) call" where
  "InstanceVolumes sv ctx host tmpl slug =
     bind (lookup_template sv host tmpl) (\<lambda>t.
       fold_calls (add_volume sv ctx host tmpl slug) (meta_Volumes (tmpl_Meta t)) [])"

definition DeleteVolume :: "('p, 's) Service \<Rightarrow> ctx \<Rightarrow> string \<Rightarrow> string \<Rightarrow> bool \<Rightarrow> (('p, 's) World, unit) call" where
  "DeleteVolume sv ctx host name force =
     bind (require (sv_host sv host \<noteq> None) UnknownHostErr) (\<lambda>_.
     bind (attempt (on_podman (pc_VolumeRemove (sv_client sv) ctx host name force))) (\<lambda>r.
       case r of Inr _ \<Rightarrow> ret () | Inl e \<Rightarrow> if errors_Is e PodNotFound then ret () else fail_with e))"

record fileInfo =
  fi_typ :: nat
  fi_size :: int
  fi_sha256 :: string
  fi_link :: string

type_synonym Manifest = "(string \<times> fileInfo) list"

definition TypeReg :: nat where "TypeReg = 48"
definition TypeLink :: nat where "TypeLink = 49"
definition TypeSymlink :: nat where "TypeSymlink = 50"

text \<open>\<^verbatim>\<open>strings.Contains\<close>.\<close>

fun str_Contains :: "string \<Rightarrow> string \<Rightarrow> bool" where
  "str_Contains [] sub \<longleftrightarrow> sub = []"
| "str_Contains (x # xs) sub \<longleftrightarrow> HasPrefix (x # xs) sub \<or> str_Contains xs sub"

definition excludePath :: "string \<Rightarrow> bool" where
  "excludePath name \<longleftrightarrow> str_Contains name ''-litestream/'' \<or> HasSuffix name ''-litestream''"

definition entry_info :: "Lib \<Rightarrow> TarEntry \<Rightarrow> fileInfo" where
  "entry_info lib e =
     (let fi = \<lparr>fi_typ = te_Type e, fi_size = 0, fi_sha256 = '''', fi_link = ''''\<rparr>
      in if te_Type e = TypeReg then fi\<lparr>fi_size := int (length (te_Body e)), fi_sha256 := lib_sha256 lib (te_Body e)\<rparr>
         else if te_Type e = TypeSymlink \<or> te_Type e = TypeLink then fi\<lparr>fi_link := te_Linkname e\<rparr>
         else fi)"

text \<open>\<^verbatim>\<open>parseTar\<close> with no options: read, fingerprint, write nothing.\<close>

definition parseTar :: "Lib \<Rightarrow> TarEntry list \<Rightarrow> Manifest" where
  "parseTar lib entries =
     fold (\<lambda>e m. let cleaned = lib_Clean lib (te_Name e)
                 in if excludePath cleaned then m else AList.update cleaned (entry_info lib e) m) entries []"

definition buildManifest :: "Lib \<Rightarrow> string \<Rightarrow> rerr + Manifest" where
  "buildManifest lib stream =
     (case lib_tar lib stream of (entries, Some e) \<Rightarrow> Inl e | (entries, None) \<Rightarrow> Inr (parseTar lib entries))"

definition firstDiff :: "Manifest \<Rightarrow> Manifest \<Rightarrow> string option" where
  "firstDiff m other = find (\<lambda>k. map_of m k \<noteq> map_of other k) (sort (remdups (map fst m @ map fst other)))"

definition volumeManifest :: "('p, 's) Service \<Rightarrow> ctx \<Rightarrow> string \<Rightarrow> string \<Rightarrow> (('p, 's) World, Manifest) call" where
  "volumeManifest sv ctx host name =
     bind (on_podman (pc_VolumeExport (sv_client sv) ctx host name)) (\<lambda>rc. from_result (buildManifest (sv_lib sv) rc))"

text \<open>
  The export is read once, into the manifest and the import at the same time; an import that stops reading breaks the
  pipe, and the import's own error comes first.
\<close>

definition copyVolumeAs ::
  "('p, 's) Service \<Rightarrow> ctx \<Rightarrow> string \<Rightarrow> string \<Rightarrow> string \<Rightarrow> string \<Rightarrow> (('p, 's) World, Manifest) call" where
  "copyVolumeAs sv ctx fromHost toHost fromName toName =
     bind (wrapping ''export volume'' (on_podman (pc_VolumeExport (sv_client sv) ctx fromHost fromName))) (\<lambda>rc.
     let built = buildManifest (sv_lib sv) rc in
     bind (wrapping ''import volume'' (on_podman (pc_VolumeImport (sv_client sv) ctx toHost toName rc
        (case built of Inl e \<Rightarrow> Some e | Inr _ \<Rightarrow> None)))) (\<lambda>read_all.
     bind (require read_all (RErr [] ''copy volume: build manifest: io: read/write on closed pipe'')) (\<lambda>_.
       wrapping ''copy volume: build manifest'' (from_result built))))"

definition CopyVolume :: "('p, 's) Service \<Rightarrow> ctx \<Rightarrow> string \<Rightarrow> string \<Rightarrow> string \<Rightarrow> (('p, 's) World, Manifest) call" where
  "CopyVolume sv ctx fromHost toHost name = copyVolumeAs sv ctx fromHost toHost name name"

subsection \<open>Renaming a host\<close>

definition checkRenameHosts :: "('p, 's) Service \<Rightarrow> string \<Rightarrow> string \<Rightarrow> (('p, 's) World, unit) call" where
  "checkRenameHosts sv oldID newID =
     (if \<not> list_ex (\<lambda>h. host_ID h = oldID) (sv_hosts sv) then fail_with UnknownHostErr
      else require (\<not> list_ex (\<lambda>h. host_ID h = newID) (sv_hosts sv)) (RErr [HostAlreadyExists] ''host already exists''))"

definition mapRenameHostStoreErr :: "rerr \<Rightarrow> rerr" where
  "mapRenameHostStoreErr e =
     (if errors_Is e HostRenameConflict then RErr [HostAlreadyExists] ''host already exists''
      else if errors_Is e HostRenameHasBackups then RErr [HostHasBackups] ''host has backups; rename would orphan their blob storage''
      else e)"

definition mapped :: "(rerr \<Rightarrow> rerr) \<Rightarrow> ('w, 'a) call \<Rightarrow> ('w, 'a) call" where
  "mapped f m w = (case m w of (Inl e, w') \<Rightarrow> (Inl (f e), w') | (Inr x, w') \<Rightarrow> (Inr x, w'))"

definition CanRenameHost :: "('p, 's) Service \<Rightarrow> string \<Rightarrow> string \<Rightarrow> (('p, 's) World, unit) call" where
  "CanRenameHost sv oldID newID =
     bind (checkRenameHosts sv oldID newID) (\<lambda>_.
       mapped mapRenameHostStoreErr (on_store (st_CheckHostRename (sv_store sv) oldID newID)))"

text \<open>
  \<open>rewriteFile\<close> rewrites the host's configuration and gives the action that restores it; the result is the service
  with the live hosts it has then.
\<close>

definition svc_RenameHost ::
  "('p, 's) Service \<Rightarrow> string \<Rightarrow> string \<Rightarrow> ('p, ('p, unit) call) call \<Rightarrow> (('p, 's) World, ('p, 's) Service) call" where
  "svc_RenameHost sv oldID newID rewriteFile =
     bind (checkRenameHosts sv oldID newID) (\<lambda>_.
     bind (wrapping ''list instances'' (on_store (st_ListSpecKeys (sv_store sv) oldID))) (\<lambda>_.
     bind (on_podman rewriteFile) (\<lambda>revert.
     bind (attempt (mapped mapRenameHostStoreErr (on_store (st_RenameHost (sv_store sv) oldID newID)))) (\<lambda>r.
       case r of
         Inl e \<Rightarrow> bind (best_effort (on_podman revert)) (\<lambda>_. fail_with e)
       | Inr _ \<Rightarrow>
           let hosts = map (\<lambda>h. if host_ID h = oldID then h\<lparr>host_ID := newID\<rparr> else h) (sv_hosts sv)
           in deferring (\<lambda>w. invalidateInstances sv oldID (w\<lparr>w_podman := pc_SetHosts (sv_client sv) (map host_ID hosts) (w_podman w)\<rparr>))
                (ret (sv\<lparr>sv_hosts := hosts\<rparr>))))))"

end
