(* ===== verification/Instance_Migrate.thy ===== *)
theory Instance_Migrate
  imports Instance_Lifecycle
begin

text \<open>
  Moving an instance to another host (\<^verbatim>\<open>internal/instance/migrate.go\<close>): the preflight of the destination, the copy,
  the apply and the verification there, the rollback and the commit.
\<close>

subsection \<open>Requests\<close>

record PairedInstanceRef =
  pr_Template :: string
  pr_Slug :: string

record MigrateRequest =
  mr_FromHost :: string
  mr_ToHost :: string
  mr_Template :: string
  mr_Slug :: string
  mr_Parameters :: "(string \<times> json) list"
  mr_AlsoStop :: "PairedInstanceRef list"

definition SameHostErr :: rerr where
  "SameHostErr = RErr [SameHost] ''source and destination host are the same''"

definition CheckMigratable :: "('p, 's) Service \<Rightarrow> MigrateRequest \<Rightarrow> (('p, 's) World, unit) call" where
  "CheckMigratable sv req =
     bind (require (mr_FromHost req \<noteq> mr_ToHost req) SameHostErr) (\<lambda>_.
     bind (require (sv_host sv (mr_FromHost req) \<noteq> None) UnknownHostErr) (\<lambda>_.
     bind (require (sv_host sv (mr_ToHost req) \<noteq> None) UnknownHostErr) (\<lambda>_.
     bind (lookup_template sv (mr_ToHost req) (mr_Template req)) (\<lambda>_.
     bind (on_store (st_GetSpec (sv_store sv) (mr_FromHost req) (mr_Template req) (mr_Slug req))) (\<lambda>_. ret ())))))"

subsection \<open>The preflight of the destination\<close>

definition requiredHostPorts :: "Lib \<Rightarrow> string \<Rightarrow> int list" where
  "requiredHostPorts lib rendered =
     concat (map (\<lambda>(kind, ports). if kind = ''Pod'' then filter (\<lambda>p. 0 < p) ports else []) (lib_pod_ports lib rendered))"

definition hostSecretProvisionable :: "('p, 's) Service \<Rightarrow> string \<Rightarrow> string \<Rightarrow> (('p, 's) World, bool) call" where
  "hostSecretProvisionable sv fromHost name =
     bind (attempt (on_store (st_GetHostSecret (sv_store sv) fromHost name))) (\<lambda>r.
       case r of
         Inr _ \<Rightarrow> ret True
       | Inl e \<Rightarrow> if errors_Is e StoreNotFound then ret False else fail_with e)"

text \<open>
  The checks collect their issues; an infrastructure error ends them. Each part gives the issues and the
  provisionable secrets so far, and whether to go on.
\<close>

type_synonym preflight = "rerr list \<times> string list \<times> bool"

fun preflight_secrets :: "('p, 's) Service \<Rightarrow> ctx \<Rightarrow> MigrateRequest \<Rightarrow> string list \<Rightarrow> rerr list \<Rightarrow> string list \<Rightarrow> (('p, 's) World, preflight) call" where
  "preflight_secrets sv ctx req [] issues prov = ret (issues, prov, True)"
| "preflight_secrets sv ctx req (name # names) issues prov =
     bind (attempt (on_podman (pc_SecretInspect (sv_client sv) ctx (mr_ToHost req) name))) (\<lambda>r.
       case r of
         Inr _ \<Rightarrow> preflight_secrets sv ctx req names issues prov
       | Inl e \<Rightarrow>
           if \<not> errors_Is e PodNotFound then ret (issues @ [wrap_err ''inspect host secret'' e], prov, False)
           else
             bind (attempt (hostSecretProvisionable sv (mr_FromHost req) name)) (\<lambda>ok.
               case ok of
                 Inl e \<Rightarrow> preflight_secrets sv ctx req names (issues @ [wrap_err ''lookup persisted host secret'' e]) prov
               | Inr True \<Rightarrow> preflight_secrets sv ctx req names issues (prov @ [name])
               | Inr False \<Rightarrow> preflight_secrets sv ctx req names (issues @ [RErr [HostSecretMissing] ''required host secret missing'']) prov))"

definition preflight_pull :: "('p, 's) Service \<Rightarrow> ctx \<Rightarrow> string \<Rightarrow> string \<Rightarrow> rerr list \<Rightarrow> (('p, 's) World, rerr list) call" where
  "preflight_pull sv ctx host img issues =
     bind (attempt (pull_image sv ctx host img)) (\<lambda>r. ret (case r of Inl e \<Rightarrow> issues @ [e] | Inr _ \<Rightarrow> issues))"

definition PortsInUse :: "('p, 's) Service \<Rightarrow> ctx \<Rightarrow> string \<Rightarrow> (('p, 's) World, PortMapping list) call" where
  "PortsInUse sv ctx host =
     bind (require (sv_host sv host \<noteq> None) UnknownHostErr) (\<lambda>_. on_podman (pc_UsedHostPorts (sv_client sv) ctx host))"

definition preflight_ports :: "('p, 's) Service \<Rightarrow> ctx \<Rightarrow> string \<Rightarrow> int list \<Rightarrow> rerr list \<Rightarrow> (('p, 's) World, rerr list \<times> bool) call" where
  "preflight_ports sv ctx host want issues =
     (if length want = 0 then ret (issues, True)
      else
        bind (attempt (PortsInUse sv ctx host)) (\<lambda>r.
          case r of
            Inl e \<Rightarrow> ret (issues @ [wrap_err ''ports in use'' e], False)
          | Inr used \<Rightarrow> ret (issues @ map (\<lambda>_. PortConflictErr) (filter (\<lambda>p. p \<in> pm_HostPort ` set used) want), True)))"

definition preflight_rest ::
  "('p, 's) Service \<Rightarrow> ctx \<Rightarrow> MigrateRequest \<Rightarrow> Template \<Rightarrow> (string \<times> json) list \<Rightarrow> bool \<Rightarrow> rerr list \<Rightarrow> (('p, 's) World, rerr list \<times> string list) call" where
  "preflight_rest sv ctx req tmpl eff pullImages issues =
     bind (preflight_secrets sv ctx req (sec_PerHostReferenced (meta_Secrets (tmpl_Meta tmpl))) issues []) (\<lambda>(issues, prov, on).
       if \<not> on then ret (issues, prov)
       else
         case lib_RenderAndValidate (sv_lib sv) (tmpl_Body tmpl) eff of
           Inl e \<Rightarrow> ret (issues @ [wrap_err ''render'' e], prov)
         | Inr rendered \<Rightarrow>
             bind (preflight_ports sv ctx (mr_ToHost req) (requiredHostPorts (sv_lib sv) rendered) issues) (\<lambda>(issues, on).
               if \<not> on then ret (issues, prov)
               else if pullImages then
                 bind (fold_calls (preflight_pull sv ctx (mr_ToHost req)) (containerImages (sv_lib sv) rendered) issues) (\<lambda>issues. ret (issues, prov))
               else ret (issues, prov)))"

definition preflightIssues ::
  "('p, 's) Service \<Rightarrow> ctx \<Rightarrow> MigrateRequest \<Rightarrow> Template \<Rightarrow> (string \<times> json) list \<Rightarrow> bool \<Rightarrow> (('p, 's) World, rerr list \<times> string list) call" where
  "preflightIssues sv ctx req tmpl eff pullImages =
     (let drain = (case sv_host sv (mr_ToHost req) of Some h \<Rightarrow> host_Drain h | None \<Rightarrow> False);
          issues = (if drain then [RErr [HostDraining] ''host is draining''] else [])
      in bind (attempt (on_podman (pc_PodInspect (sv_client sv) ctx (mr_ToHost req) (podName (mr_Template req) (mr_Slug req))))) (\<lambda>r.
           case r of
             Inl e \<Rightarrow>
               if \<not> errors_Is e PodNotFound then ret (issues @ [wrap_err ''inspect dest pod'' e], [])
               else preflight_rest sv ctx req tmpl eff pullImages issues
           | Inr _ \<Rightarrow> preflight_rest sv ctx req tmpl eff pullImages (issues @ [RErr [InstanceExists] ''instance already exists''])))"

definition preflightDest :: "('p, 's) Service \<Rightarrow> ctx \<Rightarrow> MigrateRequest \<Rightarrow> Template \<Rightarrow> (string \<times> json) list \<Rightarrow> (('p, 's) World, unit) call" where
  "preflightDest sv ctx req tmpl eff =
     bind (preflightIssues sv ctx req tmpl eff True) (\<lambda>(errs, _). case errs of e # _ \<Rightarrow> fail_with e | [] \<Rightarrow> ret ())"

subsection \<open>After the source is stopped\<close>

definition provision_create :: "('p, 's) Service \<Rightarrow> ctx \<Rightarrow> MigrateRequest \<Rightarrow> string \<Rightarrow> string \<Rightarrow> (('p, 's) World, unit) call" where
  "provision_create sv ctx req name v =
     bind (attempt (on_podman (pc_SecretCreate (sv_client sv) ctx (mr_ToHost req) name (wrapAsKubeSecret (sv_lib sv) name name v)))) (\<lambda>created.
       case created of
         Inl e \<Rightarrow>
           bind (attempt (on_podman (pc_SecretInspect (sv_client sv) ctx (mr_ToHost req) name))) (\<lambda>there.
             if isl there then fail_with (wrap_err ''provision host secret'' e) else ret ())
       | Inr _ \<Rightarrow>
           bind (report ''provision-secret'' name) (\<lambda>_.
           bind (attempt (on_store (st_PutHostSecret (sv_store sv) (mr_ToHost req) name v))) (\<lambda>recorded.
             if isl recorded then report ''record-host-secret-failed'' name else ret ())))"

definition provision_secret :: "('p, 's) Service \<Rightarrow> ctx \<Rightarrow> MigrateRequest \<Rightarrow> string \<Rightarrow> (('p, 's) World, unit) call" where
  "provision_secret sv ctx req name =
     bind (attempt (on_podman (pc_SecretInspect (sv_client sv) ctx (mr_ToHost req) name))) (\<lambda>r.
       case r of
         Inr _ \<Rightarrow> ret ()
       | Inl e \<Rightarrow>
           if \<not> errors_Is e PodNotFound then fail_with (wrap_err ''inspect dest host secret'' e)
           else
             bind (attempt (on_store (st_GetHostSecret (sv_store sv) (mr_FromHost req) name))) (\<lambda>val.
               case val of
                 Inl e \<Rightarrow> if errors_Is e StoreNotFound then ret () else fail_with (wrap_err ''load host secret'' e)
               | Inr v \<Rightarrow> provision_create sv ctx req name v))"

definition stop_paired :: "('p, 's) Service \<Rightarrow> ctx \<Rightarrow> string \<Rightarrow> PairedInstanceRef \<Rightarrow> PairedInstanceRef list \<Rightarrow> (('p, 's) World, PairedInstanceRef list) call" where
  "stop_paired sv ctx fromHost ps stopped =
     (let name = pr_Template ps @ ''/'' @ pr_Slug ps
      in bind (attempt (svc_Stop sv ctx fromHost (pr_Template ps) (pr_Slug ps))) (\<lambda>r.
           case r of
             Inl e \<Rightarrow>
               if errors_Is e InstanceNotFound then bind (report ''stop-paired-skipped'' name) (\<lambda>_. ret stopped)
               else fail_with (wrap_err ''stop paired instance'' e)
           | Inr _ \<Rightarrow> bind (report ''stop-paired'' name) (\<lambda>_. ret (stopped @ [ps]))))"

definition move_volume :: "('p, 's) Service \<Rightarrow> ctx \<Rightarrow> MigrateRequest \<Rightarrow> PodVolume \<Rightarrow> (('p, 's) World, unit) call" where
  "move_volume sv ctx req v =
     bind (wrapping ''create dest volume'' (on_podman (pc_VolumeCreate (sv_client sv) ctx (mr_ToHost req) (pv_Name v)))) (\<lambda>_.
     bind (report ''copy-volume'' (pv_Name v)) (\<lambda>_.
     bind (wrapping ''copy volume'' (CopyVolume sv ctx (mr_FromHost req) (mr_ToHost req) (pv_Name v))) (\<lambda>srcManifest.
     bind (report ''copy-volume-done'' (pv_Name v)) (\<lambda>_.
       if sv_verifyVolumes sv then
         bind (wrapping ''verify volume: re-export dest'' (volumeManifest sv ctx (mr_ToHost req) (pv_Name v))) (\<lambda>dst.
         bind (require (firstDiff srcManifest dst = None) (RErr [VolumeIntegrity] ''volume copy failed integrity check'')) (\<lambda>_.
           report ''verify-volume'' (pv_Name v)))
       else ret ()))))"

definition migrate_opts :: ApplyOptions where
  "migrate_opts =
     \<lparr>ao_Replace = False, ao_SkipPull = False, ao_AllowMissingSecrets = True, ao_RestoreIntent = None, ao_SupersededSlug = ''''\<rparr>"

text \<open>The part after the paired instances were stopped: volumes, apply, verification.\<close>

definition migrate_transfer ::
  "('p, 's) Service \<Rightarrow> ctx \<Rightarrow> MigrateRequest \<Rightarrow> (string \<times> json) list \<Rightarrow> Spec \<Rightarrow> (('p, 's) World, unit) call" where
  "migrate_transfer sv ctx req eff sp =
     bind (wrapping ''list source volumes'' (InstanceVolumes sv ctx (mr_FromHost req) (mr_Template req) (mr_Slug req))) (\<lambda>vols.
     bind (for_each vols (move_volume sv ctx req)) (\<lambda>_.
     bind (report ''apply-dest'' (mr_ToHost req)) (\<lambda>_.
     bind (wrapping ''apply on dest'' (svc_Apply sv ctx (mr_ToHost req)
        \<lparr>ar_Template = mr_Template req, ar_Slug = mr_Slug req, ar_Parameters = eff, ar_Secrets = spec_Secrets sp,
         ar_Domains = spec_Domains sp, ar_Networks = spec_AppliedNetworks sp\<rparr> migrate_opts)) (\<lambda>_.
     bind (report ''apply-dest-done'' (mr_ToHost req)) (\<lambda>_.
     bind (wrapping ''verify dest'' (waitRunning sv ctx (mr_ToHost req) (mr_Template req) (mr_Slug req))) (\<lambda>_.
       report ''verify'' (mr_ToHost req)))))))"

text \<open>
  The paired instances that were stopped, and the error; when stopping one of them fails the list is nil
  (\<^verbatim>\<open>return nil, fmt.Errorf("stop paired instance \<dots>")\<close>).
\<close>

definition migratePostStop ::
  "('p, 's) Service \<Rightarrow> ctx \<Rightarrow> MigrateRequest \<Rightarrow> (string \<times> json) list \<Rightarrow> Template \<Rightarrow> Spec
    \<Rightarrow> (('p, 's) World, PairedInstanceRef list \<times> rerr option) call" where
  "migratePostStop sv ctx req eff tmpl sp =
     bind (attempt (for_each (sec_PerHostReferenced (meta_Secrets (tmpl_Meta tmpl))) (provision_secret sv ctx req))) (\<lambda>r.
       case r of
         Inl e \<Rightarrow> ret ([], Some e)
       | Inr _ \<Rightarrow>
           bind (attempt (fold_calls (stop_paired sv ctx (mr_FromHost req)) (mr_AlsoStop req) [])) (\<lambda>r.
             case r of
               Inl e \<Rightarrow> ret ([], Some e)
             | Inr stopped \<Rightarrow>
                 bind (attempt (migrate_transfer sv ctx req eff sp)) (\<lambda>r.
                   ret (stopped, case r of Inl e \<Rightarrow> Some e | Inr _ \<Rightarrow> None))))"

subsection \<open>Migrate\<close>

definition mergeParams :: "(string \<times> json) list \<Rightarrow> (string \<times> json) list \<Rightarrow> (string \<times> json) list" where
  "mergeParams base override = overlay base override"

definition report_failure :: "string \<Rightarrow> (('p, 's) World, 'a) call \<Rightarrow> (('p, 's) World, unit) call" where
  "report_failure name m = bind (attempt m) (\<lambda>r. if isl r then report name '''' else ret ())"

definition migrate_rollback :: "('p, 's) Service \<Rightarrow> MigrateRequest \<Rightarrow> PairedInstanceRef list \<Rightarrow> (('p, 's) World, unit) call" where
  "migrate_rollback sv req stopped =
     bind (report ''rollback'' '''') (\<lambda>_.
     bind (report_failure ''rollback-restore-failed'' (svc_Start sv Detached (mr_FromHost req) (mr_Template req) (mr_Slug req))) (\<lambda>_.
     bind (report_failure ''rollback-reap-failed'' (svc_Delete sv Detached (mr_ToHost req) (mr_Template req) (mr_Slug req) prune_all)) (\<lambda>_.
       for_each stopped (\<lambda>ps.
         report_failure ''rollback-start-paired-failed'' (svc_Start sv Detached (mr_FromHost req) (pr_Template ps) (pr_Slug ps))))))"

definition start_paired :: "('p, 's) Service \<Rightarrow> string \<Rightarrow> PairedInstanceRef \<Rightarrow> (('p, 's) World, unit) call" where
  "start_paired sv fromHost ps =
     bind (attempt (svc_Start sv Detached fromHost (pr_Template ps) (pr_Slug ps))) (\<lambda>r.
       if isl r then report ''start-paired-failed'' '''' else report ''start-paired'' (pr_Template ps @ ''/'' @ pr_Slug ps))"

definition migrate_commit :: "('p, 's) Service \<Rightarrow> MigrateRequest \<Rightarrow> PairedInstanceRef list \<Rightarrow> (('p, 's) World, unit) call" where
  "migrate_commit sv req stopped =
     bind (wrapping ''commit (delete source)'' (svc_Delete sv Detached (mr_FromHost req) (mr_Template req) (mr_Slug req) prune_all)) (\<lambda>_.
     bind (report ''commit'' (mr_FromHost req)) (\<lambda>_.
       for_each stopped (start_paired sv (mr_FromHost req))))"

definition migrate_prepare :: "('p, 's) Service \<Rightarrow> ctx \<Rightarrow> MigrateRequest \<Rightarrow> (('p, 's) World, Template \<times> Spec \<times> (string \<times> json) list) call" where
  "migrate_prepare sv ctx req =
     bind (require (mr_FromHost req \<noteq> mr_ToHost req) SameHostErr) (\<lambda>_.
     bind (require (sv_host sv (mr_FromHost req) \<noteq> None) UnknownHostErr) (\<lambda>_.
     bind (lookup_template sv (mr_ToHost req) (mr_Template req)) (\<lambda>tmpl.
     bind (on_store (st_GetSpec (sv_store sv) (mr_FromHost req) (mr_Template req) (mr_Slug req))) (\<lambda>sp.
     bind (report ''load'' (mr_FromHost req @ ''/'' @ mr_Template req @ ''/'' @ mr_Slug req)) (\<lambda>_.
     let eff = AList.update ''slug'' (JString (mr_Slug req)) (mergeParams (spec_Parameters sp) (mr_Parameters req)) in
     bind (preflightDest sv ctx req tmpl eff) (\<lambda>_.
     bind (report ''preflight'' (mr_ToHost req)) (\<lambda>_.
       ret (tmpl, sp, eff))))))))"

definition Migrate :: "('p, 's) Service \<Rightarrow> ctx \<Rightarrow> MigrateRequest \<Rightarrow> (('p, 's) World, unit) call" where
  "Migrate sv ctx req =
     bind (migrate_prepare sv ctx req) (\<lambda>(tmpl, sp, eff).
     bind (wrapping ''stop source'' (svc_Stop sv ctx (mr_FromHost req) (mr_Template req) (mr_Slug req))) (\<lambda>_.
     bind (report ''stop-source'' (mr_FromHost req)) (\<lambda>_.
     bind (migratePostStop sv ctx req eff tmpl sp) (\<lambda>(stopped, err).
       case err of
         Some e \<Rightarrow> bind (migrate_rollback sv req stopped) (\<lambda>_. fail_with e)
       | None \<Rightarrow> migrate_commit sv req stopped))))"

end
