(* ===== verification/Migrate_Reconcile.thy ===== *)
theory Migrate_Reconcile
  imports Instance_Migrate Job_Store
begin

text \<open>
  The reconciliation of a migration a restart interrupted (\<^verbatim>\<open>internal/instance/reconcile.go\<close>), and the job
  handler and reconciler of \<^verbatim>\<open>internal/migrate\<close>.
\<close>

subsection \<open>What the hosts and the store say\<close>

datatype destStatus = destHealthy | destUnhealthy | destAbsent | destUnreachable

datatype specState = specInconclusive | specPersisted | specAbsent | specCorrupt | specNeedsKey

definition sourcePresent :: "('p, 's) Service \<Rightarrow> ctx \<Rightarrow> string \<Rightarrow> string \<Rightarrow> string \<Rightarrow> (('p, 's) World, bool \<times> bool) call" where
  "sourcePresent sv ctx host tmpl slug =
     bind (attempt (on_podman (pc_PodInspect (sv_client sv) ctx host (podName tmpl slug)))) (\<lambda>r.
       case r of
         Inr _ \<Rightarrow> ret (True, True)
       | Inl e \<Rightarrow> if errors_Is e PodNotFound then ret (False, True) else ret (False, False))"

definition destState :: "('p, 's) Service \<Rightarrow> ctx \<Rightarrow> string \<Rightarrow> string \<Rightarrow> string \<Rightarrow> (('p, 's) World, destStatus) call" where
  "destState sv ctx host tmpl slug =
     bind (attempt (on_podman (pc_PodInspect (sv_client sv) ctx host (podName tmpl slug)))) (\<lambda>r.
       case r of
         Inl e \<Rightarrow> if errors_Is e PodNotFound then ret destAbsent else ret destUnreachable
       | Inr _ \<Rightarrow>
           bind (attempt (waitRunning sv ctx host tmpl slug)) (\<lambda>ready.
             case ready of
               Inr _ \<Rightarrow> ret destHealthy
             | Inl _ \<Rightarrow>
                 bind (attempt (on_podman (pc_PodInspect (sv_client sv) ctx host (podName tmpl slug)))) (\<lambda>again.
                   case again of
                     Inl e \<Rightarrow> if errors_Is e PodNotFound then ret destUnhealthy else ret destUnreachable
                   | Inr _ \<Rightarrow> ret destUnhealthy)))"

definition destSpecState :: "('p, 's) Service \<Rightarrow> string \<Rightarrow> string \<Rightarrow> string \<Rightarrow> (('p, 's) World, specState) call" where
  "destSpecState sv host tmpl slug =
     bind (attempt (on_store (st_GetSpec (sv_store sv) host tmpl slug))) (\<lambda>r.
       case r of
         Inr _ \<Rightarrow> ret specPersisted
       | Inl e \<Rightarrow>
           if errors_Is e StoreNotFound then ret specAbsent
           else if errors_Is e SecretsNeedKey \<or> errors_Is e SecretsUndecryptable then ret specNeedsKey
           else if errors_Is e SpecCorrupt then ret specCorrupt
           else ret specInconclusive)"

subsection \<open>Rolling forward and back\<close>

text \<open>\<open>(resolved, succeeded, message)\<close>; the code's error result is always nil.\<close>

type_synonym outcome = "bool \<times> bool \<times> string"

definition inconclusive :: "string \<Rightarrow> (('p, 's) World, outcome) call" where
  "inconclusive detail = bind (report ''reconcile-inconclusive'' detail) (\<lambda>_. ret (False, False, ''''))"

text \<open>\<^verbatim>\<open>if err := m(); err != nil { step("reconcile-inconclusive", detail); return }\<close>, then \<open>rest\<close>.\<close>

definition or_inconclusive :: "string \<Rightarrow> (('p, 's) World, 'a) call \<Rightarrow> (('p, 's) World, outcome) call \<Rightarrow> (('p, 's) World, outcome) call" where
  "or_inconclusive detail m rest = bind (attempt m) (\<lambda>r. if isl r then inconclusive detail else rest)"

fun restore_paired :: "('p, 's) Service \<Rightarrow> string \<Rightarrow> PairedInstanceRef list \<Rightarrow> (('p, 's) World, outcome) call \<Rightarrow> (('p, 's) World, outcome) call" where
  "restore_paired sv host [] rest = rest"
| "restore_paired sv host (ps # pss) rest =
     bind (attempt (svc_Start sv Detached host (pr_Template ps) (pr_Slug ps))) (\<lambda>r.
       case r of
         Inl e \<Rightarrow> if errors_Is e InstanceNotFound then restore_paired sv host pss rest
                 else inconclusive (''restore paired '' @ pr_Template ps @ ''/'' @ pr_Slug ps)
       | Inr _ \<Rightarrow> restore_paired sv host pss rest)"

text \<open>The rest of the source when its pod is gone; its spec row may go, its ingress is refreshed at best effort.\<close>

definition reap_absent_source :: "('p, 's) Service \<Rightarrow> MigrateRequest \<Rightarrow> (('p, 's) World, outcome) call \<Rightarrow> (('p, 's) World, outcome) call" where
  "reap_absent_source sv req rest =
     bind (stored_injector_secrets sv (mr_FromHost req) (mr_Template req) (mr_Slug req)) (\<lambda>injectorSecrets.
     bind (pruneInstanceResources sv Detached (mr_FromHost req) (mr_Template req) (mr_Slug req) True True injectorSecrets) (\<lambda>_.
       or_inconclusive ''clean source spec'' (delete_spec_row sv (mr_FromHost req) (mr_Template req) (mr_Slug req))
         (bind (if ingressEnabled sv then report_failure ''reconcile-source-ingress-cleanup-failed'' (reconcile_ingress sv Detached (mr_FromHost req))
                else ret ()) (\<lambda>_. rest))))"

definition reap_source :: "('p, 's) Service \<Rightarrow> MigrateRequest \<Rightarrow> bool \<Rightarrow> (('p, 's) World, outcome) call \<Rightarrow> (('p, 's) World, outcome) call" where
  "reap_source sv req srcPresent rest =
     (if srcPresent
      then or_inconclusive ''reap source'' (svc_Delete sv Detached (mr_FromHost req) (mr_Template req) (mr_Slug req) prune_all) rest
      else reap_absent_source sv req rest)"

definition roll_forward :: "('p, 's) Service \<Rightarrow> MigrateRequest \<Rightarrow> bool \<Rightarrow> (('p, 's) World, outcome) call" where
  "roll_forward sv req srcPresent =
     or_inconclusive ''dest ingress reconcile'' (if ingressEnabled sv then reconcile_ingress sv Detached (mr_ToHost req) else ret ())
       (reap_source sv req srcPresent
         (restore_paired sv (mr_FromHost req) (mr_AlsoStop req)
           (bind (report ''reconcile-roll-forward'' (mr_ToHost req)) (\<lambda>_. ret (True, True, '''')))))"

definition roll_back :: "('p, 's) Service \<Rightarrow> MigrateRequest \<Rightarrow> bool \<Rightarrow> destStatus \<Rightarrow> (('p, 's) World, outcome) call" where
  "roll_back sv req srcPresent ds =
     (if srcPresent then
        or_inconclusive ''restore source'' (svc_Start sv Detached (mr_FromHost req) (mr_Template req) (mr_Slug req))
          (restore_paired sv (mr_FromHost req) (mr_AlsoStop req)
            (or_inconclusive ''reap dest'' (svc_Delete sv Detached (mr_ToHost req) (mr_Template req) (mr_Slug req) prune_all)
              (bind (report ''reconcile-roll-back'' (mr_FromHost req)) (\<lambda>_.
                ret (True, False, ''rolled back: destination unverified, source restored'')))))
      else if ds = destAbsent then
        bind (report ''reconcile-not-found'' ''instance absent on both hosts'') (\<lambda>_.
          ret (True, False, ''instance not found on either host''))
      else
        bind (report ''reconcile-orphan-dest'' (mr_ToHost req @ '' left in place; source already removed'')) (\<lambda>_.
          ret (True, False, ''destination left in place; source already removed''))) "

text \<open>What follows from the spec of a healthy destination, and from its health.\<close>

definition on_spec :: "('p, 's) Service \<Rightarrow> MigrateRequest \<Rightarrow> bool \<Rightarrow> destStatus \<Rightarrow> specState \<Rightarrow> (('p, 's) World, outcome) call" where
  "on_spec sv req srcPresent ds spec =
     (case spec of
        specInconclusive \<Rightarrow> inconclusive ''destination spec lookup failed''
      | specNeedsKey \<Rightarrow> bind (report ''reconcile-needs-key'' ''destination spec secrets unreadable'') (\<lambda>_. ret (False, False, ''''))
      | specCorrupt \<Rightarrow>
          bind (report ''reconcile-spec-corrupt'' ''destination spec corrupt (malformed)'') (\<lambda>_.
            ret (True, False, ''destination spec corrupt (malformed); manual cleanup required''))
      | specPersisted \<Rightarrow> roll_forward sv req srcPresent
      | specAbsent \<Rightarrow> roll_back sv req srcPresent ds)"

definition compensate :: "('p, 's) Service \<Rightarrow> MigrateRequest \<Rightarrow> bool \<Rightarrow> destStatus \<Rightarrow> (('p, 's) World, outcome) call" where
  "compensate sv req srcPresent ds =
     (if ds = destHealthy
      then bind (destSpecState sv (mr_ToHost req) (mr_Template req) (mr_Slug req)) (on_spec sv req srcPresent ds)
      else roll_back sv req srcPresent ds)"

definition inspect_hosts :: "('p, 's) Service \<Rightarrow> ctx \<Rightarrow> MigrateRequest \<Rightarrow> (('p, 's) World, outcome) call" where
  "inspect_hosts sv ctx req =
     bind (sourcePresent sv ctx (mr_FromHost req) (mr_Template req) (mr_Slug req)) (\<lambda>(srcPresent, srcReachable).
       if \<not> srcReachable then inconclusive (mr_FromHost req @ '' unreachable'')
       else
         bind (destState sv ctx (mr_ToHost req) (mr_Template req) (mr_Slug req)) (\<lambda>ds.
           if ds = destUnreachable then inconclusive (mr_ToHost req @ '' unreachable'')
           else
             bind (asking (\<lambda>w. pc_CtxErr (sv_client sv) ctx (w_podman w))) (\<lambda>cancelled.
               if cancelled \<noteq> None
               then bind (report ''reconcile-canceled'' ''interrupted before compensation'') (\<lambda>_. ret (False, False, ''''))
               else compensate sv req srcPresent ds)))"

definition ReconcileMigrate :: "('p, 's) Service \<Rightarrow> ctx \<Rightarrow> MigrateRequest \<Rightarrow> (('p, 's) World, outcome) call" where
  "ReconcileMigrate sv ctx req =
     (if sv_host sv (mr_FromHost req) = None
      then ret (True, False, ''source host '' @ mr_FromHost req @ '' is no longer configured; manual cleanup required'')
      else if sv_host sv (mr_ToHost req) = None
      then ret (True, False, ''destination host '' @ mr_ToHost req @ '' is no longer configured; manual cleanup required'')
      else
        bind (attempt (hasTemplate sv (mr_Template req))) (\<lambda>r.
          case r of
            Inl _ \<Rightarrow> inconclusive ''template lookup failed''
          | Inr present \<Rightarrow>
              if present then inspect_hosts sv ctx req
              else ret (True, False, ''template '' @ mr_Template req @ '' is no longer configured; manual cleanup required'')))"

subsection \<open>The job handler and the job reconciler\<close>

text \<open>\<open>decode\<close> is \<^verbatim>\<open>json.Unmarshal\<close>; the second result is whether a rollback is counted.\<close>

definition migrate_Run ::
  "(string \<Rightarrow> string + MigrateRequest) \<Rightarrow> ('p, 's) Service \<Rightarrow> ctx \<Rightarrow> Job \<Rightarrow> ('p, 's) World \<Rightarrow> (rerr + unit) \<times> bool \<times> ('p, 's) World" where
  "migrate_Run decode sv ctx job w =
     (case decode (job_Args job) of
        Inl e \<Rightarrow> (Inl (RErr [] ''decode migrate args''), False, w)
      | Inr req \<Rightarrow>
          (case Migrate sv ctx req w of (r, w') \<Rightarrow>
             (r, list_ex (\<lambda>(name, _). HasPrefix name ''rollback'') (drop (length (w_steps w)) (w_steps w')), w')))"

text \<open>\<open>None\<close> leaves the job reconciling; otherwise its final state and message.\<close>

definition migrate_Reconcile ::
  "(string \<Rightarrow> string + MigrateRequest) \<Rightarrow> ('p, 's) Service \<Rightarrow> ctx \<Rightarrow> Job \<Rightarrow> (('p, 's) World, (JobState \<times> string) option) call" where
  "migrate_Reconcile decode sv ctx job =
     (case decode (job_Args job) of
        Inl e \<Rightarrow>
          bind (report ''reconcile-bad-args'' e) (\<lambda>_.
            ret (Some (JobFailed, ''interrupted migrate could not be decoded; manual cleanup may be required'')))
      | Inr req \<Rightarrow>
          bind (ReconcileMigrate sv ctx req) (\<lambda>(resolved, ok, message).
            ret (if \<not> resolved then None else if ok then Some (JobSucceeded, message) else Some (JobFailed, message))))"

end
