(* ===== verification/Instance_Guard.thy ===== *)
theory Instance_Guard
  imports Migrate_Reconcile
begin

text \<open>
  The contracts under which the operations of the service leave something alone. \<open>J\<close> is an invariant of the hosts' state
  and \<open>K\<close> one of the store. Under \<open>reading\<close> the reads keep them; \<open>spared\<close> adds starts and the changes on hosts other than
  one, \<open>guarded\<close> adds stops. What \<open>J\<close> and \<open>K\<close> speak of is open: that an operation keeps every such pair says which
  calls it makes.
\<close>

subsection \<open>Reads\<close>

locale reading =
  fixes sv :: "('p, 's) Service" and J :: "'p \<Rightarrow> bool" and K :: "'s \<Rightarrow> bool"
  assumes reads:
      "keeps J (pc_PodInspect (sv_client sv) ctx h n)" "keeps J (pc_SecretInspect (sv_client sv) ctx h n)"
      "keeps J (pc_VolumeInspect (sv_client sv) ctx h n)" "keeps J (pc_VolumeExport (sv_client sv) ctx h n)"
      "keeps J (pc_UsedHostPorts (sv_client sv) ctx h)" "keeps J (pc_HostBoundPorts (sv_client sv) ctx h n)"
      "keeps J (pc_Tick (sv_client sv) ctx)"
    and clock: "J p \<Longrightarrow> J (snd (pc_Now (sv_client sv) p))"
    and cache: "J p \<Longrightarrow> J (pc_invalidate (sv_client sv) h p)"
    and sidecar: "sv_sidecar sv = Some si \<Longrightarrow> keeps J (inj_InjectSidecars si yaml m params h slug intent)"
    and store_reads:
      "keeps K (st_GetSpec (sv_store sv) h t n)" "keeps K (st_ListSpecNetworks (sv_store sv) h)"
      "keeps K (st_ListSpecKeys (sv_store sv) h)" "keeps K (st_GetTemplate (sv_store sv) t)"
      "keeps K (st_GetHostSecret (sv_store sv) h n)"
begin

lemma keeps_now: "keeps (both J K X) (time_now sv)"
  by (rule keeps_time_now) (rule clock)

lemma keeps_invalidate: "both J K X w \<Longrightarrow> both J K X (invalidateInstances sv h w)"
  by (rule both_invalidate) (rule cache)

lemmas read_intros = keeps_intros reads store_reads keeps_now keeps_invalidate

lemma keeps_lookup: "keeps (both J K X) (lookup_template sv h t)"
  unfolding lookup_template_def by (intro read_intros)

lemma keeps_hostClaims: "keeps (both J K X) (hostClaims sv h metas)"
  unfolding hostClaims_def claim_of_row_def Let_def by (intro read_intros)

lemma keeps_waitReady: "keeps (both J K X) (waitReady sv ctx h t n opts)"
proof -
  have "keeps (both J K X) (ready_loop fuel sv ctx h name opts st)" for fuel name st
    by (induction fuel arbitrary: st)
      (auto simp: poll_once_def not_ready_def startupDeadline_def startup_end_def Let_def intro!: read_intros)
  then show ?thesis unfolding waitReady_def by (intro read_intros)
qed

lemma keeps_waitRunning: "keeps (both J K X) (waitRunning sv ctx h t n)"
  unfolding waitRunning_def by (intro read_intros keeps_waitReady)

lemma keeps_Get: "keeps (both J K X) (svc_Get sv ctx h t n)"
  unfolding svc_Get_def observe_volume_def Let_def by (intro read_intros keeps_lookup)

lemma keeps_observe: "keeps (both J K X) (observe_ready sv ctx h t n)"
  unfolding observe_ready_def by (intro read_intros keeps_waitReady keeps_Get)

lemma keeps_checks: "keeps (both J K X) (apply_checks sv ctx h req opts)"
  unfolding apply_checks_def lift_check_def validateIngress_def domain_free_def validateNetworkAliases_def check_host_secret_def
    pod_exists_def inject_def check_ports_def bound_ports_def Let_def
  by (intro read_intros keeps_lookup keeps_hostClaims sidecar)

end

subsection \<open>One host left alone\<close>

locale spared = reading sv J K for sv :: "('p, 's) Service" and src :: string and J :: "'p \<Rightarrow> bool" and K :: "'s \<Rightarrow> bool" +
  assumes starts: "keeps J (pc_PodStart (sv_client sv) ctx h n)"
    and writes:
      "h \<noteq> src \<Longrightarrow> keeps J (pc_PlayKube (sv_client sv) ctx h yaml replace nets)"
      "h \<noteq> src \<Longrightarrow> keeps J (pc_PodRemove (sv_client sv) ctx h n force)"
      "h \<noteq> src \<Longrightarrow> keeps J (pc_SecretCreate (sv_client sv) ctx h n v)"
      "h \<noteq> src \<Longrightarrow> keeps J (pc_SecretRemove (sv_client sv) ctx h n)"
      "h \<noteq> src \<Longrightarrow> keeps J (pc_VolumeRemove (sv_client sv) ctx h n force)"
      "h \<noteq> src \<Longrightarrow> keeps J (pc_VolumeImport (sv_client sv) ctx h n bytes err)"
      "h \<noteq> src \<Longrightarrow> keeps J (pc_VolumeCreate (sv_client sv) ctx h n)"
      "h \<noteq> src \<Longrightarrow> keeps J (pc_NetworkEnsure (sv_client sv) ctx h n)"
      "h \<noteq> src \<Longrightarrow> keeps J (pc_ImagePull (sv_client sv) ctx h n)"
    and ingress: "keeps J (sv_ingress sv ctx h s)"
    and store_writes:
      "spec_Host sp \<noteq> src \<Longrightarrow> keeps K (st_PutSpec (sv_store sv) sp)"
      "h \<noteq> src \<Longrightarrow> keeps K (st_DeleteSpec (sv_store sv) h t n)"
      "h \<noteq> src \<Longrightarrow> keeps K (st_PutHostSecret (sv_store sv) h n v)"
begin

lemma keeps_ingress: "keeps (both J K X) (reconcile_ingress sv ctx h)"
  by (rule keeps_reconcile_ingress) (rule ingress)

lemmas guard_intros = read_intros starts ingress keeps_ingress

lemma keeps_ingress_after: "keeps (both J K X) (ingress_after sv ctx h)"
  unfolding ingress_after_def by (intro guard_intros)

lemma keeps_Start: "keeps (both J K X) (svc_Start sv ctx h t n)"
  unfolding svc_Start_def lifecycle_def by (intro guard_intros keeps_lookup keeps_observe)

lemma keeps_push_secret: "h \<noteq> src \<Longrightarrow> keeps (both J K X) (push_secret sv ctx h n k v)"
  unfolding push_secret_def by (intro guard_intros writes)

lemma keeps_pull_image: "h \<noteq> src \<Longrightarrow> keeps (both J K X) (pull_image sv ctx h i)"
  unfolding pull_image_def by (intro guard_intros writes)

lemma keeps_apply_host: "h \<noteq> src \<Longrightarrow> keeps (both J K X) (apply_host sv ctx h req opts plan)"
  unfolding apply_host_def ensureNetworks_def by (intro guard_intros writes keeps_push_secret keeps_pull_image)

lemma keeps_persist: "spec_Host sp \<noteq> src \<Longrightarrow> keeps (both J K X) (persist_spec sv sp)"
  unfolding persist_spec_def by (intro guard_intros store_writes)

lemma keeps_Apply: "h \<noteq> src \<Longrightarrow> keeps (both J K X) (svc_Apply sv ctx h req opts)"
  unfolding svc_Apply_def applyLocked_def
  by (intro guard_intros keeps_checks keeps_apply_host keeps_persist keeps_ingress_after) (simp_all add: applied_spec_def)

lemma keeps_best_effort: "keeps I m \<Longrightarrow> keeps I (best_effort m)"
  unfolding best_effort_def by (intro guard_intros)

lemma keeps_prune_resources: "h \<noteq> src \<Longrightarrow> keeps (both J K X) (pruneInstanceResources sv ctx h t n secs vols injs)"
  unfolding pruneInstanceResources_def prune_secret_def by (intro guard_intros writes keeps_best_effort)

lemma keeps_Delete: "h \<noteq> src \<Longrightarrow> keeps (both J K X) (svc_Delete sv ctx h t n opts)"
  unfolding svc_Delete_def stored_injector_secrets_def delete_spec_row_def
  by (intro guard_intros writes store_writes keeps_lookup keeps_prune_resources keeps_ingress_after)

lemma keeps_volumes: "keeps (both J K X) (InstanceVolumes sv ctx h t n)"
  unfolding InstanceVolumes_def add_volume_def by (intro guard_intros keeps_lookup)

lemma keeps_preflight: "mr_ToHost req \<noteq> src \<Longrightarrow> keeps (both J K X) (preflightIssues sv ctx req tmpl eff pull)"
proof -
  assume to: "mr_ToHost req \<noteq> src"
  have secrets: "keeps (both J K X) (preflight_secrets sv ctx req names issues prov)" for names issues prov
    by (induction names arbitrary: issues prov)
      (auto simp: hostSecretProvisionable_def split: bool.split intro!: guard_intros)
  show ?thesis
    unfolding preflightIssues_def preflight_rest_def preflight_ports_def preflight_pull_def PortsInUse_def Let_def
    by (intro guard_intros secrets keeps_pull_image to)
qed

lemma keeps_move_volume: "mr_ToHost req \<noteq> src \<Longrightarrow> keeps (both J K X) (move_volume sv ctx req v)"
  unfolding move_volume_def CopyVolume_def copyVolumeAs_def volumeManifest_def Let_def by (intro guard_intros writes)

lemma keeps_provision: "mr_ToHost req \<noteq> src \<Longrightarrow> keeps (both J K X) (provision_secret sv ctx req name)"
  unfolding provision_secret_def provision_create_def by (intro guard_intros writes store_writes)

lemma keeps_prepare: "mr_ToHost req \<noteq> src \<Longrightarrow> keeps (both J K X) (migrate_prepare sv ctx req)"
  unfolding migrate_prepare_def preflightDest_def Let_def
  by (auto split: list.split intro!: guard_intros keeps_lookup keeps_preflight)

lemma keeps_transfer: "mr_ToHost req \<noteq> src \<Longrightarrow> keeps (both J K X) (migrate_transfer sv ctx req eff sp)"
  unfolding migrate_transfer_def by (intro guard_intros keeps_volumes keeps_move_volume keeps_Apply keeps_waitRunning)

lemma keeps_rollback: "mr_ToHost req \<noteq> src \<Longrightarrow> keeps (both J K X) (migrate_rollback sv req stopped)"
  unfolding migrate_rollback_def report_failure_def by (intro guard_intros keeps_Start keeps_Delete)

end

subsection \<open>A migration and its source\<close>

locale guarded = spared +
  assumes stops: "keeps J (pc_PodStop (sv_client sv) ctx h n)"
begin

lemma keeps_Stop: "keeps (both J K X) (svc_Stop sv ctx h t n)"
  unfolding svc_Stop_def lifecycle_def by (intro guard_intros keeps_lookup stops)

lemma keeps_PostStop: "mr_ToHost req \<noteq> src \<Longrightarrow> keeps (both J K X) (migratePostStop sv ctx req eff tmpl sp)"
  unfolding migratePostStop_def stop_paired_def Let_def
  by (intro guard_intros keeps_provision keeps_Stop keeps_transfer)

end

text \<open>
  The apply on the destination, under the canonical slug, succeeded and the pod was seen running there, with \<open>I\<close> held
  throughout.
\<close>

definition dest_verified :: "('p, 's) Service \<Rightarrow> ctx \<Rightarrow> MigrateRequest \<Rightarrow> (('p, 's) World \<Rightarrow> bool) \<Rightarrow> bool" where
  "dest_verified sv ctx req I \<longleftrightarrow>
     (\<exists>ar w0 w1 w2. I w0 \<and> I w1 \<and> I w2 \<and> ar_Template ar = mr_Template req \<and> ar_Slug ar = mr_Slug req
        \<and> map_of (ar_Parameters ar) ''slug'' = Some (JString (mr_Slug req))
        \<and> svc_Apply sv ctx (mr_ToHost req) ar migrate_opts w0 = (Inr (), w1)
        \<and> waitRunning sv ctx (mr_ToHost req) (mr_Template req) (mr_Slug req)
            (w1\<lparr>w_steps := w_steps w1 @ [(''apply-dest-done'', mr_ToHost req)]\<rparr>) = (Inr (), w2))"

context guarded
begin

lemma prepare_slug: "migrate_prepare sv ctx req w = (Inr (tmpl, sp, eff), w') \<Longrightarrow> map_of eff ''slug'' = Some (JString (mr_Slug req))"
  by (auto simp: migrate_prepare_def bind_Inr ret_def Let_def update_conv')

lemma transfer_verifies:
  assumes "mr_ToHost req \<noteq> src" and "both J K X w" and "migrate_transfer sv ctx req eff sp w = (Inr u, w')"
    and slug: "map_of eff ''slug'' = Some (JString (mr_Slug req))"
  shows "dest_verified sv ctx req (both J K X)"
proof -
  let ?ar = "\<lparr>ar_Template = mr_Template req, ar_Slug = mr_Slug req, ar_Parameters = eff, ar_Secrets = spec_Secrets sp,
    ar_Domains = spec_Domains sp, ar_Networks = spec_AppliedNetworks sp\<rparr>"
  obtain vols wa wb w0 w1 w2
    where runs: "InstanceVolumes sv ctx (mr_FromHost req) (mr_Template req) (mr_Slug req) w = (Inr vols, wa)"
      "for_each vols (move_volume sv ctx req) wa = (Inr (), wb)" "report ''apply-dest'' (mr_ToHost req) wb = (Inr (), w0)"
      "svc_Apply sv ctx (mr_ToHost req) ?ar migrate_opts w0 = (Inr (), w1)"
      "waitRunning sv ctx (mr_ToHost req) (mr_Template req) (mr_Slug req)
         (w1\<lparr>w_steps := w_steps w1 @ [(''apply-dest-done'', mr_ToHost req)]\<rparr>) = (Inr (), w2)"
    using assms(3) by (auto simp: migrate_transfer_def bind_Inr wrapping_Inr report_def)
  have copies: "keeps (both J K X) (for_each vols (move_volume sv ctx req))"
    by (intro guard_intros keeps_move_volume assms(1))
  have "both J K X wa" by (rule keepsD [OF keeps_volumes assms(2) runs(1)])
  then have "both J K X wb" by (rule keepsD [OF copies _ runs(2)])
  then have w0: "both J K X w0" by (rule keepsD [OF keeps_report _ runs(3)])
  then have w1: "both J K X w1" by (rule keepsD [OF keeps_Apply [OF assms(1)] _ runs(4)])
  then have "both J K X w2" by (intro keepsD [OF keeps_waitRunning _ runs(5)]) (auto simp: both_def)
  with w0 w1 runs(4,5) show ?thesis
    unfolding dest_verified_def by (intro exI [of _ ?ar] exI [of _ w0] exI [of _ w1] exI [of _ w2]) (simp add: slug)
qed

lemma PostStop_verifies:
  assumes "mr_ToHost req \<noteq> src" and "both J K X w" and "migratePostStop sv ctx req eff tmpl sp w = (Inr (stopped, None), w')"
    and slug: "map_of eff ''slug'' = Some (JString (mr_Slug req))"
  shows "dest_verified sv ctx req (both J K X)"
proof -
  obtain wa wb wc where runs: "for_each (sec_PerHostReferenced (meta_Secrets (tmpl_Meta tmpl))) (provision_secret sv ctx req) w = (Inr (), wa)"
      "fold_calls (stop_paired sv ctx (mr_FromHost req)) (mr_AlsoStop req) [] wa = (Inr stopped, wb)"
      "migrate_transfer sv ctx req eff sp wb = (Inr (), wc)"
    using assms(3) by (auto simp: migratePostStop_def bind_def attempt_def ret_def split: prod.splits sum.splits)
  have secrets: "keeps (both J K X) (for_each (sec_PerHostReferenced (meta_Secrets (tmpl_Meta tmpl))) (provision_secret sv ctx req))"
    by (intro guard_intros keeps_provision assms(1))
  have paired: "keeps (both J K X) (fold_calls (stop_paired sv ctx (mr_FromHost req)) (mr_AlsoStop req) [])"
    unfolding stop_paired_def Let_def by (intro guard_intros keeps_Stop)
  have "both J K X wa" by (rule keepsD [OF secrets assms(2) runs(1)])
  then have "both J K X wb" by (rule keepsD [OF paired _ runs(2)])
  then show ?thesis by (rule transfer_verifies [OF assms(1) _ runs(3) slug])
qed

lemma Migrate_spares:
  assumes "mr_FromHost req = src" and "both J K X w" and "Migrate sv ctx req w = (r, w')"
  shows "(both J K X w' \<or> dest_verified sv ctx req (both J K X)) \<and> (r = Inr () \<longrightarrow> dest_verified sv ctx req (both J K X))"
proof (cases "mr_ToHost req = src")
  case True
  then show ?thesis using assms by (auto simp: Migrate_def migrate_prepare_def bind_def require_def fail_with_def)
next
  case to: False
  let ?E = "\<lambda>_ w. both J K X w \<or> dest_verified sv ctx req (both J K X)"
  have post: "triple (both J K X) (migratePostStop sv ctx req eff tmpl sp)
      (\<lambda>(_, err) w. both J K X w \<and> (err = None \<longrightarrow> dest_verified sv ctx req (both J K X))) ?E"
    if "map_of eff ''slug'' = Some (JString (mr_Slug req))" for eff tmpl sp
    by (rule tripleI) (auto dest: keepsD [OF keeps_PostStop [OF to]] PostStop_verifies [OF to _ _ that])
  have ends: "triple (\<lambda>w. both J K X w \<and> (err = None \<longrightarrow> dest_verified sv ctx req (both J K X)))
      (case err of Some e \<Rightarrow> bind (migrate_rollback sv req stopped) (\<lambda>_. fail_with e) | None \<Rightarrow> migrate_commit sv req stopped)
      (\<lambda>_ _. dest_verified sv ctx req (both J K X)) ?E" for stopped err
    by (cases err) (auto simp: triple_def bind_def fail_with_def split: prod.splits sum.splits dest: keepsD [OF keeps_rollback [OF to]])
  have move: "triple (both J K X)
      (bind (migratePostStop sv ctx req eff tmpl sp) (\<lambda>(stopped, err). case err of
          Some e \<Rightarrow> bind (migrate_rollback sv req stopped) (\<lambda>_. fail_with e)
        | None \<Rightarrow> migrate_commit sv req stopped)) (\<lambda>_ _. dest_verified sv ctx req (both J K X)) ?E"
    if "map_of eff ''slug'' = Some (JString (mr_Slug req))" for eff tmpl sp
    by (rule triple_bind [OF post [OF that]]) (use ends in \<open>auto split: prod.split\<close>)
  have prepare: "triple (both J K X) (migrate_prepare sv ctx req)
      (\<lambda>(_, _, eff) w. both J K X w \<and> map_of eff ''slug'' = Some (JString (mr_Slug req))) ?E"
    by (rule tripleI) (auto dest: keepsD [OF keeps_prepare [OF to]] prepare_slug)
  have "triple (both J K X) (Migrate sv ctx req) (\<lambda>_ _. dest_verified sv ctx req (both J K X)) ?E"
    unfolding Migrate_def
    by (rule triple_bind [OF prepare])
      (auto intro!: triple_given triple_after_kept [OF keeps_wrapping [OF keeps_Stop]] triple_after_kept [OF keeps_report] move
        split: prod.split)
  then show ?thesis using assms(2,3) by (cases r) (auto dest: tripleD)
qed

end

subsection \<open>A failed migration and its source\<close>

text \<open>\<open>J\<close> is what a start of the source establishes and the rest of a rollback keeps.\<close>

locale restartable = spared sv src J "\<lambda>_. True" for sv :: "('p, 's) Service" and src :: string and J :: "'p \<Rightarrow> bool" +
  fixes tmpl slug :: string
  assumes restarts: "pc_PodStart (sv_client sv) Detached src (podName tmpl slug) p = (Inr (), p') \<Longrightarrow> J p'"
begin

lemma Start_restarts:
  assumes "svc_Start sv Detached src tmpl slug w = (Inr obs, w')"
  shows "both J (\<lambda>_. True) {} w'"
proof -
  obtain w1 where life: "lifecycle sv src tmpl slug (pc_PodStart (sv_client sv) Detached) w = (Inr (), w1)"
    and observe: "observe_ready sv Detached src tmpl slug w1 = (Inr obs, w')"
    using assms by (auto simp: svc_Start_def bind_Inr)
  from life have "both J (\<lambda>_. True) {} w1"
    by (auto simp: lifecycle_def deferring_def bind_def attempt_def on_podman_def ret_def fail_with_def both_def invalidateInstances_def
      split: prod.splits sum.splits if_splits intro!: cache dest: restarts)
  then show ?thesis by (rule keepsD [OF keeps_observe _ observe])
qed

text \<open>The start comes first; what follows keeps what it established, or the report that it failed.\<close>

lemma rollback_restarts:
  assumes "mr_ToHost req \<noteq> src" and "mr_FromHost req = src" and "mr_Template req = tmpl" and "mr_Slug req = slug"
    and "migrate_rollback sv req stopped w = (r, w')"
  shows "J (w_podman w') \<or> (''rollback-restore-failed'', '''') \<in> set (w_steps w')"
proof -
  let ?rest = "bind (report_failure ''rollback-reap-failed'' (svc_Delete sv Detached (mr_ToHost req) (mr_Template req) (mr_Slug req) prune_all)) (\<lambda>_.
       for_each stopped (\<lambda>ps.
         report_failure ''rollback-start-paired-failed'' (svc_Start sv Detached (mr_FromHost req) (pr_Template ps) (pr_Slug ps))))"
  obtain r1 w1 where start: "svc_Start sv Detached src tmpl slug (w\<lparr>w_steps := w_steps w @ [(''rollback'', '''')]\<rparr>) = (r1, w1)"
    by fastforce
  let ?w2 = "if isl r1 then w1\<lparr>w_steps := w_steps w1 @ [(''rollback-restore-failed'', '''')]\<rparr> else w1"
  have rest: "?rest ?w2 = (r, w')"
    using assms(2-5) start
    by (cases r1) (simp_all add: migrate_rollback_def bind_def report_def report_failure_def attempt_def ret_def)
  have keeps: "keeps (both J (\<lambda>_. True) X) ?rest" for X
    unfolding report_failure_def by (intro guard_intros keeps_Start keeps_Delete assms(1))
  show ?thesis
  proof (cases r1)
    case (Inl e)
    have any: "spared sv src (\<lambda>_. True) (\<lambda>_. True)" by unfold_locales (simp_all add: keeps_def)
    have logged: "keeps (both (\<lambda>_. True) (\<lambda>_. True) {(''rollback-restore-failed'', '''')}) ?rest"
      unfolding report_failure_def
      by (intro guard_intros spared.keeps_Start [OF any] spared.keeps_Delete [OF any assms(1)])
    have "both (\<lambda>_. True) (\<lambda>_. True) {(''rollback-restore-failed'', '''')} w'"
      by (rule keepsD [OF logged _ rest]) (simp add: Inl both_def)
    then show ?thesis by (simp add: both_def)
  next
    case (Inr obs)
    with start have "both J (\<lambda>_. True) {} ?w2" by (auto dest: Start_restarts)
    then show ?thesis using keepsD [OF keeps _ rest] by (auto simp: both_def)
  qed
qed

lemma Migrate_restarts:
  assumes "mr_FromHost req = src" and "mr_Template req = tmpl" and "mr_Slug req = slug"
    and "Migrate sv ctx req w = (Inl e, w')"
  shows "migrate_prepare sv ctx req w = (Inl e, w')
    \<or> (\<exists>x w1 e1. migrate_prepare sv ctx req w = (Inr x, w1) \<and> svc_Stop sv ctx src tmpl slug w1 = (Inl e1, w'))
    \<or> (\<exists>eff t sp w2 stopped w3. migratePostStop sv ctx req eff t sp w2 = (Inr (stopped, None), w3)
          \<and> migrate_commit sv req stopped w3 = (Inl e, w'))
    \<or> J (w_podman w') \<or> (''rollback-restore-failed'', '''') \<in> set (w_steps w')"
proof (cases "mr_ToHost req = src")
  case True
  then show ?thesis using assms(1,4) by (auto simp: Migrate_def migrate_prepare_def bind_def require_def fail_with_def)
next
  case to: False
  have post: "migratePostStop sv ctx req eff t sp w2 \<noteq> (Inl e', w3)" for eff t sp w2 e' w3
    by (auto simp: migratePostStop_def bind_def attempt_def ret_def split: prod.splits sum.splits)
  have rolled: "J (w_podman w') \<or> (''rollback-restore-failed'', '''') \<in> set (w_steps w')"
    if "bind (migrate_rollback sv req stopped) (\<lambda>_. fail_with e') w3 = (Inl e, w')" for stopped e' w3
    using that rollback_restarts [OF to assms(1-3)] by (auto simp: bind_def fail_with_def split: prod.splits sum.splits)
  consider "migrate_prepare sv ctx req w = (Inl e, w')"
    | x w1 e1 where "migrate_prepare sv ctx req w = (Inr x, w1)" "svc_Stop sv ctx src tmpl slug w1 = (Inl e1, w')"
    | eff t sp w2 stopped err w3 where "migratePostStop sv ctx req eff t sp w2 = (Inr (stopped, err), w3)"
        "(case err of Some e \<Rightarrow> bind (migrate_rollback sv req stopped) (\<lambda>_. fail_with e)
           | None \<Rightarrow> migrate_commit sv req stopped) w3 = (Inl e, w')"
    using assms(4) unfolding Migrate_def assms(1-3)
    by (auto simp: bind_Inl wrapping_Inl report_def post split: prod.splits)
  then show ?thesis
  proof cases
    case 3
    then show ?thesis by (cases err) (use rolled in \<open>simp; blast\<close>)+
  qed blast+
qed

end

subsection \<open>A reconciliation and the two copies\<close>

definition dest_up :: "('p, 's) Service \<Rightarrow> ctx \<Rightarrow> MigrateRequest \<Rightarrow> (('p, 's) World \<Rightarrow> bool) \<Rightarrow> bool" where
  "dest_up sv ctx req I \<longleftrightarrow>
     (\<exists>w0 w1. I w0 \<and> I w1 \<and> waitRunning sv ctx (mr_ToHost req) (mr_Template req) (mr_Slug req) w0 = (Inr (), w1))"

definition dest_persisted :: "('p, 's) Service \<Rightarrow> MigrateRequest \<Rightarrow> (('p, 's) World \<Rightarrow> bool) \<Rightarrow> bool" where
  "dest_persisted sv req I \<longleftrightarrow>
     (\<exists>sp w0 w1. I w0 \<and> I w1 \<and> on_store (st_GetSpec (sv_store sv) (mr_ToHost req) (mr_Template req) (mr_Slug req)) w0 = (Inr sp, w1))"

definition source_restarted :: "('p, 's) Service \<Rightarrow> MigrateRequest \<Rightarrow> (('p, 's) World \<Rightarrow> bool) \<Rightarrow> bool" where
  "source_restarted sv req I \<longleftrightarrow>
     (\<exists>obs w0 w1. I w0 \<and> I w1 \<and> svc_Start sv Detached (mr_FromHost req) (mr_Template req) (mr_Slug req) w0 = (Inr obs, w1))"

context spared
begin

lemma keeps_inconclusive: "keeps (both J K X) (inconclusive detail)"
  unfolding inconclusive_def by (intro guard_intros)

lemma keeps_or_inconclusive: "keeps (both J K X) m \<Longrightarrow> keeps (both J K X) rest \<Longrightarrow> keeps (both J K X) (or_inconclusive detail m rest)"
  unfolding or_inconclusive_def by (intro guard_intros keeps_inconclusive)

lemma keeps_restore_paired: "keeps (both J K X) rest \<Longrightarrow> keeps (both J K X) (restore_paired sv h pss rest)"
  by (induction pss) (auto intro!: guard_intros keeps_Start keeps_inconclusive)

lemma keeps_roll_back: "mr_ToHost req \<noteq> src \<Longrightarrow> keeps (both J K X) (roll_back sv req present ds)"
  unfolding roll_back_def by (intro guard_intros keeps_or_inconclusive keeps_restore_paired keeps_Start keeps_Delete)

lemma keeps_roll_forward: "mr_FromHost req \<noteq> src \<Longrightarrow> keeps (both J K X) (roll_forward sv req present)"
  unfolding roll_forward_def reap_source_def reap_absent_source_def stored_injector_secrets_def delete_spec_row_def report_failure_def
  by (intro guard_intros keeps_or_inconclusive keeps_restore_paired keeps_Delete keeps_prune_resources store_writes)

lemma keeps_sourcePresent: "keeps (both J K X) (sourcePresent sv ctx h t n)"
  unfolding sourcePresent_def by (intro guard_intros)

lemma keeps_destState: "keeps (both J K X) (destState sv ctx h t n)"
  unfolding destState_def by (intro guard_intros keeps_waitRunning)

lemma destState_healthy:
  assumes "both J K X w" and "destState sv ctx (mr_ToHost req) (mr_Template req) (mr_Slug req) w = (Inr destHealthy, w')"
  shows "dest_up sv ctx req (both J K X)"
proof -
  let ?h = "mr_ToHost req" and ?t = "mr_Template req" and ?n = "mr_Slug req"
  obtain p w1 where inspect: "on_podman (pc_PodInspect (sv_client sv) ctx ?h (podName ?t ?n)) w = (Inr p, w1)"
    and ready: "waitRunning sv ctx ?h ?t ?n w1 = (Inr (), w')"
    using assms(2) by (auto simp: destState_def bind_def attempt_def ret_def split: prod.splits sum.splits if_splits)
  have "both J K X w1" by (rule keepsD [OF keeps_on_podman [OF reads(1)] assms(1) inspect])
  moreover from this have "both J K X w'" by (rule keepsD [OF keeps_waitRunning _ ready])
  ultimately show ?thesis using ready unfolding dest_up_def by blast
qed

lemma keeps_destSpecState: "keeps (both J K X) (destSpecState sv h t n)"
  unfolding destSpecState_def by (intro guard_intros)

lemma destSpecState_persisted:
  assumes "both J K X w" and "destSpecState sv (mr_ToHost req) (mr_Template req) (mr_Slug req) w = (Inr specPersisted, w')"
  shows "dest_persisted sv req (both J K X)"
proof -
  obtain sp where "on_store (st_GetSpec (sv_store sv) (mr_ToHost req) (mr_Template req) (mr_Slug req)) w = (Inr sp, w')"
    using assms(2) by (auto simp: destSpecState_def bind_def attempt_def ret_def split: prod.splits sum.splits if_splits)
  with assms(1) keepsD [OF keeps_destSpecState assms] show ?thesis unfolding dest_persisted_def by blast
qed

text \<open>With the source as the guarded host: only a roll forward touches it, and it follows a running, persisted destination.\<close>

lemma keeps_on_spec: "mr_ToHost req \<noteq> src \<Longrightarrow> spec \<noteq> specPersisted \<Longrightarrow> keeps (both J K X) (on_spec sv req present ds spec)"
  unfolding on_spec_def by (cases spec) (auto intro!: guard_intros keeps_inconclusive keeps_roll_back)

lemma on_spec_spares_source:
  assumes "mr_ToHost req \<noteq> src"
  shows "triple (\<lambda>w. both J K X w \<and> (spec = specPersisted \<longrightarrow> C)) (on_spec sv req present ds spec)
    (\<lambda>_ w. both J K X w \<or> C) (\<lambda>_ w. both J K X w \<or> C)"
  by (rule tripleI) (auto dest: keepsD [OF keeps_on_spec [OF assms]])

lemma compensate_spares_source:
  fixes ctx and req and X
  defines "D \<equiv> dest_up sv ctx req (both J K X) \<and> dest_persisted sv req (both J K X)"
  assumes to: "mr_ToHost req \<noteq> src"
  shows "triple (\<lambda>w. both J K X w \<and> (ds = destHealthy \<longrightarrow> dest_up sv ctx req (both J K X))) (compensate sv req present ds)
    (\<lambda>_ w. both J K X w \<or> D) (\<lambda>_ w. both J K X w \<or> D)"
proof (cases "ds = destHealthy \<and> dest_up sv ctx req (both J K X)")
  case True
  have "triple (both J K X) (destSpecState sv (mr_ToHost req) (mr_Template req) (mr_Slug req))
      (\<lambda>spec w. both J K X w \<and> (spec = specPersisted \<longrightarrow> D)) (\<lambda>_ w. both J K X w \<or> D)"
    using True by (intro tripleI) (auto simp: D_def dest: keepsD [OF keeps_destSpecState] destSpecState_persisted)
  from triple_bind [OF this on_spec_spares_source [OF to]] True show ?thesis by (simp add: compensate_def)
next
  case False
  then show ?thesis
    by (intro tripleI) (auto simp: compensate_def dest: keepsD [OF keeps_roll_back [OF to]])
qed

lemma Reconcile_spares_source:
  fixes ctx and req and X
  defines "D \<equiv> dest_up sv ctx req (both J K X) \<and> dest_persisted sv req (both J K X)"
  assumes to: "mr_ToHost req \<noteq> src"
  shows "triple (both J K X) (ReconcileMigrate sv ctx req) (\<lambda>_ w. both J K X w \<or> D) (\<lambda>_ w. both J K X w \<or> D)"
proof -
  have kept: "keeps (both J K X) m \<Longrightarrow> triple (both J K X) m (\<lambda>_ w. both J K X w \<or> D) (\<lambda>_ w. both J K X w \<or> D)"
    for m :: "(('p, 's) World, outcome) call"
    by (fastforce simp: keeps_def triple_def split: prod.splits sum.splits)
  have state: "triple (both J K X) (destState sv ctx (mr_ToHost req) (mr_Template req) (mr_Slug req))
      (\<lambda>ds w. both J K X w \<and> (ds = destHealthy \<longrightarrow> dest_up sv ctx req (both J K X))) (\<lambda>_ w. both J K X w \<or> D)"
    by (rule tripleI) (auto dest: keepsD [OF keeps_destState] destState_healthy)
  have hosts: "triple (both J K X) (inspect_hosts sv ctx req) (\<lambda>_ w. both J K X w \<or> D) (\<lambda>_ w. both J K X w \<or> D)"
    unfolding inspect_hosts_def
  proof (rule triple_after_kept [OF keeps_sourcePresent], simp, clarify, intro triple_bind [OF state] triple_if kept keeps_inconclusive)
    fix present ds
    let ?P = "\<lambda>w. both J K X w \<and> (ds = destHealthy \<longrightarrow> dest_up sv ctx req (both J K X))"
    have weak: "keeps (both J K X) m \<Longrightarrow> triple ?P m (\<lambda>_ w. both J K X w \<or> D) (\<lambda>_ w. both J K X w \<or> D)"
      for m :: "(('p, 's) World, outcome) call"
      by (rule triple_conseq [OF kept]) simp_all
    show "triple ?P (inconclusive (mr_ToHost req @ '' unreachable'')) (\<lambda>_ w. both J K X w \<or> D) (\<lambda>_ w. both J K X w \<or> D)"
      by (intro weak keeps_inconclusive)
    show "triple ?P (bind (asking (\<lambda>w. pc_CtxErr (sv_client sv) ctx (w_podman w))) (\<lambda>cancelled.
        if cancelled \<noteq> None then bind (report ''reconcile-canceled'' ''interrupted before compensation'') (\<lambda>_. ret (False, False, ''''))
        else compensate sv req present ds)) (\<lambda>_ w. both J K X w \<or> D) (\<lambda>_ w. both J K X w \<or> D)"
      by (intro triple_bind [OF triple_asking] triple_if)
        (auto simp: D_def [symmetric] intro: weak guard_intros compensate_spares_source [OF to, of X ds ctx present, folded D_def])
  qed
  show ?thesis
    unfolding ReconcileMigrate_def hasTemplate_def
    by (auto intro!: hosts kept [OF keeps_ret] kept [OF keeps_inconclusive] triple_after_kept [OF keeps_attempt] guard_intros
        split: sum.split)
qed

text \<open>With the destination as the guarded host: only a roll back touches it, after the source was started.\<close>

lemma roll_back_spares_dest:
  assumes "both J K X w" and "roll_back sv req present ds w = (r, w')"
  shows "both J K X w' \<or> source_restarted sv req (both J K X)"
proof (cases present)
  case True
  obtain s w1 where start: "svc_Start sv Detached (mr_FromHost req) (mr_Template req) (mr_Slug req) w = (s, w1)"
    by fastforce
  have w1: "both J K X w1" by (rule keepsD [OF keeps_Start assms(1) start])
  show ?thesis
  proof (cases s)
    case (Inl e)
    with True start assms(2) have "inconclusive ''restore source'' w1 = (r, w')"
      by (simp add: roll_back_def or_inconclusive_def bind_def attempt_def)
    then show ?thesis by (intro disjI1 keepsD [OF keeps_inconclusive w1])
  next
    case (Inr obs)
    with assms(1) start w1 show ?thesis unfolding source_restarted_def by blast
  qed
next
  case False
  have "keeps (both J K X) (roll_back sv req False ds)" unfolding roll_back_def if_False by (intro guard_intros)
  from keepsD [OF this assms(1)] assms(2) False show ?thesis by simp
qed

lemma Reconcile_spares_dest:
  assumes "mr_FromHost req \<noteq> src"
  shows "triple (both J K X) (ReconcileMigrate sv ctx req)
    (\<lambda>_ w. both J K X w \<or> source_restarted sv req (both J K X)) (\<lambda>_ w. both J K X w \<or> source_restarted sv req (both J K X))"
proof -
  let ?Q = "\<lambda>_ w. both J K X w \<or> source_restarted sv req (both J K X)"
  have kept: "keeps (both J K X) m \<Longrightarrow> triple (both J K X) m ?Q ?Q" for m :: "(('p, 's) World, outcome) call"
    by (fastforce simp: keeps_def triple_def split: prod.splits sum.splits)
  have backs: "triple (both J K X) (roll_back sv req present ds) ?Q ?Q" for present ds
    by (rule tripleI) (auto dest: roll_back_spares_dest)
  have spec: "triple (both J K X) (on_spec sv req present ds spec) ?Q ?Q" for present ds spec
    unfolding on_spec_def
    by (cases spec) (auto intro!: backs kept guard_intros keeps_inconclusive keeps_roll_forward [OF assms])
  show ?thesis
    unfolding ReconcileMigrate_def inspect_hosts_def compensate_def hasTemplate_def
    by (auto intro!: backs spec kept [OF keeps_ret] kept [OF keeps_inconclusive] triple_after_kept [OF keeps_report]
        triple_after_kept [OF keeps_sourcePresent] triple_after_kept [OF keeps_destState]
        triple_after_kept [OF keeps_destSpecState] triple_after_kept [OF keeps_asking] triple_after_kept [OF keeps_attempt]
        guard_intros split: sum.split)
qed

end

end
