(* ===== verification/Fake_Podman.thy ===== *)
theory Fake_Podman
  imports Service_World
begin

text \<open>
  The in-memory podman client of \<^verbatim>\<open>internal/podman/fake/fake.go\<close>, on which the repository runs the service without
  a host: maps from host and name to pods, secrets, volumes and volume contents, hooks that make a call fail, and
  recorders of calls. It is an instance of the client's interface. The clock and the cancellation of a context, which
  the service reads beside the client, are part of its state here. \<open>parse\<close> is the YAML decoder: the kind, the name
  and the containers (name and image) of a document.
\<close>

subsection \<open>State\<close>

type_synonym 'a host_map = "((string \<times> string) \<times> 'a) list"

record Fake =
  fk_pods :: "Pod host_map"
  fk_secrets :: "string host_map"
  fk_volumes :: "PodVolume host_map"
  fk_volData :: "string host_map"
  fk_PlayKubeErr :: "rerr option"
  fk_PlayKubePodStatus :: string
  fk_PlayKubeContainerStatus :: string
  fk_PlayKubeContainerHealth :: string
  fk_ExportErr :: "rerr option"
  fk_ImportErr :: "rerr option"
  fk_ImportTransform :: "(string \<Rightarrow> string \<Rightarrow> string \<Rightarrow> string) option"
  fk_PullErr :: "(string \<times> rerr) list"
  fk_PodInspectErr :: "rerr option"
  fk_VolumeInspectErr :: "rerr option"
  fk_volumeInspectErrFor :: "(string \<times> rerr) list"
  fk_SecretCreateErr :: "rerr option"
  fk_LifecycleErr :: "rerr option"
  fk_UsedHostPortsErr :: "rerr option"
  fk_HostBoundPortsErr :: "rerr option"
  fk_hostBoundPorts :: "int list host_map"
  fk_NetworkEnsureErr :: "rerr option"
  fk_NetworkEnsureCalls :: "(string \<times> string list) list"
  fk_SetHostsCalls :: "string list list"
  fk_PodStopCalls :: nat
  fk_PodRemoveCalls :: nat
  fk_now :: time
  fk_tick :: int
  fk_cancelled :: bool

text \<open>\<^verbatim>\<open>fake.New()\<close>, with a clock at zero that advances two seconds at a tick.\<close>

definition NewFake :: Fake where
  "NewFake =
     \<lparr>fk_pods = [], fk_secrets = [], fk_volumes = [], fk_volData = [], fk_PlayKubeErr = None, fk_PlayKubePodStatus = '''',
      fk_PlayKubeContainerStatus = '''', fk_PlayKubeContainerHealth = '''', fk_ExportErr = None, fk_ImportErr = None,
      fk_ImportTransform = None, fk_PullErr = [], fk_PodInspectErr = None, fk_VolumeInspectErr = None, fk_volumeInspectErrFor = [],
      fk_SecretCreateErr = None, fk_LifecycleErr = None, fk_UsedHostPortsErr = None, fk_HostBoundPortsErr = None,
      fk_hostBoundPorts = [], fk_NetworkEnsureErr = None, fk_NetworkEnsureCalls = [], fk_SetHostsCalls = [],
      fk_PodStopCalls = 0, fk_PodRemoveCalls = 0, fk_now = 0, fk_tick = 2000000000, fk_cancelled = False\<rparr>"

definition PodNotFoundErr :: rerr where
  "PodNotFoundErr = RErr [PodNotFound] ''podman: not found''"

definition failing :: "(Fake \<Rightarrow> rerr option) \<Rightarrow> (Fake, 'a) call \<Rightarrow> (Fake, 'a) call" where
  "failing hook m f = (case hook f of Some e \<Rightarrow> (Inl e, f) | None \<Rightarrow> m f)"

definition found :: "(Fake \<Rightarrow> 'b host_map) \<Rightarrow> string \<Rightarrow> string \<Rightarrow> ('b \<Rightarrow> (Fake, 'a) call) \<Rightarrow> (Fake, 'a) call" where
  "found field h name k f = (case map_of (field f) (h, name) of None \<Rightarrow> (Inl PodNotFoundErr, f) | Some x \<Rightarrow> k x f)"

subsection \<open>Seeding, for tests\<close>

definition AddPod :: "string \<Rightarrow> Pod \<Rightarrow> Fake \<Rightarrow> Fake" where
  "AddPod h p f = f\<lparr>fk_pods := AList.update (h, pod_Name p) p (fk_pods f)\<rparr>"

definition SetVolumeData :: "string \<Rightarrow> string \<Rightarrow> string \<Rightarrow> Fake \<Rightarrow> Fake" where
  "SetVolumeData h name bytes f =
     f\<lparr>fk_volumes := AList.update (h, name) \<lparr>pv_Name = name, pv_SizeBytes = 0\<rparr> (fk_volumes f),
       fk_volData := AList.update (h, name) bytes (fk_volData f)\<rparr>"

subsection \<open>Pods\<close>

definition doc_end :: string where
  "doc_end = [CHR 0x0A] @ ''---'' @ [CHR 0x0A]"

text \<open>\<^verbatim>\<open>strings.Split(raw, "\n---\n")\<close>; \<open>cur\<close> is the document read so far.\<close>

function split_docs :: "string \<Rightarrow> string \<Rightarrow> string list" where
  "split_docs cur raw =
     (if HasPrefix raw doc_end then cur # split_docs [] (drop (length doc_end) raw)
      else case raw of [] \<Rightarrow> [cur] | c # rest \<Rightarrow> split_docs (cur @ [c]) rest)"
  by pat_completeness auto
termination
proof (relation "measure (length \<circ> snd)", simp)
  fix cur raw :: string
  assume "HasPrefix raw doc_end"
  then show "((([], drop (length doc_end) raw)), (cur, raw)) \<in> measure (length \<circ> snd)"
    by (cases raw) (simp_all add: HasPrefix_def doc_end_def)
qed simp

definition play_pod :: "string \<Rightarrow> (string \<times> string) list \<Rightarrow> Fake \<Rightarrow> Pod" where
  "play_pod name containers f =
     \<lparr>pod_Name = name, pod_Status = (if fk_PlayKubePodStatus f \<noteq> '''' then fk_PlayKubePodStatus f else ''Running''),
      pod_Containers = map (\<lambda>(cname, img).
        \<lparr>ctr_Name = cname, ctr_Image = img,
         ctr_Status = (if fk_PlayKubeContainerStatus f \<noteq> '''' then fk_PlayKubeContainerStatus f else ''Running''),
         ctr_Health = fk_PlayKubeContainerHealth f, ctr_HealthStartPeriod = 0, ctr_HealthInterval = 0,
         ctr_StartedAt = fk_now f, ctr_Ports = []\<rparr>) containers\<rparr>"

definition play_doc ::
  "(string \<Rightarrow> string \<times> string \<times> (string \<times> string) list) \<Rightarrow> string \<Rightarrow> bool \<Rightarrow> string \<Rightarrow> (Fake, unit) call" where
  "play_doc parse h replace doc f =
     (case parse doc of (kind, name, containers) \<Rightarrow>
        if kind \<noteq> ''Pod'' then (Inr (), f)
        else if map_of (fk_pods f) (h, name) \<noteq> None \<and> \<not> replace then (Inl (RErr [] ''pod already exists''), f)
        else (Inr (), f\<lparr>fk_pods := AList.update (h, name) (play_pod name containers f) (fk_pods f)\<rparr>))"

definition networkEnsuredLocked :: "string \<Rightarrow> string \<Rightarrow> Fake \<Rightarrow> bool" where
  "networkEnsuredLocked h name f \<longleftrightarrow> name \<in> set (case map_of (fk_NetworkEnsureCalls f) h of None \<Rightarrow> [] | Some ns \<Rightarrow> ns)"

definition fake_PlayKube ::
  "(string \<Rightarrow> string \<times> string \<times> (string \<times> string) list) \<Rightarrow> string \<Rightarrow> string \<Rightarrow> bool \<Rightarrow> string list \<Rightarrow> (Fake, unit) call" where
  "fake_PlayKube parse h raw replace networks =
     failing fk_PlayKubeErr (\<lambda>f.
       if list_ex (\<lambda>n. \<not> networkEnsuredLocked h (takeWhile (\<lambda>c. c \<noteq> CHR '':'') n) f) networks
       then (Inl (RErr [] ''unable to find network with name or ID''), f)
       else for_each (split_docs [] raw) (play_doc parse h replace) f)"

definition fake_PodInspect :: "string \<Rightarrow> string \<Rightarrow> (Fake, Pod) call" where
  "fake_PodInspect h name = failing fk_PodInspectErr (found fk_pods h name ret)"

definition setStatus :: "string \<Rightarrow> string \<Rightarrow> string \<Rightarrow> (Fake, unit) call" where
  "setStatus h name status =
     failing fk_LifecycleErr (found fk_pods h name (\<lambda>p f.
       (Inr (), f\<lparr>fk_pods := AList.update (h, name)
          (p\<lparr>pod_Status := status, pod_Containers := map (\<lambda>c. c\<lparr>ctr_Status := status\<rparr>) (pod_Containers p)\<rparr>) (fk_pods f)\<rparr>)))"

definition fake_PodStart :: "string \<Rightarrow> string \<Rightarrow> (Fake, unit) call" where
  "fake_PodStart h name = setStatus h name ''Running''"

definition fake_PodStop :: "string \<Rightarrow> string \<Rightarrow> (Fake, unit) call" where
  "fake_PodStop h name f = setStatus h name ''Exited'' (f\<lparr>fk_PodStopCalls := fk_PodStopCalls f + 1\<rparr>)"

definition fake_PodRestart :: "string \<Rightarrow> string \<Rightarrow> (Fake, unit) call" where
  "fake_PodRestart h name = setStatus h name ''Running''"

definition fake_PodRemove :: "string \<Rightarrow> string \<Rightarrow> (Fake, unit) call" where
  "fake_PodRemove h name f =
     found fk_pods h name (\<lambda>_ f. (Inr (), f\<lparr>fk_pods := AList.delete (h, name) (fk_pods f)\<rparr>))
       (f\<lparr>fk_PodRemoveCalls := fk_PodRemoveCalls f + 1\<rparr>)"

subsection \<open>Secrets, volumes, networks, images and ports\<close>

definition fake_SecretCreate :: "string \<Rightarrow> string \<Rightarrow> string \<Rightarrow> (Fake, unit) call" where
  "fake_SecretCreate h name v =
     failing fk_SecretCreateErr (\<lambda>f. (Inr (), f\<lparr>fk_secrets := AList.update (h, name) v (fk_secrets f)\<rparr>))"

definition fake_SecretInspect :: "string \<Rightarrow> string \<Rightarrow> (Fake, unit) call" where
  "fake_SecretInspect h name = found fk_secrets h name (\<lambda>_. ret ())"

definition fake_SecretRemove :: "string \<Rightarrow> string \<Rightarrow> (Fake, unit) call" where
  "fake_SecretRemove h name =
     found fk_secrets h name (\<lambda>_ f. (Inr (), f\<lparr>fk_secrets := AList.delete (h, name) (fk_secrets f)\<rparr>))"

definition fake_VolumeInspect :: "string \<Rightarrow> string \<Rightarrow> (Fake, PodVolume) call" where
  "fake_VolumeInspect h name =
     failing fk_VolumeInspectErr (failing (\<lambda>f. map_of (fk_volumeInspectErrFor f) name) (found fk_volumes h name ret))"

definition fake_VolumeRemove :: "string \<Rightarrow> string \<Rightarrow> (Fake, unit) call" where
  "fake_VolumeRemove h name =
     found fk_volumes h name (\<lambda>_ f.
       (Inr (), f\<lparr>fk_volumes := AList.delete (h, name) (fk_volumes f), fk_volData := AList.delete (h, name) (fk_volData f)\<rparr>))"

definition fake_VolumeExport :: "string \<Rightarrow> string \<Rightarrow> (Fake, string) call" where
  "fake_VolumeExport h name =
     failing fk_ExportErr (found fk_volumes h name (\<lambda>_ f.
       (Inr (case map_of (fk_volData f) (h, name) of None \<Rightarrow> [] | Some bytes \<Rightarrow> bytes), f)))"

definition fake_VolumeImport :: "string \<Rightarrow> string \<Rightarrow> string \<Rightarrow> rerr option \<Rightarrow> (Fake, bool) call" where
  "fake_VolumeImport h name bytes err =
     failing fk_ImportErr (failing (\<lambda>_. err) (found fk_volumes h name (\<lambda>_ f.
       (Inr True, f\<lparr>fk_volData := AList.update (h, name)
          (case fk_ImportTransform f of None \<Rightarrow> bytes | Some tr \<Rightarrow> tr h name bytes) (fk_volData f)\<rparr>))))"

definition fake_VolumeCreate :: "string \<Rightarrow> string \<Rightarrow> (Fake, unit) call" where
  "fake_VolumeCreate h name f =
     (Inr (), if map_of (fk_volumes f) (h, name) \<noteq> None then f
              else f\<lparr>fk_volumes := AList.update (h, name) \<lparr>pv_Name = name, pv_SizeBytes = 0\<rparr> (fk_volumes f)\<rparr>)"

definition fake_NetworkEnsure :: "string \<Rightarrow> string \<Rightarrow> (Fake, unit) call" where
  "fake_NetworkEnsure h name =
     failing fk_NetworkEnsureErr (\<lambda>f.
       (Inr (), f\<lparr>fk_NetworkEnsureCalls :=
          AList.update h ((case map_of (fk_NetworkEnsureCalls f) h of None \<Rightarrow> [] | Some ns \<Rightarrow> ns) @ [name]) (fk_NetworkEnsureCalls f)\<rparr>))"

definition fake_ImagePull :: "string \<Rightarrow> string \<Rightarrow> (Fake, unit) call" where
  "fake_ImagePull h img =
     failing (\<lambda>f. map_of (fk_PullErr f) img) (failing (\<lambda>f. map_of (fk_PullErr f) '''') (ret ()))"

definition fake_UsedHostPorts :: "string \<Rightarrow> (Fake, PortMapping list) call" where
  "fake_UsedHostPorts h =
     failing fk_UsedHostPortsErr (\<lambda>f.
       (Inr (concat (map (\<lambda>(k, p). concat (map ctr_Ports (pod_Containers p))) (filter (\<lambda>(k, _). fst k = h) (fk_pods f)))), f))"

definition fake_HostBoundPorts :: "string \<Rightarrow> string \<Rightarrow> (Fake, int list) call" where
  "fake_HostBoundPorts h protocol =
     failing fk_HostBoundPortsErr (\<lambda>f. (Inr (case map_of (fk_hostBoundPorts f) (h, protocol) of None \<Rightarrow> [] | Some ps \<Rightarrow> ps), f))"

definition fake_SetHosts :: "string list \<Rightarrow> Fake \<Rightarrow> Fake" where
  "fake_SetHosts hosts f = f\<lparr>fk_SetHostsCalls := fk_SetHostsCalls f @ [hosts]\<rparr>"

subsection \<open>The client\<close>

definition fake_client :: "(string \<Rightarrow> string \<times> string \<times> (string \<times> string) list) \<Rightarrow> Fake Client" where
  "fake_client parse =
     \<lparr>pc_PlayKube = (\<lambda>_ h raw replace nets. fake_PlayKube parse h raw replace nets),
      pc_PodInspect = (\<lambda>_. fake_PodInspect), pc_PodStart = (\<lambda>_. fake_PodStart), pc_PodStop = (\<lambda>_. fake_PodStop),
      pc_PodRestart = (\<lambda>_. fake_PodRestart), pc_PodRemove = (\<lambda>_ h name _. fake_PodRemove h name),
      pc_SecretCreate = (\<lambda>_. fake_SecretCreate), pc_SecretInspect = (\<lambda>_. fake_SecretInspect), pc_SecretRemove = (\<lambda>_. fake_SecretRemove),
      pc_VolumeInspect = (\<lambda>_. fake_VolumeInspect), pc_VolumeRemove = (\<lambda>_ h name _. fake_VolumeRemove h name),
      pc_VolumeExport = (\<lambda>_. fake_VolumeExport), pc_VolumeImport = (\<lambda>_. fake_VolumeImport), pc_VolumeCreate = (\<lambda>_. fake_VolumeCreate),
      pc_NetworkEnsure = (\<lambda>_. fake_NetworkEnsure), pc_ImagePull = (\<lambda>_. fake_ImagePull),
      pc_UsedHostPorts = (\<lambda>_. fake_UsedHostPorts), pc_HostBoundPorts = (\<lambda>_. fake_HostBoundPorts),
      pc_SetHosts = fake_SetHosts,
      pc_Now = (\<lambda>f. (fk_now f, f)),
      pc_Tick = (\<lambda>ctx f. if ctx = JobCtx \<and> fk_cancelled f then (Inl (RErr [CtxCanceled] ''context canceled''), f)
                         else (Inr (), f\<lparr>fk_now := fk_now f + fk_tick f\<rparr>)),
      pc_CtxErr = (\<lambda>ctx f. if ctx = JobCtx \<and> fk_cancelled f then Some (RErr [CtxCanceled] ''context canceled'') else None),
      pc_invalidate = (\<lambda>_ f. f)\<rparr>"

end
