(* ===== verification/Fake_Service.thy ===== *)
theory Fake_Service
  imports Instance_Guard Fake_Podman
begin

text \<open>
  The service on the repository's in-memory client and store, the way its own tests run it, and the proofs that this
  pair meets the contracts under which a migration is safe.
\<close>

definition fake_service ::
  "(string \<Rightarrow> string \<times> string \<times> (string \<times> string) list) \<Rightarrow> (Memory \<Rightarrow> Supply) \<Rightarrow> Host list \<Rightarrow> Lib \<Rightarrow> (Fake, Memory) Service" where
  "fake_service parse nd hosts lib =
     \<lparr>sv_client = fake_client parse, sv_store = memory_store nd, sv_hosts = hosts, sv_ingress = (\<lambda>_ _ _. ret ()),
      sv_ingressNet = '''', sv_sidecar = None, sv_verifyVolumes = True, sv_lib = lib, sv_verifyTimeout = 30000000000,
      sv_deployVerifyTimeout = 0, sv_verifyStableCount = 1, sv_deployVerifyStableCount = 1, sv_fuel = 20\<rparr>"

subsection \<open>One host of the client\<close>

definition on_host :: "string \<Rightarrow> ((string \<times> string) \<times> 'a) list \<Rightarrow> ((string \<times> string) \<times> 'a) list" where
  "on_host h xs = filter (\<lambda>(k, _). fst k = h) xs"

lemma on_host_update: "h' \<noteq> h \<Longrightarrow> on_host h (AList.update (h', n) v xs) = on_host h xs"
  by (induction xs) (auto simp: on_host_def)

lemma on_host_delete: "h' \<noteq> h \<Longrightarrow> on_host h (AList.delete (h', n) xs) = on_host h xs"
  by (auto simp: on_host_def AList.delete_eq intro: filter_cong)

lemma on_host_restatus:
  "map_of xs (h', n) = Some p \<Longrightarrow> map fst (on_host h (AList.update (h', n) v xs)) = map fst (on_host h xs)"
  by (induction xs) (auto simp: on_host_def split: if_splits)

text \<open>The pods' names, the secrets, the volumes and their contents.\<close>

definition host_data :: "string \<Rightarrow> Fake \<Rightarrow> (string \<times> string) list \<times> string host_map \<times> PodVolume host_map \<times> string host_map" where
  "host_data h f = (map fst (on_host h (fk_pods f)), on_host h (fk_secrets f), on_host h (fk_volumes f), on_host h (fk_volData f))"

text \<open>The stored specs of a host, under keys the separator does not blur.\<close>

definition no_bar :: "string \<Rightarrow> bool" where
  "no_bar s \<longleftrightarrow> CHR ''|'' \<notin> set s"

definition host_specs :: "string \<Rightarrow> (string \<times> string \<Rightarrow> Spec option) \<Rightarrow> Memory \<Rightarrow> bool" where
  "host_specs h R m \<longleftrightarrow> (\<forall>t n. no_bar h \<and> no_bar t \<and> no_bar n \<longrightarrow> map_of (mem_specs m) (memKey h t n) = R (t, n))"

lemma takeWhile_bar: "no_bar h \<Longrightarrow> takeWhile (\<lambda>c. c \<noteq> CHR ''|'') (h @ ''|'' @ s) = h"
  by (induction h) (auto simp: no_bar_def)

lemma memKey_host:
  assumes "memKey h' t' n' = memKey h t n" and "no_bar h" "no_bar t" "no_bar n"
  shows "h' = h"
proof -
  have none: "filter (\<lambda>c. c = CHR ''|'') s = []" if "no_bar s" for s
    using that by (auto simp: no_bar_def filter_empty_conv)
  have "filter (\<lambda>c. c = CHR ''|'') h' = []"
    using arg_cong [OF assms(1), of "\<lambda>s. length (filter (\<lambda>c. c = CHR ''|'') s)"]
    by (simp add: memKey_def none [OF assms(2)] none [OF assms(3)] none [OF assms(4)])
  then have "no_bar h'" by (auto simp: no_bar_def filter_empty_conv)
  with assms(1,2) show ?thesis by (metis memKey_def takeWhile_bar)
qed

lemmas fake_defs = failing_def found_def fake_PodInspect_def fake_SecretInspect_def fake_VolumeInspect_def fake_VolumeExport_def
  fake_UsedHostPorts_def fake_HostBoundPorts_def fake_PodStart_def fake_PodStop_def setStatus_def fake_PodRemove_def
  fake_SecretCreate_def fake_SecretRemove_def fake_VolumeRemove_def fake_VolumeImport_def fake_VolumeCreate_def
  fake_NetworkEnsure_def fake_ImagePull_def ret_def

lemmas mem_defs = mem_GetSpec_def mem_ListSpecNetworks_def mem_ListSpecKeys_def mem_GetTemplate_def mem_GetHostSecret_def
  mem_PutSpec_def mem_DeleteSpec_def mem_PutHostSecret_def

lemma keeps_play:
  "keeps (\<lambda>f. fk_secrets f = S \<and> fk_volumes f = V \<and> fk_volData f = B \<and> (h \<noteq> h' \<longrightarrow> on_host h' (fk_pods f) = P))
     (fake_PlayKube parse h raw replace nets)"
proof -
  have "keeps (\<lambda>f. fk_secrets f = S \<and> fk_volumes f = V \<and> fk_volData f = B \<and> (h \<noteq> h' \<longrightarrow> on_host h' (fk_pods f) = P))
      (for_each docs (play_doc parse h replace))" for docs
    by (intro keeps_for_each) (auto simp: keeps_def play_doc_def on_host_update split: prod.splits)
  then show ?thesis by (auto simp: keeps_def fake_PlayKube_def failing_def split: option.splits)
qed

lemma play_data:
  assumes "h \<noteq> h'"
  shows "fk_secrets (snd (fake_PlayKube parse h raw replace nets f)) = fk_secrets f"
    "fk_volumes (snd (fake_PlayKube parse h raw replace nets f)) = fk_volumes f"
    "fk_volData (snd (fake_PlayKube parse h raw replace nets f)) = fk_volData f"
    "on_host h' (fk_pods (snd (fake_PlayKube parse h raw replace nets f))) = on_host h' (fk_pods f)"
  using keeps_play [of "fk_secrets f" "fk_volumes f" "fk_volData f" h h' "on_host h' (fk_pods f)" parse raw replace nets] assms
  by (auto simp: keeps_def)

lemma host_specs_update: "h' \<noteq> h \<Longrightarrow> host_specs h R m \<Longrightarrow> host_specs h R (m\<lparr>mem_specs := AList.update (memKey h' t n) sp (mem_specs m)\<rparr>)"
  by (auto simp: host_specs_def update_conv' dest: memKey_host [OF sym])

lemma host_specs_delete: "h' \<noteq> h \<Longrightarrow> host_specs h R m \<Longrightarrow> host_specs h R (m\<lparr>mem_specs := AList.delete (memKey h' t n) (mem_specs m)\<rparr>)"
  by (auto simp: host_specs_def delete_conv' dest: memKey_host [OF sym])

lemma host_specs_secrets [simp]: "host_specs h R (m\<lparr>mem_hostSecrets := S\<rparr>) = host_specs h R m"
  by (simp add: host_specs_def)

interpretation fake_source: guarded "fake_service parse nd hosts lib" src "\<lambda>f. host_data src f = D" "host_specs src R"
  for parse nd hosts lib src D R
  by unfold_locales
    (auto simp: keeps_def fake_service_def fake_client_def memory_store_def fake_defs store_call_def mem_defs Let_def
      host_data_def on_host_update on_host_delete on_host_restatus play_data intro: host_specs_update host_specs_delete
      split: option.splits if_splits)

text \<open>The reads change nothing of the client but its clock, and nothing of the store.\<close>

interpretation fake_reads: reading "fake_service parse nd hosts lib" "\<lambda>f. f\<lparr>fk_now := 0\<rparr> = F" "\<lambda>m. m = M"
  for parse nd hosts lib F M
  by unfold_locales
    (auto simp: keeps_def fake_service_def fake_client_def memory_store_def fake_defs store_call_def mem_defs Let_def
      split: option.splits if_splits)

text \<open>No operation but the ones on templates changes a template.\<close>

interpretation fake_templates: guarded "fake_service parse nd hosts lib" src "\<lambda>_. True" "\<lambda>m. mem_templates m = T"
  for parse nd hosts lib src T
  by unfold_locales
    (auto simp: keeps_def fake_service_def memory_store_def store_call_def mem_defs Let_def split: option.splits if_splits)

definition pod_running :: "string \<Rightarrow> string \<Rightarrow> Fake \<Rightarrow> bool" where
  "pod_running h name f \<longleftrightarrow> (case map_of (fk_pods f) (h, name) of None \<Rightarrow> False | Some p \<Rightarrow> running (pod_Status p))"

lemma map_of_on_host: "map_of (on_host h xs) (h, n) = map_of xs (h, n)"
  by (induction xs) (auto simp: on_host_def)

lemma play_pods: "h \<noteq> h' \<Longrightarrow> map_of (fk_pods (snd (fake_PlayKube parse h raw replace nets f))) (h', n) = map_of (fk_pods f) (h', n)"
  using play_data(4) by (metis map_of_on_host)

lemma running_Running: "running ''Running''"
  by code_simp

interpretation fake_restart: restartable "fake_service parse nd hosts lib" src "pod_running src (podName tmpl slug)" tmpl slug
  for parse nd hosts lib src tmpl slug
  by unfold_locales
    (auto simp: keeps_def fake_service_def fake_client_def memory_store_def fake_defs store_call_def mem_defs Let_def
      pod_running_def play_pods update_conv' delete_conv' running_Running split: option.splits if_splits)

end
