(* ===== verification/Migrate_Safety.thy ===== *)
theory Migrate_Safety
  imports Fake_Service
begin

text \<open>
  What a migration and its reconciliation guarantee of the two copies of an instance, on every client and store that
  meet the contracts of \<open>spared\<close> and \<open>guarded\<close>, and runs of both on the in-memory client and store.
\<close>

subsection \<open>A small deployment\<close>

text \<open>Two hosts; templates that declare \<^verbatim>\<open>slug\<close>: \<^verbatim>\<open>app\<close>, with one volume, and \<^verbatim>\<open>db\<close>; a body is the name of its pod.\<close>

definition demo_lib :: Lib where
  "demo_lib =
     \<lparr>lib_tar = (\<lambda>s. ([\<lparr>te_Name = ''f'', te_Type = TypeReg, te_Linkname = '''', te_Body = s\<rparr>], None)),
      lib_Clean = (\<lambda>p. p), lib_sha256 = (\<lambda>s. s), lib_base64 = (\<lambda>s. s), lib_RenderAndValidate = (\<lambda>body _. Inr body),
      lib_yaml_docs = (\<lambda>_. []), lib_pod_ports = (\<lambda>_. []), lib_ContainerNames = (\<lambda>_ _. Inr [])\<rparr>"

definition demo_parse :: "string \<Rightarrow> string \<times> string \<times> (string \<times> string) list" where
  "demo_parse doc = (''Pod'', doc, [])"

definition demo_service :: "(Fake, Memory) Service" where
  "demo_service =
     fake_service demo_parse (\<lambda>_. \<lparr>sup_now = 0, sup_rand1 = Inl '''', sup_rand2 = Inl ''''\<rparr>)
       [\<lparr>host_ID = ''h1'', host_Drain = False, host_IngressManaged = None\<rparr>,
        \<lparr>host_ID = ''h2'', host_Drain = False, host_IngressManaged = None\<rparr>] demo_lib"

definition demo_template :: "string \<Rightarrow> string \<Rightarrow> Volume list \<Rightarrow> Template" where
  "demo_template i body vols =
     \<lparr>tmpl_Meta = \<lparr>meta_ID = i, meta_Parameters = [\<lparr>pd_Name = ''slug'', pd_Type = ''string'', pd_Required = False, pd_Default = None, pd_Options = [], pd_Secret = False\<rparr>], meta_Secrets = \<lparr>sec_PerInstance = [], sec_PerHostReferenced = []\<rparr>,
        meta_Volumes = vols, meta_Ingress = None, meta_Networks = [], meta_PreBackup = None, meta_ContainerNames = None\<rparr>,
      tmpl_Body = body, tmpl_Origin = ''seed'', tmpl_Created = 0, tmpl_Updated = 0\<rparr>"

definition demo_spec :: Spec where
  "demo_spec =
     \<lparr>spec_Host = ''h1'', spec_Template = ''app'', spec_Slug = ''web'', spec_Parameters = [], spec_Secrets = [],
      spec_InjectorSecrets = [], spec_Domains = [], spec_AppliedVolumes = None, spec_AppliedVolumeMeta = None,
      spec_AppliedNetworks = None, spec_Created = 0, spec_Updated = 0\<rparr>"

definition demo_pod :: "string \<Rightarrow> Pod" where
  "demo_pod name = \<lparr>pod_Name = name, pod_Status = ''Running'', pod_Containers = []\<rparr>"

definition demo_world :: "(Fake, Memory) World" where
  "demo_world =
     \<lparr>w_podman = SetVolumeData ''h1'' ''app-web-data'' ''bytes'' (AddPod ''h1'' (demo_pod ''db-main'') (AddPod ''h1'' (demo_pod ''app-web'') NewFake)),
      w_store = NewMemory\<lparr>mem_specs := [(memKey ''h1'' ''app'' ''web'', demo_spec)],
        mem_templates := [(''app'', demo_template ''app'' ''app-web'' [\<lparr>vol_Name = ''data'', vol_Backup = '''', vol_Exclude = [], vol_LiveBackup = None\<rparr>]),
          (''db'', demo_template ''db'' ''db-main'' [])]\<rparr>,
      w_steps = []\<rparr>"

definition demo_request :: "PairedInstanceRef list \<Rightarrow> MigrateRequest" where
  "demo_request paired =
     \<lparr>mr_FromHost = ''h1'', mr_ToHost = ''h2'', mr_Template = ''app'', mr_Slug = ''web'', mr_Parameters = [], mr_AlsoStop = paired\<rparr>"

definition demo_paired :: "PairedInstanceRef list" where
  "demo_paired = [\<lparr>pr_Template = ''db'', pr_Slug = ''main''\<rparr>]"

definition demo_run :: "(rerr + unit) \<times> (Fake, Memory) World" where
  "demo_run = Migrate demo_service JobCtx (demo_request demo_paired) demo_world"

lemma demo_run_ok: "fst demo_run = Inr ()" "map fst (fk_pods (w_podman (snd demo_run))) = [(''h1'', ''db-main''), (''h2'', ''app-web'')]"
  by code_simp+

subsection \<open>The source of a migration\<close>

text \<open>C7. A migration changes nothing of its source but to stop and start it until the destination is verified: whatever
  \<open>J\<close> of the hosts and \<open>K\<close> of the store every call but the destructive ones on the source host keeps, still holds
  when \<^verbatim>\<open>Migrate\<close> returns, unless the apply on the destination succeeded and the readiness check of the pod there
  passed while \<open>J\<close> and \<open>K\<close> held. A migration that returns success has gone through both.
\<close>

theorem migrate_spares_source:
  assumes "guarded sv (mr_FromHost req) J K"
    and "both J K {} w" and "Migrate sv ctx req w = (r, w')"
  shows "(both J K {} w' \<or> dest_verified sv ctx req (both J K {})) \<and> (r = Inr () \<longrightarrow> dest_verified sv ctx req (both J K {}))"
  by (rule guarded.Migrate_spares [OF assms(1) refl assms(2,3)])

theorem migrate_spares_source_witness:
  "fst demo_run = Inr () \<and>
   dest_verified demo_service JobCtx (demo_request demo_paired)
     (both (\<lambda>f. host_data ''h1'' f = host_data ''h1'' (w_podman demo_world)) (host_specs ''h1'' (\<lambda>(t, n). map_of (mem_specs (w_store demo_world)) (memKey ''h1'' t n))) {})"
proof -
  have "both (\<lambda>f. host_data ''h1'' f = host_data ''h1'' (w_podman demo_world))
      (host_specs ''h1'' (\<lambda>(t, n). map_of (mem_specs (w_store demo_world)) (memKey ''h1'' t n))) {} demo_world"
    by (simp add: both_def host_specs_def)
  then show ?thesis
    using migrate_spares_source [of demo_service "demo_request demo_paired" "\<lambda>f. host_data ''h1'' f = host_data ''h1'' (w_podman demo_world)"
        "host_specs ''h1'' (\<lambda>(t, n). map_of (mem_specs (w_store demo_world)) (memKey ''h1'' t n))" demo_world JobCtx "fst demo_run" "snd demo_run"]
      fake_source.guarded_axioms demo_run_ok(1)
    by (simp add: demo_service_def demo_run_def demo_request_def)
qed

text \<open>C35. A migration that fails starts its source again. For whatever \<open>J\<close> of the hosts a successful start of the source
  establishes (that its pod runs) and the other calls of a rollback keep, when \<^verbatim>\<open>Migrate\<close> returns an error then
  \<open>J\<close> holds, or the failure of the restart was reported as \<^verbatim>\<open>rollback-restore-failed\<close>. The exceptions are the three
  errors the code does not roll back: one before the source is stopped, one of the stop itself, and one of the final
  removal of the source, after the destination was verified.
\<close>

theorem migrate_failure_restarts_source:
  assumes "restartable sv (mr_FromHost req) J (mr_Template req) (mr_Slug req)"
    and "Migrate sv ctx req w = (Inl e, w')"
  shows "migrate_prepare sv ctx req w = (Inl e, w')
    \<or> (\<exists>x w1 e1. migrate_prepare sv ctx req w = (Inr x, w1)
          \<and> svc_Stop sv ctx (mr_FromHost req) (mr_Template req) (mr_Slug req) w1 = (Inl e1, w'))
    \<or> (\<exists>eff t sp w2 stopped w3. migratePostStop sv ctx req eff t sp w2 = (Inr (stopped, None), w3)
          \<and> migrate_commit sv req stopped w3 = (Inl e, w'))
    \<or> J (w_podman w') \<or> (''rollback-restore-failed'', '''') \<in> set (w_steps w')"
  by (rule restartable.Migrate_restarts [OF assms(1) refl refl refl assms(2)])

text \<open>A destination that refuses the pod.\<close>

definition refusing_world :: "(Fake, Memory) World" where
  "refusing_world = demo_world\<lparr>w_podman := (w_podman demo_world)\<lparr>fk_PlayKubeErr := Some (RErr [] ''refused'')\<rparr>\<rparr>"

definition refused_run :: "(rerr + unit) \<times> (Fake, Memory) World" where
  "refused_run = Migrate demo_service JobCtx (demo_request demo_paired) refusing_world"

lemma refused_run_fails: "fst refused_run = Inl (RErr [] ''apply on dest'')"
  by code_simp

theorem migrate_failure_restarts_source_witness:
  "fst refused_run = Inl (RErr [] ''apply on dest'')
   \<and> pod_running ''h1'' ''app-web'' (w_podman (snd refused_run))
   \<and> (''rollback'', '''') \<in> set (w_steps (snd refused_run))
   \<and> (migrate_prepare demo_service JobCtx (demo_request demo_paired) refusing_world = (Inl (RErr [] ''apply on dest''), snd refused_run)
     \<or> (\<exists>x w1 e1. migrate_prepare demo_service JobCtx (demo_request demo_paired) refusing_world = (Inr x, w1)
          \<and> svc_Stop demo_service JobCtx ''h1'' ''app'' ''web'' w1 = (Inl e1, snd refused_run))
     \<or> (\<exists>eff t sp w2 stopped w3. migratePostStop demo_service JobCtx (demo_request demo_paired) eff t sp w2 = (Inr (stopped, None), w3)
          \<and> migrate_commit demo_service (demo_request demo_paired) stopped w3 = (Inl (RErr [] ''apply on dest''), snd refused_run))
     \<or> pod_running ''h1'' (podName ''app'' ''web'') (w_podman (snd refused_run))
     \<or> (''rollback-restore-failed'', '''') \<in> set (w_steps (snd refused_run)))"
proof (intro conjI)
  show "pod_running ''h1'' ''app-web'' (w_podman (snd refused_run))" "(''rollback'', '''') \<in> set (w_steps (snd refused_run))"
    by code_simp+
  show "migrate_prepare demo_service JobCtx (demo_request demo_paired) refusing_world = (Inl (RErr [] ''apply on dest''), snd refused_run)
     \<or> (\<exists>x w1 e1. migrate_prepare demo_service JobCtx (demo_request demo_paired) refusing_world = (Inr x, w1)
          \<and> svc_Stop demo_service JobCtx ''h1'' ''app'' ''web'' w1 = (Inl e1, snd refused_run))
     \<or> (\<exists>eff t sp w2 stopped w3. migratePostStop demo_service JobCtx (demo_request demo_paired) eff t sp w2 = (Inr (stopped, None), w3)
          \<and> migrate_commit demo_service (demo_request demo_paired) stopped w3 = (Inl (RErr [] ''apply on dest''), snd refused_run))
     \<or> pod_running ''h1'' (podName ''app'' ''web'') (w_podman (snd refused_run))
     \<or> (''rollback-restore-failed'', '''') \<in> set (w_steps (snd refused_run))"
    using migrate_failure_restarts_source [of demo_service "demo_request demo_paired" "pod_running ''h1'' (podName ''app'' ''web'')"
        JobCtx refusing_world "RErr [] ''apply on dest''" "snd refused_run"]
      fake_restart.restartable_axioms refused_run_fails
    by (simp add: demo_service_def demo_request_def refused_run_def prod_eq_iff)
qed (rule refused_run_fails)

subsection \<open>The two copies in a reconciliation\<close>

text \<open>C8. The reconciliation of an interrupted migration never gives up both copies. The source host keeps whatever
  the reads, the starts and the changes elsewhere keep, unless the pod of the destination passed its readiness check
  and the destination's spec was read back from the store. The destination host keeps it too, unless a start of the
  source had succeeded before. So neither an unreachable host, an unreadable spec, a cancelled context nor an error in
  between removes the last copy.
\<close>

theorem reconcile_keeps_a_copy:
  assumes "spared sv (mr_FromHost req) J K" and "spared sv (mr_ToHost req) J' K'" and "mr_FromHost req \<noteq> mr_ToHost req"
    and "both J K {} w" and "both J' K' {} w" and "ReconcileMigrate sv ctx req w = (r, w')"
  shows "(both J K {} w' \<or> dest_up sv ctx req (both J K {}) \<and> dest_persisted sv req (both J K {}))
    \<and> (both J' K' {} w' \<or> source_restarted sv req (both J' K' {}))"
  using tripleD [OF spared.Reconcile_spares_source [OF assms(1), of req "{}" ctx] assms(4)]
    tripleD [OF spared.Reconcile_spares_dest [OF assms(2,3), of "{}" ctx] assms(5)] assms(3,6)
  by (cases r) auto

text \<open>A restart found both pods and no spec of the destination.\<close>

definition interrupted_world :: "(Fake, Memory) World" where
  "interrupted_world = demo_world\<lparr>w_podman := AddPod ''h2'' (demo_pod ''app-web'') (w_podman demo_world)\<rparr>"

definition reconciled :: "(rerr + outcome) \<times> (Fake, Memory) World" where
  "reconciled = ReconcileMigrate demo_service JobCtx (demo_request demo_paired) interrupted_world"

lemma reconciled_back:
  "fst reconciled = Inr (True, False, ''rolled back: destination unverified, source restored'')"
  "map fst (fk_pods (w_podman (snd reconciled))) = [(''h1'', ''app-web''), (''h1'', ''db-main'')]"
  by code_simp+

lemma reconciled_dest: "host_data ''h2'' (w_podman (snd reconciled)) \<noteq> host_data ''h2'' (w_podman interrupted_world)"
  by code_simp

theorem reconcile_keeps_a_copy_witness:
  "fst reconciled = Inr (True, False, ''rolled back: destination unverified, source restored'')
   \<and> source_restarted demo_service (demo_request demo_paired)
     (both (\<lambda>f. host_data ''h2'' f = host_data ''h2'' (w_podman interrupted_world)) (host_specs ''h2'' (\<lambda>_. None)) {})"
proof -
  let ?J = "\<lambda>h f. host_data h f = host_data h (w_podman interrupted_world)"
    and ?K = "\<lambda>h. host_specs h (\<lambda>(t, n). map_of (mem_specs (w_store interrupted_world)) (memKey h t n))"
  have none: "host_specs ''h2'' (\<lambda>_. None) = ?K ''h2''"
    by (simp add: host_specs_def interrupted_world_def demo_world_def memKey_def fun_eq_iff)
  have both: "both (?J h) (?K h) {} interrupted_world" for h by (simp add: both_def host_specs_def)
  have spared: "spared demo_service h (?J h) (?K h)" for h
    unfolding demo_service_def by (rule guarded.axioms(1) [OF fake_source.guarded_axioms])
  from reconcile_keeps_a_copy [of demo_service "demo_request demo_paired" "?J ''h1''" "?K ''h1''" "?J ''h2''" "?K ''h2''" interrupted_world
      JobCtx "fst reconciled" "snd reconciled"] spared both
  show ?thesis
    using reconciled_back(1) reconciled_dest unfolding none by (simp add: demo_request_def reconciled_def both_def)
qed

subsection \<open>Two limits\<close>

lemma validated_declared:
  assumes "validate_contract m params secs allow = None" and "has_key params k"
  shows "k \<in> pd_Name ` set (meta_Parameters m)"
proof -
  have "contract_problems m params secs allow = []"
    using assms(1) by (auto simp: validate_contract_def split: list.splits dest: arg_cong [of _ _ set])
  then have "list_all (\<lambda>(k, _). k \<in> pd_Name ` set (meta_Parameters m)) params"
    by (auto simp: contract_problems_def list_all_iff filter_empty_conv)
  with assms(2) show ?thesis by (auto simp: has_key_def list_all_iff dest: map_of_SomeD)
qed

lemma effective_params_keys: "has_key ps k \<Longrightarrow> has_key (effective_params m slug ps) k"
  by (auto simp: effective_params_def pin_slug_def ApplyDefaults_def has_key_def update_conv' dest: fill_defaults_keeps)

lemma lookup_template_get:
  "lookup_template sv h i w = (Inr t, w') \<Longrightarrow> \<exists>s'. st_GetTemplate (sv_store sv) i (w_store w) = (Inr t, s')"
  by (auto simp: lookup_template_def bind_def attempt_def on_store_def ret_def fail_with_def require_def
      split: prod.splits sum.splits if_splits)

lemma Apply_declared:
  assumes "svc_Apply sv ctx h ar opts w = (Inr (), w')"
  obtains t s' where "st_GetTemplate (sv_store sv) (ar_Template ar) (w_store w) = (Inr t, s')"
    and "\<And>k. has_key (ar_Parameters ar) k \<Longrightarrow> k \<in> pd_Name ` set (meta_Parameters (tmpl_Meta t))"
proof -
  obtain plan w1 where "apply_checks sv ctx h ar opts w = (Inr plan, w1)"
    using assms by (auto simp: svc_Apply_def applyLocked_def deferring_def bind_def split: prod.splits sum.splits)
  then obtain t w2 where look: "lookup_template sv h (ar_Template ar) w = (Inr t, w2)"
    and valid: "validate_contract (tmpl_Meta t) (effective_params (tmpl_Meta t) (ar_Slug ar) (ar_Parameters ar)) (ar_Secrets ar)
      (ao_AllowMissingSecrets opts) = None"
    unfolding apply_checks_def Let_def
    by (subst (asm) bind_Inr, auto, subst (asm) bind_Inr) (auto simp: lift_check_def fail_with_def split: option.splits)
  then show thesis
    using that lookup_template_get [OF look] validated_declared [OF valid effective_params_keys] by blast
qed

text \<open>C36. \<^verbatim>\<open>Migrate\<close> sets the parameter \<^verbatim>\<open>slug\<close> whether or not the template declares it, and the apply on the destination
  refuses an undeclared parameter: an instance of a template without that parameter can be applied, but no migration
  of it succeeds.
\<close>

theorem migrate_needs_slug_parameter:
  assumes "guarded sv (mr_FromHost req) J K" and "both J K {} w"
    and "\<And>s t s'. K s \<Longrightarrow> st_GetTemplate (sv_store sv) (mr_Template req) s = (Inr t, s') \<Longrightarrow>
      ''slug'' \<notin> pd_Name ` set (meta_Parameters (tmpl_Meta t))"
    and "Migrate sv ctx req w = (r, w')"
  shows "r \<noteq> Inr ()"
proof
  assume "r = Inr ()"
  then have "dest_verified sv ctx req (both J K {})"
    using guarded.Migrate_spares [OF assms(1) refl assms(2,4)] by simp
  then obtain ar w0 w1 where "both J K {} w0" and ar: "ar_Template ar = mr_Template req" "has_key (ar_Parameters ar) ''slug''"
    and "svc_Apply sv ctx (mr_ToHost req) ar migrate_opts w0 = (Inr (), w1)"
    by (auto simp: dest_verified_def has_key_def)
  with assms(3) show False by (fastforce simp: both_def elim: Apply_declared)
qed

text \<open>The same deployment with a template that declares no parameter: the source is stopped and copied before the refusal.\<close>

definition bare_world :: "(Fake, Memory) World" where
  "bare_world =
     demo_world\<lparr>w_store := (w_store demo_world)\<lparr>mem_templates := map (\<lambda>(i, t). (i, t\<lparr>tmpl_Meta := (tmpl_Meta t)\<lparr>meta_Parameters := []\<rparr>\<rparr>))
       (mem_templates (w_store demo_world))\<rparr>\<rparr>"

lemma bare_templates:
  assumes "mem_templates m = mem_templates (w_store bare_world)" and "st_GetTemplate (sv_store demo_service) ''app'' m = (Inr t, m')"
  shows "''slug'' \<notin> pd_Name ` set (meta_Parameters (tmpl_Meta t))"
  using assms by (auto simp: demo_service_def fake_service_def memory_store_def store_call_def mem_GetTemplate_def bare_world_def
    demo_world_def demo_template_def split: prod.splits)

theorem migrate_needs_slug_parameter_witness:
  "fst (Migrate demo_service JobCtx (demo_request []) bare_world) \<noteq> Inr ()
   \<and> (''stop-source'', ''h1'') \<in> set (w_steps (snd (Migrate demo_service JobCtx (demo_request []) bare_world)))"
proof
  show "fst (Migrate demo_service JobCtx (demo_request []) bare_world) \<noteq> Inr ()"
    using migrate_needs_slug_parameter [of demo_service "demo_request []" "\<lambda>_. True" "\<lambda>m. mem_templates m = mem_templates (w_store bare_world)"
        bare_world JobCtx "fst (Migrate demo_service JobCtx (demo_request []) bare_world)" "snd (Migrate demo_service JobCtx (demo_request []) bare_world)"]
      fake_templates.guarded_axioms bare_templates
    by (simp add: demo_service_def demo_request_def both_def)
  show "(''stop-source'', ''h1'') \<in> set (w_steps (snd (Migrate demo_service JobCtx (demo_request []) bare_world)))"
    by code_simp
qed


end
