(* ===== verification/Apply_Safety.thy ===== *)
theory Apply_Safety
  imports Migrate_Safety
begin

text \<open>
  What an apply and the copy of a volume guarantee: a refused apply has changed nothing, the check on DNS names finds
  exactly the names two instances share, and a verified copy has the files of its source.
\<close>

subsection \<open>A refused apply\<close>

text \<open>C38. An apply that its checks refuse has only read: it returns the error of the check, and whatever \<open>J\<close> of the hosts and
  \<open>K\<close> of the store the reads keep still holds, so no secret, network, image, pod or spec was touched.
\<close>

theorem apply_refusal_harmless:
  assumes "reading sv J K" and "both J K {} w" and "apply_checks sv ctx h req opts w = (Inl e, w1)"
  shows "\<exists>w'. svc_Apply sv ctx h req opts w = (Inl e, w') \<and> both J K {} w'"
proof -
  have "both J K {} w1" by (rule keepsD [OF reading.keeps_checks [OF assms(1)] assms(2,3)])
  then show ?thesis
    using reading.keeps_invalidate [OF assms(1)] assms(3) by (simp add: svc_Apply_def applyLocked_def deferring_def bind_def)
qed

text \<open>An apply of an instance that exists, without the option to replace it.\<close>

definition demo_apply :: ApplyRequest where
  "demo_apply = \<lparr>ar_Template = ''app'', ar_Slug = ''web'', ar_Parameters = [], ar_Secrets = [], ar_Domains = [], ar_Networks = None\<rparr>"

lemma demo_apply_refused:
  "fst (apply_checks demo_service JobCtx ''h1'' demo_apply migrate_opts demo_world) = Inl (RErr [InstanceExists] ''instance already exists'')"
  by code_simp

theorem apply_refusal_harmless_witness:
  "\<exists>w'. svc_Apply demo_service JobCtx ''h1'' demo_apply migrate_opts demo_world = (Inl (RErr [InstanceExists] ''instance already exists''), w')
    \<and> both (\<lambda>f. f\<lparr>fk_now := 0\<rparr> = (w_podman demo_world)\<lparr>fk_now := 0\<rparr>) (\<lambda>m. m = w_store demo_world) {} w'"
proof (rule apply_refusal_harmless)
  show "reading demo_service (\<lambda>f. f\<lparr>fk_now := 0\<rparr> = (w_podman demo_world)\<lparr>fk_now := 0\<rparr>) (\<lambda>m. m = w_store demo_world)"
    unfolding demo_service_def by (rule fake_reads.reading_axioms)
  show "apply_checks demo_service JobCtx ''h1'' demo_apply migrate_opts demo_world
      = (Inl (RErr [InstanceExists] ''instance already exists''), snd (apply_checks demo_service JobCtx ''h1'' demo_apply migrate_opts demo_world))"
    using demo_apply_refused by (simp add: prod_eq_iff)
qed (simp add: both_def)

subsection \<open>DNS names on shared networks\<close>

text \<open>The names an instance answers to on a network.\<close>

definition answers_to :: "netClaim \<Rightarrow> string \<Rightarrow> string set" where
  "answers_to c net = (case claimedNames c net of None \<Rightarrow> {} | Some ns \<Rightarrow> fst ` set ns)"

lemma first_kinds_names: "fst ` set (first_kinds mine) = fst ` set mine"
proof -
  have "fst ` set (fold (\<lambda>(n, k) claimed. if n \<in> fst ` set claimed then claimed else claimed @ [(n, k)]) mine acc)
      = fst ` set acc \<union> fst ` set mine" for acc
    by (induction mine arbitrary: acc) (simp_all add: insert_absorb split_beta)
  then show ?thesis by (simp add: first_kinds_def)
qed

lemma first_clash_None: "first_clash claimed theirs = None \<longleftrightarrow> fst ` set claimed \<inter> fst ` set theirs = {}"
  by (induction claimed theirs rule: first_clash.induct) (auto simp flip: dom_map_of_conv_image_fst split: option.splits)

lemma clash_with_peers_None:
  "clash_with_peers net claimed peers = None \<longleftrightarrow> (\<forall>p \<in> set peers. fst ` set claimed \<inter> answers_to p net = {})"
proof (induction peers)
  case (Cons p peers)
  show ?case
  proof (cases "claimedNames p net")
    case (Some theirs)
    then show ?thesis using Cons first_clash_None [of claimed theirs]
      by (cases "first_clash claimed theirs") (simp_all add: answers_to_def)
  qed (simp add: Cons answers_to_def)
qed simp

lemma conflict_on_None:
  "conflict_on subject peers joins = None \<longleftrightarrow>
     (\<forall>j \<in> set joins. \<forall>p \<in> set peers. answers_to subject (net_Name j) \<inter> answers_to p (net_Name j) = {})"
proof (induction joins)
  case (Cons j joins)
  let ?mine = "first_kinds (case claimedNames subject (net_Name j) of None \<Rightarrow> [] | Some mine \<Rightarrow> mine)"
  have "fst ` set ?mine = answers_to subject (net_Name j)"
    by (simp add: first_kinds_names answers_to_def split: option.split)
  then have "clash_with_peers (net_Name j) ?mine peers = None
      \<longleftrightarrow> (\<forall>p \<in> set peers. answers_to subject (net_Name j) \<inter> answers_to p (net_Name j) = {})"
    by (simp add: clash_with_peers_None)
  then show ?case using Cons by (cases "clash_with_peers (net_Name j) ?mine peers") auto
qed simp

lemma answers_to_joined: "answers_to c net \<noteq> {} \<Longrightarrow> \<exists>j \<in> set (nc_joins c). net_Name j = net"
  by (auto simp: answers_to_def claimedNames_def find_Some_iff split: option.splits)


definition demo_claim :: "string \<Rightarrow> string list \<Rightarrow> netClaim" where
  "demo_claim slug aliases =
     \<lparr>nc_template = ''app'', nc_slug = slug, nc_joins = [\<lparr>net_Name = ''shared'', net_Aliases = aliases\<rparr>], nc_containers = [], nc_ingressNet = ''''\<rparr>"


subsection \<open>Verified copies\<close>

lemma firstDiff_None: "firstDiff m other = None \<longleftrightarrow> map_of m = map_of other"
  by (auto simp: firstDiff_def find_None_iff fun_eq_iff) (metis Un_iff domIff dom_map_of_conv_image_fst)

definition copy_verified :: "('p, 's) Service \<Rightarrow> ctx \<Rightarrow> MigrateRequest \<Rightarrow> string \<Rightarrow> bool" where
  "copy_verified sv ctx req name \<longleftrightarrow>
     (\<exists>wa wb wc wd src dst. CopyVolume sv ctx (mr_FromHost req) (mr_ToHost req) name wa = (Inr src, wb)
       \<and> w_podman wc = w_podman wb \<and> volumeManifest sv ctx (mr_ToHost req) name wc = (Inr dst, wd) \<and> map_of src = map_of dst)"

lemma move_volume_verifies:
  assumes "sv_verifyVolumes sv" and "move_volume sv ctx req v w = (Inr u, w')"
  shows "copy_verified sv ctx req (pv_Name v)"
proof -
  obtain wa wb wd src dst where "CopyVolume sv ctx (mr_FromHost req) (mr_ToHost req) (pv_Name v) wa = (Inr src, wb)"
    and "volumeManifest sv ctx (mr_ToHost req) (pv_Name v) (wb\<lparr>w_steps := w_steps wb @ [(''copy-volume-done'', pv_Name v)]\<rparr>) = (Inr dst, wd)"
    and "firstDiff src dst = None"
    using assms by (auto simp: move_volume_def bind_Inr wrapping_Inr report_def require_def ret_def fail_with_def split: if_splits)
  then show ?thesis unfolding copy_verified_def firstDiff_None
    by (intro exI [of _ wa] exI [of _ wb] exI [of _ "wb\<lparr>w_steps := w_steps wb @ [(''copy-volume-done'', pv_Name v)]\<rparr>"]
        exI [of _ wd] exI [of _ src] exI [of _ dst]) simp
qed

lemma for_each_all:
  assumes "for_each xs f w = (Inr u, w')" and "\<And>x w w'. f x w = (Inr (), w') \<Longrightarrow> P x"
  shows "\<forall>x \<in> set xs. P x"
  using assms(1) by (induction xs arbitrary: w) (auto simp: bind_Inr intro: assms(2))


definition demo_transfer :: "(rerr + unit) \<times> (Fake, Memory) World" where
  "demo_transfer = migrate_transfer demo_service JobCtx (demo_request []) [(''slug'', JString ''web'')] demo_spec demo_world"

lemma demo_transfer_ok: "fst demo_transfer = Inr ()"
  by code_simp

lemma demo_volumes:
  "(case fst (InstanceVolumes demo_service JobCtx ''h1'' ''app'' ''web'' demo_world) of Inl _ \<Rightarrow> [] | Inr vols \<Rightarrow> map pv_Name vols) = [''app-web-data'']"
  by code_simp


end
