(* ===== verification/Spec2Isabelle.thy ===== *)
theory Spec2Isabelle
  imports Job_Cancellation Job_Pools Registry_Cache Registry_Fleet Registry_Scheduler Host_Prune Store_Data
    Backup_Store Spec_Store Apply_Safety
begin

text \<open>
  A verification library for podman-api, a daemon that deploys templated pods on a fleet of podman hosts, keeps their
  desired state in a store, moves them between hosts by background jobs and prunes hosts and the image registry.

  \<^bold>\<open>Conventions.\<close> A Go function is a HOL function of the same name where HOL allows it, with a prefix for the receiver
  where two types have a method of one name (\<open>mem_\<close>, \<open>sql_\<close>, \<open>http_\<close>, \<open>fake_\<close>, \<open>svc_\<close>). A struct is a record, an
  interface a record of operations, and the contract of an interface a locale that is interpreted on the model of each
  implementation. An error is a value; a call to the outside world is a function on an arbitrary state
  (\<open>('w, 'a) call\<close> of \<open>Go_Errors\<close>), so each call may fail or change the world in any way the hypotheses allow. A map
  that is iterated is an association list. Time, random bytes and the verdict of the database driver on each
  statement are arguments. Libraries outside the repository (JSON, YAML, AES-GCM, tar, SHA-256, the template engine,
  the HTTP transport, the container runtime) are parameters.

  \<^bold>\<open>Prelude.\<close> \<open>Go_Prelude\<close> (time, strings, tables, sorting), \<open>Go_Regexp\<close> (regular expressions by derivatives),
  \<open>Go_Errors\<close> (sentinels, calls), \<open>Call_Monad\<close> (sequencing of calls as Go writes it, Hoare triples \<open>triple\<close> and
  invariants \<open>keeps\<close> with the rule collection \<open>keeps_intros\<close>).

  \<^bold>\<open>Store\<close> (\<^verbatim>\<open>internal/store\<close>). \<open>Store_Data\<close> has the rows. \<open>Job_Store\<close> is the job contract (locale \<open>job_store\<close>),
  \<open>Memory_Jobs\<close> and \<open>Sqlite_Jobs\<close> the two backends. \<open>Backup_Store\<close> has the backup records of both and an abstract store
  that both refine. \<open>Spec_Store\<close> has specs, host secrets, templates and the host rename of both, sealing included:
  a stored spec is read back, and a rename is atomic.

  \<^bold>\<open>Jobs\<close> (\<^verbatim>\<open>internal/jobs\<close>, \<^verbatim>\<open>internal/api/jobs.go\<close>). \<open>Job_Runner\<close> has the operations of the runner, \<open>Job_Api\<close> the
  cancel, list and get handlers, \<open>Job_System\<close> their interleaving as a step relation with restarts. \<open>Job_Safety\<close>,
  \<open>Job_Cancellation\<close> and \<open>Job_Pools\<close> show exclusive ownership, finality of terminal states, boot recovery, that an
  accepted cancel is honoured, and the bounds and fairness of the worker pools.

  \<^bold>\<open>Image registry\<close> (\<^verbatim>\<open>internal/imgregistry\<close>, \<^verbatim>\<open>internal/registryprune\<close>). \<open>Image_Names\<close>, \<open>Registry_Client\<close> and
  \<open>Registry_Cache\<close> are names and clients (locale \<open>registry_client\<close>); \<open>Registry_Refs\<close>, \<open>Registry_InUse\<close>,
  \<open>Registry_Policy\<close>, \<open>Registry_Prune\<close> and \<open>Blob_GC\<close> the prune run; \<open>Registry_Safety\<close> and \<open>Registry_Fleet\<close> show that it
  deletes only what it may and never what the fleet uses; \<open>Registry_Scheduler\<close> that runs never overlap.

  \<^bold>\<open>Host prune\<close> (\<^verbatim>\<open>internal/prune\<close>). \<open>Host_Prune\<close>: policy, handler, scheduler.

  \<^bold>\<open>Instance service\<close> (\<^verbatim>\<open>internal/instance\<close>, \<^verbatim>\<open>internal/render\<close>, \<^verbatim>\<open>internal/podman\<close>, \<^verbatim>\<open>internal/migrate\<close>).
  \<open>Template_Meta\<close> is the template contract. \<open>Service_World\<close> has the client and store interfaces, the service record and
  the world: hosts, store, reported steps. \<open>Instance_Networks\<close>, \<open>Instance_Apply\<close>, \<open>Instance_Lifecycle\<close>,
  \<open>Instance_Migrate\<close> and \<open>Migrate_Reconcile\<close> are the operations in the order of the code. \<open>Instance_Guard\<close> holds the
  contracts \<open>reading\<close>, \<open>spared\<close>, \<open>guarded\<close> and \<open>restartable\<close>: an invariant that the reads keep, and one of a host
  that all but the destructive calls on that host keep; under them it proves what each operation can touch. \<open>Fake_Podman\<close> is the repository's in-memory client,
  \<open>Fake_Service\<close> the service on it and the in-memory store, which meets the contracts, \<open>Migrate_Safety\<close> the
  properties of migration and reconciliation with runs on it, and \<open>Apply_Safety\<close> those of a refused apply, the check
  on DNS names and the verified copy of volumes.

  \<^bold>\<open>Bounds and fuel.\<close> The readiness loop has fuel \<open>sv_fuel\<close>; running out of it is a failure of the wait, and no
  property rests on it: a verified destination means that the wait returned within its fuel. Pagination of the registry
  is bounded by the code itself. Integers are unbounded except the rotation counter, which wraps at 64 bits.

  \<^bold>\<open>Not modelled.\<close> The locks of the service (each operation runs alone; the job runner and the schedulers do
  interleave), log lines, and details of reported steps that are error texts or durations. Rename of an instance,
  backups and point-in-time restore, inventory and statistics, the drift repair at boot, the ingress controller, the
  evacuation handler apart from its child jobs, the HTTP API apart from jobs, the user interface, authentication,
  metrics and wiring. The client over SSH is I/O behind the modelled interface, and the schema migration is SQL the
  model's tables start from.
\<close>

end
